(* ===== verification/Prelude.thy ===== *)
theory Prelude
  imports Complex_Main "HOL-Library.Multiset" "HOL-Library.Char_ord" "HOL-Library.List_Lexorder"
    "HOL-Library.Sublist" "HOL-Library.AList" "HOL-Library.Code_Target_Nat"
begin

text \<open>
  The part of JavaScript and of SQL that the components share: strings and their methods,
  the stable sort of an array, insertion-ordered maps, JSON values, safe integers, dates,
  functions that may throw, and two interfaces that recur in the server, an order given by a
  comparison function and a table whose insert is a claim.

  A string is a list of characters, each one UTF-16 code unit below 256 (the Latin-1 range).
  A number that the code keeps integral is an \<open>int\<close>; the operations that the code guards with
  \<open>Number.isSafeInteger\<close> carry that guard here. A date is its time value in milliseconds.
\<close>

named_theorems js_simps \<open>evaluation rules of the JavaScript primitives\<close>
named_theorems js_str_simps \<open>facts on trimming and lower-casing\<close>

section \<open>Functions that may throw\<close>

type_synonym ('e, 'a) result = "'e + 'a"

fun bind_result :: "'e + 'a \<Rightarrow> ('a \<Rightarrow> 'e + 'b) \<Rightarrow> 'e + 'b" where
  "bind_result (Inl e) f = Inl e"
| "bind_result (Inr x) f = f x"

text \<open>\<open>Array.map\<close> with a callback that may throw: the first exception ends the whole map.\<close>

fun map_result :: "('a \<Rightarrow> 'e + 'b) \<Rightarrow> 'a list \<Rightarrow> 'e + 'b list" where
  "map_result f [] = Inr []"
| "map_result f (x # xs) =
     (case f x of Inl e \<Rightarrow> Inl e
      | Inr y \<Rightarrow> (case map_result f xs of Inl e \<Rightarrow> Inl e | Inr ys \<Rightarrow> Inr (y # ys)))"

text \<open>A \<open>for\<close> loop over an array that updates a state and may throw.\<close>

fun fold_result :: "('a \<Rightarrow> 's \<Rightarrow> 'e + 's) \<Rightarrow> 'a list \<Rightarrow> 's \<Rightarrow> 'e + 's" where
  "fold_result f [] s = Inr s"
| "fold_result f (x # xs) s = (case f x s of Inl e \<Rightarrow> Inl e | Inr s' \<Rightarrow> fold_result f xs s')"

lemma bind_result_Inr_iff [simp]:
  "bind_result r f = Inr y \<longleftrightarrow> (\<exists>x. r = Inr x \<and> f x = Inr y)"
  by (cases r) auto

lemma map_result_Inr_length: "map_result f xs = Inr ys \<Longrightarrow> length ys = length xs"
  by (induction xs arbitrary: ys) (auto split: sum.splits)

lemma map_result_Inr_iff:
  "map_result f xs = Inr ys \<longleftrightarrow> list_all2 (\<lambda>x y. f x = Inr y) xs ys"
proof (induction xs arbitrary: ys)
  case (Cons x xs)
  then show ?case
    by (cases ys; cases "f x"; cases "map_result f xs") auto
qed auto

lemma fold_result_append:
  "fold_result f (xs @ ys) s =
     (case fold_result f xs s of Inl e \<Rightarrow> Inl e | Inr s' \<Rightarrow> fold_result f ys s')"
  by (induction xs arbitrary: s) (auto split: sum.splits)

text \<open>\<open>Array.filter\<close> with a callback that may throw.\<close>

fun filter_result :: "('a \<Rightarrow> 'e + bool) \<Rightarrow> 'a list \<Rightarrow> 'e + 'a list" where
  "filter_result f [] = Inr []"
| "filter_result f (x # xs) =
     (case f x of Inl e \<Rightarrow> Inl e
      | Inr b \<Rightarrow>
          (case filter_result f xs of Inl e \<Rightarrow> Inl e | Inr ys \<Rightarrow> Inr (if b then x # ys else ys)))"

lemma filter_result_Inr_iff:
  "filter_result f xs = Inr ys \<longleftrightarrow>
     (\<forall>x\<in>set xs. \<exists>b. f x = Inr b) \<and> ys = filter (\<lambda>x. f x = Inr True) xs"
proof (induction xs arbitrary: ys)
  case (Cons x xs)
  show ?case
  proof (cases "f x")
    case (Inr b)
    show ?thesis
    proof (cases "filter_result f xs")
      case (Inl e)
      then have "\<not> (\<forall>x\<in>set xs. \<exists>b. f x = Inr b)"
        using Cons.IH [of "filter (\<lambda>x. f x = Inr True) xs"] by auto
      with Inl Inr show ?thesis by auto
    next
      case (Inr zs)
      then show ?thesis using Cons.IH [of zs] \<open>f x = Inr b\<close> by auto
    qed
  qed simp
qed auto

lemma filter_result_skip:
  "(\<And>x. x \<in> set xs \<Longrightarrow> \<not> P x \<Longrightarrow> f x = Inr False) \<Longrightarrow> filter_result f (filter P xs) = filter_result f xs"
proof (induction xs)
  case (Cons x xs)
  then have "filter_result f (filter P xs) = filter_result f xs" by simp
  then show ?case using Cons.prems by (cases "P x") (auto split: sum.splits)
qed simp

text \<open>The invariant rule of such a loop.\<close>

lemma fold_result_inv:
  assumes "fold_result f xs s = Inr s'" and "I s"
    and "\<And>x s s'. x \<in> set xs \<Longrightarrow> I s \<Longrightarrow> f x s = Inr s' \<Longrightarrow> I s'"
  shows "I s'"
  using assms
proof (induction xs arbitrary: s)
  case Nil
  then show ?case by simp
next
  case (Cons x xs)
  from Cons.prems(1) obtain t where t: "f x s = Inr t" "fold_result f xs t = Inr s'"
    by (auto split: sum.splits)
  have "I t" using Cons.prems t(1) by auto
  with t(2) Cons.prems(3) show ?case by (intro Cons.IH) auto
qed

lemma set_map_filter_iff: "x \<in> set (List.map_filter f xs) \<longleftrightarrow> (\<exists>c\<in>set xs. f c = Some x)"
  by (force simp: map_filter_def)

lemma map_filter_if: "List.map_filter (\<lambda>c. if P c then f c else None) xs = List.map_filter f (filter P xs)"
  by (induction xs) (simp_all add: map_filter_simps split: option.split)

section \<open>Strings\<close>

definition js_space :: "char \<Rightarrow> bool" where
  "js_space c = (let n = of_char c :: nat in (9 \<le> n \<and> n \<le> 13) \<or> n = 32 \<or> n = 160)"

definition js_trim :: "string \<Rightarrow> string" where
  "js_trim s = rev (dropWhile js_space (rev (dropWhile js_space s)))"

definition js_lower_char :: "char \<Rightarrow> char" where
  "js_lower_char c =
     (let n = of_char c :: nat
      in if (65 \<le> n \<and> n \<le> 90) \<or> (192 \<le> n \<and> n \<le> 222 \<and> n \<noteq> 215) then char_of (n + 32) else c)"

definition js_lower :: "string \<Rightarrow> string" where
  "js_lower s = map js_lower_char s"

text \<open>\<open>String.includes\<close>.\<close>

fun js_includes :: "string \<Rightarrow> string \<Rightarrow> bool" where
  "js_includes [] t = (t = [])"
| "js_includes (c # cs) t = (prefix t (c # cs) \<or> js_includes cs t)"

text \<open>\<open>Array.join\<close>.\<close>

fun js_join :: "string \<Rightarrow> string list \<Rightarrow> string" where
  "js_join sep [] = []"
| "js_join sep [x] = x"
| "js_join sep (x # y # xs) = x @ sep @ js_join sep (y # xs)"

text \<open>\<open>String(n)\<close> of a non-negative integer, and \<open>padStart\<close>.\<close>

fun digits_rev :: "nat \<Rightarrow> string" where
  "digits_rev n =
     (let d = char_of (48 + n mod 10)
      in if n < 10 then [d] else d # digits_rev (n div 10))"

declare digits_rev.simps [simp del]

definition js_nat_string :: "nat \<Rightarrow> string" where
  "js_nat_string n = rev (digits_rev n)"

definition js_int_string :: "int \<Rightarrow> string" where
  "js_int_string i = (if i < 0 then ''-'' @ js_nat_string (nat (- i)) else js_nat_string (nat i))"

definition pad_start :: "nat \<Rightarrow> char \<Rightarrow> string \<Rightarrow> string" where
  "pad_start k c s = replicate (k - length s) c @ s"

lemma js_includes_iff: "js_includes s t \<longleftrightarrow> sublist t s"
  by (induction s) (auto simp: sublist_Cons_right)

lemma dropWhile_id: "(xs = [] \<or> \<not> P (hd xs)) \<Longrightarrow> dropWhile P xs = xs"
  by (cases xs) auto

lemma js_trim_hd: "js_trim s = [] \<or> \<not> js_space (hd (js_trim s))"
proof -
  let ?d = "dropWhile js_space s"
  let ?t = "js_trim s"
  have "suffix (rev ?t) (rev ?d)"
    by (simp add: js_trim_def suffix_dropWhile)
  then have p: "prefix ?t ?d" by (simp add: suffix_to_prefix)
  show ?thesis
  proof (cases "?t = []")
    case False
    with p have "hd ?t = hd ?d \<and> ?d \<noteq> []"
      by (auto simp only: prefix_def hd_append append_is_Nil_conv if_False)
    then show ?thesis using hd_dropWhile [of js_space s] by metis
  qed simp
qed

lemma js_trim_idem [simp, js_str_simps]: "js_trim (js_trim s) = js_trim s"
proof -
  let ?t = "js_trim s"
  have 1: "dropWhile js_space ?t = ?t"
    using js_trim_hd by (rule dropWhile_id)
  have "rev ?t = [] \<or> \<not> js_space (hd (rev ?t))"
    using hd_dropWhile [of js_space "rev (dropWhile js_space s)"]
    by (auto simp: js_trim_def)
  then have "dropWhile js_space (rev ?t) = rev ?t" by (rule dropWhile_id)
  with 1 show ?thesis unfolding js_trim_def [of "js_trim s"] by simp
qed

lemma js_trim_Nil [simp]: "js_trim [] = []"
  by (simp add: js_trim_def)

lemma of_char_less_256: "(of_char c :: nat) < 256"
  by (metis nat_of_char_less_256)

lemma js_lower_char_idem [simp, js_str_simps]: "js_lower_char (js_lower_char c) = js_lower_char c"
proof -
  have "(of_char c :: nat) < 256" by (rule of_char_less_256)
  then show ?thesis by (auto simp: js_lower_char_def Let_def)
qed

lemma js_space_lower [simp, js_str_simps]: "js_space (js_lower_char c) = js_space c"
proof -
  have "(of_char c :: nat) < 256" by (rule of_char_less_256)
  then show ?thesis by (auto simp: js_lower_char_def js_space_def Let_def)
qed

lemma js_lower_idem [simp, js_str_simps]: "js_lower (js_lower s) = js_lower s"
  by (simp add: js_lower_def)

lemma dropWhile_map_inv:
  "(\<And>c. P (f c) = P c) \<Longrightarrow> dropWhile P (map f xs) = map f (dropWhile P xs)"
  by (induction xs) auto

lemma js_trim_lower [js_str_simps]: "js_trim (js_lower s) = js_lower (js_trim s)"
  by (simp add: js_trim_def js_lower_def dropWhile_map_inv rev_map)

section \<open>Sorting\<close>

text \<open>
  \<open>Array.prototype.sort\<close> with a comparison function is a stable sort (ES2019 and later). For a
  consistent comparison the stable sorted permutation is unique, so the model is an insertion
  sort. The comparison returns a number, of which only the sign is used.
\<close>

fun js_insert :: "('a \<Rightarrow> 'a \<Rightarrow> int) \<Rightarrow> 'a \<Rightarrow> 'a list \<Rightarrow> 'a list" where
  "js_insert cmp x [] = [x]"
| "js_insert cmp x (y # ys) = (if cmp x y \<le> 0 then x # y # ys else y # js_insert cmp x ys)"

definition js_sort :: "('a \<Rightarrow> 'a \<Rightarrow> int) \<Rightarrow> 'a list \<Rightarrow> 'a list" where
  "js_sort cmp xs = foldr (js_insert cmp) xs []"

lemma js_sort_simps [simp]:
  "js_sort cmp [] = []" "js_sort cmp (x # xs) = js_insert cmp x (js_sort cmp xs)"
  by (simp_all add: js_sort_def)

lemma mset_js_insert [simp]: "mset (js_insert cmp x xs) = add_mset x (mset xs)"
  by (induction xs) auto

lemma mset_js_sort [simp]: "mset (js_sort cmp xs) = mset xs"
  by (induction xs) auto

lemma set_js_sort [simp]: "set (js_sort cmp xs) = set xs"
  by (metis mset_js_sort set_mset_mset)

lemma set_js_insert [simp]: "set (js_insert cmp x xs) = insert x (set xs)"
  by (metis mset_js_insert set_mset_mset set_mset_add_mset_insert)

lemma length_js_sort [simp]: "length (js_sort cmp xs) = length xs"
  by (metis mset_js_sort size_mset)

lemma distinct_js_sort [simp]: "distinct (js_sort cmp xs) = distinct xs"
  by (metis mset_js_sort mset_eq_imp_distinct_iff)

text \<open>Chaining of comparisons, \<open>c1 || c2\<close>: the second decides where the first is 0.\<close>

definition cmp_then :: "int \<Rightarrow> int \<Rightarrow> int" where
  "cmp_then a b = (if a \<noteq> 0 then a else b)"

text \<open>The contract of a comparison function: it is the sign of a total preorder.\<close>

locale js_order =
  fixes cmp :: "'a \<Rightarrow> 'a \<Rightarrow> int"
  assumes cmp_sym: "cmp x y \<le> 0 \<longleftrightarrow> 0 \<le> cmp y x"
    and cmp_trans: "cmp x y \<le> 0 \<Longrightarrow> cmp y z \<le> 0 \<Longrightarrow> cmp x z \<le> 0"
begin

lemma cmp_refl [simp]: "cmp x x = 0"
proof -
  have "cmp x x \<le> 0 \<or> 0 \<le> cmp x x" by linarith
  then show ?thesis using cmp_sym [of x x] by auto
qed

lemma cmp_total: "cmp x y \<le> 0 \<or> cmp y x \<le> 0"
  using cmp_sym [of x y] by linarith

lemma sorted_insert:
  "sorted_wrt (\<lambda>a b. cmp a b \<le> 0) xs \<Longrightarrow> sorted_wrt (\<lambda>a b. cmp a b \<le> 0) (js_insert cmp x xs)"
proof (induction xs)
  case (Cons y ys)
  then show ?case using cmp_total [of x y] by (auto intro: cmp_trans)
qed simp

lemma sorted_js_sort: "sorted_wrt (\<lambda>a b. cmp a b \<le> 0) (js_sort cmp xs)"
  by (induction xs) (auto intro: sorted_insert)

text \<open>The head of the sorted array is a least element.\<close>

lemma js_sort_head_least:
  assumes "js_sort cmp xs = y # ys" and "z \<in> set xs"
  shows "cmp y z \<le> 0"
proof -
  have "z = y \<or> z \<in> set ys"
    using assms set_js_sort [of cmp xs] by (metis set_ConsD)
  then show ?thesis using sorted_js_sort [of xs] assms(1) by auto
qed

text \<open>Stability: elements that compare equal keep their order.\<close>

lemma insert_filter:
  "filter (\<lambda>y. cmp z y = 0) (js_insert cmp x xs) =
     (if cmp z x = 0 then x # filter (\<lambda>y. cmp z y = 0) xs else filter (\<lambda>y. cmp z y = 0) xs)"
proof (induction xs)
  case (Cons y ys)
  have "cmp x y \<le> 0" if "cmp z x = 0" "cmp z y = 0"
    using that cmp_sym [of x z] cmp_trans [of x z y] by simp
  with Cons show ?case by auto
qed simp

text \<open>Up to ties, the head of the sorted array does not depend on the order of the array.\<close>

lemma js_sort_head_perm:
  assumes "mset xs = mset ys" and "\<And>x y. x \<in> set xs \<Longrightarrow> y \<in> set xs \<Longrightarrow> cmp x y = 0 \<Longrightarrow> f x = f y"
  shows "map_option f (case js_sort cmp xs of [] \<Rightarrow> None | z # _ \<Rightarrow> Some z) =
    map_option f (case js_sort cmp ys of [] \<Rightarrow> None | z # _ \<Rightarrow> Some z)"
proof (cases "js_sort cmp xs")
  case Nil
  then have "xs = []" by (metis set_empty set_js_sort)
  then have "ys = []" using assms(1) by simp
  with \<open>xs = []\<close> show ?thesis by simp
next
  case (Cons a as)
  have s: "set ys = set xs" using assms(1) by (metis set_mset_mset)
  have sa: "set (js_sort cmp xs) = set xs" "set (js_sort cmp ys) = set xs" using s by simp_all
  then have "js_sort cmp ys \<noteq> []" using Cons by (metis list.discI set_empty)
  then obtain b bs where b: "js_sort cmp ys = b # bs" by (cases "js_sort cmp ys") simp_all
  have ab: "a \<in> set xs" "b \<in> set xs"
    using sa unfolding Cons b by (metis list.set_intros(1))+
  have "cmp a b \<le> 0" by (rule js_sort_head_least [OF Cons ab(2)])
  moreover have "cmp b a \<le> 0" using js_sort_head_least [OF b, of a] ab(1) s by blast
  ultimately have "cmp a b = 0" using cmp_sym [of b a] by linarith
  then have "f a = f b" using assms(2) ab by blast
  then show ?thesis by (simp only: Cons b list.case option.map)
qed

text \<open>Where no two elements tie, the sorted array does not depend on the order of the array at all.\<close>

lemma sorted_unique:
  assumes "sorted_wrt (\<lambda>a b. cmp a b \<le> 0) xs" and "sorted_wrt (\<lambda>a b. cmp a b \<le> 0) ys" and "mset xs = mset ys"
    and "\<And>x y. x \<in> set xs \<Longrightarrow> y \<in> set xs \<Longrightarrow> cmp x y = 0 \<Longrightarrow> x = y"
  shows "xs = ys"
  using assms
proof (induction xs arbitrary: ys)
  case (Cons x xs)
  then obtain y zs where ys: "ys = y # zs" by (cases ys) auto
  have eq: "set ys = set (x # xs)" using Cons.prems(3) by (metis set_mset_mset)
  have "y \<in> set (x # xs)" using eq ys by auto
  then have xy: "x = y \<or> cmp x y \<le> 0" using Cons.prems(1) by auto
  have "x \<in> set ys" using eq by auto
  then have yx: "x = y \<or> cmp y x \<le> 0" using Cons.prems(2) ys by auto
  have "x = y"
  proof (cases "x = y")
    case False
    then have "cmp x y = 0" using xy yx cmp_sym [of y x] by linarith
    then show ?thesis using Cons.prems(4) \<open>y \<in> set (x # xs)\<close> by simp
  qed
  with Cons ys show ?case by simp
qed simp

lemma js_sort_perm:
  assumes "mset xs = mset ys" and "\<And>x y. x \<in> set xs \<Longrightarrow> y \<in> set xs \<Longrightarrow> cmp x y = 0 \<Longrightarrow> x = y"
  shows "js_sort cmp xs = js_sort cmp ys"
  by (rule sorted_unique) (use assms sorted_js_sort in simp_all)

lemma js_sort_stable: "filter (\<lambda>y. cmp z y = 0) (js_sort cmp xs) = filter (\<lambda>y. cmp z y = 0) xs"
  by (induction xs) (simp_all add: insert_filter)

end

text \<open>
  \<open>a - b || c\<close>, the usual shape of a comparison in the code: an integer key first, in either
  direction, then another comparison.
\<close>

lemma js_order_int_key: "js_order c \<Longrightarrow> js_order (\<lambda>x y. cmp_then (f x - f y :: int) (c x y))"
  unfolding js_order_def cmp_then_def by (smt (verit))

lemma js_order_then:
  assumes "js_order c" and "js_order d"
  shows "js_order (\<lambda>x y. cmp_then (c x y) (d x y))"
proof
  fix x y z
  note cs = js_order.cmp_sym [OF assms(1)] and ds = js_order.cmp_sym [OF assms(2)]
  show "cmp_then (c x y) (d x y) \<le> 0 \<longleftrightarrow> 0 \<le> cmp_then (c y x) (d y x)"
    using cs [of x y] cs [of y x] ds [of x y] by (auto simp: cmp_then_def)
  assume a: "cmp_then (c x y) (d x y) \<le> 0" "cmp_then (c y z) (d y z) \<le> 0"
  note ct = js_order.cmp_trans [OF assms(1)] and dt = js_order.cmp_trans [OF assms(2)]
  have "c x y \<le> 0" "c y z \<le> 0" using a by (auto simp: cmp_then_def split: if_splits)
  then have xz: "c x z \<le> 0" by (rule ct)
  show "cmp_then (c x z) (d x z) \<le> 0"
  proof (cases "c x z = 0")
    case True
    then have "c z x \<le> 0" using cs [of z x] by simp
    then have "c y x \<le> 0" "c z y \<le> 0"
      using ct [OF \<open>c y z \<le> 0\<close>, of x] ct [of z x y] \<open>c x y \<le> 0\<close> by auto
    then have "c x y = 0" "c y z = 0"
      using cs [of y x] cs [of z y] \<open>c x y \<le> 0\<close> \<open>c y z \<le> 0\<close> by auto
    with a True dt show ?thesis by (auto simp: cmp_then_def)
  qed (use xz in \<open>simp add: cmp_then_def\<close>)
qed

lemma js_order_on: "js_order c \<Longrightarrow> js_order (\<lambda>x y. c (f x) (f y))"
  unfolding js_order_def by blast

lemma js_order_flip: "js_order c \<Longrightarrow> js_order (\<lambda>x y. c y x)"
  unfolding js_order_def by (metis linorder_linear order_antisym_conv)

text \<open>
  Comparison of code units, the \<open><\<close> of the language on strings. It is also the instance of
  \<open>localeCompare\<close> the witnesses use: the collation of the host's locale is a parameter of the
  definitions that sort with it, required only to be a \<open>js_order\<close>.
\<close>

definition code_unit_compare :: "string \<Rightarrow> string \<Rightarrow> int" where
  "code_unit_compare a b = (if a < b then - 1 else if a = b then 0 else 1)"

interpretation code_units: js_order code_unit_compare
  by unfold_locales (auto simp: code_unit_compare_def split: if_splits)

text \<open>\<open>.at(-1)\<close>.\<close>

definition last_of :: "'a list \<Rightarrow> 'a option" where
  "last_of xs = (if xs = [] then None else Some (List.last xs))"

section \<open>Numbers and dates\<close>

text \<open>\<open>Number.isSafeInteger\<close> on an integral value.\<close>

definition safe_int :: "int \<Rightarrow> bool" where
  "safe_int n \<longleftrightarrow> - 9007199254740991 \<le> n \<and> n \<le> 9007199254740991"

text \<open>A \<open>Date\<close> is its time value; \<open>None\<close> is \<open>Invalid Date\<close>, whose time value is \<open>NaN\<close>.\<close>

type_synonym ms = int
type_synonym js_date = "ms option"

abbreviation day_ms :: int where "day_ms \<equiv> 86400000"

text \<open>\<open>Math.min(Math.max(limit, 1), top)\<close>, the clamp every sweep puts on its batch.\<close>

definition clamp_limit :: "int \<Rightarrow> int \<Rightarrow> nat" where
  "clamp_limit hi l = nat (min (max l 1) hi)"

lemma clamp_limit_bounds: "1 \<le> hi \<Longrightarrow> 1 \<le> clamp_limit hi l \<and> int (clamp_limit hi l) \<le> hi"
  by (auto simp: clamp_limit_def)

section \<open>JSON values\<close>

text \<open>
  What an \<open>unknown\<close> of the code can hold: \<open>undefined\<close> or a JSON value. An object is the list of
  its own enumerable entries in insertion order. Finite numbers are rationals; \<open>JNonFinite\<close> is
  \<open>NaN\<close> or an infinity.
\<close>

datatype jsval =
    JUndef
  | JNull
  | JBool bool
  | JNum rat
  | JNonFinite
  | JStr string
  | JArr "jsval list"
  | JObj "(string \<times> jsval) list"

type_synonym js_object = "(string \<times> jsval) list"

definition own :: "js_object \<Rightarrow> string \<Rightarrow> bool" where
  "own ob k \<longleftrightarrow> k \<in> fst ` set ob"

text \<open>Reading a property: \<open>undefined\<close> where the object has none.\<close>

definition prop_of :: "js_object \<Rightarrow> string \<Rightarrow> jsval" where
  "prop_of ob k = (case map_of ob k of None \<Rightarrow> JUndef | Some v \<Rightarrow> v)"

definition is_safe_integer :: "jsval \<Rightarrow> bool" where
  "is_safe_integer v = (case v of JNum q \<Rightarrow> q = rat_of_int \<lfloor>q\<rfloor> \<and> safe_int \<lfloor>q\<rfloor> | _ \<Rightarrow> False)"

text \<open>
  \<open>===\<close> on values that share no object: two distinct objects, or two distinct arrays, are never
  identical, and \<open>NaN\<close> is not identical to itself. The comparisons of the code that use it on
  such operands compare a stored value with a supplied one, which never share a reference.
\<close>

fun strict_eq :: "jsval \<Rightarrow> jsval \<Rightarrow> bool" where
  "strict_eq JUndef JUndef = True"
| "strict_eq JNull JNull = True"
| "strict_eq (JBool a) (JBool b) = (a = b)"
| "strict_eq (JNum a) (JNum b) = (a = b)"
| "strict_eq (JStr a) (JStr b) = (a = b)"
| "strict_eq _ _ = False"

lemma strict_eq_imp_eq: "strict_eq a b \<Longrightarrow> a = b"
  by (cases "(a, b)" rule: strict_eq.cases) auto

lemma strict_eq_sym: "strict_eq a b = strict_eq b a"
  by (cases "(a, b)" rule: strict_eq.cases; cases b) auto

lemma is_safe_integer_of_int [simp]: "is_safe_integer (JNum (of_int n)) = safe_int n"
  by (simp add: is_safe_integer_def)

section \<open>Tables\<close>

text \<open>
  A table is the list of its rows. \<open>UPDATE \<dots> SET \<dots> WHERE \<dots> RETURNING\<close> gives the new table
  and the changed rows; \<open>INSERT \<dots> ON CONFLICT DO NOTHING RETURNING\<close> inserts the row unless one with
  the same key is there, and says whether it did.
\<close>

definition sql_update :: "('r \<Rightarrow> bool) \<Rightarrow> ('r \<Rightarrow> 'r) \<Rightarrow> 'r list \<Rightarrow> 'r list \<times> 'r list" where
  "sql_update P f t = (map (\<lambda>r. if P r then f r else r) t, map f (filter P t))"

definition sql_insert_new :: "('r \<Rightarrow> 'k) \<Rightarrow> 'r \<Rightarrow> 'r list \<Rightarrow> 'r list \<times> bool" where
  "sql_insert_new key r t = (if key r \<in> key ` set t then (t, False) else (t @ [r], True))"

text \<open>\<open>LIMIT 1\<close> and the first row of the answer.\<close>

definition first_row :: "('r \<Rightarrow> bool) \<Rightarrow> 'r list \<Rightarrow> 'r option" where
  "first_row P t = find P t"

lemma sql_update_length [simp]: "length (fst (sql_update P f t)) = length t"
  by (simp add: sql_update_def)

lemma sql_update_none: "(\<And>r. r \<in> set t \<Longrightarrow> \<not> P r) \<Longrightarrow> sql_update P f t = (t, [])"
  by (simp add: sql_update_def map_idI)

lemma sql_update_keys: "(\<And>r. key (f r) = key r) \<Longrightarrow> map key (fst (sql_update P f t)) = map key t"
  by (auto simp: sql_update_def)

lemma first_row_SomeD: "first_row P t = Some r \<Longrightarrow> r \<in> set t \<and> P r"
  by (auto simp: first_row_def find_Some_iff)

lemma first_row_None_iff: "first_row P t = None \<longleftrightarrow> (\<forall>r\<in>set t. \<not> P r)"
  by (auto simp: first_row_def find_None_iff)

lemma first_row_append:
  "first_row P (xs @ ys) = (case first_row P xs of None \<Rightarrow> first_row P ys | Some x \<Rightarrow> Some x)"
  by (induction xs) (simp_all add: first_row_def)

text \<open>
  The interface of a ledger: an insert that is at the same time the claim of the right to do
  something once. A claim wins exactly when its key has not been claimed, and marks the key.
\<close>

locale claim_ledger =
  fixes claim :: "'k \<Rightarrow> 's \<Rightarrow> 's \<times> bool"
    and claimed :: "'s \<Rightarrow> 'k set"
  assumes claim_wins: "snd (claim k s) \<longleftrightarrow> k \<notin> claimed s"
    and claim_marks: "claimed (fst (claim k s)) = insert k (claimed s)"

text \<open>A sequence of claims and the keys that won, in order.\<close>

fun run_claims :: "('k \<Rightarrow> 's \<Rightarrow> 's \<times> bool) \<Rightarrow> 'k list \<Rightarrow> 's \<Rightarrow> 's \<times> 'k list" where
  "run_claims claim [] s = (s, [])"
| "run_claims claim (k # ks) s =
     (let (s1, won) = claim k s; (s2, ws) = run_claims claim ks s1
      in (s2, if won then k # ws else ws))"

lemma distinct_count_le: "distinct xs \<Longrightarrow> count_list xs k \<le> 1"
  by (induction xs) (auto simp: count_list_0_iff)

lemma run_claims_Cons:
  "fst (run_claims claim (k # ks) s) = fst (run_claims claim ks (fst (claim k s)))"
  "snd (run_claims claim (k # ks) s) =
     (if snd (claim k s) then k # snd (run_claims claim ks (fst (claim k s)))
      else snd (run_claims claim ks (fst (claim k s))))"
  by (simp_all add: Let_def split: prod.splits)

context claim_ledger
begin

lemma run_claims_claimed: "claimed (fst (run_claims claim ks s)) = set ks \<union> claimed s"
  by (induction ks arbitrary: s) (auto simp: run_claims_Cons claim_marks simp del: run_claims.simps(2))

lemma run_claims_winners: "set (snd (run_claims claim ks s)) = set ks - claimed s"
  by (induction ks arbitrary: s)
    (auto simp: run_claims_Cons claim_marks claim_wins simp del: run_claims.simps(2))

lemma run_claims_once: "distinct (snd (run_claims claim ks s))"
  by (induction ks arbitrary: s)
    (auto simp: run_claims_Cons claim_marks run_claims_winners simp del: run_claims.simps(2))

lemma run_claims_count: "count_list (snd (run_claims claim ks s)) k \<le> 1"
  by (rule distinct_count_le) (rule run_claims_once)

end

text \<open>Inserting under a unique key is such a ledger, for every table of the model that has one.\<close>

lemma claim_ledger_insert_new:
  assumes "\<And>k. key (row k) = k"
  shows "claim_ledger (\<lambda>k t. sql_insert_new key (row k) t) (\<lambda>t. key ` set t)"
  by unfold_locales (auto simp: sql_insert_new_def assms)

end
