(* ===== verification/Vocabulary.thy ===== *)
theory Vocabulary
  imports Prelude
begin

text \<open>
  The domain vocabulary of \<open>axioma/api/src/shared/index.ts\<close>: every closed list of strings is a
  datatype, its constructor's wire form is given by the \<open>_key\<close> function, and the exported array is
  the list of the same name, in the source's order. A value that crosses a boundary as a string is
  parsed with \<open>of_key\<close>, the model of \<open>LIST.includes(value)\<close> followed by a cast.
\<close>

definition of_key :: "('a \<Rightarrow> string) \<Rightarrow> 'a list \<Rightarrow> string \<Rightarrow> 'a option" where
  "of_key key vs s = find (\<lambda>v. key v = s) vs"

locale string_enum =
  fixes key :: "'a \<Rightarrow> string" and vals :: "'a list"
  assumes key_inj: "key a = key b \<Longrightarrow> a = b"
    and complete: "a \<in> set vals"
    and no_repeat: "distinct vals"
begin

lemma of_key_key [simp]: "of_key key vals (key a) = Some a"
proof -
  obtain i where i: "i < length vals" "vals ! i = a"
    using complete [of a] by (auto simp: in_set_conv_nth)
  have "\<forall>j<i. key (vals ! j) \<noteq> key a"
    using i no_repeat key_inj by (auto simp: nth_eq_iff_index_eq dest!: key_inj)
  with i show ?thesis unfolding of_key_def find_Some_iff by blast
qed

lemma of_key_Some: "of_key key vals s = Some a \<longleftrightarrow> s = key a"
proof
  assume "of_key key vals s = Some a"
  then show "s = key a" by (auto simp: of_key_def find_Some_iff)
qed simp

lemma of_key_None: "of_key key vals s = None \<longleftrightarrow> s \<notin> key ` set vals"
  by (auto simp: of_key_def find_None_iff)

end

datatype user_kind =
    UK_staff
  | UK_reporter

fun user_kind_key :: "user_kind \<Rightarrow> string" where
  "user_kind_key UK_staff = ''staff''"
| "user_kind_key UK_reporter = ''reporter''"

definition USER_KINDS :: "user_kind list" where
  "USER_KINDS =
     [UK_staff,
      UK_reporter]"

lemma user_kind_key_inj: "user_kind_key a = user_kind_key b \<Longrightarrow> a = b"
  by (cases a; cases b) simp_all

interpretation user_kind_enum: string_enum user_kind_key USER_KINDS
proof
  fix a b :: user_kind
  show "user_kind_key a = user_kind_key b \<Longrightarrow> a = b" by (rule user_kind_key_inj)
  show "a \<in> set USER_KINDS" by (cases a) (simp_all add: USER_KINDS_def)
  show "distinct USER_KINDS" by (simp add: USER_KINDS_def)
qed

datatype capability =
    Cap_ticket_read_own
  | Cap_ticket_read_all
  | Cap_ticket_create
  | Cap_ticket_update
  | Cap_ticket_resolve
  | Cap_ticket_close
  | Cap_ticket_escalate
  | Cap_ticket_reclassify
  | Cap_ticket_assign
  | Cap_ticket_reopen
  | Cap_run_start
  | Cap_run_cancel
  | Cap_run_read
  | Cap_device_read
  | Cap_device_enroll
  | Cap_device_command
  | Cap_device_approve
  | Cap_stats_read
  | Cap_problem_manage
  | Cap_change_manage
  | Cap_change_approve
  | Cap_knowledge_read
  | Cap_knowledge_manage
  | Cap_approval_read
  | Cap_approval_decide
  | Cap_catalogue_manage
  | Cap_admin_roles
  | Cap_admin_settings
  | Cap_admin_environments
  | Cap_admin_connectors

fun capability_key :: "capability \<Rightarrow> string" where
  "capability_key Cap_ticket_read_own = ''ticket.read.own''"
| "capability_key Cap_ticket_read_all = ''ticket.read.all''"
| "capability_key Cap_ticket_create = ''ticket.create''"
| "capability_key Cap_ticket_update = ''ticket.update''"
| "capability_key Cap_ticket_resolve = ''ticket.resolve''"
| "capability_key Cap_ticket_close = ''ticket.close''"
| "capability_key Cap_ticket_escalate = ''ticket.escalate''"
| "capability_key Cap_ticket_reclassify = ''ticket.reclassify''"
| "capability_key Cap_ticket_assign = ''ticket.assign''"
| "capability_key Cap_ticket_reopen = ''ticket.reopen''"
| "capability_key Cap_run_start = ''run.start''"
| "capability_key Cap_run_cancel = ''run.cancel''"
| "capability_key Cap_run_read = ''run.read''"
| "capability_key Cap_device_read = ''device.read''"
| "capability_key Cap_device_enroll = ''device.enroll''"
| "capability_key Cap_device_command = ''device.command''"
| "capability_key Cap_device_approve = ''device.approve''"
| "capability_key Cap_stats_read = ''stats.read''"
| "capability_key Cap_problem_manage = ''problem.manage''"
| "capability_key Cap_change_manage = ''change.manage''"
| "capability_key Cap_change_approve = ''change.approve''"
| "capability_key Cap_knowledge_read = ''knowledge.read''"
| "capability_key Cap_knowledge_manage = ''knowledge.manage''"
| "capability_key Cap_approval_read = ''approval.read''"
| "capability_key Cap_approval_decide = ''approval.decide''"
| "capability_key Cap_catalogue_manage = ''catalogue.manage''"
| "capability_key Cap_admin_roles = ''admin.roles''"
| "capability_key Cap_admin_settings = ''admin.settings''"
| "capability_key Cap_admin_environments = ''admin.environments''"
| "capability_key Cap_admin_connectors = ''admin.connectors''"

definition CAPABILITIES :: "capability list" where
  "CAPABILITIES =
     [Cap_ticket_read_own,
      Cap_ticket_read_all,
      Cap_ticket_create,
      Cap_ticket_update,
      Cap_ticket_resolve,
      Cap_ticket_close,
      Cap_ticket_escalate,
      Cap_ticket_reclassify,
      Cap_ticket_assign,
      Cap_ticket_reopen,
      Cap_run_start,
      Cap_run_cancel,
      Cap_run_read,
      Cap_device_read,
      Cap_device_enroll,
      Cap_device_command,
      Cap_device_approve,
      Cap_stats_read,
      Cap_problem_manage,
      Cap_change_manage,
      Cap_change_approve,
      Cap_knowledge_read,
      Cap_knowledge_manage,
      Cap_approval_read,
      Cap_approval_decide,
      Cap_catalogue_manage,
      Cap_admin_roles,
      Cap_admin_settings,
      Cap_admin_environments,
      Cap_admin_connectors]"

lemma capability_key_inj: "capability_key a = capability_key b \<Longrightarrow> a = b"
  by (cases a; cases b) simp_all

interpretation capability_enum: string_enum capability_key CAPABILITIES
proof
  fix a b :: capability
  show "capability_key a = capability_key b \<Longrightarrow> a = b" by (rule capability_key_inj)
  show "a \<in> set CAPABILITIES" by (cases a) (simp_all add: CAPABILITIES_def)
  show "distinct CAPABILITIES" by (simp add: CAPABILITIES_def)
qed

datatype state_type =
    ST_new
  | ST_open
  | ST_pending
  | ST_resolved
  | ST_closed
  | ST_merged
  | ST_cancelled

fun state_type_key :: "state_type \<Rightarrow> string" where
  "state_type_key ST_new = ''new''"
| "state_type_key ST_open = ''open''"
| "state_type_key ST_pending = ''pending''"
| "state_type_key ST_resolved = ''resolved''"
| "state_type_key ST_closed = ''closed''"
| "state_type_key ST_merged = ''merged''"
| "state_type_key ST_cancelled = ''cancelled''"

definition STATE_TYPES :: "state_type list" where
  "STATE_TYPES =
     [ST_new,
      ST_open,
      ST_pending,
      ST_resolved,
      ST_closed,
      ST_merged,
      ST_cancelled]"

lemma state_type_key_inj: "state_type_key a = state_type_key b \<Longrightarrow> a = b"
  by (cases a; cases b) simp_all

interpretation state_type_enum: string_enum state_type_key STATE_TYPES
proof
  fix a b :: state_type
  show "state_type_key a = state_type_key b \<Longrightarrow> a = b" by (rule state_type_key_inj)
  show "a \<in> set STATE_TYPES" by (cases a) (simp_all add: STATE_TYPES_def)
  show "distinct STATE_TYPES" by (simp add: STATE_TYPES_def)
qed

datatype resolution_code =
    RC_fixed
  | RC_workaround
  | RC_not_reproducible
  | RC_duplicate
  | RC_no_action_required
  | RC_rejected

fun resolution_code_key :: "resolution_code \<Rightarrow> string" where
  "resolution_code_key RC_fixed = ''fixed''"
| "resolution_code_key RC_workaround = ''workaround''"
| "resolution_code_key RC_not_reproducible = ''not_reproducible''"
| "resolution_code_key RC_duplicate = ''duplicate''"
| "resolution_code_key RC_no_action_required = ''no_action_required''"
| "resolution_code_key RC_rejected = ''rejected''"

definition RESOLUTION_CODES :: "resolution_code list" where
  "RESOLUTION_CODES =
     [RC_fixed,
      RC_workaround,
      RC_not_reproducible,
      RC_duplicate,
      RC_no_action_required,
      RC_rejected]"

lemma resolution_code_key_inj: "resolution_code_key a = resolution_code_key b \<Longrightarrow> a = b"
  by (cases a; cases b) simp_all

interpretation resolution_code_enum: string_enum resolution_code_key RESOLUTION_CODES
proof
  fix a b :: resolution_code
  show "resolution_code_key a = resolution_code_key b \<Longrightarrow> a = b" by (rule resolution_code_key_inj)
  show "a \<in> set RESOLUTION_CODES" by (cases a) (simp_all add: RESOLUTION_CODES_def)
  show "distinct RESOLUTION_CODES" by (simp add: RESOLUTION_CODES_def)
qed

datatype record_type =
    RT_incident
  | RT_service_request

fun record_type_key :: "record_type \<Rightarrow> string" where
  "record_type_key RT_incident = ''incident''"
| "record_type_key RT_service_request = ''service_request''"

definition RECORD_TYPES :: "record_type list" where
  "RECORD_TYPES =
     [RT_incident,
      RT_service_request]"

lemma record_type_key_inj: "record_type_key a = record_type_key b \<Longrightarrow> a = b"
  by (cases a; cases b) simp_all

interpretation record_type_enum: string_enum record_type_key RECORD_TYPES
proof
  fix a b :: record_type
  show "record_type_key a = record_type_key b \<Longrightarrow> a = b" by (rule record_type_key_inj)
  show "a \<in> set RECORD_TYPES" by (cases a) (simp_all add: RECORD_TYPES_def)
  show "distinct RECORD_TYPES" by (simp add: RECORD_TYPES_def)
qed

datatype level =
    L_high
  | L_medium
  | L_low

fun level_key :: "level \<Rightarrow> string" where
  "level_key L_high = ''high''"
| "level_key L_medium = ''medium''"
| "level_key L_low = ''low''"

definition LEVELS :: "level list" where
  "LEVELS =
     [L_high,
      L_medium,
      L_low]"

lemma level_key_inj: "level_key a = level_key b \<Longrightarrow> a = b"
  by (cases a; cases b) simp_all

interpretation level_enum: string_enum level_key LEVELS
proof
  fix a b :: level
  show "level_key a = level_key b \<Longrightarrow> a = b" by (rule level_key_inj)
  show "a \<in> set LEVELS" by (cases a) (simp_all add: LEVELS_def)
  show "distinct LEVELS" by (simp add: LEVELS_def)
qed

datatype priority =
    P1
  | P2
  | P3
  | P4

fun priority_key :: "priority \<Rightarrow> string" where
  "priority_key P1 = ''P1''"
| "priority_key P2 = ''P2''"
| "priority_key P3 = ''P3''"
| "priority_key P4 = ''P4''"

definition PRIORITIES :: "priority list" where
  "PRIORITIES =
     [P1,
      P2,
      P3,
      P4]"

lemma priority_key_inj: "priority_key a = priority_key b \<Longrightarrow> a = b"
  by (cases a; cases b) simp_all

interpretation priority_enum: string_enum priority_key PRIORITIES
proof
  fix a b :: priority
  show "priority_key a = priority_key b \<Longrightarrow> a = b" by (rule priority_key_inj)
  show "a \<in> set PRIORITIES" by (cases a) (simp_all add: PRIORITIES_def)
  show "distinct PRIORITIES" by (simp add: PRIORITIES_def)
qed

datatype progress_marker =
    PM_gathering_evidence
  | PM_checking_device
  | PM_checking_service
  | PM_applying_fix
  | PM_verifying_fix
  | PM_handing_to_person

fun progress_marker_key :: "progress_marker \<Rightarrow> string" where
  "progress_marker_key PM_gathering_evidence = ''gathering_evidence''"
| "progress_marker_key PM_checking_device = ''checking_device''"
| "progress_marker_key PM_checking_service = ''checking_service''"
| "progress_marker_key PM_applying_fix = ''applying_fix''"
| "progress_marker_key PM_verifying_fix = ''verifying_fix''"
| "progress_marker_key PM_handing_to_person = ''handing_to_person''"

definition PROGRESS_MARKERS :: "progress_marker list" where
  "PROGRESS_MARKERS =
     [PM_gathering_evidence,
      PM_checking_device,
      PM_checking_service,
      PM_applying_fix,
      PM_verifying_fix,
      PM_handing_to_person]"

lemma progress_marker_key_inj: "progress_marker_key a = progress_marker_key b \<Longrightarrow> a = b"
  by (cases a; cases b) simp_all

interpretation progress_marker_enum: string_enum progress_marker_key PROGRESS_MARKERS
proof
  fix a b :: progress_marker
  show "progress_marker_key a = progress_marker_key b \<Longrightarrow> a = b" by (rule progress_marker_key_inj)
  show "a \<in> set PROGRESS_MARKERS" by (cases a) (simp_all add: PROGRESS_MARKERS_def)
  show "distinct PROGRESS_MARKERS" by (simp add: PROGRESS_MARKERS_def)
qed

datatype ticket_route =
    Route_unassigned
  | Route_infrastructure
  | Route_device
  | Route_application
  | Route_identity
  | Route_human_triage

fun ticket_route_key :: "ticket_route \<Rightarrow> string" where
  "ticket_route_key Route_unassigned = ''unassigned''"
| "ticket_route_key Route_infrastructure = ''infrastructure''"
| "ticket_route_key Route_device = ''device''"
| "ticket_route_key Route_application = ''application''"
| "ticket_route_key Route_identity = ''identity''"
| "ticket_route_key Route_human_triage = ''human_triage''"

definition TICKET_ROUTES :: "ticket_route list" where
  "TICKET_ROUTES =
     [Route_unassigned,
      Route_infrastructure,
      Route_device,
      Route_application,
      Route_identity,
      Route_human_triage]"

lemma ticket_route_key_inj: "ticket_route_key a = ticket_route_key b \<Longrightarrow> a = b"
  by (cases a; cases b) simp_all

interpretation ticket_route_enum: string_enum ticket_route_key TICKET_ROUTES
proof
  fix a b :: ticket_route
  show "ticket_route_key a = ticket_route_key b \<Longrightarrow> a = b" by (rule ticket_route_key_inj)
  show "a \<in> set TICKET_ROUTES" by (cases a) (simp_all add: TICKET_ROUTES_def)
  show "distinct TICKET_ROUTES" by (simp add: TICKET_ROUTES_def)
qed

datatype run_status =
    Run_running
  | Run_resolved
  | Run_escalated
  | Run_failed
  | Run_exhausted

fun run_status_key :: "run_status \<Rightarrow> string" where
  "run_status_key Run_running = ''running''"
| "run_status_key Run_resolved = ''resolved''"
| "run_status_key Run_escalated = ''escalated''"
| "run_status_key Run_failed = ''failed''"
| "run_status_key Run_exhausted = ''exhausted''"

definition RUN_STATUSES :: "run_status list" where
  "RUN_STATUSES =
     [Run_running,
      Run_resolved,
      Run_escalated,
      Run_failed,
      Run_exhausted]"

lemma run_status_key_inj: "run_status_key a = run_status_key b \<Longrightarrow> a = b"
  by (cases a; cases b) simp_all

interpretation run_status_enum: string_enum run_status_key RUN_STATUSES
proof
  fix a b :: run_status
  show "run_status_key a = run_status_key b \<Longrightarrow> a = b" by (rule run_status_key_inj)
  show "a \<in> set RUN_STATUSES" by (cases a) (simp_all add: RUN_STATUSES_def)
  show "distinct RUN_STATUSES" by (simp add: RUN_STATUSES_def)
qed

datatype step_kind =
    Step_think
  | Step_tool_call
  | Step_observation
  | Step_decision
  | Step_terminal

fun step_kind_key :: "step_kind \<Rightarrow> string" where
  "step_kind_key Step_think = ''think''"
| "step_kind_key Step_tool_call = ''tool_call''"
| "step_kind_key Step_observation = ''observation''"
| "step_kind_key Step_decision = ''decision''"
| "step_kind_key Step_terminal = ''terminal''"

definition STEP_KINDS :: "step_kind list" where
  "STEP_KINDS =
     [Step_think,
      Step_tool_call,
      Step_observation,
      Step_decision,
      Step_terminal]"

lemma step_kind_key_inj: "step_kind_key a = step_kind_key b \<Longrightarrow> a = b"
  by (cases a; cases b) simp_all

interpretation step_kind_enum: string_enum step_kind_key STEP_KINDS
proof
  fix a b :: step_kind
  show "step_kind_key a = step_kind_key b \<Longrightarrow> a = b" by (rule step_kind_key_inj)
  show "a \<in> set STEP_KINDS" by (cases a) (simp_all add: STEP_KINDS_def)
  show "distinct STEP_KINDS" by (simp add: STEP_KINDS_def)
qed

datatype evidence_tone =
    Tone_success
  | Tone_warning
  | Tone_destructive
  | Tone_neutral

fun evidence_tone_key :: "evidence_tone \<Rightarrow> string" where
  "evidence_tone_key Tone_success = ''success''"
| "evidence_tone_key Tone_warning = ''warning''"
| "evidence_tone_key Tone_destructive = ''destructive''"
| "evidence_tone_key Tone_neutral = ''neutral''"

definition EVIDENCE_TONES :: "evidence_tone list" where
  "EVIDENCE_TONES =
     [Tone_success,
      Tone_warning,
      Tone_destructive,
      Tone_neutral]"

lemma evidence_tone_key_inj: "evidence_tone_key a = evidence_tone_key b \<Longrightarrow> a = b"
  by (cases a; cases b) simp_all

interpretation evidence_tone_enum: string_enum evidence_tone_key EVIDENCE_TONES
proof
  fix a b :: evidence_tone
  show "evidence_tone_key a = evidence_tone_key b \<Longrightarrow> a = b" by (rule evidence_tone_key_inj)
  show "a \<in> set EVIDENCE_TONES" by (cases a) (simp_all add: EVIDENCE_TONES_def)
  show "distinct EVIDENCE_TONES" by (simp add: EVIDENCE_TONES_def)
qed

datatype device_proposal_status =
    DP_proposed
  | DP_approved
  | DP_rejected
  | DP_expired
  | DP_dispatched

fun device_proposal_status_key :: "device_proposal_status \<Rightarrow> string" where
  "device_proposal_status_key DP_proposed = ''proposed''"
| "device_proposal_status_key DP_approved = ''approved''"
| "device_proposal_status_key DP_rejected = ''rejected''"
| "device_proposal_status_key DP_expired = ''expired''"
| "device_proposal_status_key DP_dispatched = ''dispatched''"

definition DEVICE_PROPOSAL_STATUSES :: "device_proposal_status list" where
  "DEVICE_PROPOSAL_STATUSES =
     [DP_proposed,
      DP_approved,
      DP_rejected,
      DP_expired,
      DP_dispatched]"

lemma device_proposal_status_key_inj: "device_proposal_status_key a = device_proposal_status_key b \<Longrightarrow> a = b"
  by (cases a; cases b) simp_all

interpretation device_proposal_status_enum: string_enum device_proposal_status_key DEVICE_PROPOSAL_STATUSES
proof
  fix a b :: device_proposal_status
  show "device_proposal_status_key a = device_proposal_status_key b \<Longrightarrow> a = b" by (rule device_proposal_status_key_inj)
  show "a \<in> set DEVICE_PROPOSAL_STATUSES" by (cases a) (simp_all add: DEVICE_PROPOSAL_STATUSES_def)
  show "distinct DEVICE_PROPOSAL_STATUSES" by (simp add: DEVICE_PROPOSAL_STATUSES_def)
qed

datatype command_status =
    Cmd_pending
  | Cmd_dispatched
  | Cmd_succeeded
  | Cmd_failed
  | Cmd_timed_out
  | Cmd_indeterminate

fun command_status_key :: "command_status \<Rightarrow> string" where
  "command_status_key Cmd_pending = ''pending''"
| "command_status_key Cmd_dispatched = ''dispatched''"
| "command_status_key Cmd_succeeded = ''succeeded''"
| "command_status_key Cmd_failed = ''failed''"
| "command_status_key Cmd_timed_out = ''timed_out''"
| "command_status_key Cmd_indeterminate = ''indeterminate''"

definition COMMAND_STATUSES :: "command_status list" where
  "COMMAND_STATUSES =
     [Cmd_pending,
      Cmd_dispatched,
      Cmd_succeeded,
      Cmd_failed,
      Cmd_timed_out,
      Cmd_indeterminate]"

lemma command_status_key_inj: "command_status_key a = command_status_key b \<Longrightarrow> a = b"
  by (cases a; cases b) simp_all

interpretation command_status_enum: string_enum command_status_key COMMAND_STATUSES
proof
  fix a b :: command_status
  show "command_status_key a = command_status_key b \<Longrightarrow> a = b" by (rule command_status_key_inj)
  show "a \<in> set COMMAND_STATUSES" by (cases a) (simp_all add: COMMAND_STATUSES_def)
  show "distinct COMMAND_STATUSES" by (simp add: COMMAND_STATUSES_def)
qed

datatype sync_mode =
    Mode_preview
  | Mode_apply

fun sync_mode_key :: "sync_mode \<Rightarrow> string" where
  "sync_mode_key Mode_preview = ''preview''"
| "sync_mode_key Mode_apply = ''apply''"

definition ITSM_SYNC_MODES :: "sync_mode list" where
  "ITSM_SYNC_MODES =
     [Mode_preview,
      Mode_apply]"

lemma sync_mode_key_inj: "sync_mode_key a = sync_mode_key b \<Longrightarrow> a = b"
  by (cases a; cases b) simp_all

interpretation sync_mode_enum: string_enum sync_mode_key ITSM_SYNC_MODES
proof
  fix a b :: sync_mode
  show "sync_mode_key a = sync_mode_key b \<Longrightarrow> a = b" by (rule sync_mode_key_inj)
  show "a \<in> set ITSM_SYNC_MODES" by (cases a) (simp_all add: ITSM_SYNC_MODES_def)
  show "distinct ITSM_SYNC_MODES" by (simp add: ITSM_SYNC_MODES_def)
qed

datatype sync_status =
    Sync_completed
  | Sync_rejected
  | Sync_failed

fun sync_status_key :: "sync_status \<Rightarrow> string" where
  "sync_status_key Sync_completed = ''completed''"
| "sync_status_key Sync_rejected = ''rejected''"
| "sync_status_key Sync_failed = ''failed''"

definition ITSM_SYNC_STATUSES :: "sync_status list" where
  "ITSM_SYNC_STATUSES =
     [Sync_completed,
      Sync_rejected,
      Sync_failed]"

lemma sync_status_key_inj: "sync_status_key a = sync_status_key b \<Longrightarrow> a = b"
  by (cases a; cases b) simp_all

interpretation sync_status_enum: string_enum sync_status_key ITSM_SYNC_STATUSES
proof
  fix a b :: sync_status
  show "sync_status_key a = sync_status_key b \<Longrightarrow> a = b" by (rule sync_status_key_inj)
  show "a \<in> set ITSM_SYNC_STATUSES" by (cases a) (simp_all add: ITSM_SYNC_STATUSES_def)
  show "distinct ITSM_SYNC_STATUSES" by (simp add: ITSM_SYNC_STATUSES_def)
qed

datatype dispatch_outcome =
    Disp_dispatched
  | Disp_deferred_no_worker
  | Disp_refused

fun dispatch_outcome_key :: "dispatch_outcome \<Rightarrow> string" where
  "dispatch_outcome_key Disp_dispatched = ''dispatched''"
| "dispatch_outcome_key Disp_deferred_no_worker = ''deferred_no_worker''"
| "dispatch_outcome_key Disp_refused = ''refused''"

definition ITSM_DISPATCH_OUTCOMES :: "dispatch_outcome list" where
  "ITSM_DISPATCH_OUTCOMES =
     [Disp_dispatched,
      Disp_deferred_no_worker,
      Disp_refused]"

lemma dispatch_outcome_key_inj: "dispatch_outcome_key a = dispatch_outcome_key b \<Longrightarrow> a = b"
  by (cases a; cases b) simp_all

interpretation dispatch_outcome_enum: string_enum dispatch_outcome_key ITSM_DISPATCH_OUTCOMES
proof
  fix a b :: dispatch_outcome
  show "dispatch_outcome_key a = dispatch_outcome_key b \<Longrightarrow> a = b" by (rule dispatch_outcome_key_inj)
  show "a \<in> set ITSM_DISPATCH_OUTCOMES" by (cases a) (simp_all add: ITSM_DISPATCH_OUTCOMES_def)
  show "distinct ITSM_DISPATCH_OUTCOMES" by (simp add: ITSM_DISPATCH_OUTCOMES_def)
qed

datatype writeback_status =
    WB_pending
  | WB_delivering
  | WB_succeeded
  | WB_retrying
  | WB_failed

fun writeback_status_key :: "writeback_status \<Rightarrow> string" where
  "writeback_status_key WB_pending = ''pending''"
| "writeback_status_key WB_delivering = ''delivering''"
| "writeback_status_key WB_succeeded = ''succeeded''"
| "writeback_status_key WB_retrying = ''retrying''"
| "writeback_status_key WB_failed = ''failed''"

definition ITSM_WRITEBACK_STATUSES :: "writeback_status list" where
  "ITSM_WRITEBACK_STATUSES =
     [WB_pending,
      WB_delivering,
      WB_succeeded,
      WB_retrying,
      WB_failed]"

lemma writeback_status_key_inj: "writeback_status_key a = writeback_status_key b \<Longrightarrow> a = b"
  by (cases a; cases b) simp_all

interpretation writeback_status_enum: string_enum writeback_status_key ITSM_WRITEBACK_STATUSES
proof
  fix a b :: writeback_status
  show "writeback_status_key a = writeback_status_key b \<Longrightarrow> a = b" by (rule writeback_status_key_inj)
  show "a \<in> set ITSM_WRITEBACK_STATUSES" by (cases a) (simp_all add: ITSM_WRITEBACK_STATUSES_def)
  show "distinct ITSM_WRITEBACK_STATUSES" by (simp add: ITSM_WRITEBACK_STATUSES_def)
qed

datatype unmapped_policy =
    Unmapped_reject
  | Unmapped_default
  | Unmapped_quarantine

fun unmapped_policy_key :: "unmapped_policy \<Rightarrow> string" where
  "unmapped_policy_key Unmapped_reject = ''reject''"
| "unmapped_policy_key Unmapped_default = ''default''"
| "unmapped_policy_key Unmapped_quarantine = ''quarantine''"

definition ITSM_UNMAPPED_POLICIES :: "unmapped_policy list" where
  "ITSM_UNMAPPED_POLICIES =
     [Unmapped_reject,
      Unmapped_default,
      Unmapped_quarantine]"

lemma unmapped_policy_key_inj: "unmapped_policy_key a = unmapped_policy_key b \<Longrightarrow> a = b"
  by (cases a; cases b) simp_all

interpretation unmapped_policy_enum: string_enum unmapped_policy_key ITSM_UNMAPPED_POLICIES
proof
  fix a b :: unmapped_policy
  show "unmapped_policy_key a = unmapped_policy_key b \<Longrightarrow> a = b" by (rule unmapped_policy_key_inj)
  show "a \<in> set ITSM_UNMAPPED_POLICIES" by (cases a) (simp_all add: ITSM_UNMAPPED_POLICIES_def)
  show "distinct ITSM_UNMAPPED_POLICIES" by (simp add: ITSM_UNMAPPED_POLICIES_def)
qed

datatype mappable_field =
    Field_recordType
  | Field_impact
  | Field_urgency
  | Field_status
  | Field_serviceId
  | Field_serviceSubcategoryId

fun mappable_field_key :: "mappable_field \<Rightarrow> string" where
  "mappable_field_key Field_recordType = ''recordType''"
| "mappable_field_key Field_impact = ''impact''"
| "mappable_field_key Field_urgency = ''urgency''"
| "mappable_field_key Field_status = ''status''"
| "mappable_field_key Field_serviceId = ''serviceId''"
| "mappable_field_key Field_serviceSubcategoryId = ''serviceSubcategoryId''"

definition ITSM_MAPPABLE_FIELDS :: "mappable_field list" where
  "ITSM_MAPPABLE_FIELDS =
     [Field_recordType,
      Field_impact,
      Field_urgency,
      Field_status,
      Field_serviceId,
      Field_serviceSubcategoryId]"

lemma mappable_field_key_inj: "mappable_field_key a = mappable_field_key b \<Longrightarrow> a = b"
  by (cases a; cases b) simp_all

interpretation mappable_field_enum: string_enum mappable_field_key ITSM_MAPPABLE_FIELDS
proof
  fix a b :: mappable_field
  show "mappable_field_key a = mappable_field_key b \<Longrightarrow> a = b" by (rule mappable_field_key_inj)
  show "a \<in> set ITSM_MAPPABLE_FIELDS" by (cases a) (simp_all add: ITSM_MAPPABLE_FIELDS_def)
  show "distinct ITSM_MAPPABLE_FIELDS" by (simp add: ITSM_MAPPABLE_FIELDS_def)
qed

type_synonym impact = level
type_synonym urgency = level

definition IMPACT_LEVELS :: "impact list" where
  "IMPACT_LEVELS = [L_high, L_medium, L_low]"

definition URGENCY_LEVELS :: "urgency list" where
  "URGENCY_LEVELS = [L_high, L_medium, L_low]"

text \<open>A ticket status key is runtime vocabulary: a string, declared by the \<open>ticket_statuses\<close> rows.\<close>

type_synonym ticket_status = string

section \<open>Priority\<close>

fun derivePriority :: "impact \<Rightarrow> urgency \<Rightarrow> priority" where
  "derivePriority L_high L_high = P1"
| "derivePriority L_high L_medium = P2"
| "derivePriority L_high L_low = P3"
| "derivePriority L_medium L_high = P2"
| "derivePriority L_medium L_medium = P3"
| "derivePriority L_medium L_low = P4"
| "derivePriority L_low L_high = P3"
| "derivePriority L_low L_medium = P4"
| "derivePriority L_low L_low = P4"

text \<open>
  The order of severity: \<open>high\<close> before \<open>medium\<close> before \<open>low\<close>, and \<open>P1\<close> before \<open>P4\<close>, which is also the
  order in which the database sorts the keys.
\<close>

fun level_rank :: "level \<Rightarrow> nat" where
  "level_rank L_high = 0" | "level_rank L_medium = 1" | "level_rank L_low = 2"

fun priority_rank :: "priority \<Rightarrow> nat" where
  "priority_rank P1 = 1" | "priority_rank P2 = 2" | "priority_rank P3 = 3" | "priority_rank P4 = 4"

instantiation level :: linorder
begin

definition less_eq_level :: "level \<Rightarrow> level \<Rightarrow> bool" where
  "less_eq_level a b \<longleftrightarrow> level_rank a \<le> level_rank b"

definition less_level :: "level \<Rightarrow> level \<Rightarrow> bool" where
  "less_level a b \<longleftrightarrow> level_rank a < level_rank b"

instance
proof
  fix a b :: level
  show "a \<le> b \<Longrightarrow> b \<le> a \<Longrightarrow> a = b"
    by (cases a; cases b) (simp_all add: less_eq_level_def)
qed (auto simp: less_eq_level_def less_level_def)

end

instantiation priority :: linorder
begin

definition less_eq_priority :: "priority \<Rightarrow> priority \<Rightarrow> bool" where
  "less_eq_priority a b \<longleftrightarrow> priority_rank a \<le> priority_rank b"

definition less_priority :: "priority \<Rightarrow> priority \<Rightarrow> bool" where
  "less_priority a b \<longleftrightarrow> priority_rank a < priority_rank b"

instance
proof
  fix a b :: priority
  show "a \<le> b \<Longrightarrow> b \<le> a \<Longrightarrow> a = b"
    by (cases a; cases b) (simp_all add: less_eq_priority_def)
qed (auto simp: less_eq_priority_def less_priority_def)

end

text \<open>The database compares the stored text, and the text order is the order of severity.\<close>

lemma priority_key_order: "priority_key a < priority_key b \<longleftrightarrow> a < b"
  by (cases a; cases b) (simp_all add: less_priority_def)

lemma derivePriority_mono: "i \<le> i' \<Longrightarrow> u \<le> u' \<Longrightarrow> derivePriority i u \<le> derivePriority i' u'"
  by (cases i; cases i'; cases u; cases u') (simp_all add: less_eq_level_def less_eq_priority_def)

text \<open>
  The priority matrix is a sum: with the levels ranked 0 to 2 from \<open>high\<close> down, the priority is one
  more than the ranks of impact and urgency together, and at most 4.
\<close>

theorem derivePriority_rank:
  "priority_rank (derivePriority i u) = min 4 (level_rank i + level_rank u + 1)"
  by (cases i; cases u) simp_all

lemma derivePriority_sym: "derivePriority i u = derivePriority u i"
  by (cases i; cases u) simp_all

end
