(* ===== verification/Tables.thy ===== *)
theory Tables
  imports Vocabulary
begin

text \<open>
  The rows that several components share: tickets, their statuses and the declared status changes
  (\<open>db/schema/tickets.ts\<close>, \<open>db/schema/vocabulary.ts\<close>). A nullable column is an \<open>option\<close>, a timestamp its
  time value. The \<open>updated_at\<close> column, which the database layer sets by itself, is left out.
\<close>

datatype escalation_flag = EF_none | EF_warning | EF_breach

record ticket =
  tk_id :: string
  tk_reporterId :: string
  tk_deviceId :: "string option"
  tk_title :: string
  tk_body :: string
  tk_recordType :: record_type
  tk_impact :: impact
  tk_urgency :: urgency
  tk_priority :: priority
  tk_serviceId :: string
  tk_serviceSubcategoryId :: string
  tk_status :: ticket_status
  tk_route :: "ticket_route option"
  tk_resolution :: "string option"
  tk_resolutionCode :: "resolution_code option"
  tk_escalationNote :: "string option"
  tk_progressMarker :: "progress_marker option"
  tk_assigneeId :: "string option"
  tk_ownerId :: "string option"
  tk_teamId :: "string option"
  tk_mergedIntoId :: "string option"
  tk_number :: "string option"
  tk_pendingReasonId :: "string option"
  tk_pendingUntil :: "ms option"
  tk_lastPendingAt :: "ms option"
  tk_pendingFollowups :: int
  tk_escalationFlag :: escalation_flag
  tk_escalationReason :: "string option"
  tk_version :: int
  tk_createdAt :: ms
  tk_resolvedAt :: "ms option"
  tk_closedAt :: "ms option"
  tk_reopenedAt :: "ms option"
  tk_lastHumanTransitionAt :: "ms option"

record ticket_status_row =
  ts_key :: ticket_status
  ts_stateType :: state_type
  ts_isClosed :: bool
  ts_pausesSla :: bool
  ts_isDefault :: bool
  ts_isActive :: bool

record status_transition =
  st_fromStatus :: ticket_status
  st_action :: string
  st_toStatus :: ticket_status

text \<open>A ticket as a fresh row has it, for the witnesses.\<close>

definition sample_ticket :: ticket where
  "sample_ticket = \<lparr>tk_id = ''t1'', tk_reporterId = ''u1'', tk_deviceId = None, tk_title = ''VPN'', tk_body = ''VPN fails'',
     tk_recordType = RT_incident, tk_impact = L_medium, tk_urgency = L_medium, tk_priority = P3,
     tk_serviceId = ''svc-general'', tk_serviceSubcategoryId = ''ss-general'', tk_status = ''open'', tk_route = None,
     tk_resolution = None, tk_resolutionCode = None, tk_escalationNote = None, tk_progressMarker = None,
     tk_assigneeId = None, tk_ownerId = None, tk_teamId = None, tk_mergedIntoId = None, tk_number = Some ''INC-1'',
     tk_pendingReasonId = None, tk_pendingUntil = None, tk_lastPendingAt = None, tk_pendingFollowups = 0,
     tk_escalationFlag = EF_none, tk_escalationReason = None, tk_version = 1, tk_createdAt = 0,
     tk_resolvedAt = None, tk_closedAt = None, tk_reopenedAt = None, tk_lastHumanTransitionAt = None\<rparr>"

end
