(* ===== verification/Stopwatch.thy ===== *)
theory Stopwatch
  imports Vocabulary
begin

text \<open>
  The SLA stopwatch of \<open>server/sla/stopwatch.ts\<close>: a checkpointed accumulator of working time, with
  the time spent paused kept apart. Every operation is a checkpoint tm an instant; the elapsed
  working time is supplied by the calendar.
\<close>

record stopwatch =
  accumulatedMs :: int
  pendingMs :: int
  running :: bool
  startedAt :: js_date

datatype sw_error =
    Invalid_stopwatch_date
  | Not_safe string          \<comment> \<open>the field that is not a non-negative safe integer\<close>
  | Cannot_move_backwards
  | Bad_elapsed

definition assertDate :: "js_date \<Rightarrow> (sw_error, ms) result" where
  "assertDate d = (case d of None \<Rightarrow> Inl Invalid_stopwatch_date | Some t \<Rightarrow> Inr t)"

definition assertState :: "stopwatch \<Rightarrow> (sw_error, ms) result" where
  "assertState s =
     (case assertDate (startedAt s) of
        Inl e \<Rightarrow> Inl e
      | Inr t \<Rightarrow>
          if \<not> safe_int (accumulatedMs s) \<or> accumulatedMs s < 0 then Inl (Not_safe ''accumulatedMs'')
          else if \<not> safe_int (pendingMs s) \<or> pendingMs s < 0 then Inl (Not_safe ''pendingMs'')
          else Inr t)"

definition createStopwatch :: "js_date \<Rightarrow> bool \<Rightarrow> (sw_error, stopwatch) result" where
  "createStopwatch tm run =
     (case assertDate tm of
        Inl e \<Rightarrow> Inl e
      | Inr _ \<Rightarrow> Inr \<lparr>accumulatedMs = 0, pendingMs = 0, running = run, startedAt = tm\<rparr>)"

definition transitionStopwatch ::
  "stopwatch \<Rightarrow> bool \<Rightarrow> js_date \<Rightarrow> int \<Rightarrow> (sw_error, stopwatch) result" where
  "transitionStopwatch state run tm elapsedMs =
     (case assertState state of
        Inl e \<Rightarrow> Inl e
      | Inr started \<Rightarrow>
          (case assertDate tm of
             Inl e \<Rightarrow> Inl e
           | Inr t \<Rightarrow>
               if t < started then Inl Cannot_move_backwards
               else if \<not> safe_int elapsedMs \<or> elapsedMs < 0 then Inl Bad_elapsed
               else Inr \<lparr>accumulatedMs = accumulatedMs state + (if running state then elapsedMs else 0),
                         pendingMs = pendingMs state + (if running state then 0 else elapsedMs),
                         running = run,
                         startedAt = tm\<rparr>))"

definition pauseStopwatch :: "stopwatch \<Rightarrow> js_date \<Rightarrow> int \<Rightarrow> (sw_error, stopwatch) result" where
  "pauseStopwatch state tm elapsedMs = transitionStopwatch state False tm elapsedMs"

definition startStopwatch :: "stopwatch \<Rightarrow> js_date \<Rightarrow> int \<Rightarrow> (sw_error, stopwatch) result" where
  "startStopwatch state tm elapsedMs = transitionStopwatch state True tm elapsedMs"

section \<open>What one checkpoint does\<close>

lemma assertState_Inr:
  "assertState s = Inr t \<longleftrightarrow>
     startedAt s = Some t \<and> safe_int (accumulatedMs s) \<and> 0 \<le> accumulatedMs s \<and>
     safe_int (pendingMs s) \<and> 0 \<le> pendingMs s"
  by (auto simp: assertState_def assertDate_def split: option.splits)

lemma transitionStopwatch_Inr:
  "transitionStopwatch s run tm e = Inr s' \<longleftrightarrow>
     (\<exists>t0 t. startedAt s = Some t0 \<and> tm = Some t \<and> t0 \<le> t \<and>
        safe_int (accumulatedMs s) \<and> 0 \<le> accumulatedMs s \<and>
        safe_int (pendingMs s) \<and> 0 \<le> pendingMs s \<and> safe_int e \<and> 0 \<le> e \<and>
        s' = \<lparr>accumulatedMs = accumulatedMs s + (if running s then e else 0),
              pendingMs = pendingMs s + (if running s then 0 else e),
              running = run, startedAt = tm\<rparr>)"
  unfolding transitionStopwatch_def
  by (cases "assertState s"; cases tm)
    (auto simp: assertState_Inr assertDate_def not_less, auto simp: assertState_def assertDate_def
      split: option.splits if_splits)

lemma transitionStopwatch_total:
  "transitionStopwatch s run tm e = Inr s' \<Longrightarrow>
     accumulatedMs s' + pendingMs s' = accumulatedMs s + pendingMs s + e"
  by (auto simp: transitionStopwatch_Inr)

section \<open>A whole history\<close>

text \<open>
  A checkpoint: whether the watch runs after it, the instant, and the working time since the
  last one. The specification of a history is the working time spent in each of the two modes.
\<close>

type_synonym sw_checkpoint = "bool \<times> js_date \<times> int"

fun run_stopwatch :: "stopwatch \<Rightarrow> sw_checkpoint list \<Rightarrow> (sw_error, stopwatch) result" where
  "run_stopwatch s [] = Inr s"
| "run_stopwatch s ((run, tm, e) # cs) =
     (case transitionStopwatch s run tm e of Inl x \<Rightarrow> Inl x | Inr s' \<Rightarrow> run_stopwatch s' cs)"

text \<open>The time a history spends in mode \<open>m\<close>, when the watch starts in mode \<open>cur\<close>.\<close>

fun spent :: "bool \<Rightarrow> bool \<Rightarrow> sw_checkpoint list \<Rightarrow> int" where
  "spent m cur [] = 0"
| "spent m cur ((run, tm, e) # cs) = (if cur = m then e else 0) + spent m run cs"

fun final_mode :: "bool \<Rightarrow> sw_checkpoint list \<Rightarrow> bool" where
  "final_mode cur [] = cur"
| "final_mode cur ((run, tm, e) # cs) = final_mode run cs"

lemma run_stopwatch_refines:
  "run_stopwatch s cs = Inr s' \<Longrightarrow>
     accumulatedMs s' = accumulatedMs s + spent True (running s) cs \<and>
     pendingMs s' = pendingMs s + spent False (running s) cs \<and>
     running s' = final_mode (running s) cs"
proof (induction cs arbitrary: s)
  case (Cons c cs)
  obtain run tm e where c: "c = (run, tm, e)" by (cases c)
  with Cons.prems obtain t where t: "transitionStopwatch s run tm e = Inr t" "run_stopwatch t cs = Inr s'"
    by (auto split: sum.splits)
  from Cons.IH [OF t(2)] t(1) c show ?case by (auto simp: transitionStopwatch_Inr)
qed simp

lemma run_stopwatch_monotone:
  "run_stopwatch s cs = Inr s' \<Longrightarrow> startedAt s = Some t \<Longrightarrow>
     \<exists>t'. startedAt s' = Some t' \<and> t \<le> t' \<and> accumulatedMs s \<le> accumulatedMs s' \<and>
       pendingMs s \<le> pendingMs s'"
proof (induction cs arbitrary: s t)
  case (Cons c cs)
  obtain run tm e where c: "c = (run, tm, e)" by (cases c)
  with Cons.prems obtain u where u: "transitionStopwatch s run tm e = Inr u" "run_stopwatch u cs = Inr s'"
    by (auto split: sum.splits)
  from u(1) Cons.prems(2) obtain tu where tu: "startedAt u = Some tu" "t \<le> tu"
      "accumulatedMs s \<le> accumulatedMs u" "pendingMs s \<le> pendingMs u"
    by (auto simp: transitionStopwatch_Inr)
  from Cons.IH [OF u(2) tu(1)] tu show ?case by fastforce
qed simp

section \<open>Properties\<close>

text \<open>
  C25. After any sequence of checkpoints that succeeds, the stopwatch has accumulated exactly the
  elapsed time of the segments in which it ran, its pending time is that of the segments in which it
  was paused, and it is in the mode last asked for.
\<close>

theorem stopwatch_history:
  assumes "createStopwatch tm run = Inr s" and "run_stopwatch s cs = Inr s'"
  shows "accumulatedMs s' = spent True run cs \<and> pendingMs s' = spent False run cs
    \<and> running s' = final_mode run cs \<and> 0 \<le> accumulatedMs s' \<and> 0 \<le> pendingMs s'"
proof -
  from assms(1) have s: "accumulatedMs s = 0" "pendingMs s = 0" "running s = run"
      "\<exists>t. startedAt s = Some t"
    by (auto simp: createStopwatch_def assertDate_def split: option.splits)
  from run_stopwatch_refines [OF assms(2)] run_stopwatch_monotone [OF assms(2)] s
  show ?thesis by auto
qed

theorem stopwatch_history_witness:
  "\<exists>s s'. createStopwatch (Some 0) True = Inr s \<and>
     run_stopwatch s [(False, Some 10, 7), (True, Some 30, 5)] = Inr s' \<and>
     accumulatedMs s' = 7 \<and> pendingMs s' = 5 \<and> running s'"
proof -
  let ?s = "\<lparr>accumulatedMs = 0, pendingMs = 0, running = True, startedAt = Some 0\<rparr>"
  let ?s' = "\<lparr>accumulatedMs = 7, pendingMs = 5, running = True, startedAt = Some 30\<rparr>"
  have 1: "createStopwatch (Some 0) True = Inr ?s"
    by (simp add: createStopwatch_def assertDate_def)
  have 2: "run_stopwatch ?s [(False, Some 10, 7), (True, Some 30, 5)] = Inr ?s'"
    by (simp add: transitionStopwatch_def assertState_def assertDate_def safe_int_def)
  from stopwatch_history [OF 1 2] 1 2 show ?thesis by auto
qed

end
