(* ===== verification/Dates.thy ===== *)
theory Dates
  imports Prelude
begin

text \<open>
  The civil calendar of the \<open>Date\<close> object in UTC. A day is its number since 1970-01-01;
  \<open>make_day\<close> is the language's \<open>MakeDay\<close>, on which \<open>Date.UTC\<close> and the setters are built,
  \<open>date_of_day\<close> reads year, month and day of the month back, and \<open>date_string\<close> is the
  \<open>YYYY-MM-DD\<close> form that the code uses as a key and compares as a string. The last section
  shows that this comparison is the comparison of days.
\<close>

type_synonym day = int

definition leap :: "int \<Rightarrow> bool" where
  "leap y \<longleftrightarrow> y mod 4 = 0 \<and> (y mod 100 \<noteq> 0 \<or> y mod 400 = 0)"

text \<open>The day number of the first of January.\<close>

definition year_start :: "int \<Rightarrow> day" where
  "year_start y = 365 * (y - 1970) + (y - 1969) div 4 - (y - 1901) div 100 + (y - 1601) div 400"

text \<open>Days of the year before month \<open>m\<close>, counted from 0; 12 stands for the end of the year.\<close>

definition month_start :: "bool \<Rightarrow> int \<Rightarrow> int" where
  "month_start lp m =
     (if m \<le> 0 then 0 else if m = 1 then 31
      else (if lp then 1 else 0) +
        (if m = 2 then 59 else if m = 3 then 90 else if m = 4 then 120 else if m = 5 then 151
         else if m = 6 then 181 else if m = 7 then 212 else if m = 8 then 243 else if m = 9 then 273
         else if m = 10 then 304 else if m = 11 then 334 else 365))"

text \<open>\<open>MakeDay(year, month, date)\<close>: the month counts from 0 and may run over, as may the date.\<close>

definition make_day :: "int \<Rightarrow> int \<Rightarrow> int \<Rightarrow> day" where
  "make_day y m d =
     (let ym = y + m div 12 in year_start ym + month_start (leap ym) (m mod 12) + d - 1)"

definition year_of_day :: "day \<Rightarrow> int" where
  "year_of_day d =
     (let y = 1970 + (d * 400) div 146097
      in if d < year_start y then y - 1 else if year_start (y + 1) \<le> d then y + 1 else y)"

text \<open>The month (from 0) of the \<open>k\<close>-th day of a year.\<close>

definition month_of :: "bool \<Rightarrow> int \<Rightarrow> int" where
  "month_of lp k =
     (if k < month_start lp 1 then 0 else if k < month_start lp 2 then 1
      else if k < month_start lp 3 then 2 else if k < month_start lp 4 then 3
      else if k < month_start lp 5 then 4 else if k < month_start lp 6 then 5
      else if k < month_start lp 7 then 6 else if k < month_start lp 8 then 7
      else if k < month_start lp 9 then 8 else if k < month_start lp 10 then 9
      else if k < month_start lp 11 then 10 else 11)"

text \<open>Year, month from 1 and day of the month from 1.\<close>

definition date_of_day :: "day \<Rightarrow> int \<times> int \<times> int" where
  "date_of_day d =
     (let y = year_of_day d; k = d - year_start y; m = month_of (leap y) k
      in (y, m + 1, k - month_start (leap y) m + 1))"

definition days_in_month :: "int \<Rightarrow> int \<Rightarrow> int" where
  "days_in_month y m = month_start (leap y) (m + 1) - month_start (leap y) m"

text \<open>The weekday, 0 for Sunday.\<close>

definition weekday_of_day :: "day \<Rightarrow> int" where
  "weekday_of_day d = (d + 4) mod 7"

definition digits_padded :: "nat \<Rightarrow> int \<Rightarrow> string" where
  "digits_padded w n = pad_start w CHR ''0'' (js_nat_string (nat n))"

definition ymd_string :: "int \<Rightarrow> int \<Rightarrow> int \<Rightarrow> string" where
  "ymd_string y m d = digits_padded 4 y @ ''-'' @ digits_padded 2 m @ ''-'' @ digits_padded 2 d"

definition date_string :: "day \<Rightarrow> string" where
  "date_string d = (case date_of_day d of (y, m, dd) \<Rightarrow> ymd_string y m dd)"

section \<open>Years and months partition the days\<close>

lemma div_step:
  assumes "0 < (n::int)"
  shows "(x + 1) div n = x div n + (if (x + 1) mod n = 0 then 1 else 0)"
proof -
  have x: "x = n * (x div n) + x mod n" by simp
  have r: "0 \<le> x mod n" "x mod n < n" using assms by simp_all
  show ?thesis
  proof (cases "x mod n + 1 = n")
    case True
    then have "x + 1 = n * (x div n + 1) + 0" using x unfolding distrib_left by linarith
    then have "(x + 1) div n = x div n + 1" "(x + 1) mod n = 0"
      using assms int_div_pos_eq [of "x + 1" n "x div n + 1" 0] int_mod_pos_eq [of "x + 1" n "x div n + 1" 0]
      by auto
    then show ?thesis by simp
  next
    case False
    then have e: "x + 1 = n * (x div n) + (x mod n + 1)" "x mod n + 1 < n" using x r by auto
    then have "(x + 1) div n = x div n" "(x + 1) mod n = x mod n + 1"
      using r int_div_pos_eq [of "x + 1" n "x div n" "x mod n + 1"] int_mod_pos_eq [of "x + 1" n "x div n" "x mod n + 1"]
      by auto
    then show ?thesis using r by simp
  qed
qed

lemma div_shift_step:
  assumes "0 < n" and "n dvd k - 1"
  shows "((y::int) + 1 - k) div n = (y - k) div n + (if y mod n = 0 then 1 else 0)"
proof -
  have m: "(y - (k - 1)) mod n = 0 \<longleftrightarrow> y mod n = 0"
    unfolding mod_eq_0_iff_dvd using assms(2) by (rule dvd_diff_left_iff)
  have a: "y + 1 - k = y - k + 1" and b: "y - k + 1 = y - (k - 1)" by (rule add_diff_eq [symmetric] | simp)+
  show ?thesis unfolding a div_step [OF assms(1)] unfolding b m ..
qed

lemma div_bounds:
  assumes "0 < (n::int)"
  shows "n * (x div n) \<le> x" and "x < n * (x div n) + n"
proof -
  define q r where "q = x div n" and "r = x mod n"
  have "n * q + r = x" "0 \<le> r" "r < n" using assms by (simp_all add: q_def r_def)
  then have "n * q \<le> x \<and> x < n * q + n" by auto
  then show "n * (x div n) \<le> x" "x < n * (x div n) + n"
    by (simp_all only: q_def)
qed

lemma leap_days:
  "(C \<longrightarrow> B) \<Longrightarrow> (B \<longrightarrow> A) \<Longrightarrow> (if A \<and> (\<not> B \<or> C) then 366 else 365 :: int) =
     365 + (if A then 1 else 0) - (if B then 1 else 0) + (if C then 1 else 0)"
  by (cases A; cases B; cases C) simp_all

lemma year_sum:
  "365 * (y + 1 - 1970) + (a + i) - (b + j) + (c + k) =
     365 * (y - 1970) + a - b + c + (365 + i - j + k :: int)"
  by simp

lemma year_bounds:
  fixes a b c y :: int
  assumes "4 * a \<le> y - 1969" "y - 1969 < 4 * a + 4" "100 * b \<le> y - 1901" "y - 1901 < 100 * b + 100"
    "400 * c \<le> y - 1601" "y - 1601 < 400 * c + 400"
  shows "146097 * (y - 1970) - 600 \<le> 400 * (365 * (y - 1970) + a - b + c)"
    and "400 * (365 * (y - 1970) + a - b + c) \<le> 146097 * (y - 1970) + 600"
  using assms by simp_all

lemma year_start_Suc: "year_start (y + 1) = year_start y + (if leap y then 366 else 365)"
proof -
  have "y mod 400 = 0 \<longrightarrow> y mod 100 = 0" "y mod 100 = 0 \<longrightarrow> y mod 4 = 0"
    unfolding mod_eq_0_iff_dvd using dvd_trans [of 4 100 y] dvd_trans [of 100 400 y] by simp_all
  note l = leap_days [OF this]
  have s: "(y + 1 - 1969) div 4 = (y - 1969) div 4 + (if y mod 4 = 0 then 1 else 0)"
    "(y + 1 - 1901) div 100 = (y - 1901) div 100 + (if y mod 100 = 0 then 1 else 0)"
    "(y + 1 - 1601) div 400 = (y - 1601) div 400 + (if y mod 400 = 0 then 1 else 0)"
    by (rule div_shift_step; simp)+
  show ?thesis unfolding year_start_def leap_def s l by (rule year_sum)
qed

lemma year_start_strict: "y < y' \<Longrightarrow> year_start y + 365 \<le> year_start y'"
proof (induction y' rule: int_gr_induct [of y])
  case base
  then show ?case by (simp add: year_start_Suc)
next
  case (step i)
  then show ?case by (simp add: year_start_Suc)
qed

lemma year_start_mono: "y \<le> y' \<Longrightarrow> year_start y \<le> year_start y'"
  using year_start_strict [of y y'] by (cases "y = y'") auto

lemma year_start_bounds:
  "146097 * (y - 1970) - 600 \<le> 400 * year_start y"
  "400 * year_start y \<le> 146097 * (y - 1970) + 600"
proof -
  have b: "4 * ((y - 1969) div 4) \<le> y - 1969" "y - 1969 < 4 * ((y - 1969) div 4) + 4"
    "100 * ((y - 1901) div 100) \<le> y - 1901" "y - 1901 < 100 * ((y - 1901) div 100) + 100"
    "400 * ((y - 1601) div 400) \<le> y - 1601" "y - 1601 < 400 * ((y - 1601) div 400) + 400"
    by (rule div_bounds; simp)+
  show "146097 * (y - 1970) - 600 \<le> 400 * year_start y"
    unfolding year_start_def by (rule year_bounds [OF b])
  show "400 * year_start y \<le> 146097 * (y - 1970) + 600"
    unfolding year_start_def by (rule year_bounds [OF b])
qed

lemma year_of_day_bounds: "year_start (year_of_day d) \<le> d \<and> d < year_start (year_of_day d + 1)"
proof -
  define q where "q = (d * 400) div 146097"
  have q: "146097 * q \<le> d * 400" "d * 400 < 146097 * q + 146097"
    using div_bounds [of 146097 "d * 400"] by (simp_all add: q_def)
  note b = year_start_bounds [of "1970 + q"] year_start_bounds [of "1971 + q"]
  have n: "year_start (1971 + q) = year_start (1970 + q) + (if leap (1970 + q) then 366 else 365)"
    "year_start (1970 + q) = year_start (1969 + q) + (if leap (1969 + q) then 366 else 365)"
    "year_start (1972 + q) = year_start (1971 + q) + (if leap (1971 + q) then 366 else 365)"
    using year_start_Suc [of "1970 + q"] year_start_Suc [of "1969 + q"] year_start_Suc [of "1971 + q"]
    by (simp_all add: algebra_simps)
  have "400 * year_start (1970 + q) \<le> 146097 * q + 600" "146097 * (q + 1) - 600 \<le> 400 * year_start (1971 + q)"
    using b by (simp_all add: algebra_simps)
  then have lo: "year_start (1969 + q) \<le> d" and hi: "d < year_start (1972 + q)"
    using q n(2,3) by (cases "leap (1969 + q)"; cases "leap (1971 + q)"; simp)+
  have y: "year_of_day d = (if d < year_start (1970 + q) then 1969 + q
      else if year_start (1971 + q) \<le> d then 1971 + q else 1970 + q)"
    by (simp add: year_of_day_def Let_def q_def add.commute)
  consider "d < year_start (1970 + q)" | "year_start (1970 + q) \<le> d" "year_start (1971 + q) \<le> d"
    | "year_start (1970 + q) \<le> d" "d < year_start (1971 + q)" by linarith
  then show ?thesis
    by cases (use lo hi in \<open>simp_all add: y add.commute\<close>)
qed

lemma year_of_day_unique: "year_start y \<le> d \<Longrightarrow> d < year_start (y + 1) \<Longrightarrow> year_of_day d = y"
  using year_of_day_bounds [of d] year_start_mono [of "y + 1" "year_of_day d"]
    year_start_mono [of "year_of_day d + 1" y]
  by linarith

lemma month_start_values [simp]:
  "month_start lp 0 = 0" "month_start lp 1 = 31" "month_start True 12 = 366" "month_start False 12 = 365"
  by (simp_all add: month_start_def)

lemma month_cases:
  assumes "0 \<le> (m::int)" and "m < 12"
  obtains "m = 0" | "m = 1" | "m = 2" | "m = 3" | "m = 4" | "m = 5" | "m = 6" | "m = 7" | "m = 8"
    | "m = 9" | "m = 10" | "m = 11"
proof -
  have "m = 0 \<or> m = 1 \<or> m = 2 \<or> m = 3 \<or> m = 4 \<or> m = 5 \<or> m = 6 \<or> m = 7 \<or> m = 8 \<or> m = 9
    \<or> m = 10 \<or> m = 11"
    using assms by presburger
  then show thesis using that by argo
qed

lemma month_start_step: "0 \<le> m \<Longrightarrow> m < 12 \<Longrightarrow> month_start lp m + 28 \<le> month_start lp (m + 1)"
  by (erule month_cases, assumption) (simp_all add: month_start_def)

lemma days_in_month_bounds: "0 \<le> m \<Longrightarrow> m < 12 \<Longrightarrow> 28 \<le> days_in_month y m \<and> days_in_month y m \<le> 31"
  by (erule month_cases, assumption) (simp_all add: month_start_def days_in_month_def)

lemma month_of_unique:
  "0 \<le> m \<Longrightarrow> m < 12 \<Longrightarrow> month_start lp m \<le> k \<Longrightarrow> k < month_start lp (m + 1) \<Longrightarrow> month_of lp k = m"
  by (erule month_cases, assumption; cases lp) (simp_all add: month_start_def month_of_def)

lemma month_of_bounds:
  assumes "0 \<le> k" and "k < month_start lp 12"
  shows "0 \<le> month_of lp k \<and> month_of lp k < 12 \<and>
    month_start lp (month_of lp k) \<le> k \<and> k < month_start lp (month_of lp k + 1)"
  using assms by (cases lp) (auto simp: month_of_def month_start_def)

lemma date_of_day_bounds:
  assumes "date_of_day d = (y, m, dd)"
  shows "1 \<le> m \<and> m \<le> 12 \<and> 1 \<le> dd \<and> dd \<le> days_in_month y (m - 1) \<and>
    d = year_start y + month_start (leap y) (m - 1) + dd - 1"
proof -
  let ?k = "d - year_start y"
  have y: "y = year_of_day d" and m: "m = month_of (leap y) ?k + 1"
    and dd: "dd = ?k - month_start (leap y) (m - 1) + 1"
    using assms by (auto simp: date_of_day_def Let_def)
  have "0 \<le> ?k" "?k < month_start (leap y) 12"
    using year_of_day_bounds [of d] year_start_Suc [of y] y by (auto split: if_splits)
  then show ?thesis
    using month_of_bounds [of ?k "leap y"] m dd by (auto simp: days_in_month_def)
qed

lemma date_of_day_unique:
  assumes "1 \<le> m" "m \<le> 12" "1 \<le> dd" "dd \<le> days_in_month y (m - 1)"
  shows "date_of_day (year_start y + month_start (leap y) (m - 1) + dd - 1) = (y, m, dd)"
proof -
  let ?k = "month_start (leap y) (m - 1) + dd - 1"
  have k: "month_start (leap y) (m - 1) \<le> ?k" "?k < month_start (leap y) (m - 1 + 1)"
    using assms by (auto simp: days_in_month_def)
  then have mo: "month_of (leap y) ?k = m - 1"
    using assms by (intro month_of_unique) auto
  have "0 \<le> month_start (leap y) (m - 1)" "month_start (leap y) m \<le> month_start (leap y) 12"
    using assms by (auto simp: month_start_def)
  then have "0 \<le> ?k \<and> ?k < (if leap y then 366 else 365)"
    using k by (auto split: if_splits)
  then have "year_of_day (year_start y + ?k) = y"
    by (intro year_of_day_unique) (auto simp: year_start_Suc)
  then have "date_of_day (year_start y + ?k) = (y, m, dd)"
    using mo by (simp add: date_of_day_def Let_def)
  then show ?thesis by (simp add: add.assoc add_diff_eq)
qed

text \<open>\<open>Date.UTC\<close> and the readers are inverse, and \<open>MakeDay\<close> is linear in the date.\<close>

lemma make_day_of_date: "date_of_day d = (y, m, dd) \<Longrightarrow> make_day y (m - 1) dd = d"
  using date_of_day_bounds [of d y m dd] by (simp add: make_day_def)

lemma date_of_make_day:
  "1 \<le> m \<Longrightarrow> m \<le> 12 \<Longrightarrow> 1 \<le> dd \<Longrightarrow> dd \<le> days_in_month y (m - 1) \<Longrightarrow>
     date_of_day (make_day y (m - 1) dd) = (y, m, dd)"
  using date_of_day_unique [of m dd y] by (simp add: make_day_def)

lemma make_day_add: "make_day y m (d + n) = make_day y m d + n"
  by (simp add: make_day_def Let_def)

section \<open>The order of the date keys\<close>

fun fixed_digits :: "nat \<Rightarrow> nat \<Rightarrow> string" where
  "fixed_digits 0 n = []"
| "fixed_digits (Suc w) n = fixed_digits w (n div 10) @ [char_of (48 + n mod 10)]"

lemma length_fixed_digits [simp]: "length (fixed_digits w n) = w"
  by (induction w arbitrary: n) auto

lemma fixed_digits_zero: "fixed_digits w 0 = replicate w CHR ''0''"
proof (induction w)
  case (Suc w)
  have "(char_of (48 + 0 mod 10 :: nat) :: char) = CHR ''0''" by code_simp
  with Suc show ?case by (simp only: fixed_digits.simps div_0 replicate_append_same replicate_Suc)
qed simp

lemma digits_padded_fixed:
  "0 < w \<Longrightarrow> n < 10 ^ w \<Longrightarrow> pad_start w CHR ''0'' (js_nat_string n) = fixed_digits w n"
proof (induction w arbitrary: n)
  case (Suc w)
  show ?case
  proof (cases "n < 10")
    case True
    then have "js_nat_string n = [char_of (48 + n mod 10)]"
      by (simp add: js_nat_string_def digits_rev.simps [of n])
    then show ?thesis using True by (simp add: pad_start_def fixed_digits_zero)
  next
    case False
    then have "js_nat_string n = js_nat_string (n div 10) @ [char_of (48 + n mod 10)]"
      by (simp add: js_nat_string_def digits_rev.simps [of n] Let_def)
    moreover have "0 < w" using False Suc.prems by (cases w) auto
    moreover have "n div 10 < 10 ^ w" using Suc.prems by (simp add: div_less_iff_less_mult mult.commute)
    ultimately show ?thesis using Suc.IH [of "n div 10"] by (simp add: pad_start_def)
  qed
qed simp

lemma list_less_append_same_length:
  "length xs = length ys \<Longrightarrow>
     (xs @ us < ys @ vs) = (xs < ys \<or> (xs = ys \<and> us < (vs :: 'a::linorder list)))"
  by (induction xs ys rule: list_induct2) auto

lemma digit_less: "a < 10 \<Longrightarrow> b < 10 \<Longrightarrow>
  ((char_of (48 + a) :: char) < char_of (48 + b)) = ((a::nat) < b)"
  by (simp add: less_char_def)

lemma digit_eq: "a < 10 \<Longrightarrow> b < 10 \<Longrightarrow>
  ((char_of (48 + a) :: char) = char_of (48 + b)) = ((a::nat) = b)"
  by (simp add: char_of_eq_iff take_bit_eq_mod)

lemma fixed_digits_eq: "n < 10 ^ w \<Longrightarrow> m < 10 ^ w \<Longrightarrow> (fixed_digits w n = fixed_digits w m) = (n = m)"
proof (induction w arbitrary: n m)
  case (Suc w)
  have "(n div 10 = m div 10 \<and> n mod 10 = m mod 10) = (n = m)"
    by (metis div_mult_mod_eq)
  with Suc show ?case by (simp add: digit_eq div_less_iff_less_mult mult.commute)
qed simp

lemma fixed_digits_less: "n < 10 ^ w \<Longrightarrow> m < 10 ^ w \<Longrightarrow> (fixed_digits w n < fixed_digits w m) = (n < m)"
proof (induction w arbitrary: n m)
  case (Suc w)
  have b: "n div 10 < 10 ^ w" "m div 10 < 10 ^ w"
    using Suc.prems by (simp_all add: div_less_iff_less_mult mult.commute)
  define a b c d where "a = n div 10" and "b = n mod 10" and "c = m div 10" and "d = m mod 10"
  have "n = 10 * a + b" "m = 10 * c + d" "b < 10" "d < 10"
    by (simp_all add: a_def b_def c_def d_def)
  then have "(n div 10 < m div 10 \<or> (n div 10 = m div 10 \<and> n mod 10 < m mod 10)) = (n < m)"
    unfolding a_def [symmetric] b_def [symmetric] c_def [symmetric] d_def [symmetric] by auto
  with b show ?case
    by (simp add: list_less_append_same_length Suc.IH fixed_digits_eq digit_less)
qed simp

lemma month_start_mono: "0 \<le> a \<Longrightarrow> a \<le> c \<Longrightarrow> c \<le> 12 \<Longrightarrow> month_start l a \<le> month_start l c"
proof -
  assume a: "0 \<le> a"
  have "a \<le> c \<Longrightarrow> c \<le> 12 \<longrightarrow> month_start l a \<le> month_start l c"
  proof (induction c rule: int_ge_induct)
    case (step i)
    then show ?case using month_start_step [of i l] a by (cases "i < 12") auto
  qed simp
  then show "a \<le> c \<Longrightarrow> c \<le> 12 \<Longrightarrow> ?thesis" by blast
qed

lemma date_of_day_less:
  assumes "date_of_day d = (y, m, dd)" "date_of_day d' = (y', m', dd')"
  shows "d < d' \<longleftrightarrow> y < y' \<or> (y = y' \<and> (m < m' \<or> (m = m' \<and> dd < dd')))"
proof -
  note b = date_of_day_bounds [OF assms(1)] and b' = date_of_day_bounds [OF assms(2)]
  have lt: "e < e'" if e: "date_of_day e = (y1, m1, d1)" "date_of_day e' = (y2, m2, d2)"
    and l: "y1 < y2 \<or> (y1 = y2 \<and> (m1 < m2 \<or> (m1 = m2 \<and> d1 < d2)))" for e e' y1 m1 d1 y2 m2 d2
  proof -
    note c = date_of_day_bounds [OF e(1)] and c' = date_of_day_bounds [OF e(2)]
    consider "y1 < y2" | "y1 = y2" "m1 < m2" | "y1 = y2" "m1 = m2" "d1 < d2" using l by blast
    then show ?thesis
    proof cases
      case 1
      have y: "y1 = year_of_day e" "y2 = year_of_day e'"
        using e by (auto simp: date_of_day_def Let_def)
      have "year_start (y1 + 1) \<le> year_start y2" using 1 by (intro year_start_mono) simp
      then show ?thesis using year_of_day_bounds [of e] year_of_day_bounds [of e'] unfolding y by simp
    next
      case 2
      then have "month_start (leap y1) (m1 - 1 + 1) \<le> month_start (leap y1) (m2 - 1)"
        using c c' by (intro month_start_mono) auto
      then show ?thesis using c c' 2 by (simp add: days_in_month_def)
    next
      case 3
      then show ?thesis using c c' by simp
    qed
  qed
  show ?thesis using lt [OF assms] lt [OF assms(2,1)] b b' by (metis less_asym linorder_neqE_linordered_idom)
qed

text \<open>Comparing the keys as strings is comparing the days, from the year 0 to the year 9999.\<close>

lemma date_string_less:
  assumes "0 \<le> year_of_day d" "year_of_day d \<le> 9999" "0 \<le> year_of_day d'" "year_of_day d' \<le> 9999"
  shows "date_string d < date_string d' \<longleftrightarrow> d < d'"
proof -
  obtain y m dd y' m' dd' where e: "date_of_day d = (y, m, dd)" "date_of_day d' = (y', m', dd')"
    by (metis prod_cases3)
  have y: "0 \<le> y" "y \<le> 9999" "0 \<le> y'" "y' \<le> 9999"
    using e assms by (auto simp: date_of_day_def Let_def)
  note b = date_of_day_bounds [OF e(1)] date_of_day_bounds [OF e(2)]
  have dm: "dd < 100" "dd' < 100"
    using b days_in_month_bounds [of "m - 1" y] days_in_month_bounds [of "m' - 1" y'] by auto
  have f: "digits_padded 4 y = fixed_digits 4 (nat y)" "digits_padded 4 y' = fixed_digits 4 (nat y')"
    "digits_padded 2 m = fixed_digits 2 (nat m)" "digits_padded 2 m' = fixed_digits 2 (nat m')"
    "digits_padded 2 dd = fixed_digits 2 (nat dd)" "digits_padded 2 dd' = fixed_digits 2 (nat dd')"
    unfolding digits_padded_def using b y dm by (auto intro!: digits_padded_fixed)
  have l: "(fixed_digits 4 (nat y) < fixed_digits 4 (nat y')) = (y < y')"
    "(fixed_digits 4 (nat y) = fixed_digits 4 (nat y')) = (y = y')"
    "(fixed_digits 2 (nat m) < fixed_digits 2 (nat m')) = (m < m')"
    "(fixed_digits 2 (nat m) = fixed_digits 2 (nat m')) = (m = m')"
    "(fixed_digits 2 (nat dd) < fixed_digits 2 (nat dd')) = (dd < dd')"
    using fixed_digits_less [of "nat y" 4 "nat y'"] fixed_digits_eq [of "nat y" 4 "nat y'"]
      fixed_digits_less [of "nat m" 2 "nat m'"] fixed_digits_eq [of "nat m" 2 "nat m'"]
      fixed_digits_less [of "nat dd" 2 "nat dd'"] y b dm
    by (auto simp: nat_less_iff)
  show ?thesis
    by (simp add: date_string_def e ymd_string_def f list_less_append_same_length l
        date_of_day_less [OF e] del: fixed_digits.simps)
qed
section \<open>Reading digits\<close>

text \<open>A digit of a pattern, and the number that a run of digits is.\<close>

definition is_digit :: "char \<Rightarrow> bool" where
  "is_digit c = (let n = of_char c :: nat in 48 \<le> n \<and> n \<le> 57)"

definition digits_value :: "string \<Rightarrow> nat" where
  "digits_value s = foldl (\<lambda>n c. 10 * n + (of_char c - 48)) 0 s"

lemma is_digit_char: "is_digit (char_of (48 + (n :: nat) mod 10))"
proof -
  have "n mod 10 < 10" by simp
  then have "(48 + n mod 10) mod 256 = 48 + n mod 10" by (intro mod_less) linarith
  then have "(of_char (char_of (48 + n mod 10) :: char) :: nat) = 48 + n mod 10" by (simp only: of_char_of) 
  then show ?thesis using \<open>n mod 10 < 10\<close> by (simp add: is_digit_def)
qed

lemma fixed_digits_are_digits: "list_all is_digit (fixed_digits w n)"
  by (induction w arbitrary: n) (simp_all add: is_digit_char)

lemma digits_value_snoc: "digits_value (s @ [c]) = 10 * digits_value s + (of_char c - 48)"
  by (simp add: digits_value_def)

lemma digits_value_fixed: "n < 10 ^ w \<Longrightarrow> digits_value (fixed_digits w n) = n"
proof (induction w arbitrary: n)
  case (Suc w)
  then have "n div 10 < 10 ^ w" by (simp add: div_less_iff_less_mult mult.commute)
  with Suc show ?case by (simp add: digits_value_snoc)
qed (simp add: digits_value_def)

lemma read_digits:
  assumes "list_all is_digit s"
  shows "fixed_digits (length s) (digits_value s) = s" and "digits_value s < 10 ^ length s"
proof -
  have "fixed_digits (length s) (digits_value s) = s \<and> digits_value s < 10 ^ length s"
    using assms
  proof (induction s rule: rev_induct)
    case (snoc c s)
    have c: "(of_char c :: nat) - 48 < 10" "48 \<le> (of_char c :: nat)"
      using snoc.prems by (auto simp: is_digit_def Let_def)
    then have "(char_of (48 + (of_char c - 48 :: nat)) :: char) = c" by simp
    then have "(char_of (48 + (10 * digits_value s + (of_char c - 48)) mod 10) :: char) = c" using c(1) by simp
    moreover have "(10 * digits_value s + (of_char c - 48)) div 10 = digits_value s" using c(1) by simp
    moreover have "10 * digits_value s + (of_char c - 48) < 10 * 10 ^ length s"
      using snoc c(1) by simp
    ultimately show ?case using snoc by (simp only: digits_value_snoc list_all_append length_append) simp
  qed (simp add: digits_value_def)
  then show "fixed_digits (length s) (digits_value s) = s" "digits_value s < 10 ^ length s" by blast+
qed

lemma js_nat_string_digits: "list_all is_digit (js_nat_string n)"
proof -
  have "list_all is_digit (digits_rev n)"
  proof (induction n rule: digits_rev.induct)
    case (1 n)
    then show ?case using is_digit_char [of n] by (subst digits_rev.simps) (simp only: Let_def list.pred_inject split: if_split, simp)
  qed
  then show ?thesis by (simp add: js_nat_string_def list_all_iff)
qed

lemma digits_value_nat_string [simp]: "digits_value (js_nat_string n) = n"
proof (induction n rule: digits_rev.induct)
  case (1 n)
  have last: "of_char (char_of (48 + n mod 10) :: char) - 48 = n mod 10"
    using digits_value_fixed [of "n mod 10" 1] by (simp add: digits_value_def)
  show ?case
  proof (cases "n < 10")
    case True
    then show ?thesis using last by (simp add: js_nat_string_def digits_rev.simps [of n] Let_def digits_value_def)
  next
    case False
    then have "js_nat_string n = js_nat_string (n div 10) @ [char_of (48 + n mod 10)]"
      by (simp add: js_nat_string_def digits_rev.simps [of n] Let_def)
    moreover have "digits_value (js_nat_string (n div 10)) = n div 10" using 1 False by simp
    ultimately show ?thesis using last by (simp only: digits_value_snoc) (simp add: mult_div_mod_eq)
  qed
qed

lemma digits_value_pad [simp]: "digits_value (pad_start k CHR ''0'' s) = digits_value s"
proof -
  have "foldl (\<lambda>n c. 10 * n + (of_char c - 48)) 0 (replicate m CHR ''0'') = (0 :: nat)" for m
    by (induction m) simp_all
  then show ?thesis by (simp add: digits_value_def pad_start_def)
qed

lemma split_at_dash:
  "list_all is_digit a \<Longrightarrow> list_all is_digit b \<Longrightarrow> a @ CHR ''-'' # x = b @ CHR ''-'' # y \<Longrightarrow> a = b \<and> x = y"
proof (induction a arbitrary: b)
  case Nil
  have "\<not> is_digit CHR ''-''" by (simp add: is_digit_def)
  with Nil show ?case by (cases b) auto
next
  case (Cons c a)
  have "\<not> is_digit CHR ''-''" by (simp add: is_digit_def)
  with Cons show ?case by (cases b) auto
qed

end
