(* ===== verification/WorkingDays.thy ===== *)
theory WorkingDays
  imports Dates
begin

text \<open>
  The loops of \<open>server/sla/calendar.ts\<close> over working intervals, and the interface \<open>working_days\<close> they
  rely on: days that partition the time line, in each day sorted disjoint intervals. Inside it the
  three walks are characterised by the set of working milliseconds: the elapsed time counts them,
  and adding or subtracting stops exactly where the count is reached.
\<close>

section \<open>Walking over intervals\<close>

type_synonym interval = "ms \<times> ms"

text \<open>\<open>Math.max(0, Math.min(end, interval.end) - Math.max(from, interval.start))\<close>.\<close>

definition overlap :: "ms \<Rightarrow> ms \<Rightarrow> interval \<Rightarrow> int" where
  "overlap from til iv = max 0 (min til (snd iv) - max from (fst iv))"

text \<open>The inner loop of \<open>addWorkingMs\<close>: \<open>Inl\<close> is its \<open>return\<close>, \<open>Inr\<close> what remains.\<close>

fun add_intervals :: "interval list \<Rightarrow> int \<Rightarrow> ms \<Rightarrow> ms + int" where
  "add_intervals [] remaining cursor = Inr remaining"
| "add_intervals (iv # ivs) remaining cursor =
     (let start = max cursor (fst iv)
      in if snd iv \<le> start then add_intervals ivs remaining cursor
         else let available = snd iv - start
              in if remaining \<le> available then Inl (start + remaining)
                 else add_intervals ivs (remaining - available) cursor)"

text \<open>The inner loop of \<open>subtractWorkingMs\<close>, on the reversed intervals.\<close>

fun sub_intervals :: "interval list \<Rightarrow> int \<Rightarrow> ms \<Rightarrow> ms + int" where
  "sub_intervals [] remaining cursor = Inr remaining"
| "sub_intervals (iv # ivs) remaining cursor =
     (let fin = min cursor (snd iv)
      in if fin \<le> fst iv then sub_intervals ivs remaining cursor
         else let available = fin - fst iv
              in if remaining \<le> available then Inl (fin - remaining)
                 else sub_intervals ivs (remaining - available) cursor)"

definition covered :: "interval list \<Rightarrow> ms set" where
  "covered ivs = (\<Union>iv\<in>set ivs. {fst iv..<snd iv})"

definition disjoint_sorted :: "interval list \<Rightarrow> bool" where
  "disjoint_sorted ivs \<longleftrightarrow>
     sorted_wrt (\<lambda>a b. snd a \<le> fst b) ivs \<and> (\<forall>iv\<in>set ivs. fst iv < snd iv)"

lemma covered_simps [simp]:
  "covered [] = {}" "covered (iv # ivs) = {fst iv..<snd iv} \<union> covered ivs"
  "covered (as @ bs) = covered as \<union> covered bs" "covered (rev ivs) = covered ivs"
  by (auto simp: covered_def)

lemma disjoint_sorted_simps [simp]:
  "disjoint_sorted []"
  "disjoint_sorted (iv # ivs) \<longleftrightarrow> fst iv < snd iv \<and> (\<forall>b\<in>set ivs. snd iv \<le> fst b) \<and> disjoint_sorted ivs"
  "disjoint_sorted (ivs @ [iv]) \<longleftrightarrow> fst iv < snd iv \<and> (\<forall>b\<in>set ivs. snd b \<le> fst iv) \<and> disjoint_sorted ivs"
  by (auto simp: disjoint_sorted_def sorted_wrt_append)

lemma covered_after: "\<forall>b\<in>set ivs. x \<le> fst b \<Longrightarrow> t \<in> covered ivs \<Longrightarrow> x \<le> t"
  by (auto simp: covered_def)

lemma covered_before: "\<forall>b\<in>set ivs. snd b \<le> x \<Longrightarrow> t \<in> covered ivs \<Longrightarrow> t < x"
  by (auto simp: covered_def)

lemma finite_covered [simp]: "finite (covered ivs)"
  by (simp add: covered_def)

lemma card_int_Un: "finite A \<Longrightarrow> finite B \<Longrightarrow> A \<inter> B = {} \<Longrightarrow> int (card (A \<union> B)) = int (card A) + int (card B)"
  by (simp add: card_Un_disjoint)

text \<open>The loop of \<open>elapsedWorkingMs\<close> over the intervals of a day counts covered milliseconds.\<close>

lemma sum_overlap:
  "disjoint_sorted ivs \<Longrightarrow> (\<Sum>iv\<leftarrow>ivs. overlap a b iv) = int (card (covered ivs \<inter> {a..<b}))"
proof (induction ivs)
  case (Cons iv ivs)
  have d: "({fst iv..<snd iv} \<inter> {a..<b}) \<inter> (covered ivs \<inter> {a..<b}) = {}"
    using Cons.prems covered_after [of ivs "snd iv"] by fastforce
  have c: "overlap a b iv = int (card ({fst iv..<snd iv} \<inter> {a..<b}))"
    by (auto simp: overlap_def max_def min_def)
  have e: "covered (iv # ivs) \<inter> {a..<b} = ({fst iv..<snd iv} \<inter> {a..<b}) \<union> (covered ivs \<inter> {a..<b})"
    by auto
  show ?case unfolding e using Cons d c by (subst card_int_Un) auto
qed simp

lemma add_intervals_spec:
  assumes "disjoint_sorted ivs" and "0 < r"
  shows "case add_intervals ivs r c of
      Inl t \<Rightarrow> c < t \<and> int (card (covered ivs \<inter> {c..<t})) = r \<and> t - 1 \<in> covered ivs
    | Inr r' \<Rightarrow> 0 < r' \<and> int (card (covered ivs \<inter> {c..})) = r - r'"
  using assms
proof (induction ivs arbitrary: r)
  case (Cons iv ivs)
  obtain s e where iv: "iv = (s, e)" by (cases iv)
  have ds: "s < e" "\<forall>b\<in>set ivs. e \<le> fst b" "disjoint_sorted ivs"
    using Cons.prems iv by auto
  define st where "st = max c s"
  have after: "\<And>t. t \<in> covered ivs \<Longrightarrow> e \<le> t" using ds(2) covered_after by blast
  consider "e \<le> st" | "st < e" "r \<le> e - st" | "st < e" "e - st < r" by linarith
  then show ?case
  proof cases
    case 1
    then have "e \<le> c" using ds(1) by (simp add: st_def)
    then have "covered (iv # ivs) \<inter> {c..} = covered ivs \<inter> {c..}"
      "\<And>t. covered (iv # ivs) \<inter> {c..<t} = covered ivs \<inter> {c..<t}"
      using iv by auto
    then show ?thesis
      using Cons.IH [OF ds(3) Cons.prems(2)] 1 iv by (auto simp: st_def simp del: covered_simps split: sum.splits)
  next
    case 2
    then have r: "add_intervals (iv # ivs) r c = Inl (st + r)" by (auto simp: iv st_def Let_def)
    have "covered (iv # ivs) \<inter> {c..<st + r} = {st..<st + r}"
      using 2 after iv by (fastforce simp: st_def)
    then show ?thesis using r 2 Cons.prems(2) iv by (auto simp: st_def)
  next
    case 3
    then have r: "add_intervals (iv # ivs) r c = add_intervals ivs (r - (e - st)) c"
      by (auto simp: iv st_def Let_def)
    have split: "int (card (covered (iv # ivs) \<inter> X)) = (e - st) + int (card (covered ivs \<inter> X))"
      if X: "X \<subseteq> {c..}" "{st..<e} \<subseteq> X" for X
    proof -
      have "covered (iv # ivs) \<inter> X = {st..<e} \<union> (covered ivs \<inter> X)"
        using X iv by (auto simp: st_def)
      moreover have "{st..<e} \<inter> (covered ivs \<inter> X) = {}" using after by fastforce
      ultimately show ?thesis using 3 by (simp add: card_int_Un)
    qed
    have a: "{st..<e} \<subseteq> {c..}" by (auto simp: st_def)
    have b: "{st..<e} \<subseteq> {c..<t}" if "t - 1 \<in> covered ivs" for t
      using after [OF that] by (auto simp: st_def)
    have s1: "int (card (covered (iv # ivs) \<inter> {c..})) = (e - st) + int (card (covered ivs \<inter> {c..}))"
      by (rule split [OF _ a]) simp
    have s2: "int (card (covered (iv # ivs) \<inter> {c..<t})) = (e - st) + int (card (covered ivs \<inter> {c..<t}))"
      if "t - 1 \<in> covered ivs" for t
      by (rule split [OF _ b [OF that]]) auto
    show ?thesis
      using Cons.IH [OF ds(3), of "r - (e - st)"] 3 s1 s2 unfolding r
      by (auto split: sum.splits simp del: covered_simps) simp
  qed
qed simp

lemma sub_intervals_spec:
  assumes "disjoint_sorted (rev ivs)" and "0 < r"
  shows "case sub_intervals ivs r c of
      Inl t \<Rightarrow> t < c \<and> int (card (covered ivs \<inter> {t..<c})) = r \<and> t \<in> covered ivs
    | Inr r' \<Rightarrow> 0 < r' \<and> int (card (covered ivs \<inter> {..<c})) = r - r'"
  using assms
proof (induction ivs arbitrary: r)
  case (Cons iv ivs)
  obtain s e where iv: "iv = (s, e)" by (cases iv)
  have ds: "s < e" "\<forall>b\<in>set ivs. snd b \<le> s" "disjoint_sorted (rev ivs)"
    using Cons.prems iv by auto
  define en where "en = min c e"
  have before: "\<And>t. t \<in> covered ivs \<Longrightarrow> t < s" using ds(2) covered_before by blast
  consider "en \<le> s" | "s < en" "r \<le> en - s" | "s < en" "en - s < r" by linarith
  then show ?case
  proof cases
    case 1
    then have "c \<le> s" using ds(1) by (simp add: en_def)
    then have "covered (iv # ivs) \<inter> {..<c} = covered ivs \<inter> {..<c}"
      "\<And>t. covered (iv # ivs) \<inter> {t..<c} = covered ivs \<inter> {t..<c}"
      using iv by auto
    then show ?thesis
      using Cons.IH [OF ds(3) Cons.prems(2)] 1 iv by (auto simp: en_def simp del: covered_simps split: sum.splits)
  next
    case 2
    then have r: "sub_intervals (iv # ivs) r c = Inl (en - r)" by (auto simp: iv en_def Let_def)
    have "covered (iv # ivs) \<inter> {en - r..<c} = {en - r..<en}"
      using 2 before iv by (fastforce simp: en_def)
    then show ?thesis using r 2 Cons.prems(2) iv by (auto simp: en_def)
  next
    case 3
    then have r: "sub_intervals (iv # ivs) r c = sub_intervals ivs (r - (en - s)) c"
      by (auto simp: iv en_def Let_def)
    have split: "int (card (covered (iv # ivs) \<inter> X)) = (en - s) + int (card (covered ivs \<inter> X))"
      if X: "X \<subseteq> {..<c}" "{s..<en} \<subseteq> X" for X
    proof -
      have "covered (iv # ivs) \<inter> X = {s..<en} \<union> (covered ivs \<inter> X)"
        using X iv by (auto simp: en_def)
      moreover have "{s..<en} \<inter> (covered ivs \<inter> X) = {}" using before by fastforce
      ultimately show ?thesis using 3 by (simp add: card_int_Un)
    qed
    have a: "{s..<en} \<subseteq> {..<c}" by (auto simp: en_def)
    have b: "{s..<en} \<subseteq> {t..<c}" if "t \<in> covered ivs" for t
      using before [OF that] by (auto simp: en_def)
    have s1: "int (card (covered (iv # ivs) \<inter> {..<c})) = (en - s) + int (card (covered ivs \<inter> {..<c}))"
      by (rule split [OF _ a]) simp
    have s2: "int (card (covered (iv # ivs) \<inter> {t..<c})) = (en - s) + int (card (covered ivs \<inter> {t..<c}))"
      if "t \<in> covered ivs" for t
      by (rule split [OF _ b [OF that]]) auto
    show ?thesis
      using Cons.IH [OF ds(3), of "r - (en - s)"] 3 s1 s2 unfolding r
      by (auto split: sum.splits simp del: covered_simps) simp
  qed
qed simp

section \<open>Days that partition the time line\<close>

text \<open>The three walks over the days, with the intervals and the midnights given.\<close>

definition elapsed_walk :: "(day \<Rightarrow> interval list) \<Rightarrow> ms \<Rightarrow> ms \<Rightarrow> day list \<Rightarrow> int" where
  "elapsed_walk ivs from til ds = (\<Sum>d\<leftarrow>ds. \<Sum>iv\<leftarrow>ivs d. overlap from til iv)"

fun add_walk ::
  "(day \<Rightarrow> interval list) \<Rightarrow> (day \<Rightarrow> ms) \<Rightarrow> day list \<Rightarrow> int \<Rightarrow> ms \<Rightarrow> ms option" where
  "add_walk ivs midnight [] remaining cursor = None"
| "add_walk ivs midnight (d # ds) remaining cursor =
     (case add_intervals (ivs d) remaining cursor of
        Inl t \<Rightarrow> Some t
      | Inr remaining' \<Rightarrow> add_walk ivs midnight ds remaining' (midnight (d + 1)))"

fun sub_walk ::
  "(day \<Rightarrow> interval list) \<Rightarrow> (day \<Rightarrow> ms) \<Rightarrow> day list \<Rightarrow> int \<Rightarrow> ms \<Rightarrow> ms option" where
  "sub_walk ivs midnight [] remaining cursor = None"
| "sub_walk ivs midnight (d # ds) remaining cursor =
     (case sub_intervals (rev (ivs d)) remaining cursor of
        Inl t \<Rightarrow> Some t
      | Inr remaining' \<Rightarrow> sub_walk ivs midnight ds remaining' (midnight d))"

locale working_days =
  fixes key :: "ms \<Rightarrow> day" and midnight :: "day \<Rightarrow> ms" and ivs :: "day \<Rightarrow> interval list"
  assumes key_iff: "key t = d \<longleftrightarrow> midnight d \<le> t \<and> t < midnight (d + 1)"
    and midnight_step: "midnight d < midnight (d + 1)"
    and ivs_within: "iv \<in> set (ivs d) \<Longrightarrow> midnight d \<le> fst iv \<and> snd iv \<le> midnight (d + 1)"
    and ivs_sorted: "disjoint_sorted (ivs d)"
begin

text \<open>The working milliseconds.\<close>

definition working :: "ms set" where
  "working = (\<Union>d. covered (ivs d))"

lemma midnight_mono: "d \<le> e \<Longrightarrow> midnight d \<le> midnight e"
proof (induction e rule: int_ge_induct)
  case (step i)
  then show ?case using midnight_step [of i] by simp
qed simp

lemma key_bounds: "midnight (key t) \<le> t" "t < midnight (key t + 1)"
  using key_iff [of t "key t"] by simp_all

lemma covered_key: "t \<in> covered (ivs d) \<Longrightarrow> key t = d"
  using ivs_within by (fastforce simp: covered_def key_iff)

lemma working_iff: "t \<in> working \<longleftrightarrow> t \<in> covered (ivs (key t))"
  using covered_key by (auto simp: working_def)

lemma covered_bounds: "t \<in> covered (ivs d) \<Longrightarrow> midnight d \<le> t \<and> t < midnight (d + 1)"
  using covered_key [of t d] key_iff [of t d] by simp

lemma working_in: "midnight d \<le> t \<Longrightarrow> t < midnight (d + 1) \<Longrightarrow> t \<in> working \<longleftrightarrow> t \<in> covered (ivs d)"
  using key_iff [of t d] working_iff by simp

lemma working_day:
  assumes "midnight d \<le> a" and "b \<le> midnight (d + 1)"
  shows "working \<inter> {a..<b} = covered (ivs d) \<inter> {a..<b}"
proof (rule set_eqI)
  fix t
  show "t \<in> working \<inter> {a..<b} \<longleftrightarrow> t \<in> covered (ivs d) \<inter> {a..<b}"
    using working_in [of d t] assms by auto
qed

lemma working_of_day:
  "covered (ivs d) \<inter> X = working \<inter> X \<inter> {midnight d..<midnight (d + 1)}"
proof (rule set_eqI)
  fix t
  show "t \<in> covered (ivs d) \<inter> X \<longleftrightarrow> t \<in> working \<inter> X \<inter> {midnight d..<midnight (d + 1)}"
    using working_in [of d t] covered_bounds [of t d] by auto
qed

lemma covered_from: "midnight d \<le> c \<Longrightarrow> covered (ivs d) \<inter> {c..} = working \<inter> {c..<midnight (d + 1)}"
  unfolding working_of_day by auto

lemma covered_upto: "c \<le> midnight (d + 1) \<Longrightarrow> covered (ivs d) \<inter> {..<c} = working \<inter> {midnight d..<c}"
  unfolding working_of_day by auto

text \<open>The number of working milliseconds of a span, the specification of the walks.\<close>

definition worked :: "ms \<Rightarrow> ms \<Rightarrow> int" where
  "worked a b = int (card (working \<inter> {a..<b}))"

lemma worked_split: "a \<le> b \<Longrightarrow> b \<le> c \<Longrightarrow> worked a c = worked a b + worked b c"
proof -
  assume "a \<le> b" "b \<le> c"
  then have "working \<inter> {a..<c} = (working \<inter> {a..<b}) \<union> (working \<inter> {b..<c})" by auto
  then show ?thesis unfolding worked_def by (subst card_int_Un [symmetric]) auto
qed

lemma worked_nonneg [simp]: "0 \<le> worked a b"
  by (simp add: worked_def)

lemma worked_le: "a \<le> b \<Longrightarrow> worked a b \<le> b - a"
proof -
  assume "a \<le> b"
  moreover have "card (working \<inter> {a..<b}) \<le> card {a..<b}" by (intro card_mono) auto
  ultimately show ?thesis by (simp add: worked_def)
qed

lemma worked_empty: "b \<le> a \<Longrightarrow> worked a b = 0"
  by (simp add: worked_def)

lemma elapsed_walk_days:
  "d \<le> e + 1 \<Longrightarrow> elapsed_walk ivs a b [d..e] = int (card (working \<inter> {a..<b} \<inter> {midnight d..<midnight (e + 1)}))"
proof (induction "e + 1" arbitrary: e rule: int_ge_induct)
  case base
  then have "midnight (e + 1) \<le> midnight d" using midnight_mono by simp
  then have "{midnight d..<midnight (e + 1)} = {}" by simp
  moreover have "[d..e] = []" using base by simp
  ultimately show ?case by (simp add: elapsed_walk_def)
next
  case (step i)
  then have i: "i = e" "d \<le> e" by simp_all
  have "elapsed_walk ivs a b [d..e - 1] = int (card (working \<inter> {a..<b} \<inter> {midnight d..<midnight e}))"
    using step(2) [of "e - 1"] i by simp
  moreover have "[d..e] = [d..e - 1] @ [e]" using i by (simp add: upto_rec2)
  moreover have "(\<Sum>iv\<leftarrow>ivs e. overlap a b iv) = int (card (covered (ivs e) \<inter> {a..<b}))"
    using ivs_sorted by (rule sum_overlap)
  moreover have "covered (ivs e) \<inter> {a..<b} = working \<inter> {a..<b} \<inter> {midnight e..<midnight (e + 1)}"
    by (rule working_of_day)
  moreover have "working \<inter> {a..<b} \<inter> {midnight d..<midnight (e + 1)} =
      (working \<inter> {a..<b} \<inter> {midnight d..<midnight e}) \<union>
      (working \<inter> {a..<b} \<inter> {midnight e..<midnight (e + 1)})"
    using midnight_mono [OF i(2)] midnight_step [of e] by auto
  ultimately show ?case
    by (simp add: elapsed_walk_def) (subst card_int_Un; auto)
qed

theorem elapsed_walk_worked:
  assumes "a \<le> b"
  shows "elapsed_walk ivs a b [key a..key b] = worked a b"
proof -
  have k: "key a \<le> key b + 1"
  proof (rule ccontr)
    assume "\<not> key a \<le> key b + 1"
    then have "midnight (key b + 1) \<le> midnight (key a)" by (intro midnight_mono) simp
    then show False using key_bounds [of a] key_bounds [of b] assms by simp
  qed
  have "{a..<b} \<subseteq> {midnight (key a)..<midnight (key b + 1)}"
    using key_bounds [of a] key_bounds [of b] by auto
  then have "working \<inter> {a..<b} \<inter> {midnight (key a)..<midnight (key b + 1)} = working \<inter> {a..<b}" by auto
  then show ?thesis using elapsed_walk_days [OF k] by (simp add: worked_def)
qed

lemma add_walk_spec:
  assumes "0 < r" and "midnight d \<le> c" and "c \<le> midnight (d + 1)" and "d \<le> l"
  shows "case add_walk ivs midnight [d..l] r c of
      Some t \<Rightarrow> c < t \<and> worked c t = r \<and> t - 1 \<in> working
    | None \<Rightarrow> worked c (midnight (l + 1)) < r"
  using assms
proof (induction "nat (l - d)" arbitrary: d r c)
  case 0
  then have l: "l = d" "[d..l] = [d]" by simp_all
  show ?case
  proof (cases "add_intervals (ivs d) r c")
    case (Inl t)
    then have s: "c < t" "int (card (covered (ivs d) \<inter> {c..<t})) = r" "t - 1 \<in> covered (ivs d)"
      using add_intervals_spec [OF ivs_sorted [of d] \<open>0 < r\<close>, of c] by simp_all
    have "t \<le> midnight (d + 1)" using covered_key [OF s(3)] key_iff [of "t - 1" d] by simp
    then show ?thesis using s Inl l 0 working_day [of d c t] covered_key [OF s(3)]
      by (simp add: worked_def working_iff)
  next
    case (Inr r')
    then show ?thesis
      using add_intervals_spec [OF ivs_sorted [of d] \<open>0 < r\<close>, of c] l 0 covered_from [of d c]
      by (simp add: worked_def)
  qed
next
  case (Suc n)
  then have l: "[d..l] = d # [d + 1..l]" "d + 1 \<le> l" "n = nat (l - (d + 1))" by (simp_all add: upto_rec1)
  show ?case
  proof (cases "add_intervals (ivs d) r c")
    case (Inl t)
    then have s: "c < t" "int (card (covered (ivs d) \<inter> {c..<t})) = r" "t - 1 \<in> covered (ivs d)"
      using add_intervals_spec [OF ivs_sorted [of d] \<open>0 < r\<close>, of c] by simp_all
    have "t \<le> midnight (d + 1)" using covered_key [OF s(3)] key_iff [of "t - 1" d] by simp
    then show ?thesis using s Inl l Suc.prems working_day [of d c t] covered_key [OF s(3)]
      by (simp add: worked_def working_iff)
  next
    case (Inr r')
    then have r': "0 < r'" "r' = r - worked c (midnight (d + 1))"
      using add_intervals_spec [OF ivs_sorted [of d] \<open>0 < r\<close>, of c] Suc.prems covered_from [of d c]
      by (simp_all add: worked_def)
    have ih: "case add_walk ivs midnight [d + 1..l] r' (midnight (d + 1)) of
        Some t \<Rightarrow> midnight (d + 1) < t \<and> worked (midnight (d + 1)) t = r' \<and> t - 1 \<in> working
      | None \<Rightarrow> worked (midnight (d + 1)) (midnight (l + 1)) < r'"
      using Suc.hyps(1) [of "d + 1" r' "midnight (d + 1)"] l r'(1) midnight_step [of "d + 1"] by simp
    have w: "worked c t = worked c (midnight (d + 1)) + worked (midnight (d + 1)) t"
      if "midnight (d + 1) \<le> t" for t
      using Suc.prems(3) that by (rule worked_split)
    have e: "add_walk ivs midnight [d..l] r c = add_walk ivs midnight [d + 1..l] r' (midnight (d + 1))"
      by (simp only: l(1) add_walk.simps Inr sum.case)
    have m: "midnight (d + 1) \<le> midnight (l + 1)" using l(2) by (intro midnight_mono) linarith
    show ?thesis
    proof (cases "add_walk ivs midnight [d + 1..l] r' (midnight (d + 1))")
      case None
      then show ?thesis using ih r'(2) w [OF m] unfolding e None option.case by linarith
    next
      case (Some t)
      then have t: "midnight (d + 1) < t" "worked (midnight (d + 1)) t = r'" "t - 1 \<in> working"
        using ih by simp_all
      then show ?thesis using r'(2) w [of t] Suc.prems(3) unfolding e Some option.case by simp
    qed
  qed
qed

text \<open>\<open>[key from..l]\<close> with the cursor at \<open>from\<close>, as \<open>addWorkingMs\<close> starts.\<close>

theorem add_walk_worked:
  assumes "0 < r" and "key a \<le> l"
  shows "case add_walk ivs midnight [key a..l] r a of
      Some t \<Rightarrow> a < t \<and> worked a t = r \<and> t - 1 \<in> working
    | None \<Rightarrow> worked a (midnight (l + 1)) < r"
  using add_walk_spec [OF assms(1) _ _ assms(2), of a] key_bounds [of a] by simp

lemma sub_walk_spec:
  assumes "0 < r" and "midnight d \<le> c" and "c \<le> midnight (d + 1)" and "f \<le> d"
  shows "case sub_walk ivs midnight (rev [f..d]) r c of
      Some t \<Rightarrow> t < c \<and> worked t c = r \<and> t \<in> working
    | None \<Rightarrow> worked (midnight f) c < r"
  using assms
proof (induction "nat (d - f)" arbitrary: d r c)
  case 0
  then have l: "f = d" "rev [f..d] = [d]" by simp_all
  show ?case
  proof (cases "sub_intervals (rev (ivs d)) r c")
    case (Inl t)
    then have s: "t < c" "int (card (covered (ivs d) \<inter> {t..<c})) = r" "t \<in> covered (ivs d)"
      using sub_intervals_spec [of "rev (ivs d)" r c] ivs_sorted [of d] \<open>0 < r\<close> by simp_all
    have "midnight d \<le> t" using covered_key [OF s(3)] key_iff [of t d] by simp
    then show ?thesis using s Inl l 0 working_day [of d t c] covered_key [OF s(3)]
      by (simp add: worked_def working_iff)
  next
    case (Inr r')
    then show ?thesis
      using sub_intervals_spec [of "rev (ivs d)" r c] ivs_sorted [of d] l 0 covered_upto [of c d]
      by (simp add: worked_def)
  qed
next
  case (Suc n)
  then have l: "rev [f..d] = d # rev [f..d - 1]" "f \<le> d - 1" "n = nat (d - 1 - f)"
    by (simp_all add: upto_rec2)
  show ?case
  proof (cases "sub_intervals (rev (ivs d)) r c")
    case (Inl t)
    then have s: "t < c" "int (card (covered (ivs d) \<inter> {t..<c})) = r" "t \<in> covered (ivs d)"
      using sub_intervals_spec [of "rev (ivs d)" r c] ivs_sorted [of d] \<open>0 < r\<close> by simp_all
    have "midnight d \<le> t" using covered_key [OF s(3)] key_iff [of t d] by simp
    then show ?thesis using s Inl l Suc.prems working_day [of d t c] covered_key [OF s(3)]
      by (simp add: worked_def working_iff)
  next
    case (Inr r')
    then have r': "0 < r'" "r' = r - worked (midnight d) c"
      using sub_intervals_spec [of "rev (ivs d)" r c] ivs_sorted [of d] Suc.prems covered_upto [of c d]
      by (simp_all add: worked_def)
    have ih: "case sub_walk ivs midnight (rev [f..d - 1]) r' (midnight d) of
        Some t \<Rightarrow> t < midnight d \<and> worked t (midnight d) = r' \<and> t \<in> working
      | None \<Rightarrow> worked (midnight f) (midnight d) < r'"
      using Suc.hyps(1) [of "d - 1" r' "midnight d"] l r'(1) midnight_step [of "d - 1"] by simp
    have w: "worked t c = worked t (midnight d) + worked (midnight d) c" if "t \<le> midnight d" for t
      using that Suc.prems(2) by (rule worked_split)
    have e: "sub_walk ivs midnight (rev [f..d]) r c = sub_walk ivs midnight (rev [f..d - 1]) r' (midnight d)"
      by (simp only: l(1) sub_walk.simps Inr sum.case)
    have m: "midnight f \<le> midnight d" using l(2) by (intro midnight_mono) linarith
    show ?thesis
    proof (cases "sub_walk ivs midnight (rev [f..d - 1]) r' (midnight d)")
      case None
      then show ?thesis using ih r'(2) w [OF m] unfolding e None option.case by linarith
    next
      case (Some t)
      then have t: "t < midnight d" "worked t (midnight d) = r'" "t \<in> working"
        using ih by simp_all
      then show ?thesis using r'(2) w [of t] Suc.prems(2) unfolding e Some option.case by simp
    qed
  qed
qed

theorem sub_walk_worked:
  assumes "0 < r" and "f \<le> key a"
  shows "case sub_walk ivs midnight (rev [f..key a]) r a of
      Some t \<Rightarrow> t < a \<and> worked t a = r \<and> t \<in> working
    | None \<Rightarrow> worked (midnight f) a < r"
  using sub_walk_spec [OF assms(1) _ _ assms(2), of a] key_bounds [of a] by simp

end

end
