(* ===== verification/Calendar.thy ===== *)
theory Calendar
  imports WorkingDays
begin

text \<open>
  The working calendar of \<open>server/sla/calendar.ts\<close>: working hours per weekday in a time zone, less
  holidays.

  A date key \<open>YYYY-MM-DD\<close> is its day number: \<open>dateKey\<close>, \<open>nextDate\<close> and the comparison of keys act
  on the strings as they do on the days (\<open>dateKey_string\<close>, \<open>shiftDate_string\<close>, \<open>date_string_less\<close>).
  The time zone database of \<open>Intl\<close> is a parameter: a zone gives the offset from UTC at an instant,
  an unknown name makes the formatter throw. Years are those of four digits from 100 on, where
  \<open>Date.UTC\<close> does not add 1900.
\<close>

type_synonym zone = "ms \<Rightarrow> ms"
type_synonym tzdb = "string \<Rightarrow> zone option"

datatype cal_error =
    Invalid_time_zone string
  | Invalid_calendar_time string
  | No_working_hours
  | Invalid_calendar_weekday int
  | Invalid_calendar_hour
  | Hours_must_end_after_start
  | Duration_must_be_non_negative
  | Calendar_not_found string

record working_hours =
  wh_weekday :: int
  startTime :: string
  endTime :: string

record working_calendar =
  cal_timezone :: string
  cal_hours :: "working_hours list"
  cal_holidays :: "string list"

record parts =
  p_year :: int
  p_month :: int
  p_day :: int
  p_hour :: int
  p_minute :: int
  p_second :: int

section \<open>Date keys and zoned dates\<close>

text \<open>\<open>MAX_TRAVERSAL_MS\<close>.\<close>

definition max_traversal_ms :: int where
  "max_traversal_ms = 366 * day_ms"

definition formatter :: "tzdb \<Rightarrow> string \<Rightarrow> (cal_error, zone) result" where
  "formatter tz name = (case tz name of None \<Rightarrow> Inl (Invalid_time_zone name) | Some z \<Rightarrow> Inr z)"

text \<open>The wall clock, to the second.\<close>

definition zonedParts :: "zone \<Rightarrow> ms \<Rightarrow> parts" where
  "zonedParts z t =
     (let l = t + z t; s = l mod day_ms div 1000; (y, m, d) = date_of_day (l div day_ms)
      in \<lparr>p_year = y, p_month = m, p_day = d,
          p_hour = s div 3600, p_minute = s mod 3600 div 60, p_second = s mod 60\<rparr>)"

definition dateKey :: "zone \<Rightarrow> ms \<Rightarrow> day" where
  "dateKey z t = (let p = zonedParts z t in make_day (p_year p) (p_month p - 1) (p_day p))"

definition shiftDate :: "day \<Rightarrow> int \<Rightarrow> day" where
  "shiftDate date days =
     (case date_of_day date of (y, m, d) \<Rightarrow> make_day y (m - 1) (d + days))"

definition nextDate :: "day \<Rightarrow> day" where
  "nextDate date = shiftDate date 1"

definition previousDate :: "day \<Rightarrow> day" where
  "previousDate date = shiftDate date (- 1)"

definition weekday :: "day \<Rightarrow> int" where
  "weekday date = (case date_of_day date of (y, m, d) \<Rightarrow> weekday_of_day (make_day y (m - 1) d))"

text \<open>\<open>Date.UTC\<close>.\<close>

definition date_utc :: "int \<Rightarrow> int \<Rightarrow> int \<Rightarrow> int \<Rightarrow> int \<Rightarrow> int \<Rightarrow> int \<Rightarrow> ms" where
  "date_utc y m d h mi s ml = make_day y m d * day_ms + ((h * 60 + mi) * 60 + s) * 1000 + ml"

record time_parts =
  t_hour :: int
  t_minute :: int
  t_second :: int
  t_millisecond :: int

definition js_digit :: "char \<Rightarrow> bool" where
  "js_digit c = (let n = of_char c :: nat in 48 \<le> n \<and> n \<le> 57)"

definition digit_value :: "char \<Rightarrow> int" where
  "digit_value c = int (of_char c) - 48"

definition two_digits :: "char \<Rightarrow> char \<Rightarrow> int" where
  "two_digits a b = 10 * digit_value a + digit_value b"

text \<open>\<open>(match[4] ?? "").padEnd(3, "0")\<close> as a number.\<close>

definition milliseconds_of :: "string \<Rightarrow> int" where
  "milliseconds_of s =
     (let p = s @ replicate (3 - length s) CHR ''0''
      in 100 * digit_value (p ! 0) + 10 * digit_value (p ! 1) + digit_value (p ! 2))"

text \<open>The optional tail of the pattern: \<open>(?::(\d{2})(?:\.(\d{1,3}))?)?$\<close>.\<close>

fun time_tail :: "string \<Rightarrow> (int \<times> int) option" where
  "time_tail [] = Some (0, 0)"
| "time_tail (c # s1 # s2 # rest) =
     (if c = CHR '':'' \<and> js_digit s1 \<and> js_digit s2
      then (case rest of
              [] \<Rightarrow> Some (two_digits s1 s2, 0)
            | dot # ds \<Rightarrow>
                if dot = CHR ''.'' \<and> 1 \<le> length ds \<and> length ds \<le> 3 \<and> list_all js_digit ds
                then Some (two_digits s1 s2, milliseconds_of ds) else None)
      else None)"
| "time_tail _ = None"

fun time_match :: "string \<Rightarrow> time_parts option" where
  "time_match (h1 # h2 # c # m1 # m2 # rest) =
     (if js_digit h1 \<and> js_digit h2 \<and> c = CHR '':'' \<and> js_digit m1 \<and> js_digit m2
      then (case time_tail rest of
              None \<Rightarrow> None
            | Some (s, ml) \<Rightarrow>
                Some \<lparr>t_hour = two_digits h1 h2, t_minute = two_digits m1 m2,
                      t_second = s, t_millisecond = ml\<rparr>)
      else None)"
| "time_match _ = None"

definition timeParts :: "string \<Rightarrow> (cal_error, time_parts) result" where
  "timeParts time =
     (case time_match time of None \<Rightarrow> Inl (Invalid_calendar_time time) | Some p \<Rightarrow> Inr p)"

text \<open>\<open>milliseconds\<close> in \<open>validate\<close>: the time of day.\<close>

definition time_of_day :: "time_parts \<Rightarrow> int" where
  "time_of_day v = ((t_hour v * 60 + t_minute v) * 60 + t_second v) * 1000 + t_millisecond v"

text \<open>The fixed-point iteration of \<open>zonedDate\<close>, with the attempts left.\<close>

fun zoned_attempts :: "nat \<Rightarrow> zone \<Rightarrow> ms \<Rightarrow> int \<Rightarrow> ms \<Rightarrow> ms" where
  "zoned_attempts 0 z localMs ml inst = inst"
| "zoned_attempts (Suc n) z localMs ml inst =
     (let actual = zonedParts z inst;
          difference = localMs - date_utc (p_year actual) (p_month actual - 1) (p_day actual)
            (p_hour actual) (p_minute actual) (p_second actual) ml
      in if difference = 0 then inst else zoned_attempts n z localMs ml (inst + difference))"

definition zonedDate :: "day \<Rightarrow> string \<Rightarrow> zone \<Rightarrow> (cal_error, ms) result" where
  "zonedDate date time z =
     (case date_of_day date of (year, month, d) \<Rightarrow>
        (case timeParts time of
           Inl e \<Rightarrow> Inl e
         | Inr desired \<Rightarrow>
             let localMs = date_utc year (month - 1) d (t_hour desired) (t_minute desired)
                   (t_second desired) (t_millisecond desired)
             in Inr (zoned_attempts 4 z localMs (t_millisecond desired) localMs)))"

section \<open>The calendar\<close>

definition validate_hour :: "working_hours \<Rightarrow> unit \<Rightarrow> (cal_error, unit) result" where
  "validate_hour h u =
     (if wh_weekday h < 0 \<or> 6 < wh_weekday h then Inl (Invalid_calendar_weekday (wh_weekday h))
      else case timeParts (startTime h) of
        Inl e \<Rightarrow> Inl e
      | Inr start \<Rightarrow>
          (case timeParts (endTime h) of
             Inl e \<Rightarrow> Inl e
           | Inr fin \<Rightarrow>
               if 23 < t_hour start \<or> 23 < t_hour fin then Inl Invalid_calendar_hour
               else if time_of_day fin \<le> time_of_day start then Inl Hours_must_end_after_start
               else Inr ()))"

text \<open>Also gives the zone, which the code looks up again in its cache of formatters.\<close>

definition validate :: "tzdb \<Rightarrow> working_calendar \<Rightarrow> (cal_error, zone) result" where
  "validate tz cal =
     (case formatter tz (cal_timezone cal) of
        Inl e \<Rightarrow> Inl e
      | Inr z \<Rightarrow>
          if cal_hours cal = [] then Inl No_working_hours
          else (case fold_result validate_hour (cal_hours cal) () of Inl e \<Rightarrow> Inl e | Inr _ \<Rightarrow> Inr z))"

definition hour_interval :: "day \<Rightarrow> zone \<Rightarrow> working_hours \<Rightarrow> (cal_error, interval) result" where
  "hour_interval date z h =
     bind_result (zonedDate date (startTime h) z) (\<lambda>s.
     bind_result (zonedDate date (endTime h) z) (\<lambda>e. Inr (s, e)))"

definition intervals :: "day \<Rightarrow> working_calendar \<Rightarrow> zone \<Rightarrow> (cal_error, interval list) result" where
  "intervals date cal z =
     (if date_string date \<in> set (cal_holidays cal) then Inr []
      else bind_result
        (map_result (hour_interval date z) (filter (\<lambda>h. wh_weekday h = weekday date) (cal_hours cal)))
        (\<lambda>ivs. Inr (js_sort (\<lambda>a b. fst a - fst b) ivs)))"

text \<open>The rows that \<open>loadCalendar\<close> reads.\<close>

record calendar_db =
  db_calendars :: "(string \<times> string) list"              \<comment> \<open>id, time zone\<close>
  db_calendar_hours :: "(string \<times> working_hours) list"   \<comment> \<open>calendar, row\<close>
  db_calendar_holidays :: "(string \<times> string) list"       \<comment> \<open>calendar, date\<close>

definition loadCalendar :: "calendar_db \<Rightarrow> string \<Rightarrow> (cal_error, working_calendar) result" where
  "loadCalendar db cid =
     (case first_row (\<lambda>r. fst r = cid) (db_calendars db) of
        None \<Rightarrow> Inl (Calendar_not_found cid)
      | Some (_, zn) \<Rightarrow>
          Inr \<lparr>cal_timezone = zn,
               cal_hours = map snd (filter (\<lambda>r. fst r = cid) (db_calendar_hours db)),
               cal_holidays = map snd (filter (\<lambda>r. fst r = cid) (db_calendar_holidays db))\<rparr>)"

type_synonym calendar_loader = "string \<Rightarrow> (cal_error, working_calendar) result"

text \<open>\<open>for (date = first; date <= last; date = nextDate(date))\<close>.\<close>

function days_from :: "day \<Rightarrow> day \<Rightarrow> day list" where
  "days_from date final = (if date \<le> final then date # days_from (nextDate date) final else [])"
  by auto

lemma shiftDate_eq [simp]: "shiftDate date n = date + n"
proof -
  obtain y m d where e: "date_of_day date = (y, m, d)" by (cases "date_of_day date")
  then show ?thesis using make_day_of_date [OF e] by (simp add: shiftDate_def make_day_add)
qed

lemma nextDate_eq [simp]: "nextDate date = date + 1" and previousDate_eq [simp]: "previousDate date = date - 1"
  by (simp_all add: nextDate_def previousDate_def)

termination days_from
  by (relation "measure (\<lambda>(date, final). nat (final + 1 - date))") auto

text \<open>\<open>for (date = last; date >= first; date = previousDate(date))\<close>.\<close>

function days_back :: "day \<Rightarrow> day \<Rightarrow> day list" where
  "days_back date first = (if first \<le> date then date # days_back (previousDate date) first else [])"
  by auto

termination days_back
  by (relation "measure (\<lambda>(date, first). nat (date + 1 - first))") auto

declare days_from.simps [simp del] days_back.simps [simp del]

definition elapsed_day ::
  "working_calendar \<Rightarrow> zone \<Rightarrow> ms \<Rightarrow> ms \<Rightarrow> day \<Rightarrow> int \<Rightarrow> (cal_error, int) result" where
  "elapsed_day cal z from fin date sum0 =
     bind_result (intervals date cal z) (\<lambda>ivs. Inr (sum0 + (\<Sum>iv\<leftarrow>ivs. overlap from fin iv)))"

definition elapsedWorkingMs ::
  "tzdb \<Rightarrow> calendar_loader \<Rightarrow> ms \<Rightarrow> ms \<Rightarrow> string \<Rightarrow> (cal_error, int) result" where
  "elapsedWorkingMs tz load from to cid =
     (if to \<le> from then Inr 0
      else bind_result (load cid) (\<lambda>cal.
        bind_result (validate tz cal) (\<lambda>z.
          let fin = min to (from + max_traversal_ms)
          in fold_result (elapsed_day cal z from fin) (days_from (dateKey z from) (dateKey z fin)) 0)))"

fun add_days ::
  "working_calendar \<Rightarrow> zone \<Rightarrow> ms \<Rightarrow> day list \<Rightarrow> int \<Rightarrow> ms \<Rightarrow> (cal_error, ms) result" where
  "add_days cal z limit [] remaining cursor = Inr limit"
| "add_days cal z limit (date # ds) remaining cursor =
     bind_result (intervals date cal z) (\<lambda>ivs.
       case add_intervals ivs remaining cursor of
         Inl t \<Rightarrow> Inr t
       | Inr remaining' \<Rightarrow>
           bind_result (zonedDate (nextDate date) ''00:00:00'' z) (\<lambda>cursor'. add_days cal z limit ds remaining' cursor'))"

definition addWorkingMs ::
  "tzdb \<Rightarrow> calendar_loader \<Rightarrow> ms \<Rightarrow> int \<Rightarrow> string \<Rightarrow> (cal_error, ms) result" where
  "addWorkingMs tz load from n cid =
     (if n < 0 then Inl Duration_must_be_non_negative
      else if n = 0 then Inr from
      else bind_result (load cid) (\<lambda>cal.
        bind_result (validate tz cal) (\<lambda>z.
          let limit = from + max_traversal_ms
          in add_days cal z limit (days_from (dateKey z from) (dateKey z limit)) n from)))"

fun sub_days ::
  "working_calendar \<Rightarrow> zone \<Rightarrow> ms \<Rightarrow> day list \<Rightarrow> int \<Rightarrow> ms \<Rightarrow> (cal_error, ms) result" where
  "sub_days cal z limit [] remaining cursor = Inr limit"
| "sub_days cal z limit (date # ds) remaining cursor =
     bind_result (intervals date cal z) (\<lambda>ivs.
       case sub_intervals (rev ivs) remaining cursor of
         Inl t \<Rightarrow> Inr t
       | Inr remaining' \<Rightarrow>
           bind_result (zonedDate date ''00:00:00'' z) (\<lambda>cursor'. sub_days cal z limit ds remaining' cursor'))"

definition subtractWorkingMs ::
  "tzdb \<Rightarrow> calendar_loader \<Rightarrow> ms \<Rightarrow> int \<Rightarrow> string \<Rightarrow> (cal_error, ms) result" where
  "subtractWorkingMs tz load from n cid =
     (if n < 0 then Inl Duration_must_be_non_negative
      else if n = 0 then Inr from
      else bind_result (load cid) (\<lambda>cal.
        bind_result (validate tz cal) (\<lambda>z.
          let limit = from - max_traversal_ms
          in sub_days cal z limit (days_back (dateKey z from) (dateKey z limit)) n from)))"

section \<open>Keys and wall clocks\<close>

lemma days_from_upto: "days_from a b = [a..b]"
proof (induction a b rule: days_from.induct)
  case (1 a b)
  then show ?case by (subst days_from.simps) (simp add: upto_rec1)
qed

lemma days_back_upto: "days_back a b = rev [b..a]"
proof (induction a b rule: days_back.induct)
  case (1 a b)
  then show ?case by (subst days_back.simps) (simp add: upto_rec2)
qed

lemma dateKey_eq: "dateKey z t = (t + z t) div day_ms"
proof -
  obtain y m d where e: "date_of_day ((t + z t) div day_ms) = (y, m, d)"
    by (cases "date_of_day ((t + z t) div day_ms)")
  then show ?thesis using make_day_of_date [OF e] by (simp add: dateKey_def zonedParts_def Let_def)
qed

lemma weekday_eq: "weekday date = weekday_of_day date"
proof -
  obtain y m d where e: "date_of_day date = (y, m, d)" by (cases "date_of_day date")
  then show ?thesis using make_day_of_date [OF e] by (simp add: weekday_def)
qed

text \<open>The strings that \<open>dateKey\<close> and \<open>shiftDate\<close> return are the date strings of these days.\<close>

lemma dateKey_string:
  "(let p = zonedParts z t in ymd_string (p_year p) (p_month p) (p_day p)) = date_string (dateKey z t)"
  by (simp add: zonedParts_def dateKey_eq date_string_def Let_def split: prod.splits)

lemma hms_of_day:
  fixes s :: int
  shows "(s div 3600 * 60 + s mod 3600 div 60) * 60 + s mod 60 = s"
proof -
  have "s mod 3600 mod 60 = s mod 60" by (rule mod_mod_cancel) simp
  moreover have "s mod 3600 = s mod 3600 div 60 * 60 + s mod 3600 mod 60" by simp
  moreover have "s = s div 3600 * 3600 + s mod 3600" by simp
  ultimately show ?thesis by (smt (verit))
qed

text \<open>Composing the parts again gives the wall clock, truncated to the second.\<close>

lemma date_utc_parts:
  "(let p = zonedParts z t
    in date_utc (p_year p) (p_month p - 1) (p_day p) (p_hour p) (p_minute p) (p_second p) ml) =
   (t + z t) div 1000 * 1000 + ml"
proof -
  define l where "l = t + z t"
  obtain y m d where e: "date_of_day (l div day_ms) = (y, m, d)"
    by (cases "date_of_day (l div day_ms)")
  have m: "make_day y (m - 1) d = l div day_ms" using e by (rule make_day_of_date)
  have "l mod day_ms div 1000 = (l div 1000) mod 86400"
    using zmod_zmult2_eq [of 86400 l 1000] by simp
  moreover have "l div day_ms = l div 1000 div 86400"
    using zdiv_zmult2_eq [of 86400 l 1000] by simp
  moreover have "l div 1000 = l div 1000 div 86400 * 86400 + l div 1000 mod 86400" by simp
  ultimately have "l div day_ms * day_ms + l mod day_ms div 1000 * 1000 = l div 1000 * 1000"
    by (smt (verit))
  moreover have "(let p = zonedParts z t
      in date_utc (p_year p) (p_month p - 1) (p_day p) (p_hour p) (p_minute p) (p_second p) ml) =
    l div day_ms * day_ms + l mod day_ms div 1000 * 1000 + ml"
    by (simp only: zonedParts_def Let_def l_def [symmetric] e prod.case parts.simps date_utc_def m
        hms_of_day)
  ultimately show ?thesis by (simp only: l_def)
qed

lemma zoned_attempts_Suc:
  "zoned_attempts (Suc n) z l ml i =
     (if l - ((i + z i) div 1000 * 1000 + ml) = 0 then i
      else zoned_attempts n z l ml (i + (l - ((i + z i) div 1000 * 1000 + ml))))"
  using date_utc_parts [of z i ml] by (simp add: Let_def)

lemma div_mult_add: "(k::int) dvd c \<Longrightarrow> (l + c) div k * k = l div k * k + c"
proof -
  assume "k dvd c"
  then obtain m where m: "c = k * m" by blast
  then show ?thesis by (cases "k = 0") (simp_all add: distrib_right)
qed

text \<open>
  Where the offset settles, that is, where the wall clock at the instant found with the offset \<open>c2\<close>
  again has the offset \<open>c2\<close>, \<open>zonedDate\<close> finds an instant with the wall clock it was asked for. It
  is so away from a change of the offset, and on both sides of one.
\<close>

lemma zoned_attempts_settles:
  assumes "z l = c1" "z (l - c1) = c2" "z (l - c2) = c2" "1000 dvd c1" "1000 dvd c2" "l mod 1000 = ml"
  shows "zoned_attempts 4 z l ml l = l - c2"
proof -
  have l: "(l + c) div 1000 * 1000 + ml = l + c" if "1000 dvd c" for c
    using div_mult_add [OF that, of l] assms(6) by (simp add: minus_mod_eq_div_mult [symmetric])
  have d: "1000 dvd c2 - c1" using assms by simp
  have 4: "(4::nat) = Suc (Suc (Suc 1))" by simp
  have s1: "(l + z l) div 1000 * 1000 + ml = l + c1" using l [OF assms(4)] assms(1) by simp
  have s2: "(l - c1 + z (l - c1)) div 1000 * 1000 + ml = l - c1 + c2"
    using l [OF d] assms(2) by (simp add: algebra_simps)
  have s3: "(l - c2 + z (l - c2)) div 1000 * 1000 + ml = l" using l [of 0] assms(3) by simp
  show ?thesis
  proof (cases "c1 = 0")
    case True
    then have "c2 = 0" using assms(1,2) by simp
    then show ?thesis unfolding 4 zoned_attempts_Suc [of _ z l ml l] s1 using True by simp
  next
    case False
    then have "zoned_attempts 4 z l ml l = zoned_attempts (Suc (Suc 1)) z l ml (l - c1)"
      unfolding 4 zoned_attempts_Suc [of _ z l ml l] s1 by simp
    also have "\<dots> = (if c1 = c2 then l - c1 else zoned_attempts (Suc 1) z l ml (l - c2))"
      unfolding zoned_attempts_Suc [of _ z l ml "l - c1"] s2 by simp
    also have "zoned_attempts (Suc 1) z l ml (l - c2) = l - c2"
      unfolding zoned_attempts_Suc [of _ z l ml "l - c2"] s3 by simp
    finally show ?thesis by simp
  qed
qed

lemma digit_value_range: "js_digit c \<Longrightarrow> 0 \<le> digit_value c \<and> digit_value c \<le> 9"
  by (auto simp: js_digit_def digit_value_def Let_def)

lemma two_digits_range: "js_digit a \<Longrightarrow> js_digit b \<Longrightarrow> 0 \<le> two_digits a b \<and> two_digits a b \<le> 99"
  using digit_value_range [of a] digit_value_range [of b] by (simp add: two_digits_def)

lemma milliseconds_of_range:
  assumes "length s \<le> 3" and "list_all js_digit s"
  shows "0 \<le> milliseconds_of s \<and> milliseconds_of s < 1000"
proof -
  let ?p = "s @ replicate (3 - length s) CHR ''0''"
  have z: "js_digit CHR ''0''" by code_simp
  have l: "length ?p = 3" using assms(1) by simp
  have "list_all js_digit ?p" using assms(2) z by (auto simp: list_all_iff)
  then have "js_digit (?p ! i)" if "i < 3" for i using that l by (metis list_all_length)
  then show ?thesis
    using digit_value_range [of "?p ! 0"] digit_value_range [of "?p ! 1"] digit_value_range [of "?p ! 2"]
    by (simp add: milliseconds_of_def Let_def)
qed

lemma time_tail_range: "time_tail s = Some (x, ml) \<Longrightarrow> 0 \<le> x \<and> x \<le> 99 \<and> 0 \<le> ml \<and> ml < 1000"
proof (induction s rule: time_tail.induct)
  case (2 c s1 s2 rest)
  then show ?case
    using two_digits_range [of s1 s2] milliseconds_of_range [of "tl rest"]
    by (auto split: if_splits list.splits)
qed auto

lemma timeParts_range:
  assumes "timeParts time = Inr p"
  shows "0 \<le> t_hour p" "0 \<le> t_minute p" "0 \<le> t_second p" "0 \<le> t_millisecond p" "t_millisecond p < 1000"
    "0 \<le> time_of_day p"
proof -
  have m: "time_match time = Some p" using assms by (auto simp: timeParts_def split: option.splits)
  have "0 \<le> t_hour p \<and> 0 \<le> t_minute p \<and> 0 \<le> t_second p \<and> 0 \<le> t_millisecond p \<and> t_millisecond p < 1000"
    using m
  proof (induction time rule: time_match.induct)
    case (1 h1 h2 c m1 m2 rest)
    then show ?case
      using two_digits_range [of h1 h2] two_digits_range [of m1 m2] time_tail_range [of rest]
      by (auto split: if_splits option.splits)
  qed auto
  then show "0 \<le> t_hour p" "0 \<le> t_minute p" "0 \<le> t_second p" "0 \<le> t_millisecond p" "t_millisecond p < 1000"
    "0 \<le> time_of_day p"
    by (simp_all add: time_of_day_def)
qed

lemma time_of_day_ms: "timeParts time = Inr p \<Longrightarrow> (date * day_ms + time_of_day p) mod 1000 = t_millisecond p"
  using timeParts_range(4,5) [of time p]
  by (simp add: time_of_day_def mod_add_eq [symmetric] mod_mult_eq [symmetric])

text \<open>\<open>zonedDate\<close> over day numbers.\<close>

lemma zonedDate_eq:
  "zonedDate date time z =
     (case timeParts time of Inl e \<Rightarrow> Inl e
      | Inr p \<Rightarrow> Inr (zoned_attempts 4 z (date * day_ms + time_of_day p) (t_millisecond p)
          (date * day_ms + time_of_day p)))"
proof -
  obtain y m d where e: "date_of_day date = (y, m, d)" by (cases "date_of_day date")
  then show ?thesis using make_day_of_date [OF e]
    by (simp add: zonedDate_def date_utc_def time_of_day_def Let_def add.assoc split: sum.splits)
qed

lemma zonedDate_settles:
  assumes "timeParts time = Inr p" and "l = date * day_ms + time_of_day p"
    and "z l = c1" "z (l - c1) = c2" "z (l - c2) = c2" "1000 dvd c1" "1000 dvd c2"
  shows "zonedDate date time z = Inr (l - c2)"
  using zoned_attempts_settles [OF assms(3-7) time_of_day_ms [OF assms(1), of date, folded assms(2)]]
    assms(1,2)
  by (simp add: zonedDate_eq)

lemma timeParts_midnight:
  "timeParts ''00:00:00'' = Inr \<lparr>t_hour = 0, t_minute = 0, t_second = 0, t_millisecond = 0\<rparr>"
  by code_simp

section \<open>The walks of a valid calendar\<close>

text \<open>The values of \<open>intervals\<close> and of midnight where nothing throws.\<close>

definition ivs_of :: "working_calendar \<Rightarrow> zone \<Rightarrow> day \<Rightarrow> interval list" where
  "ivs_of cal z date = (case intervals date cal z of Inl e \<Rightarrow> [] | Inr ivs \<Rightarrow> ivs)"

definition midnight_of :: "zone \<Rightarrow> day \<Rightarrow> ms" where
  "midnight_of z date = (case zonedDate date ''00:00:00'' z of Inl e \<Rightarrow> 0 | Inr t \<Rightarrow> t)"

definition valid_hour :: "working_hours \<Rightarrow> bool" where
  "valid_hour h \<longleftrightarrow> 0 \<le> wh_weekday h \<and> wh_weekday h \<le> 6 \<and>
     (case (timeParts (startTime h), timeParts (endTime h)) of
        (Inr s, Inr e) \<Rightarrow> t_hour s \<le> 23 \<and> t_hour e \<le> 23 \<and> time_of_day s < time_of_day e
      | _ \<Rightarrow> False)"

lemma validate_hour_iff: "validate_hour h u = Inr v \<longleftrightarrow> valid_hour h"
  by (auto simp: validate_hour_def valid_hour_def split: sum.splits)

lemma fold_validate_iff: "fold_result validate_hour hs u = Inr v \<longleftrightarrow> (\<forall>h\<in>set hs. valid_hour h)"
proof (induction hs arbitrary: u)
  case (Cons h hs)
  then show ?case
    using validate_hour_iff [of h u "()"] by (cases "validate_hour h u") auto
qed simp

text \<open>What \<open>validate\<close> accepts.\<close>

lemma validate_iff:
  "validate tz cal = Inr z \<longleftrightarrow>
     tz (cal_timezone cal) = Some z \<and> cal_hours cal \<noteq> [] \<and> (\<forall>h\<in>set (cal_hours cal). valid_hour h)"
  using fold_validate_iff [of "cal_hours cal" "()" "()"]
  by (auto simp: validate_def formatter_def split: option.splits sum.splits)

lemma midnight_ok: "zonedDate date ''00:00:00'' z = Inr (midnight_of z date)"
  by (simp add: midnight_of_def zonedDate_eq timeParts_midnight)

lemma valid_hour_times:
  "valid_hour h \<Longrightarrow> \<exists>s e. timeParts (startTime h) = Inr s \<and> timeParts (endTime h) = Inr e \<and>
     t_hour s \<le> 23 \<and> t_hour e \<le> 23 \<and> time_of_day s < time_of_day e"
  by (auto simp: valid_hour_def split: sum.splits)

lemma map_result_total:
  "(\<And>x. x \<in> set xs \<Longrightarrow> \<exists>y. f x = Inr y) \<Longrightarrow> map_result f xs = Inr (map (\<lambda>x. projr (f x)) xs)"
  by (induction xs) fastforce+

lemma intervals_ok:
  assumes "\<forall>h\<in>set (cal_hours cal). valid_hour h"
  shows "intervals date cal z = Inr (ivs_of cal z date)"
    and "ivs_of cal z date =
      (if date_string date \<in> set (cal_holidays cal) then []
       else js_sort (\<lambda>a b. fst a - fst b)
         (map (\<lambda>h. projr (hour_interval date z h)) (filter (\<lambda>h. wh_weekday h = weekday date) (cal_hours cal))))"
proof -
  have "\<exists>y. hour_interval date z h = Inr y" if "h \<in> set (cal_hours cal)" for h
    using valid_hour_times [of h] that assms by (auto simp: hour_interval_def zonedDate_eq)
  then have "map_result (hour_interval date z) (filter (\<lambda>h. wh_weekday h = weekday date) (cal_hours cal)) =
      Inr (map (\<lambda>h. projr (hour_interval date z h)) (filter (\<lambda>h. wh_weekday h = weekday date) (cal_hours cal)))"
    by (intro map_result_total) simp
  then show "intervals date cal z = Inr (ivs_of cal z date)"
    "ivs_of cal z date =
      (if date_string date \<in> set (cal_holidays cal) then []
       else js_sort (\<lambda>a b. fst a - fst b)
         (map (\<lambda>h. projr (hour_interval date z h)) (filter (\<lambda>h. wh_weekday h = weekday date) (cal_hours cal))))"
    by (simp_all add: intervals_def ivs_of_def)
qed

lemma fold_elapsed:
  assumes "\<forall>h\<in>set (cal_hours cal). valid_hour h"
  shows "fold_result (elapsed_day cal z a b) ds n = Inr (n + elapsed_walk (ivs_of cal z) a b ds)"
  by (induction ds arbitrary: n) (simp_all add: elapsed_day_def intervals_ok(1) [OF assms] elapsed_walk_def)

lemma add_days_walk:
  assumes "\<forall>h\<in>set (cal_hours cal). valid_hour h"
  shows "add_days cal z limit ds n c =
    Inr (case add_walk (ivs_of cal z) (midnight_of z) ds n c of None \<Rightarrow> limit | Some t \<Rightarrow> t)"
  by (induction ds arbitrary: n c)
    (simp_all add: intervals_ok(1) [OF assms] midnight_ok split: sum.splits)

lemma sub_days_walk:
  assumes "\<forall>h\<in>set (cal_hours cal). valid_hour h"
  shows "sub_days cal z limit ds n c =
    Inr (case sub_walk (ivs_of cal z) (midnight_of z) ds n c of None \<Rightarrow> limit | Some t \<Rightarrow> t)"
  by (induction ds arbitrary: n c)
    (simp_all add: intervals_ok(1) [OF assms] midnight_ok split: sum.splits)

text \<open>
  A calendar that is usable in its zone: the days partition the time line and the working hours of
  a day are disjoint. This is the interface of the walks on the code's own definitions.
\<close>

definition regular :: "working_calendar \<Rightarrow> zone \<Rightarrow> bool" where
  "regular cal z = working_days (dateKey z) (midnight_of z) (ivs_of cal z)"

definition working_ms :: "working_calendar \<Rightarrow> zone \<Rightarrow> ms set" where
  "working_ms cal z = {t. \<exists>iv\<in>set (ivs_of cal z (dateKey z t)). fst iv \<le> t \<and> t < snd iv}"

definition worked_ms :: "working_calendar \<Rightarrow> zone \<Rightarrow> ms \<Rightarrow> ms \<Rightarrow> int" where
  "worked_ms cal z a b = int (card (working_ms cal z \<inter> {a..<b}))"

lemma regular_working:
  assumes "regular cal z"
  shows "working_ms cal z = working_days.working (ivs_of cal z)"
    and "worked_ms cal z = working_days.worked (ivs_of cal z)"
proof -
  note wd = assms [unfolded regular_def]
  show w: "working_ms cal z = working_days.working (ivs_of cal z)"
    by (rule set_eqI) (simp add: working_ms_def working_days.working_iff [OF wd] covered_def)
  show "worked_ms cal z = working_days.worked (ivs_of cal z)"
    by (simp add: worked_ms_def working_days.worked_def [OF wd] w fun_eq_iff)
qed

lemmas walk_simps = days_from_upto days_back_upto fold_elapsed add_days_walk sub_days_walk

lemma elapsedWorkingMs_walk:
  assumes "load cid = Inr cal" and "validate tz cal = Inr z" and "from < to"
  shows "elapsedWorkingMs tz load from to cid =
    Inr (elapsed_walk (ivs_of cal z) from (min to (from + max_traversal_ms))
      [dateKey z from..dateKey z (min to (from + max_traversal_ms))])"
  using assms by (simp add: elapsedWorkingMs_def validate_iff walk_simps Let_def)

lemma elapsedWorkingMs_worked:
  assumes "load cid = Inr cal" "validate tz cal = Inr z" "regular cal z" "from \<le> to"
    and "to \<le> from + max_traversal_ms"
  shows "elapsedWorkingMs tz load from to cid = Inr (worked_ms cal z from to)"
proof (cases "from < to")
  case True
  then show ?thesis
    using elapsedWorkingMs_walk [of load cid, OF assms(1,2)] assms(5) regular_working(2) [OF assms(3)]
      working_days.elapsed_walk_worked [OF assms(3) [unfolded regular_def], of "from" to]
    by simp
next
  case False
  then show ?thesis using assms(4) by (simp add: elapsedWorkingMs_def worked_ms_def)
qed

lemma addWorkingMs_walk:
  assumes "load cid = Inr cal" and "validate tz cal = Inr z" and "0 < n"
  shows "addWorkingMs tz load from n cid =
    Inr (case add_walk (ivs_of cal z) (midnight_of z) [dateKey z from..dateKey z (from + max_traversal_ms)] n from
         of None \<Rightarrow> from + max_traversal_ms | Some t \<Rightarrow> t)"
  using assms by (simp add: addWorkingMs_def validate_iff walk_simps Let_def)

lemma subtractWorkingMs_walk:
  assumes "load cid = Inr cal" and "validate tz cal = Inr z" and "0 < n"
  shows "subtractWorkingMs tz load from n cid =
    Inr (case sub_walk (ivs_of cal z) (midnight_of z) (rev [dateKey z (from - max_traversal_ms)..dateKey z from]) n from
         of None \<Rightarrow> from - max_traversal_ms | Some t \<Rightarrow> t)"
  using assms by (simp add: subtractWorkingMs_def validate_iff walk_simps Let_def)

text \<open>
  What the two walks return: an instant reached after exactly the duration, the first or the last
  such, or the limit, when the span up to it does not hold the duration.
\<close>

lemma key_mono: "working_days key midnight ivs \<Longrightarrow> a \<le> b \<Longrightarrow> key a \<le> key b"
proof (rule ccontr)
  assume w: "working_days key midnight ivs" and ab: "a \<le> b" and n: "\<not> key a \<le> key b"
  then have "midnight (key b + 1) \<le> midnight (key a)"
    by (intro working_days.midnight_mono [OF w]) simp
  then show False
    using working_days.key_bounds [OF w, of a] working_days.key_bounds [OF w, of b] ab by simp
qed

lemma max_traversal_pos: "0 < max_traversal_ms"
  by (simp add: max_traversal_ms_def)

lemma worked_ms_mono: "a' \<le> a \<Longrightarrow> b \<le> b' \<Longrightarrow> worked_ms cal z a b \<le> worked_ms cal z a' b'"
  unfolding worked_ms_def by (intro of_nat_mono card_mono) auto

lemma addWorkingMs_cases:
  assumes "load cid = Inr cal" "validate tz cal = Inr z" "regular cal z" "0 < n"
  obtains t where "addWorkingMs tz load from n cid = Inr t" "from < t"
      "worked_ms cal z from t = n" "t - 1 \<in> working_ms cal z"
  | "addWorkingMs tz load from n cid = Inr (from + max_traversal_ms)"
      "worked_ms cal z from (from + max_traversal_ms) < n"
proof -
  note w = assms(3) [unfolded regular_def]
  let ?l = "from + max_traversal_ms"
  have k: "dateKey z from \<le> dateKey z ?l" using max_traversal_pos by (intro key_mono [OF w]) simp
  note s = working_days.add_walk_worked [OF w assms(4) k] addWorkingMs_walk [of load cid cal tz z n "from", OF assms(1,2,4)]
  note r = regular_working [OF assms(3)]
  show thesis
  proof (cases "add_walk (ivs_of cal z) (midnight_of z) [dateKey z from..dateKey z ?l] n from")
    case None
    have "worked_ms cal z from ?l \<le> worked_ms cal z from (midnight_of z (dateKey z ?l + 1))"
      using working_days.key_bounds(2) [OF w, of ?l] by (intro worked_ms_mono) simp_all
    then show thesis using s None r that(2) by simp
  next
    case (Some t)
    then show thesis using s r that(1) by simp
  qed
qed

lemma subtractWorkingMs_cases:
  assumes "load cid = Inr cal" "validate tz cal = Inr z" "regular cal z" "0 < n"
  obtains t where "subtractWorkingMs tz load from n cid = Inr t" "t < from"
      "worked_ms cal z t from = n" "t \<in> working_ms cal z"
  | "subtractWorkingMs tz load from n cid = Inr (from - max_traversal_ms)"
      "worked_ms cal z (from - max_traversal_ms) from < n"
proof -
  note w = assms(3) [unfolded regular_def]
  let ?l = "from - max_traversal_ms"
  have k: "dateKey z ?l \<le> dateKey z from" using max_traversal_pos by (intro key_mono [OF w]) simp
  note s = working_days.sub_walk_worked [OF w assms(4) k] subtractWorkingMs_walk [of load cid cal tz z n "from", OF assms(1,2,4)]
  note r = regular_working [OF assms(3)]
  show thesis
  proof (cases "sub_walk (ivs_of cal z) (midnight_of z) (rev [dateKey z ?l..dateKey z from]) n from")
    case None
    have "worked_ms cal z ?l from \<le> worked_ms cal z (midnight_of z (dateKey z ?l)) from"
      using working_days.key_bounds(1) [OF w, of ?l] by (intro worked_ms_mono) simp_all
    then show thesis using s None r that(2) by simp
  next
    case (Some t)
    then show thesis using s r that(1) by simp
  qed
qed

end
