(* ===== verification/OfficeCalendar.thy ===== *)
theory OfficeCalendar
  imports Calendar
begin

text \<open>
  Calendars in a zone of constant offset are regular when their hours do not overlap, so the
  interface \<open>working_days\<close> holds of the code's own day keys, midnights and intervals. The office
  calendar is the instance on which the properties of the walks are run.
\<close>

section \<open>Zones of a fixed offset\<close>

text \<open>
  A calendar is regular in a zone whose offset is constant, when the hours of a weekday do not
  overlap and end within the day. \<open>validate\<close> checks neither.
\<close>

definition tod :: "string \<Rightarrow> int" where
  "tod s = (case timeParts s of Inl e \<Rightarrow> 0 | Inr p \<Rightarrow> time_of_day p)"

definition separate_hours :: "working_hours list \<Rightarrow> bool" where
  "separate_hours hs \<longleftrightarrow>
     sorted_wrt (\<lambda>h k. wh_weekday h = wh_weekday k \<longrightarrow>
       tod (endTime h) \<le> tod (startTime k) \<or> tod (endTime k) \<le> tod (startTime h)) hs \<and>
     (\<forall>h\<in>set hs. tod (endTime h) \<le> day_ms)"

lemma disjoint_sorted_insert:
  "disjoint_sorted xs \<Longrightarrow> fst iv < snd iv \<Longrightarrow>
     \<forall>b\<in>set xs. snd iv \<le> fst b \<or> snd b \<le> fst iv \<Longrightarrow>
     disjoint_sorted (js_insert (\<lambda>a b. fst a - fst b) iv xs)"
proof (induction xs)
  case (Cons y ys)
  have y: "fst y < snd y" "\<forall>b\<in>set ys. snd y \<le> fst b" "disjoint_sorted ys"
    "snd iv \<le> fst y \<or> snd y \<le> fst iv"
    using Cons.prems by simp_all
  show ?case
  proof (cases "fst iv \<le> fst y")
    case True
    then have "snd iv \<le> fst y" using y by linarith
    then have "\<forall>b\<in>set ys. snd iv \<le> fst b" using y by fastforce
    then show ?thesis using True y Cons.prems(2) \<open>snd iv \<le> fst y\<close> by simp
  next
    case False
    then have "snd y \<le> fst iv" using y Cons.prems(2) by linarith
    then show ?thesis using False y Cons.IH [OF y(3) Cons.prems(2)] Cons.prems(3) by simp
  qed
qed simp

lemma hour_interval_fixed:
  assumes "valid_hour h" and "1000 dvd c"
  shows "hour_interval date (\<lambda>_. c) h =
    Inr (date * day_ms + tod (startTime h) - c, date * day_ms + tod (endTime h) - c)"
proof -
  obtain s e where se: "timeParts (startTime h) = Inr s" "timeParts (endTime h) = Inr e"
    using valid_hour_times [OF assms(1)] by blast
  show ?thesis
    using zonedDate_settles [OF se(1) refl, of "\<lambda>_. c" date c c] zonedDate_settles [OF se(2) refl, of "\<lambda>_. c" date c c]
      assms(2) se by (simp add: hour_interval_def tod_def)
qed

lemma midnight_fixed: "1000 dvd c \<Longrightarrow> midnight_of (\<lambda>_. c) d = d * day_ms - c"
  using zonedDate_settles [OF timeParts_midnight refl, of "\<lambda>_. c" d c c]
  by (simp add: midnight_of_def time_of_day_def)

lemma disjoint_sorted_fixed:
  assumes "\<forall>h\<in>set hs. valid_hour h \<and> wh_weekday h = w" and "separate_hours hs" and "1000 dvd c"
  shows "disjoint_sorted (js_sort (\<lambda>a b. fst a - fst b) (map (\<lambda>h. projr (hour_interval date (\<lambda>_. c) h)) hs))"
  using assms
proof (induction hs)
  case (Cons h hs)
  have v: "valid_hour h" "\<forall>k\<in>set hs. valid_hour k" using Cons.prems by simp_all
  have ih: "disjoint_sorted (js_sort (\<lambda>a b. fst a - fst b) (map (\<lambda>h. projr (hour_interval date (\<lambda>_. c) h)) hs))"
    using Cons by (simp add: separate_hours_def)
  have "tod (startTime h) < tod (endTime h)"
    using valid_hour_times [OF v(1)] by (auto simp: tod_def)
  moreover have "\<forall>k\<in>set hs. tod (endTime h) \<le> tod (startTime k) \<or> tod (endTime k) \<le> tod (startTime h)"
    using Cons.prems by (auto simp: separate_hours_def)
  ultimately show ?case
    unfolding list.map js_sort_simps using v
    by (intro disjoint_sorted_insert [OF ih]) (fastforce simp: hour_interval_fixed assms(3))+
qed simp

lemma sorted_wrt_filter_imp: "sorted_wrt R xs \<Longrightarrow> sorted_wrt R (filter P xs)"
  by (induction xs) auto

lemma div_key: "(0::int) < k \<Longrightarrow> (l div k = d) = (d * k \<le> l \<and> l < (d + 1) * k)"
proof -
  assume k: "0 < k"
  have "d * k \<le> l \<and> l < (d + 1) * k \<Longrightarrow> l div k = d"
    using k by (intro int_div_pos_eq [of l k d "l - k * d"]) (auto simp: algebra_simps)
  moreover have "l div k = d \<Longrightarrow> d * k \<le> l \<and> l < (d + 1) * k"
    using div_bounds [OF k, of l] by (auto simp: algebra_simps)
  ultimately show ?thesis by blast
qed

theorem regular_fixed_offset:
  assumes "\<forall>h\<in>set (cal_hours cal). valid_hour h" and "separate_hours (cal_hours cal)" and "1000 dvd c"
  shows "regular cal (\<lambda>_. c)"
  unfolding regular_def
proof
  fix t d
  have "(t + c) div day_ms = d \<longleftrightarrow> d * day_ms \<le> t + c \<and> t + c < (d + 1) * day_ms"
    by (rule div_key) simp
  then show "dateKey (\<lambda>_. c) t = d \<longleftrightarrow> midnight_of (\<lambda>_. c) d \<le> t \<and> t < midnight_of (\<lambda>_. c) (d + 1)"
    unfolding dateKey_eq midnight_fixed [OF assms(3)] by linarith
next
  fix d
  show "midnight_of (\<lambda>_. c) d < midnight_of (\<lambda>_. c) (d + 1)"
    by (simp add: midnight_fixed assms(3))
next
  fix d iv
  assume "iv \<in> set (ivs_of cal (\<lambda>_. c) d)"
  then obtain h where h: "h \<in> set (cal_hours cal)" "iv = projr (hour_interval d (\<lambda>_. c) h)"
    by (auto simp: intervals_ok(2) [OF assms(1)] split: if_splits)
  then have v: "valid_hour h" "tod (endTime h) \<le> day_ms"
    using assms by (auto simp: separate_hours_def)
  obtain s where "timeParts (startTime h) = Inr s" using valid_hour_times [OF v(1)] by blast
  then have "0 \<le> tod (startTime h)" using timeParts_range(6) by (simp add: tod_def)
  then show "midnight_of (\<lambda>_. c) d \<le> fst iv \<and> snd iv \<le> midnight_of (\<lambda>_. c) (d + 1)"
    using v h hour_interval_fixed [OF v(1) assms(3)] by (simp add: midnight_fixed assms(3))
next
  fix d
  have "separate_hours (filter (\<lambda>h. wh_weekday h = weekday d) (cal_hours cal))"
    using assms(2) by (auto simp: separate_hours_def intro: sorted_wrt_filter_imp)
  then show "disjoint_sorted (ivs_of cal (\<lambda>_. c) d)"
    using assms(1,3) by (auto simp: intervals_ok(2) intro!: disjoint_sorted_fixed [where w = "weekday d"])
qed

text \<open>A week of office hours in UTC.\<close>

definition office_hours :: "int \<Rightarrow> working_hours" where
  "office_hours w = \<lparr>wh_weekday = w, startTime = ''09:00:00'', endTime = ''17:00:00''\<rparr>"

definition office :: working_calendar where
  "office = \<lparr>cal_timezone = ''UTC'', cal_hours = map office_hours [1, 2, 3, 4, 5],
             cal_holidays = [''2026-08-31'']\<rparr>"

definition utc_db :: tzdb where
  "utc_db name = (if name = ''UTC'' then Some (\<lambda>_. 0) else None)"

lemma office_valid: "\<forall>h\<in>set (cal_hours office). valid_hour h"
  by code_simp

lemma office_separate: "separate_hours (cal_hours office)"
  by code_simp

lemma office_validate: "validate utc_db office = Inr (\<lambda>_. 0)"
  using office_valid by (simp add: validate_iff) (simp add: office_def utc_db_def)

lemma office_regular: "regular office (\<lambda>_. 0)"
  by (rule regular_fixed_offset [OF office_valid office_separate]) simp

interpretation office_days: working_days "dateKey (\<lambda>_. 0)" "midnight_of (\<lambda>_. 0)" "ivs_of office (\<lambda>_. 0)"
  using office_regular by (simp add: regular_def)

text \<open>Friday 2026-08-28 16:00 UTC, and the next Tuesday at 10:00; Monday is a holiday.\<close>

definition friday_1600 :: ms where "friday_1600 = 1787932800000"
definition tuesday_1000 :: ms where "tuesday_1000 = 1788256800000"

lemma office_tods: "tod ''09:00:00'' = 32400000" "tod ''17:00:00'' = 61200000"
  by code_simp+

lemma office_ivs:
  "ivs_of office (\<lambda>_. 0) d =
     (if date_string d = ''2026-08-31'' \<or> weekday_of_day d \<notin> {1..5} then []
      else [(d * day_ms + 32400000, d * day_ms + 61200000)])"
proof -
  have w: "weekday_of_day d \<in> {1..5} \<longleftrightarrow> weekday_of_day d = 1 \<or> weekday_of_day d = 2 \<or> weekday_of_day d = 3
      \<or> weekday_of_day d = 4 \<or> weekday_of_day d = 5" 
    by auto
  have v: "valid_hour (office_hours w)" if "w \<in> {1, 2, 3, 4, 5}" for w
    using office_valid that by (auto simp: office_def)
  have h: "projr (hour_interval d (\<lambda>_. 0) (office_hours w)) = (d * day_ms + 32400000, d * day_ms + 61200000)"
    if "w \<in> {1, 2, 3, 4, 5}" for w
    using hour_interval_fixed [OF v [OF that], of 0 d] by (simp add: office_hours_def office_tods)
  show ?thesis
    unfolding intervals_ok(2) [OF office_valid] weekday_eq w
    using h by (auto simp: office_def office_hours_def [of 1, THEN arg_cong [where f = wh_weekday]] office_hours_def)
qed

lemma office_elapsed: "elapsedWorkingMs utc_db (\<lambda>_. Inr office) friday_1600 tuesday_1000 ''c'' = Inr 7200000"
proof -
  have "date_string 20693 \<noteq> ''2026-08-31''" "date_string 20694 \<noteq> ''2026-08-31''" "date_string 20695 \<noteq> ''2026-08-31''"
    "date_string 20696 = ''2026-08-31''" "date_string 20697 \<noteq> ''2026-08-31''"
    by code_simp+
  moreover have "[20693..20697::int] = [20693, 20694, 20695, 20696, 20697]" by code_simp
  ultimately show ?thesis
    by (simp add: elapsedWorkingMs_walk [of "\<lambda>_. Inr office", OF refl office_validate] friday_1600_def tuesday_1000_def
      max_traversal_ms_def dateKey_eq elapsed_walk_def office_ivs weekday_of_day_def overlap_def)
qed
section \<open>Round trips\<close>

lemma add_inverse_lemma:
  assumes "load cid = Inr cal" "validate tz cal = Inr z" "regular cal z"
    and "addWorkingMs tz load from n cid = Inr t" "t < from + max_traversal_ms"
  shows "from \<le> t \<and> elapsedWorkingMs tz load from t cid = Inr n \<and>
    (\<forall>t'. from \<le> t' \<and> t' < t \<longrightarrow> (\<exists>m. elapsedWorkingMs tz load from t' cid = Inr m \<and> m < n))"
proof -
  have "0 \<le> n" using assms(4) by (auto simp: addWorkingMs_def split: if_splits)
  note el = elapsedWorkingMs_worked [of load cid, OF assms(1-3)]
  show ?thesis
  proof (cases "n = 0")
    case True
    then have "t = from" using assms(4) by (simp add: addWorkingMs_def)
    then show ?thesis using True by (simp add: elapsedWorkingMs_def)
  next
    case False
    then have n: "0 < n" using \<open>0 \<le> n\<close> by simp
    have t: "from < t" "worked_ms cal z from t = n" "t - 1 \<in> working_ms cal z"
      by (rule addWorkingMs_cases [of load cid, OF assms(1-3) n, of "from"]; use assms(4,5) in simp)+
    have "worked_ms cal z from t' < n" if "from \<le> t'" "t' < t" for t'
    proof -
      have "working_ms cal z \<inter> {from..<t'} \<subset> working_ms cal z \<inter> {from..<t}"
      proof
        show "working_ms cal z \<inter> {from..<t'} \<subseteq> working_ms cal z \<inter> {from..<t}" using that by auto
        have "t - 1 \<in> working_ms cal z \<inter> {from..<t}" "t - 1 \<notin> {from..<t'}" using that t(1,3) by auto
        then show "working_ms cal z \<inter> {from..<t'} \<noteq> working_ms cal z \<inter> {from..<t}" by blast
      qed
      then have "card (working_ms cal z \<inter> {from..<t'}) < card (working_ms cal z \<inter> {from..<t})"
        by (intro psubset_card_mono) simp_all
      then show ?thesis using t(2) by (simp add: worked_ms_def)
    qed
    then show ?thesis using el t assms(5) by simp
  qed
qed

lemma subtract_inverse_lemma:
  assumes "load cid = Inr cal" "validate tz cal = Inr z" "regular cal z"
    and "subtractWorkingMs tz load from n cid = Inr t" "from - max_traversal_ms < t"
  shows "t \<le> from \<and> elapsedWorkingMs tz load t from cid = Inr n \<and>
    (\<forall>t'. t < t' \<and> t' \<le> from \<longrightarrow> (\<exists>m. elapsedWorkingMs tz load t' from cid = Inr m \<and> m < n))"
proof -
  have "0 \<le> n" using assms(4) by (auto simp: subtractWorkingMs_def split: if_splits)
  note el = elapsedWorkingMs_worked [of load cid, OF assms(1-3)]
  show ?thesis
  proof (cases "n = 0")
    case True
    then have "t = from" using assms(4) by (simp add: subtractWorkingMs_def)
    then show ?thesis using True by (simp add: elapsedWorkingMs_def)
  next
    case False
    then have n: "0 < n" using \<open>0 \<le> n\<close> by simp
    have t: "t < from" "worked_ms cal z t from = n" "t \<in> working_ms cal z"
      by (rule subtractWorkingMs_cases [of load cid, OF assms(1-3) n, of "from"]; use assms(4,5) in simp)+
    have "worked_ms cal z t' from < n" if "t < t'" "t' \<le> from" for t'
    proof -
      have "working_ms cal z \<inter> {t'..<from} \<subset> working_ms cal z \<inter> {t..<from}"
      proof
        show "working_ms cal z \<inter> {t'..<from} \<subseteq> working_ms cal z \<inter> {t..<from}" using that by auto
        have "t \<in> working_ms cal z \<inter> {t..<from}" "t \<notin> {t'..<from}" using that t(1,3) by auto
        then show "working_ms cal z \<inter> {t'..<from} \<noteq> working_ms cal z \<inter> {t..<from}" by blast
      qed
      then have "card (working_ms cal z \<inter> {t'..<from}) < card (working_ms cal z \<inter> {t..<from})"
        by (intro psubset_card_mono) simp_all
      then show ?thesis using t(2) by (simp add: worked_ms_def)
    qed
    then show ?thesis using el t assms(5) by simp
  qed
qed

lemma elapsed_additive_lemma:
  assumes "load cid = Inr cal" "validate tz cal = Inr z" "regular cal z"
    and "a \<le> b" "b \<le> c" "c \<le> a + max_traversal_ms"
  shows "\<exists>m n. elapsedWorkingMs tz load a b cid = Inr m \<and> elapsedWorkingMs tz load b c cid = Inr n \<and>
    elapsedWorkingMs tz load a c cid = Inr (m + n)"
  using elapsedWorkingMs_worked [of load cid, OF assms(1-3), of a b]
    elapsedWorkingMs_worked [of load cid, OF assms(1-3), of b c]
    elapsedWorkingMs_worked [of load cid, OF assms(1-3), of a c]
    working_days.worked_split [OF assms(3) [unfolded regular_def] assms(4,5)] assms
  by (simp add: regular_working)


text \<open>
  The interface the SLA code relies on: measuring, adding and subtracting working time on one
  calendar, within a horizon.
\<close>

locale working_clock =
  fixes elapsed :: "ms \<Rightarrow> ms \<Rightarrow> (cal_error, int) result"
    and add subtract :: "ms \<Rightarrow> int \<Rightarrow> (cal_error, ms) result"
    and horizon :: int
  assumes horizon_pos: "0 < horizon"
    and elapsed_additive: "a \<le> b \<Longrightarrow> b \<le> c \<Longrightarrow> c \<le> a + horizon \<Longrightarrow>
      \<exists>m n. elapsed a b = Inr m \<and> elapsed b c = Inr n \<and> elapsed a c = Inr (m + n)"
    and elapsed_nonneg: "elapsed a b = Inr n \<Longrightarrow> 0 \<le> n"
    and elapsed_none: "b \<le> a \<Longrightarrow> elapsed a b = Inr 0"
    and add_inverse: "add a n = Inr t \<Longrightarrow> t < a + horizon \<Longrightarrow>
      a \<le> t \<and> elapsed a t = Inr n \<and> (\<forall>t'. a \<le> t' \<and> t' < t \<longrightarrow> (\<exists>m. elapsed a t' = Inr m \<and> m < n))"
    and subtract_inverse: "subtract a n = Inr t \<Longrightarrow> a - horizon < t \<Longrightarrow>
      t \<le> a \<and> elapsed t a = Inr n \<and> (\<forall>t'. t < t' \<and> t' \<le> a \<longrightarrow> (\<exists>m. elapsed t' a = Inr m \<and> m < n))"
begin

lemma elapsed_mono:
  assumes "a \<le> b" "b \<le> c" "c \<le> a + horizon" "elapsed a b = Inr m" "elapsed a c = Inr n"
  shows "m \<le> n"
  using elapsed_additive [OF assms(1-3)] elapsed_nonneg [of b c] assms(4,5) by auto

lemma elapsed_total: "a \<le> b \<Longrightarrow> b \<le> a + horizon \<Longrightarrow> \<exists>n. elapsed a b = Inr n"
  using elapsed_additive [of a b b] by auto

end

lemma regular_clock:
  assumes "load cid = Inr cal" "validate tz cal = Inr z" "regular cal z"
  shows "working_clock (\<lambda>a b. elapsedWorkingMs tz load a b cid) (\<lambda>a n. addWorkingMs tz load a n cid)
    (\<lambda>a n. subtractWorkingMs tz load a n cid) max_traversal_ms"
proof
  fix a b n
  show "0 < max_traversal_ms" by (rule max_traversal_pos)
  assume e: "elapsedWorkingMs tz load a b cid = Inr n"
  have el: "0 \<le> n" if "a < b"
    using e elapsedWorkingMs_walk [of load cid, OF assms(1,2) that] working_days.elapsed_walk_worked
      [OF assms(3) [unfolded regular_def], of a "min b (a + max_traversal_ms)"]
      working_days.worked_nonneg [OF assms(3) [unfolded regular_def], of a "min b (a + max_traversal_ms)"] that max_traversal_pos by simp
  show "0 \<le> n" using e el by (cases "a < b") (auto simp: elapsedWorkingMs_def)
next
  fix a b :: ms
  show "b \<le> a \<Longrightarrow> elapsedWorkingMs tz load a b cid = Inr 0" by (simp add: elapsedWorkingMs_def)
next
  fix a b c
  show "a \<le> b \<Longrightarrow> b \<le> c \<Longrightarrow> c \<le> a + max_traversal_ms \<Longrightarrow>
    \<exists>m n. elapsedWorkingMs tz load a b cid = Inr m \<and> elapsedWorkingMs tz load b c cid = Inr n \<and>
      elapsedWorkingMs tz load a c cid = Inr (m + n)"
    by (rule elapsed_additive_lemma [of load cid, OF assms])
next
  fix a n t
  show "addWorkingMs tz load a n cid = Inr t \<Longrightarrow> t < a + max_traversal_ms \<Longrightarrow>
    a \<le> t \<and> elapsedWorkingMs tz load a t cid = Inr n \<and>
      (\<forall>t'. a \<le> t' \<and> t' < t \<longrightarrow> (\<exists>m. elapsedWorkingMs tz load a t' cid = Inr m \<and> m < n))"
    by (rule add_inverse_lemma [of load cid, OF assms])
next
  fix a n t
  show "subtractWorkingMs tz load a n cid = Inr t \<Longrightarrow> a - max_traversal_ms < t \<Longrightarrow>
    t \<le> a \<and> elapsedWorkingMs tz load t a cid = Inr n \<and>
      (\<forall>t'. t < t' \<and> t' \<le> a \<longrightarrow> (\<exists>m. elapsedWorkingMs tz load t' a cid = Inr m \<and> m < n))"
    by (rule subtract_inverse_lemma [of load cid, OF assms])
qed

interpretation office_clock: working_clock "\<lambda>a b. elapsedWorkingMs utc_db (\<lambda>_. Inr office) a b cid"
  "\<lambda>a n. addWorkingMs utc_db (\<lambda>_. Inr office) a n cid"
  "\<lambda>a n. subtractWorkingMs utc_db (\<lambda>_. Inr office) a n cid" max_traversal_ms for cid
  by (rule regular_clock [OF refl office_validate office_regular])

section \<open>Properties\<close>

text \<open>
  C22. The elapsed working time between two instants is the number of milliseconds of the span that
  lie in working hours, the span being cut at 366 days.
\<close>

theorem elapsedWorkingMs_counts:
  assumes "load cid = Inr cal" "validate tz cal = Inr z" "regular cal z" "from \<le> to"
  shows "elapsedWorkingMs tz load from to cid =
    Inr (worked_ms cal z from (min to (from + max_traversal_ms)))"
proof (cases "to \<le> from + max_traversal_ms")
  case True
  then show ?thesis using elapsedWorkingMs_worked [of load cid, OF assms] by simp
next
  case False
  then have "from < to" using max_traversal_pos by simp
  then have "elapsedWorkingMs tz load from to cid =
      elapsedWorkingMs tz load from (from + max_traversal_ms) cid"
    using elapsedWorkingMs_walk [of load cid cal tz z "from"] assms(1,2) False max_traversal_pos by simp
  then show ?thesis
    using elapsedWorkingMs_worked [of load cid, OF assms(1-3), of "from" "from + max_traversal_ms"]
      False max_traversal_pos by simp
qed

theorem elapsedWorkingMs_counts_witness:
  "elapsedWorkingMs utc_db (\<lambda>_. Inr office) friday_1600 tuesday_1000 ''c'' =
     Inr (worked_ms office (\<lambda>_. 0) friday_1600 tuesday_1000)"
  using elapsedWorkingMs_counts [of "\<lambda>_. Inr office" "''c''", OF refl office_validate office_regular,
      of friday_1600 tuesday_1000]
  by (simp add: friday_1600_def tuesday_1000_def max_traversal_ms_def)

lemma office_add: "addWorkingMs utc_db (\<lambda>_. Inr office) friday_1600 7200000 ''c'' = Inr tuesday_1000"
proof -
  have "date_string 20693 \<noteq> ''2026-08-31''" "date_string 20694 \<noteq> ''2026-08-31''" "date_string 20695 \<noteq> ''2026-08-31''"
    "date_string 20696 = ''2026-08-31''" "date_string 20697 \<noteq> ''2026-08-31''"
    by code_simp+
  moreover have "[20693..21059::int] = 20693 # 20694 # 20695 # 20696 # 20697 # [20698..21059]"
    by (simp only: upto_rec1 [of 20693] upto_rec1 [of 20694] upto_rec1 [of 20695] upto_rec1 [of 20696] upto_rec1 [of 20697]) simp
  ultimately show ?thesis
    by (simp add: addWorkingMs_walk [of "\<lambda>_. Inr office", OF refl office_validate] friday_1600_def tuesday_1000_def
      max_traversal_ms_def dateKey_eq office_ivs weekday_of_day_def midnight_fixed del: upto_rec_numeral)
qed

text \<open>
  C21. Adding working time is inverse to measuring it: where \<open>addWorkingMs\<close> returns before its limit of
  366 days, the elapsed working time up to the instant it returns is the duration asked for, and it
  is less at every earlier instant.
\<close>

theorem addWorkingMs_inverse:
  assumes "load cid = Inr cal" "validate tz cal = Inr z" "regular cal z"
    and "addWorkingMs tz load from n cid = Inr t" "t < from + max_traversal_ms"
  shows "from \<le> t \<and> elapsedWorkingMs tz load from t cid = Inr n \<and>
    (\<forall>t'. from \<le> t' \<and> t' < t \<longrightarrow> (\<exists>m. elapsedWorkingMs tz load from t' cid = Inr m \<and> m < n))"
  using add_inverse_lemma [of load cid, OF assms] .

theorem addWorkingMs_inverse_witness:
  "elapsedWorkingMs utc_db (\<lambda>_. Inr office) friday_1600 tuesday_1000 ''c'' = Inr 7200000"
  using addWorkingMs_inverse [of "\<lambda>_. Inr office" "''c''", OF refl office_validate office_regular office_add]
  by (simp add: friday_1600_def tuesday_1000_def max_traversal_ms_def)

text \<open>
  Subtracting working time is the mirror: where \<open>subtractWorkingMs\<close> returns after its limit, the
  elapsed working time from the instant it returns is the duration asked for, and it is less from
  every later instant.
\<close>

theorem subtractWorkingMs_inverse:
  assumes "load cid = Inr cal" "validate tz cal = Inr z" "regular cal z"
    and "subtractWorkingMs tz load from n cid = Inr t" "from - max_traversal_ms < t"
  shows "t \<le> from \<and> elapsedWorkingMs tz load t from cid = Inr n \<and>
    (\<forall>t'. t < t' \<and> t' \<le> from \<longrightarrow> (\<exists>m. elapsedWorkingMs tz load t' from cid = Inr m \<and> m < n))"
  using subtract_inverse_lemma [of load cid, OF assms] .

lemma office_subtract:
  "subtractWorkingMs utc_db (\<lambda>_. Inr office) tuesday_1000 7200000 ''c'' = Inr friday_1600"
proof -
  have "date_string 20693 \<noteq> ''2026-08-31''" "date_string 20694 \<noteq> ''2026-08-31''" "date_string 20695 \<noteq> ''2026-08-31''"
    "date_string 20696 = ''2026-08-31''" "date_string 20697 \<noteq> ''2026-08-31''"
    by code_simp+
  moreover have "rev [20331..20697::int] = 20697 # 20696 # 20695 # 20694 # 20693 # rev [20331..20692]"
    by (simp only: upto_rec2 [of _ 20693] upto_rec2 [of _ 20694] upto_rec2 [of _ 20695] upto_rec2 [of _ 20696] upto_rec2 [of _ 20697]) simp
  ultimately show ?thesis
    by (simp add: subtractWorkingMs_walk [of "\<lambda>_. Inr office", OF refl office_validate] friday_1600_def tuesday_1000_def
      max_traversal_ms_def dateKey_eq office_ivs weekday_of_day_def midnight_fixed del: upto_rec_numeral)
qed

theorem subtractWorkingMs_inverse_witness:
  "elapsedWorkingMs utc_db (\<lambda>_. Inr office) friday_1600 tuesday_1000 ''d'' = Inr 7200000"
  using subtractWorkingMs_inverse [of "\<lambda>_. Inr office" "''d''", OF refl office_validate office_regular,
      of tuesday_1000 7200000 friday_1600] office_subtract
  by (simp add: subtractWorkingMs_def friday_1600_def tuesday_1000_def max_traversal_ms_def)

text \<open>
  Checkpointing does not change what is measured: over a span of at most 366 days, the elapsed
  working time up to an instant inside it and from there on add up to that of the whole span.
\<close>

theorem elapsedWorkingMs_additive:
  assumes "load cid = Inr cal" "validate tz cal = Inr z" "regular cal z"
    and "a \<le> b" "b \<le> c" "c \<le> a + max_traversal_ms"
  shows "\<exists>m n. elapsedWorkingMs tz load a b cid = Inr m \<and> elapsedWorkingMs tz load b c cid = Inr n \<and>
    elapsedWorkingMs tz load a c cid = Inr (m + n)"
  using elapsed_additive_lemma [of load cid, OF assms] .

theorem elapsedWorkingMs_additive_witness:
  "\<exists>m n. elapsedWorkingMs utc_db (\<lambda>_. Inr office) friday_1600 (friday_1600 + 1800000) ''c'' = Inr m \<and>
     elapsedWorkingMs utc_db (\<lambda>_. Inr office) (friday_1600 + 1800000) tuesday_1000 ''c'' = Inr n \<and>
     elapsedWorkingMs utc_db (\<lambda>_. Inr office) friday_1600 tuesday_1000 ''c'' = Inr (m + n)"
  by (rule elapsedWorkingMs_additive [of "\<lambda>_. Inr office" "''c''", OF refl office_validate office_regular])
    (simp_all add: friday_1600_def tuesday_1000_def max_traversal_ms_def)

lemma sum_list_js_sort: "(\<Sum>x\<leftarrow>js_sort c xs. g x :: int) = (\<Sum>x\<leftarrow>xs. g x)"
  by (metis mset_js_sort mset_map sum_mset_sum_list)

text \<open>
  \<open>validate\<close> does not reject working hours that overlap, and overlapping time is counted once for
  each row that covers it: with every row entered twice, the elapsed working time is doubled.
\<close>

theorem duplicate_hours_double:
  assumes "load cid = Inr cal" "validate tz cal = Inr z" "elapsedWorkingMs tz load from to cid = Inr m"
  shows "validate tz (cal\<lparr>cal_hours := cal_hours cal @ cal_hours cal\<rparr>) = Inr z \<and>
    elapsedWorkingMs tz (\<lambda>_. Inr (cal\<lparr>cal_hours := cal_hours cal @ cal_hours cal\<rparr>)) from to cid = Inr (2 * m)"
proof -
  let ?c2 = "cal\<lparr>cal_hours := cal_hours cal @ cal_hours cal\<rparr>"
  have v: "\<forall>h\<in>set (cal_hours cal). valid_hour h" using assms(2) by (simp add: validate_iff)
  then have v2: "\<forall>h\<in>set (cal_hours ?c2). valid_hour h" by simp
  have val: "validate tz ?c2 = Inr z" using assms(2) by (auto simp: validate_iff)
  have "(\<Sum>iv\<leftarrow>ivs_of ?c2 z d. overlap a b iv) = 2 * (\<Sum>iv\<leftarrow>ivs_of cal z d. overlap a b iv)" for a b d
    unfolding intervals_ok(2) [OF v] intervals_ok(2) [OF v2] by (simp add: sum_list_js_sort)
  then have w: "elapsed_walk (ivs_of ?c2 z) a b ds = 2 * elapsed_walk (ivs_of cal z) a b ds" for a b ds
    by (simp add: elapsed_walk_def sum_list_const_mult)
  show ?thesis
  proof (cases "from < to")
    case True
    then show ?thesis
      using val w assms(3) elapsedWorkingMs_walk [of load cid, OF assms(1,2) True]
        elapsedWorkingMs_walk [of "\<lambda>_. Inr ?c2" cid, OF refl val True]
      by simp
  next
    case False
    then show ?thesis using val assms(3) by (simp add: elapsedWorkingMs_def)
  qed
qed

theorem duplicate_hours_double_witness:
  "elapsedWorkingMs utc_db (\<lambda>_. Inr (office\<lparr>cal_hours := cal_hours office @ cal_hours office\<rparr>))
     friday_1600 tuesday_1000 ''c'' = Inr 14400000"
  using duplicate_hours_double [of "\<lambda>_. Inr office" "''c''", OF refl office_validate office_elapsed] by simp

end
