(* ===== verification/Contracts.thy ===== *)
theory Contracts
  imports Calendar
begin

text \<open>
  The coverage windows of service contracts, \<open>server/contracts.ts\<close>: which SLA a contract gives a
  service at an instant. The wall clock is that of \<open>Calendar\<close>; the collation of \<open>localeCompare\<close> is a
  parameter. A weekday that \<open>Intl\<close> spells in a way the table does not know does not occur.
\<close>

record contract_coverage =
  cc_contractId :: string
  cc_serviceId :: string
  cc_slaId :: string
  cc_active :: bool
  cc_startsOn :: string
  cc_endsOn :: "string option"
  cc_timezone :: string
  cc_weekday :: int
  cc_startMinute :: int
  cc_endMinute :: int
  cc_priority :: int

datatype contract_error =
    ServiceId_is_required
  | At_must_be_valid
  | Unknown_zone string
  | Invalid_contract_coverage_window
  | Contract_end_precedes_start

record local_time =
  lt_date :: string
  lt_weekday :: int
  lt_minute :: int

definition localDateTime :: "tzdb \<Rightarrow> ms \<Rightarrow> string \<Rightarrow> (contract_error, local_time) result" where
  "localDateTime tz t name =
     (case tz name of
        None \<Rightarrow> Inl (Unknown_zone name)
      | Some z \<Rightarrow>
          let p = zonedParts z t
          in Inr \<lparr>lt_date = ymd_string (p_year p) (p_month p) (p_day p),
                  lt_weekday = weekday_of_day (dateKey z t),
                  lt_minute = p_hour p * 60 + p_minute p\<rparr>)"

text \<open>An empty string is falsy, so it is no end either.\<close>

definition has_end :: "contract_coverage \<Rightarrow> string option" where
  "has_end c = (case cc_endsOn c of Some e \<Rightarrow> if e = [] then None else Some e | None \<Rightarrow> None)"

definition validateCoverage :: "contract_coverage \<Rightarrow> (contract_error, unit) result" where
  "validateCoverage c =
     (if cc_weekday c < 0 \<or> 6 < cc_weekday c \<or> cc_startMinute c < 0 \<or> cc_endMinute c \<le> cc_startMinute c
         \<or> 1440 < cc_endMinute c then Inl Invalid_contract_coverage_window
      else case has_end c of
        Some e \<Rightarrow> if e < cc_startsOn c then Inl Contract_end_precedes_start else Inr ()
      | None \<Rightarrow> Inr ())"

definition in_window :: "local_time \<Rightarrow> contract_coverage \<Rightarrow> bool" where
  "in_window l c \<longleftrightarrow>
     cc_startsOn c \<le> lt_date l \<and> (case has_end c of None \<Rightarrow> True | Some e \<Rightarrow> lt_date l \<le> e) \<and>
     lt_weekday l = cc_weekday c \<and> cc_startMinute c \<le> lt_minute l \<and> lt_minute l < cc_endMinute c"

definition coverage_matches ::
  "tzdb \<Rightarrow> string \<Rightarrow> ms \<Rightarrow> contract_coverage \<Rightarrow> (contract_error, bool) result" where
  "coverage_matches tz service t c =
     (if \<not> cc_active c \<or> cc_serviceId c \<noteq> service then Inr False
      else bind_result (validateCoverage c) (\<lambda>_.
        bind_result (localDateTime tz t (cc_timezone c)) (\<lambda>l. Inr (in_window l c))))"

definition coverage_compare ::
  "(string \<Rightarrow> string \<Rightarrow> int) \<Rightarrow> contract_coverage \<Rightarrow> contract_coverage \<Rightarrow> int" where
  "coverage_compare lc a b =
     cmp_then (cc_priority b - cc_priority a)
       (cmp_then (lc (cc_startsOn b) (cc_startsOn a)) (lc (cc_contractId a) (cc_contractId b)))"

definition resolveContractSla ::
  "tzdb \<Rightarrow> (string \<Rightarrow> string \<Rightarrow> int) \<Rightarrow> string \<Rightarrow> js_date \<Rightarrow> contract_coverage list \<Rightarrow>
     (contract_error, string option) result" where
  "resolveContractSla tz lc service tm coverage =
     (if service = [] then Inl ServiceId_is_required
      else case tm of
        None \<Rightarrow> Inl At_must_be_valid
      | Some t \<Rightarrow>
          bind_result (filter_result (coverage_matches tz service t) coverage) (\<lambda>ms.
            Inr (case js_sort (coverage_compare lc) ms of [] \<Rightarrow> None | c # _ \<Rightarrow> Some (cc_slaId c))))"

section \<open>The comparison\<close>

lemma coverage_compare_order: "js_order lc \<Longrightarrow> js_order (coverage_compare lc)"
proof -
  assume lc: "js_order lc"
  have "js_order (\<lambda>a b. cmp_then (lc (cc_startsOn b) (cc_startsOn a)) (lc (cc_contractId a) (cc_contractId b)))"
    by (intro js_order_then js_order_on [OF lc] js_order_on [OF js_order_flip [OF lc]])
  from js_order_int_key [OF this, of "\<lambda>c. - cc_priority c"]
  show ?thesis unfolding coverage_compare_def by simp
qed

interpretation coverage_order: js_order "coverage_compare code_unit_compare"
  by (rule coverage_compare_order) (rule code_units.js_order_axioms)

lemma coverage_compare_zero:
  "coverage_compare lc a b = 0 \<longleftrightarrow> cc_priority a = cc_priority b \<and>
     lc (cc_startsOn b) (cc_startsOn a) = 0 \<and> lc (cc_contractId a) (cc_contractId b) = 0"
  by (auto simp: coverage_compare_def cmp_then_def)

text \<open>The coverage of a service at an instant: the rows that are active, its own and in their window.\<close>

definition covering :: "tzdb \<Rightarrow> string \<Rightarrow> ms \<Rightarrow> contract_coverage \<Rightarrow> bool" where
  "covering tz service t c \<longleftrightarrow> coverage_matches tz service t c = Inr True"

lemma resolve_matches:
  assumes "resolveContractSla tz lc service (Some t) coverage = Inr r"
  shows "r = map_option cc_slaId
      (case js_sort (coverage_compare lc) (filter (covering tz service t) coverage) of [] \<Rightarrow> None | c # _ \<Rightarrow> Some c)"
    and "\<forall>c\<in>set coverage. \<exists>b. coverage_matches tz service t c = Inr b"
proof -
  have c: "covering tz service t = (\<lambda>c. coverage_matches tz service t c = Inr True)"
    by (simp add: covering_def fun_eq_iff)
  show "r = map_option cc_slaId
      (case js_sort (coverage_compare lc) (filter (covering tz service t) coverage) of [] \<Rightarrow> None | c # _ \<Rightarrow> Some c)"
    "\<forall>c\<in>set coverage. \<exists>b. coverage_matches tz service t c = Inr b"
    using assms unfolding c
    by (auto simp: resolveContractSla_def filter_result_Inr_iff split: if_splits list.splits)
qed

section \<open>Properties\<close>

text \<open>
  C28. The SLA of a contract is that of a row that covers the service at the instant and has the
  highest priority of those that do; it is \<open>null\<close> only where no row covers it.
\<close>

theorem resolveContractSla_best:
  assumes "js_order lc" and "resolveContractSla tz lc service (Some t) coverage = Inr r"
  shows "case r of
      None \<Rightarrow> \<not> (\<exists>c\<in>set coverage. covering tz service t c)
    | Some s \<Rightarrow> \<exists>c\<in>set coverage. covering tz service t c \<and> cc_slaId c = s \<and>
        (\<forall>d\<in>set coverage. covering tz service t d \<longrightarrow> cc_priority d \<le> cc_priority c)"
proof -
  let ?ms = "filter (covering tz service t) coverage"
  note o = coverage_compare_order [OF assms(1)]
  note r = resolve_matches(1) [OF assms(2)]
  have st: "set (js_sort (coverage_compare lc) ?ms) = set ?ms" by (rule set_js_sort)
  show ?thesis
  proof (cases "js_sort (coverage_compare lc) ?ms")
    case Nil
    then have "set ?ms = {}" using st by simp
    then show ?thesis using r Nil by auto
  next
    case (Cons c cs)
    then have c: "c \<in> set ?ms" using st by auto
    have "cc_priority d \<le> cc_priority c" if "d \<in> set ?ms" for d
      using js_order.js_sort_head_least [OF o Cons that]
      by (auto simp: coverage_compare_def cmp_then_def split: if_splits)
    then show ?thesis using r Cons c by auto
  qed
qed

definition sample_coverage :: contract_coverage where
  "sample_coverage = \<lparr>cc_contractId = ''standard'', cc_serviceId = ''email'', cc_slaId = ''business-hours'',
     cc_active = True, cc_startsOn = ''2026-01-01'', cc_endsOn = None, cc_timezone = ''UTC'', cc_weekday = 1,
     cc_startMinute = 540, cc_endMinute = 1020, cc_priority = 0\<rparr>"

definition utc_only :: tzdb where
  "utc_only name = (if name = ''UTC'' then Some (\<lambda>_. 0) else None)"

text \<open>Monday 2026-06-01, 10:00.\<close>

lemma sample_resolves:
  "resolveContractSla utc_only code_unit_compare ''email'' (Some 1780308000000)
     [sample_coverage, sample_coverage\<lparr>cc_contractId := ''premium'', cc_slaId := ''premium-sla'', cc_priority := 10\<rparr>]
   = Inr (Some ''premium-sla'')"
  by code_simp

theorem resolveContractSla_best_witness:
  "\<exists>c\<in>set [sample_coverage, sample_coverage\<lparr>cc_contractId := ''premium'', cc_slaId := ''premium-sla'', cc_priority := 10\<rparr>].
     covering utc_only ''email'' 1780308000000 c \<and> cc_slaId c = ''premium-sla''"
  using resolveContractSla_best [OF code_units.js_order_axioms sample_resolves] by auto

text \<open>
  A malformed window only matters to its own service: the answer for a service, errors included, is
  that for the active rows of that service alone.
\<close>

theorem resolveContractSla_isolated:
  "resolveContractSla tz lc service tm (filter (\<lambda>c. cc_active c \<and> cc_serviceId c = service) coverage) =
   resolveContractSla tz lc service tm coverage"
proof -
  have "filter_result (coverage_matches tz service t) (filter (\<lambda>c. cc_active c \<and> cc_serviceId c = service) coverage)
      = filter_result (coverage_matches tz service t) coverage" for t
    by (rule filter_result_skip) (simp add: coverage_matches_def)
  then show ?thesis by (simp add: resolveContractSla_def split: option.splits)
qed

text \<open>
  The answer does not depend on the order in which the rows are read, as long as no contract has
  two covering rows of the same priority that name different SLAs.
\<close>

theorem resolveContractSla_order:
  assumes "js_order lc" and "\<And>a b. lc a b = 0 \<Longrightarrow> a = b" and "mset coverage = mset coverage'"
    and "\<And>c d. c \<in> set coverage \<Longrightarrow> d \<in> set coverage \<Longrightarrow> covering tz service t c \<Longrightarrow> covering tz service t d \<Longrightarrow>
      cc_contractId c = cc_contractId d \<Longrightarrow> cc_priority c = cc_priority d \<Longrightarrow> cc_slaId c = cc_slaId d"
    and "resolveContractSla tz lc service (Some t) coverage = Inr r"
  shows "resolveContractSla tz lc service (Some t) coverage' = Inr r"
proof -
  let ?P = "covering tz service t"
  have s: "set coverage' = set coverage" using assms(3) by (metis set_mset_mset)
  have c: "?P = (\<lambda>c. coverage_matches tz service t c = Inr True)" by (simp add: covering_def fun_eq_iff)
  have f: "filter_result (coverage_matches tz service t) coverage' = Inr (filter ?P coverage')"
    using resolve_matches(2) [OF assms(5)] s unfolding c filter_result_Inr_iff by simp
  have "service \<noteq> []" using assms(5) by (auto simp: resolveContractSla_def)
  then have "resolveContractSla tz lc service (Some t) coverage' =
      Inr (case js_sort (coverage_compare lc) (filter ?P coverage') of [] \<Rightarrow> None | c # _ \<Rightarrow> Some (cc_slaId c))"
    by (simp add: resolveContractSla_def f)
  also have "\<dots> = Inr (map_option cc_slaId (case js_sort (coverage_compare lc) (filter ?P coverage') of [] \<Rightarrow> None | c # _ \<Rightarrow> Some c))"
    by (simp split: list.splits)
  also have "\<dots> = Inr (map_option cc_slaId (case js_sort (coverage_compare lc) (filter ?P coverage) of [] \<Rightarrow> None | c # _ \<Rightarrow> Some c))"
  proof -
    have "mset (filter ?P coverage) = mset (filter ?P coverage')" using assms(3) by simp
    moreover have "cc_slaId x = cc_slaId y"
      if "x \<in> set (filter ?P coverage)" "y \<in> set (filter ?P coverage)" "coverage_compare lc x y = 0" for x y
      using that assms(2,4) by (auto simp: coverage_compare_zero)
    ultimately show ?thesis
      using js_order.js_sort_head_perm [OF coverage_compare_order [OF assms(1)]] by (metis (no_types, lifting))
  qed
  also have "\<dots> = Inr r" using resolve_matches(1) [OF assms(5)] by simp
  finally show ?thesis .
qed

lemma code_unit_compare_zero: "code_unit_compare a b = 0 \<Longrightarrow> a = b"
  by (auto simp: code_unit_compare_def split: if_splits)

theorem resolveContractSla_order_witness:
  "resolveContractSla utc_only code_unit_compare ''email'' (Some 1780308000000)
     [sample_coverage\<lparr>cc_contractId := ''premium'', cc_slaId := ''premium-sla'', cc_priority := 10\<rparr>, sample_coverage]
   = Inr (Some ''premium-sla'')"
  by (rule resolveContractSla_order [OF code_units.js_order_axioms code_unit_compare_zero _ _ sample_resolves])
    (auto simp: sample_coverage_def)

end
