(* ===== verification/Sla.thy ===== *)
theory Sla
  imports Tables Stopwatch OfficeCalendar Contracts
begin

text \<open>
  The SLA clocks of a ticket: the target shown for a stopwatch (\<open>server/sla/read.ts\<close>), attaching and
  checkpointing the stopwatches (\<open>server/sla/runtime.ts\<close>) and the sweep that marks warnings and
  breaches (\<open>server/sla/sweep.ts\<close>).

  The three walks of the working calendar are arguments, as they are of \<open>materializeSlaTarget\<close>; their
  laws are those of \<open>working_clock\<close>. \<open>crypto.randomUUID\<close> is the argument that gives the new rows their
  ids. Other writers are the argument \<open>sched\<close>: what they do to the table between two statements.
\<close>

datatype policy_type = PT_sla | PT_ola
datatype target_type = TT_response | TT_resolution
datatype trigger_type = Trig_warning | Trig_breach
datatype notification_target = NT_response | NT_resolution | NT_both

fun policy_type_key :: "policy_type \<Rightarrow> string" where
  "policy_type_key PT_sla = ''sla''" | "policy_type_key PT_ola = ''ola''"

fun target_type_key :: "target_type \<Rightarrow> string" where
  "target_type_key TT_response = ''response''" | "target_type_key TT_resolution = ''resolution''"

record watch =
  w_id :: string
  w_ticketId :: string
  w_policyType :: policy_type
  w_policyId :: string
  w_targetType :: target_type
  w_accumulatedMs :: int
  w_pendingMs :: int
  w_running :: bool
  w_startedAt :: ms

record sla_policy =
  pol_id :: string
  pol_name :: string
  pol_priority :: "priority option"
  pol_ttoWorkingMinutes :: int
  pol_ttrWorkingMinutes :: int
  pol_calendarId :: string
  pol_isDefault :: bool

record service_row =
  sv_id :: string
  sv_slaId :: "string option"
  sv_olaId :: "string option"

record notification_rule =
  nr_id :: string
  nr_policyType :: policy_type
  nr_policyId :: string
  nr_triggerType :: trigger_type
  nr_targetType :: notification_target
  nr_thresholdPercent :: int
  nr_enabled :: bool

record escalation_event =
  se_idempotencyKey :: string
  se_ticketId :: string
  se_stopwatchId :: string
  se_ruleId :: "string option"
  se_triggerType :: trigger_type
  se_targetType :: target_type
  se_reason :: string

record sla_db =
  sd_tickets :: "ticket list"
  sd_statuses :: "ticket_status_row list"
  sd_services :: "service_row list"
  sd_coverage :: "contract_coverage list"
  sd_slas :: "sla_policy list"
  sd_olas :: "sla_policy list"
  sd_watches :: "watch list"
  sd_rules :: "notification_rule list"
  sd_events :: "escalation_event list"

type_synonym elapsed_fn = "ms \<Rightarrow> ms \<Rightarrow> string \<Rightarrow> (cal_error, int) result"
type_synonym shift_fn = "ms \<Rightarrow> int \<Rightarrow> string \<Rightarrow> (cal_error, ms) result"

datatype sla_error = Cal_error cal_error | Sw_error sw_error | Contract_error contract_error

definition policy_table :: "sla_db \<Rightarrow> policy_type \<Rightarrow> sla_policy list" where
  "policy_table db pt = (case pt of PT_sla \<Rightarrow> sd_slas db | PT_ola \<Rightarrow> sd_olas db)"

definition policy_of :: "sla_db \<Rightarrow> watch \<Rightarrow> sla_policy option" where
  "policy_of db w = first_row (\<lambda>p. pol_id p = w_policyId w) (policy_table db (w_policyType w))"

section \<open>The target of a stopwatch\<close>

record sla_target =
  tg_policyType :: policy_type
  tg_policyId :: string
  tg_policyName :: string
  tg_targetType :: target_type
  tg_targetMs :: int
  tg_elapsedMs :: int
  tg_remainingMs :: int
  tg_pendingMs :: int
  tg_running :: bool
  tg_breached :: bool
  tg_attained :: "bool option"
  tg_dueAt :: "ms option"

definition target_ms :: "watch \<Rightarrow> sla_policy \<Rightarrow> int" where
  "target_ms w p =
     (case w_targetType w of TT_response \<Rightarrow> pol_ttoWorkingMinutes p | TT_resolution \<Rightarrow> pol_ttrWorkingMinutes p) * 60000"

definition materializeSlaTarget ::
  "elapsed_fn \<Rightarrow> shift_fn \<Rightarrow> shift_fn \<Rightarrow> watch \<Rightarrow> sla_policy \<Rightarrow> ticket_status_row \<Rightarrow> ms \<Rightarrow>
     (cal_error, sla_target) result" where
  "materializeSlaTarget elapsed add subtract w p status now =
     bind_result (if w_running w then elapsed (w_startedAt w) now (pol_calendarId p) else Inr 0) (\<lambda>liveMs.
       let elapsedMs = w_accumulatedMs w + liveMs;
           targetMs = target_ms w p;
           complete = \<not> ts_pausesSla status \<and>
             (case w_targetType w of
                TT_response \<Rightarrow> ts_stateType status \<noteq> ST_new
              | TT_resolution \<Rightarrow> ts_stateType status \<in> {ST_resolved, ST_closed});
           remainingFromStart = targetMs - w_accumulatedMs w
       in bind_result
            (if \<not> w_running w then Inr None
             else bind_result
               (if 0 \<le> remainingFromStart then add (w_startedAt w) remainingFromStart (pol_calendarId p)
                else subtract (w_startedAt w) (- remainingFromStart) (pol_calendarId p)) (\<lambda>t. Inr (Some t)))
            (\<lambda>dueAt. Inr
              \<lparr>tg_policyType = w_policyType w, tg_policyId = pol_id p, tg_policyName = pol_name p,
               tg_targetType = w_targetType w, tg_targetMs = targetMs, tg_elapsedMs = elapsedMs,
               tg_remainingMs = targetMs - elapsedMs, tg_pendingMs = w_pendingMs w, tg_running = w_running w,
               tg_breached = (targetMs < elapsedMs),
               tg_attained = (if complete then Some (elapsedMs \<le> targetMs) else None),
               tg_dueAt = dueAt\<rparr>))"

text \<open>\<open>listTicketSla\<close>: the targets of a ticket's stopwatches whose policy exists.\<close>

definition listTicketSla ::
  "elapsed_fn \<Rightarrow> shift_fn \<Rightarrow> shift_fn \<Rightarrow> sla_db \<Rightarrow> string \<Rightarrow> ms \<Rightarrow> (cal_error, sla_target list) result" where
  "listTicketSla elapsed add subtract db ticketId now =
     (case first_row (\<lambda>t. tk_id t = ticketId) (sd_tickets db) of
        None \<Rightarrow> Inr []
      | Some t \<Rightarrow>
          (case first_row (\<lambda>s. ts_key s = tk_status t) (sd_statuses db) of
             None \<Rightarrow> Inr []
           | Some status \<Rightarrow>
               map_result (\<lambda>(w, p). materializeSlaTarget elapsed add subtract w p status now)
                 (List.map_filter (\<lambda>w. case policy_of db w of None \<Rightarrow> None | Some p \<Rightarrow> Some (w, p))
                   (filter (\<lambda>w. w_ticketId w = ticketId) (sd_watches db)))))"

section \<open>Attaching\<close>

text \<open>\<open>id ? select : undefined\<close>: an empty id is falsy.\<close>

definition policy_by_id :: "sla_policy list \<Rightarrow> string option \<Rightarrow> sla_policy option" where
  "policy_by_id table pid =
     (case pid of None \<Rightarrow> None
      | Some i \<Rightarrow> if i = [] then None else first_row (\<lambda>p. pol_id p = i) table)"

definition choose_policy :: "sla_policy list \<Rightarrow> string option \<Rightarrow> priority \<Rightarrow> sla_policy option" where
  "choose_policy table pid prio =
     (let candidates = filter (\<lambda>p. pol_priority p = Some prio \<or> pol_isDefault p) table
      in case policy_by_id table pid of
        Some p \<Rightarrow> Some p
      | None \<Rightarrow>
          (case find (\<lambda>p. pol_priority p = Some prio) candidates of
             Some p \<Rightarrow> Some p
           | None \<Rightarrow> find pol_isDefault candidates))"

definition watch_key :: "watch \<Rightarrow> string \<times> policy_type \<times> target_type" where
  "watch_key w = (w_ticketId w, w_policyType w, w_targetType w)"

definition new_watch :: "string \<Rightarrow> string \<Rightarrow> policy_type \<Rightarrow> string \<Rightarrow> ms \<Rightarrow> target_type \<Rightarrow> watch" where
  "new_watch wid ticketId pt pid t target =
     \<lparr>w_id = wid, w_ticketId = ticketId, w_policyType = pt, w_policyId = pid, w_targetType = target,
      w_accumulatedMs = 0, w_pendingMs = 0, w_running = True, w_startedAt = t\<rparr>"

text \<open>The service of the ticket, by an inner join.\<close>

definition service_of :: "sla_db \<Rightarrow> string \<Rightarrow> service_row option" where
  "service_of db ticketId =
     (case first_row (\<lambda>t. tk_id t = ticketId) (sd_tickets db) of
        None \<Rightarrow> None | Some t \<Rightarrow> first_row (\<lambda>s. sv_id s = tk_serviceId t) (sd_services db))"

definition attach_policy ::
  "(policy_type \<Rightarrow> target_type \<Rightarrow> string) \<Rightarrow> sla_db \<Rightarrow> string \<Rightarrow> priority \<Rightarrow> ms \<Rightarrow>
     policy_type \<times> string option \<Rightarrow> watch list \<Rightarrow> watch list" where
  "attach_policy uuid db ticketId prio t = (\<lambda>(pt, pid) watches.
     case choose_policy (policy_table db pt) pid prio of
       None \<Rightarrow> watches
     | Some p \<Rightarrow>
         foldl (\<lambda>ws tt. fst (sql_insert_new watch_key (new_watch (uuid pt tt) ticketId pt (pol_id p) t tt) ws))
           watches [TT_response, TT_resolution])"

definition attachTicketStopwatches ::
  "tzdb \<Rightarrow> (string \<Rightarrow> string \<Rightarrow> int) \<Rightarrow> (policy_type \<Rightarrow> target_type \<Rightarrow> string) \<Rightarrow> string \<Rightarrow> priority \<Rightarrow> ms \<Rightarrow>
     sla_db \<Rightarrow> (contract_error, sla_db) result" where
  "attachTicketStopwatches tz lc uuid ticketId prio t db =
     (let service = service_of db ticketId
      in bind_result
           (case service of
              None \<Rightarrow> Inr None
            | Some s \<Rightarrow> resolveContractSla tz lc (sv_id s) (Some t)
                (filter (\<lambda>c. cc_serviceId c = sv_id s) (sd_coverage db)))
           (\<lambda>contractSlaId.
             let slaPolicy = (case contractSlaId of Some i \<Rightarrow> Some i | None \<Rightarrow> Option.bind service sv_slaId);
                 olaPolicy = Option.bind service sv_olaId
             in Inr (db\<lparr>sd_watches := foldl (\<lambda>ws x. attach_policy uuid db ticketId prio t x ws)
                  (sd_watches db) [(PT_sla, slaPolicy), (PT_ola, olaPolicy)]\<rparr>)))"

section \<open>Checkpoints\<close>

definition next_running :: "ticket_status_row \<Rightarrow> watch \<Rightarrow> bool" where
  "next_running status w \<longleftrightarrow> \<not> ts_pausesSla status \<and>
     (case w_targetType w of
        TT_response \<Rightarrow> ts_stateType status = ST_new
      | TT_resolution \<Rightarrow> ts_stateType status \<notin> {ST_resolved, ST_closed})"

definition stopwatch_of :: "watch \<Rightarrow> stopwatch" where
  "stopwatch_of w = \<lparr>accumulatedMs = w_accumulatedMs w, pendingMs = w_pendingMs w, running = w_running w,
     startedAt = Some (w_startedAt w)\<rparr>"

definition set_stopwatch :: "stopwatch \<Rightarrow> watch \<Rightarrow> watch" where
  "set_stopwatch s w = w\<lparr>w_accumulatedMs := accumulatedMs s, w_pendingMs := pendingMs s, w_running := running s,
     w_startedAt := (case startedAt s of None \<Rightarrow> w_startedAt w | Some t \<Rightarrow> t)\<rparr>"

text \<open>The values are computed from the row read, then written where its \<open>startedAt\<close> is still there.\<close>

definition checkpoint_values ::
  "elapsed_fn \<Rightarrow> string \<Rightarrow> bool \<Rightarrow> ms \<Rightarrow> watch \<Rightarrow> (sla_error, stopwatch) result" where
  "checkpoint_values elapsed cid nextRunning t state =
     (case elapsed (w_startedAt state) t cid of
        Inl e \<Rightarrow> Inl (Cal_error e)
      | Inr n \<Rightarrow>
          (case transitionStopwatch (stopwatch_of state) nextRunning (Some t) n of
             Inl e \<Rightarrow> Inl (Sw_error e) | Inr s \<Rightarrow> Inr s))"

definition checkpoint ::
  "elapsed_fn \<Rightarrow> string \<Rightarrow> bool \<Rightarrow> ms \<Rightarrow> watch \<Rightarrow> watch list \<Rightarrow> (sla_error, watch list \<times> bool) result" where
  "checkpoint elapsed cid nextRunning t state rows =
     bind_result (checkpoint_values elapsed cid nextRunning t state) (\<lambda>s.
       let (rows', hit) = sql_update (\<lambda>r. w_id r = w_id state \<and> w_startedAt r = w_startedAt state) (set_stopwatch s) rows
       in Inr (rows', hit \<noteq> []))"

text \<open>What other writers do: before the first write, before the second read, before the second write.\<close>

type_synonym interference = "watch list \<Rightarrow> watch list"
type_synonym schedule = "watch \<Rightarrow> interference \<times> interference \<times> interference"

definition transition_watch ::
  "elapsed_fn \<Rightarrow> schedule \<Rightarrow> sla_db \<Rightarrow> ticket_status_row \<Rightarrow> ms \<Rightarrow> watch \<Rightarrow> watch list \<Rightarrow>
     (sla_error, watch list) result" where
  "transition_watch elapsed sched db status t w rows =
     (case policy_of db w of
        None \<Rightarrow> Inr rows
      | Some p \<Rightarrow>
          let nextRunning = next_running status w; (e1, e2, e3) = sched w
          in if w_running w = nextRunning then Inr rows
             else bind_result (checkpoint elapsed (pol_calendarId p) nextRunning t w (e1 rows)) (\<lambda>(rows1, done1).
               if done1 then Inr rows1
               else let rows2 = e2 rows1
                    in case first_row (\<lambda>r. w_id r = w_id w) rows2 of
                      None \<Rightarrow> Inr rows2
                    | Some current \<Rightarrow>
                        if w_running current = nextRunning then Inr rows2
                        else if w_startedAt current \<le> t
                             then bind_result (checkpoint elapsed (pol_calendarId p) nextRunning t current (e3 rows2))
                               (\<lambda>(rows3, done3). Inr rows3)
                             else Inr rows2))"

definition transitionTicketStopwatches ::
  "elapsed_fn \<Rightarrow> schedule \<Rightarrow> string \<Rightarrow> ticket_status \<Rightarrow> ms \<Rightarrow> sla_db \<Rightarrow> (sla_error, sla_db) result" where
  "transitionTicketStopwatches elapsed sched ticketId toStatus t db =
     (case first_row (\<lambda>s. ts_key s = toStatus) (sd_statuses db) of
        None \<Rightarrow> Inr db
      | Some status \<Rightarrow>
          bind_result (fold_result (transition_watch elapsed sched db status t)
              (filter (\<lambda>w. w_ticketId w = ticketId) (sd_watches db)) (sd_watches db))
            (\<lambda>rows. Inr (db\<lparr>sd_watches := rows\<rparr>)))"

section \<open>Properties of the target\<close>

text \<open>
  The due time and the remaining time agree: a running target whose due time lies within the
  calendar's horizon has working time left before its due time, none at it and none after it, and
  is reported as breached only after it.
\<close>

theorem sla_due_time:
  assumes "working_clock (\<lambda>a b. elapsed a b (pol_calendarId p)) (\<lambda>a n. add a n (pol_calendarId p))
      (\<lambda>a n. subtract a n (pol_calendarId p)) H"
    and "w_running w" and "materializeSlaTarget elapsed add subtract w p status now = Inr r"
    and "tg_dueAt r = Some d" and "w_startedAt w - H < d" and "d < w_startedAt w + H"
    and "w_startedAt w \<le> now" and "now \<le> w_startedAt w + H"
  shows "(now < d \<longrightarrow> 0 < tg_remainingMs r) \<and> (now = d \<longrightarrow> tg_remainingMs r = 0) \<and>
    (d < now \<longrightarrow> tg_remainingMs r \<le> 0) \<and> (tg_breached r \<longrightarrow> d < now)"
proof -
  note c = working_clock.add_inverse [OF assms(1)] working_clock.subtract_inverse [OF assms(1)]
  let ?rem = "target_ms w p - w_accumulatedMs w"
  let ?S = "w_startedAt w"
  obtain n where n: "elapsed ?S now (pol_calendarId p) = Inr n"
    and r: "tg_remainingMs r = ?rem - n" "tg_breached r = (?rem < n)"
    and d: "(if 0 \<le> ?rem then add ?S ?rem (pol_calendarId p) else subtract ?S (- ?rem) (pol_calendarId p)) = Inr d"
  proof -
    obtain n due where "elapsed ?S now (pol_calendarId p) = Inr n"
      "(if 0 \<le> ?rem then add ?S ?rem (pol_calendarId p) else subtract ?S (- ?rem) (pol_calendarId p)) = Inr due"
      "tg_remainingMs r = target_ms w p - (w_accumulatedMs w + n)"
      "tg_breached r = (target_ms w p < w_accumulatedMs w + n)" "tg_dueAt r = Some due"
      using assms(2,3) by (simp only: materializeSlaTarget_def Let_def bind_result_Inr_iff sum.inject if_True
          if_False not_True_eq_False ex_simps simp_thms) force
    then show thesis using assms(4) by (intro that [of n]) (simp_all, linarith)
  qed
  have n0: "0 \<le> n" by (rule working_clock.elapsed_nonneg [OF assms(1) n])
  show ?thesis
  proof (cases "0 \<le> ?rem")
    case True
    then have a: "?S \<le> d" "elapsed ?S d (pol_calendarId p) = Inr ?rem"
      "\<And>t'. ?S \<le> t' \<Longrightarrow> t' < d \<Longrightarrow> \<exists>m. elapsed ?S t' (pol_calendarId p) = Inr m \<and> m < ?rem"
      using c(1) [of ?S ?rem d] d assms(6) by auto
    have "n < ?rem" if "now < d" using a(3) [of now] that assms(7) n by auto
    moreover have "n = ?rem" if "now = d" using a(2) that n by simp
    moreover have "?rem \<le> n" if "d < now"
      using working_clock.elapsed_mono [OF assms(1) a(1) _ assms(8) a(2) n] that by simp
    ultimately show ?thesis unfolding r by (cases "now < d"; cases "now = d"; auto)
  next
    case False
    then have a: "d \<le> ?S" "elapsed d ?S (pol_calendarId p) = Inr (- ?rem)"
      using c(2) [of ?S "- ?rem" d] d assms(5) by auto
    have "d \<noteq> ?S" using a False working_clock.elapsed_none [OF assms(1), of ?S ?S] by auto
    then show ?thesis unfolding r using a(1) assms(7) False n0 by auto
  qed
qed

definition sample_watch :: watch where
  "sample_watch = new_watch ''w1'' ''t1'' PT_sla ''p1'' friday_1600 TT_response"

definition sample_policy :: sla_policy where
  "sample_policy = \<lparr>pol_id = ''p1'', pol_name = ''gold'', pol_priority = Some P3, pol_ttoWorkingMinutes = 120,
     pol_ttrWorkingMinutes = 480, pol_calendarId = ''c'', pol_isDefault = True\<rparr>"

definition sample_status :: ticket_status_row where
  "sample_status = \<lparr>ts_key = ''new'', ts_stateType = ST_new, ts_isClosed = False, ts_pausesSla = False,
     ts_isDefault = True, ts_isActive = True\<rparr>"

definition office_elapsed_fn :: elapsed_fn where
  "office_elapsed_fn a b cid = elapsedWorkingMs utc_db (\<lambda>_. Inr office) a b cid"

definition office_add_fn :: shift_fn where
  "office_add_fn a n cid = addWorkingMs utc_db (\<lambda>_. Inr office) a n cid"

definition office_subtract_fn :: shift_fn where
  "office_subtract_fn a n cid = subtractWorkingMs utc_db (\<lambda>_. Inr office) a n cid"

lemma office_fn_clock:
  "working_clock (\<lambda>a b. office_elapsed_fn a b cid) (\<lambda>a n. office_add_fn a n cid)
     (\<lambda>a n. office_subtract_fn a n cid) max_traversal_ms"
  unfolding office_elapsed_fn_def office_add_fn_def office_subtract_fn_def
  by (rule office_clock.working_clock_axioms)

theorem sla_due_time_witness:
  "\<exists>r. materializeSlaTarget office_elapsed_fn office_add_fn office_subtract_fn sample_watch sample_policy
       sample_status tuesday_1000 = Inr r \<and> tg_dueAt r = Some tuesday_1000 \<and> tg_remainingMs r = 0 \<and> \<not> tg_breached r"
proof -
  obtain r where r: "materializeSlaTarget office_elapsed_fn office_add_fn office_subtract_fn sample_watch sample_policy
       sample_status tuesday_1000 = Inr r" "tg_dueAt r = Some tuesday_1000"
    using office_elapsed office_add
    by (simp add: materializeSlaTarget_def sample_watch_def new_watch_def sample_policy_def target_ms_def
        office_elapsed_fn_def office_add_fn_def)
  have "(tuesday_1000 < tuesday_1000 \<longrightarrow> 0 < tg_remainingMs r) \<and> (tuesday_1000 = tuesday_1000 \<longrightarrow> tg_remainingMs r = 0) \<and>
    (tuesday_1000 < tuesday_1000 \<longrightarrow> tg_remainingMs r \<le> 0) \<and> (tg_breached r \<longrightarrow> tuesday_1000 < tuesday_1000)"
    by (rule sla_due_time [OF office_fn_clock _ r])
      (simp_all add: sample_watch_def new_watch_def friday_1600_def tuesday_1000_def max_traversal_ms_def)
  with r show ?thesis by auto
qed

section \<open>Properties of the checkpoints\<close>

text \<open>
  The balance of a stopwatch: what it has accumulated and what it has spent paused make up the
  working time between the instant \<open>t0\<close> at which it was attached and its last checkpoint.
\<close>

definition balanced ::
  "elapsed_fn \<Rightarrow> (string \<Rightarrow> ms) \<Rightarrow> (string \<Rightarrow> string) \<Rightarrow> watch list \<Rightarrow> bool" where
  "balanced elapsed t0 cal rows \<longleftrightarrow>
     (\<forall>w\<in>set rows. t0 (w_id w) \<le> w_startedAt w \<and>
        elapsed (t0 (w_id w)) (w_startedAt w) (cal (w_id w)) = Inr (w_accumulatedMs w + w_pendingMs w))"

lemma policy_of_set_stopwatch [simp]: "policy_of db (set_stopwatch s w) = policy_of db w"
  by (simp add: policy_of_def set_stopwatch_def)

lemma w_id_set_stopwatch [simp]: "w_id (set_stopwatch s w) = w_id w"
  "w_ticketId (set_stopwatch s w) = w_ticketId w" "w_targetType (set_stopwatch s w) = w_targetType w"
  by (simp_all add: set_stopwatch_def)

lemma checkpoint_values_Inr:
  assumes "checkpoint_values elapsed cid nr t state = Inr s"
  obtains n where "elapsed (w_startedAt state) t cid = Inr n" "w_startedAt state \<le> t" "running s = nr"
    "startedAt s = Some t" "accumulatedMs s + pendingMs s = w_accumulatedMs state + w_pendingMs state + n"
    "accumulatedMs s = w_accumulatedMs state + (if w_running state then n else 0)"
proof -
  obtain n where n: "elapsed (w_startedAt state) t cid = Inr n"
    "transitionStopwatch (stopwatch_of state) nr (Some t) n = Inr s"
    using assms by (auto simp: checkpoint_values_def split: sum.splits)
  show thesis
    using n(2) by (intro that [OF n(1)]) (auto simp: transitionStopwatch_Inr stopwatch_of_def)
qed

lemma checkpoint_balanced:
  assumes clock: "\<And>cid. working_clock (\<lambda>a b. elapsed a b cid) (\<lambda>a n. add a n cid) (\<lambda>a n. subtract a n cid) H"
    and rows: "balanced elapsed t0 cal rows" and state: "balanced elapsed t0 cal [state]"
    and pol: "cid = cal (w_id state)" and bound: "\<And>i. t \<le> t0 i + H"
    and cp: "checkpoint elapsed (cid) nr t state rows = Inr (rows', b)"
  shows "balanced elapsed t0 cal rows'"
proof -
  obtain s where s: "checkpoint_values elapsed (cid) nr t state = Inr s"
    and r: "rows' = map (\<lambda>r. if w_id r = w_id state \<and> w_startedAt r = w_startedAt state then set_stopwatch s r else r) rows"
    using cp by (auto simp: checkpoint_def sql_update_def)
  obtain n where n: "elapsed (w_startedAt state) t (cid) = Inr n" "w_startedAt state \<le> t"
    "startedAt s = Some t" "accumulatedMs s + pendingMs s = w_accumulatedMs state + w_pendingMs state + n"
    using checkpoint_values_Inr [OF s] by metis
  let ?i = "w_id state"
  have st: "cid = cal ?i" "t0 ?i \<le> w_startedAt state"
    "elapsed (t0 ?i) (w_startedAt state) (cal ?i) = Inr (w_accumulatedMs state + w_pendingMs state)"
    using state pol by (auto simp: balanced_def)
  have "elapsed (t0 ?i) t (cal ?i) = Inr (accumulatedMs s + pendingMs s)"
    using working_clock.elapsed_additive [OF clock st(2) n(2) bound, of "cal ?i"] st n by auto
  moreover have "t0 ?i \<le> t" using st n by simp
  ultimately show ?thesis
    using rows n(3) by (auto simp: r balanced_def set_stopwatch_def)
qed

lemma transition_watch_balanced:
  assumes clock: "\<And>cid. working_clock (\<lambda>a b. elapsed a b cid) (\<lambda>a n. add a n cid) (\<lambda>a n. subtract a n cid) H"
    and rows: "balanced elapsed t0 cal rows" and w: "balanced elapsed t0 cal [w]"
    and cal: "\<And>p. policy_of db w = Some p \<Longrightarrow> pol_calendarId p = cal (w_id w)"
    and bound: "\<And>i. t \<le> t0 i + H"
    and env: "\<And>e rs. e \<in> {fst (sched w), fst (snd (sched w)), snd (snd (sched w))} \<Longrightarrow>
      balanced elapsed t0 cal rs \<Longrightarrow> balanced elapsed t0 cal (e rs)"
    and run: "transition_watch elapsed sched db status t w rows = Inr rows'"
  shows "balanced elapsed t0 cal rows'"
proof -
  obtain e1 e2 e3 where e: "sched w = (e1, e2, e3)" by (metis prod_cases3)
  have env: "balanced elapsed t0 cal rs \<Longrightarrow> balanced elapsed t0 cal (f rs)" if "f \<in> {e1, e2, e3}" for f rs
    using env that by (simp add: e)
  show ?thesis
  proof (cases "policy_of db w = None \<or> w_running w = next_running status w")
    case True
    then show ?thesis using run rows by (auto simp: transition_watch_def e split: option.splits)
  next
    case False
    then obtain p where p: "policy_of db w = Some p" by auto
    obtain rows1 done1 where c1: "checkpoint elapsed (pol_calendarId p) (next_running status w) t w (e1 rows) = Inr (rows1, done1)"
      using run False p by (auto simp: transition_watch_def e)
    have b1: "balanced elapsed t0 cal rows1"
      by (rule checkpoint_balanced [OF clock _ w cal [OF p] bound c1]) (use env rows in simp)
    then have b2: "balanced elapsed t0 cal (e2 rows1)" by (simp add: env)
    show ?thesis
    proof (cases "\<not> done1 \<and> (\<exists>cu. first_row (\<lambda>r. w_id r = w_id w) (e2 rows1) = Some cu \<and>
        w_running cu \<noteq> next_running status w \<and> w_startedAt cu \<le> t)")
      case True
      then obtain cu where cu: "first_row (\<lambda>r. w_id r = w_id w) (e2 rows1) = Some cu" "w_startedAt cu \<le> t"
        "w_running cu \<noteq> next_running status w" by blast
      obtain rows3 done3 where c3:
        "checkpoint elapsed (pol_calendarId p) (next_running status w) t cu (e3 (e2 rows1)) = Inr (rows3, done3)"
        and "rows' = rows3"
        using run False True p c1 cu by (auto simp: transition_watch_def e)
      have cub: "balanced elapsed t0 cal [cu]"
        using b2 first_row_SomeD [OF cu(1)] by (auto simp: balanced_def)
      have "pol_calendarId p = cal (w_id cu)" using cal [OF p] first_row_SomeD [OF cu(1)] by simp
      from checkpoint_balanced [OF clock _ cub this bound c3]
      show ?thesis using env b2 \<open>rows' = rows3\<close> by simp
    next
      case False': False
      then show ?thesis using run False p c1 b1 b2
        by (auto simp: transition_watch_def e Let_def split: option.splits if_splits)
    qed
  qed
qed


definition sample_sla_db :: sla_db where
  "sample_sla_db = \<lparr>sd_tickets = [sample_ticket], sd_statuses = [sample_status,
      sample_status\<lparr>ts_key := ''pending'', ts_stateType := ST_pending, ts_pausesSla := True\<rparr>],
     sd_services = [], sd_coverage = [], sd_slas = [sample_policy], sd_olas = [], sd_watches = [sample_watch],
     sd_rules = [], sd_events = []\<rparr>"

definition alone :: schedule where
  "alone w = (\<lambda>rows. rows, \<lambda>rows. rows, \<lambda>rows. rows)"

lemma sample_pause:
  "transitionTicketStopwatches office_elapsed_fn alone ''t1'' ''pending'' tuesday_1000 sample_sla_db =
     Inr (sample_sla_db\<lparr>sd_watches :=
       [sample_watch\<lparr>w_accumulatedMs := 7200000, w_running := False, w_startedAt := tuesday_1000\<rparr>]\<rparr>)"
proof -
  have "office_elapsed_fn friday_1600 tuesday_1000 ''c'' = Inr 7200000"
    using office_elapsed by (simp add: office_elapsed_fn_def)
  moreover have "friday_1600 \<le> tuesday_1000" by (simp add: friday_1600_def tuesday_1000_def)
  ultimately show ?thesis
    by (simp add: transitionTicketStopwatches_def sample_sla_db_def sample_status_def first_row_def
        sample_watch_def new_watch_def transition_watch_def policy_of_def policy_table_def sample_policy_def
        next_running_def alone_def checkpoint_def checkpoint_values_def transitionStopwatch_def assertState_def
        assertDate_def stopwatch_of_def safe_int_def sql_update_def set_stopwatch_def)
qed


text \<open>
  The rows after a status change that nobody interferes with: each stopwatch of the ticket that has a
  policy and is not in the mode the status asks for is checkpointed, the others are left alone.
\<close>

definition concerned :: "sla_db \<Rightarrow> ticket_status_row \<Rightarrow> string \<Rightarrow> watch \<Rightarrow> bool" where
  "concerned db status ticketId w \<longleftrightarrow>
     w_ticketId w = ticketId \<and> policy_of db w \<noteq> None \<and> w_running w \<noteq> next_running status w"

definition checkpointed :: "elapsed_fn \<Rightarrow> sla_db \<Rightarrow> ticket_status_row \<Rightarrow> ms \<Rightarrow> watch \<Rightarrow> watch \<Rightarrow> bool" where
  "checkpointed elapsed db status t w w' \<longleftrightarrow>
     (\<exists>p s. policy_of db w = Some p \<and>
        checkpoint_values elapsed (pol_calendarId p) (next_running status w) t w = Inr s \<and> w' = set_stopwatch s w)"

lemma transition_watch_alone:
  assumes "distinct (map w_id rows)" "w \<in> set rows" "w_ticketId w = ticketId"
    and "transition_watch elapsed alone db status t w rows = Inr rows'"
  shows "(\<not> concerned db status ticketId w \<and> rows' = rows) \<or>
    (concerned db status ticketId w \<and>
      (\<exists>w'. checkpointed elapsed db status t w w' \<and> rows' = map (\<lambda>r. if r = w then w' else r) rows))"
proof (cases "concerned db status ticketId w")
  case False
  then show ?thesis using assms(3,4)
    by (auto simp: transition_watch_def concerned_def alone_def Let_def split: option.splits)
next
  case True
  then obtain p where p: "policy_of db w = Some p" by (auto simp: concerned_def)
  have nr: "w_running w \<noteq> next_running status w" using True by (simp add: concerned_def)
  obtain rows1 d where c: "checkpoint elapsed (pol_calendarId p) (next_running status w) t w rows = Inr (rows1, d)"
    and r: "d \<Longrightarrow> rows' = rows1"
  proof -
    from assms(4) obtain x where x: "checkpoint elapsed (pol_calendarId p) (next_running status w) t w rows = Inr x"
      "snd x \<longrightarrow> rows' = fst x"
      by (simp only: transition_watch_def alone_def p option.case Let_def prod.case nr if_False bind_result_Inr_iff)
        (auto split: if_splits prod.splits)
    then show thesis using that [of "fst x" "snd x"] by simp
  qed
  obtain s where s: "checkpoint_values elapsed (pol_calendarId p) (next_running status w) t w = Inr s"
    and u: "sql_update (\<lambda>r. w_id r = w_id w \<and> w_startedAt r = w_startedAt w) (set_stopwatch s) rows = (rows1, [])
      \<and> \<not> d \<or> d \<and> rows1 = map (\<lambda>r. if w_id r = w_id w \<and> w_startedAt r = w_startedAt w then set_stopwatch s r else r) rows"
    using c by (auto simp: checkpoint_def sql_update_def)
  have same: "r = w" if "r \<in> set rows" "w_id r = w_id w" for r
    using assms(1,2) that by (metis distinct_map inj_onD)
  have d using u assms(2) by (auto simp: sql_update_def filter_empty_conv)
  then have "rows' = map (\<lambda>r. if r = w then set_stopwatch s w else r) rows"
    using r u same by (auto intro!: map_cong)
  then show ?thesis using True p s by (auto simp: checkpointed_def)
qed

text \<open>
  The loop over a list \<open>ws\<close> of distinct rows of the table: \<open>post\<close> relates a row to what it becomes.
\<close>

definition post :: "elapsed_fn \<Rightarrow> sla_db \<Rightarrow> ticket_status_row \<Rightarrow> ms \<Rightarrow> string \<Rightarrow> watch set \<Rightarrow> watch \<Rightarrow> watch \<Rightarrow> bool" where
  "post elapsed db status t ticketId ws w w' \<longleftrightarrow>
     (if w \<in> ws \<and> concerned db status ticketId w then checkpointed elapsed db status t w w' else w' = w)"

lemma checkpointed_id: "checkpointed elapsed db status t w w' \<Longrightarrow> w_id w' = w_id w"
  by (auto simp: checkpointed_def)

lemma post_id: "post elapsed db status t ticketId ws w w' \<Longrightarrow> w_id w' = w_id w"
  by (auto simp: post_def checkpointed_id split: if_splits)

lemma fold_alone:
  assumes "distinct (map w_id rows)" and "set ws \<subseteq> set rows" and "distinct ws" and "\<forall>w\<in>set ws. w_ticketId w = ticketId"
    and "fold_result (transition_watch elapsed alone db status t) ws rows0 = Inr rows'"
    and "list_all2 (post elapsed db status t ticketId done) rows rows0" and "done \<inter> set ws = {}"
  shows "list_all2 (post elapsed db status t ticketId (done \<union> set ws)) rows rows'"
  using assms(2-7)
proof (induction ws arbitrary: rows0 "done")
  case Nil
  then show ?case by simp
next
  case (Cons w ws)
  from Cons.prems(4) obtain rows1 where r1: "transition_watch elapsed alone db status t w rows0 = Inr rows1"
    and r2: "fold_result (transition_watch elapsed alone db status t) ws rows1 = Inr rows'"
    by (auto split: sum.splits)
  let ?post = "post elapsed db status t ticketId"
  have ids: "map w_id rows0 = map w_id rows"
    using Cons.prems(5) by (induction rule: list_all2_induct) (auto simp: post_id)
  have w: "w \<in> set rows" "w_ticketId w = ticketId" "w \<notin> done" using Cons.prems by auto
  have only: "x = w" if "x \<in> set rows" "w_id x = w_id w" for x
    using assms(1) w(1) that by (metis distinct_map inj_onD)
  have self: "w' = w" if "w \<in> set rows" "?post done w w'" for w' using that w(3) by (simp add: post_def)
  have "w \<in> set rows0"
  proof -
    obtain i where i: "i < length rows" "rows ! i = w" using w(1) by (auto simp: in_set_conv_nth)
    then have "?post done w (rows0 ! i)" using Cons.prems(5) by (auto simp: list_all2_conv_all_nth)
    then show ?thesis using self [OF w(1)] i list_all2_lengthD [OF Cons.prems(5)] by (metis nth_mem)
  qed
  note a = transition_watch_alone [OF _ this w(2) r1]
  have "list_all2 (?post (insert w done)) rows rows1"
  proof (cases "concerned db status ticketId w")
    case False
    then have "rows1 = rows0" using a ids assms(1) by simp
    moreover have "?post (insert w done) = ?post done" using False by (auto simp: post_def fun_eq_iff)
    ultimately show ?thesis using Cons.prems(5) by simp
  next
    case True
    then obtain w' where w': "checkpointed elapsed db status t w w'" "rows1 = map (\<lambda>r. if r = w then w' else r) rows0"
      using a ids assms(1) by auto
    have "list_all2 (\<lambda>x y. ?post (insert w done) x (if y = w then w' else y)) rows rows0"
      using Cons.prems(5)
    proof (rule list.rel_mono_strong)
      fix x y
      assume x: "x \<in> set rows" and p: "?post done x y"
      show "?post (insert w done) x (if y = w then w' else y)"
      proof (cases "y = w")
        case True
        then have "x = w" using only [OF x] post_id [OF p] by simp
        then show ?thesis using True w'(1) \<open>concerned db status ticketId w\<close> by (simp add: post_def)
      next
        case False
        then have "x \<noteq> w" using self [OF w(1)] p by auto
        then show ?thesis using False p by (simp add: post_def)
      qed
    qed
    then show ?thesis unfolding w'(2) by (simp add: list_all2_conv_all_nth)
  qed
  then have "list_all2 (?post (insert w done \<union> set ws)) rows rows'"
    by (intro Cons.IH [OF _ _ _ r2]) (use Cons.prems in auto)
  then show ?case by simp
qed

lemma transition_alone:
  assumes "distinct (map w_id (sd_watches db))" and "first_row (\<lambda>s. ts_key s = toStatus) (sd_statuses db) = Some status"
    and "transitionTicketStopwatches elapsed alone ticketId toStatus t db = Inr db'"
  shows "list_all2 (post elapsed db status t ticketId {w. w_ticketId w = ticketId}) (sd_watches db) (sd_watches db')"
proof -
  let ?ws = "filter (\<lambda>w. w_ticketId w = ticketId) (sd_watches db)"
  obtain rows where rows: "fold_result (transition_watch elapsed alone db status t) ?ws (sd_watches db) = Inr rows"
    and db': "sd_watches db' = rows"
    using assms(2,3) by (auto simp: transitionTicketStopwatches_def)
  have r: "list_all2 (post elapsed db status t ticketId {}) (sd_watches db) (sd_watches db)"
    by (simp add: post_def list_all2_refl)
  have d: "distinct ?ws" using assms(1) by (simp add: distinct_map)
  have "list_all2 (post elapsed db status t ticketId ({} \<union> set ?ws)) (sd_watches db) rows"
    by (rule fold_alone [OF assms(1) _ d _ rows r]) simp_all
  then have "list_all2 (post elapsed db status t ticketId (set ?ws)) (sd_watches db) rows" by simp
  moreover have "post elapsed db status t ticketId {w. w_ticketId w = ticketId} w w'"
    if "w \<in> set (sd_watches db)" "post elapsed db status t ticketId (set ?ws) w w'" for w w'
  proof -
    have "(w \<in> set ?ws \<and> concerned db status ticketId w) =
        (w \<in> {w. w_ticketId w = ticketId} \<and> concerned db status ticketId w)"
      using that(1) by simp
    then show ?thesis using that(2) by (simp only: post_def)
  qed
  ultimately show ?thesis unfolding db' by (rule list.rel_mono_strong)
qed

text \<open>
  A status change that nobody interferes with leaves every stopwatch of the ticket that has a policy
  in the mode the new status asks for; a stopwatch that changes mode is checkpointed at the change, and
  no stopwatch of another ticket is touched.
\<close>

theorem transitionTicketStopwatches_modes:
  assumes "distinct (map w_id (sd_watches db))" and "first_row (\<lambda>s. ts_key s = toStatus) (sd_statuses db) = Some status"
    and "transitionTicketStopwatches elapsed alone ticketId toStatus t db = Inr db'"
    and "w \<in> set (sd_watches db)" and "policy_of db w \<noteq> None"
  shows "\<exists>w'\<in>set (sd_watches db'). w_id w' = w_id w \<and>
    (if w_ticketId w = ticketId then w_running w' = next_running status w \<and> (w' = w \<or> w_startedAt w' = t) else w' = w)"
proof -
  obtain i where i: "i < length (sd_watches db)" "sd_watches db ! i = w"
    using assms(4) by (auto simp: in_set_conv_nth)
  let ?w = "sd_watches db' ! i"
  note a = transition_alone [OF assms(1-3)]
  have p: "post elapsed db status t ticketId {w. w_ticketId w = ticketId} w ?w" and l: "i < length (sd_watches db')"
    using a i by (auto simp: list_all2_conv_all_nth)
  have "w_running ?w = next_running status w \<and> (?w = w \<or> w_startedAt ?w = t)" if tk: "w_ticketId w = ticketId"
  proof (cases "concerned db status ticketId w")
    case True
    then have "checkpointed elapsed db status t w ?w" using p tk by (simp add: post_def)
    then obtain q :: sla_policy and s where s: "checkpoint_values elapsed (pol_calendarId q) (next_running status w) t w = Inr s"
      "?w = set_stopwatch s w"
      unfolding checkpointed_def by (elim exE conjE) (rule that)
    show ?thesis
      unfolding s(2) by (rule checkpoint_values_Inr [OF s(1)]) (simp add: set_stopwatch_def)
  next
    case False
    then show ?thesis using p tk assms(5) by (auto simp: post_def concerned_def)
  qed
  moreover have "?w = w" if "w_ticketId w \<noteq> ticketId" using p that by (simp add: post_def)
  ultimately show ?thesis using l post_id [OF p] by (intro bexI [of _ ?w]) auto
qed

theorem transitionTicketStopwatches_modes_witness:
  "\<exists>w'\<in>set [sample_watch\<lparr>w_accumulatedMs := 7200000, w_running := False, w_startedAt := tuesday_1000\<rparr>].
     w_id w' = ''w1'' \<and> \<not> w_running w' \<and> w_startedAt w' = tuesday_1000"
proof -
  have "\<exists>w'\<in>set (sd_watches (sample_sla_db\<lparr>sd_watches :=
       [sample_watch\<lparr>w_accumulatedMs := 7200000, w_running := False, w_startedAt := tuesday_1000\<rparr>]\<rparr>)).
      w_id w' = w_id sample_watch \<and> (if w_ticketId sample_watch = ''t1'' then w_running w' =
        next_running (sample_status\<lparr>ts_key := ''pending'', ts_stateType := ST_pending, ts_pausesSla := True\<rparr>) sample_watch
        \<and> (w' = sample_watch \<or> w_startedAt w' = tuesday_1000) else w' = sample_watch)"
    by (rule transitionTicketStopwatches_modes [OF _ _ sample_pause])
      (simp_all add: sample_sla_db_def sample_status_def first_row_def policy_of_def policy_table_def
        sample_watch_def new_watch_def sample_policy_def)
  then show ?thesis by (simp add: sample_watch_def new_watch_def)
qed

section \<open>Properties of attaching\<close>

lemma sql_insert_new_keys:
  "distinct (map key t) \<Longrightarrow> distinct (map key (fst (sql_insert_new key r t)))"
  "set (fst (sql_insert_new key r t)) \<subseteq> insert r (set t)" "set t \<subseteq> set (fst (sql_insert_new key r t))"
  "key r \<in> key ` set (fst (sql_insert_new key r t))"
  "key r \<in> key ` set t \<Longrightarrow> fst (sql_insert_new key r t) = t"
  by (auto simp: sql_insert_new_def)

lemma attach_policy_facts:
  assumes "choose_policy (policy_table db pt) pid prio = Some p"
  shows "attach_policy uuid db ticketId prio t (pt, pid) ws =
    fst (sql_insert_new watch_key (new_watch (uuid pt TT_resolution) ticketId pt (pol_id p) t TT_resolution)
      (fst (sql_insert_new watch_key (new_watch (uuid pt TT_response) ticketId pt (pol_id p) t TT_response) ws)))"
  using assms by (simp add: attach_policy_def)

lemma attach_policy_keeps:
  "distinct (map watch_key ws) \<Longrightarrow> distinct (map watch_key (attach_policy uuid db ticketId prio t x ws))"
  "set ws \<subseteq> set (attach_policy uuid db ticketId prio t x ws)"
  by (cases x; auto simp: attach_policy_def sql_insert_new_def split: option.splits)+

lemma attach_policy_covers:
  "choose_policy (policy_table db pt) pid prio \<noteq> None \<Longrightarrow>
     (ticketId, pt, tt) \<in> watch_key ` set (attach_policy uuid db ticketId prio t (pt, pid) ws)"
  by (cases tt) (auto simp: attach_policy_def sql_insert_new_def watch_key_def new_watch_def split: option.splits)

lemma attach_policy_again:
  assumes "set (attach_policy uuid db ticketId prio t (pt, pid) ws) \<subseteq> set ws'"
    and "policy_table db' pt = policy_table db pt"
  shows "attach_policy uuid' db' ticketId prio t' (pt, pid) ws' = ws'"
proof (cases "choose_policy (policy_table db pt) pid prio")
  case None
  then show ?thesis using assms(2) by (simp add: attach_policy_def)
next
  case (Some p)
  then have "(ticketId, pt, tt) \<in> watch_key ` set ws'" for tt
    using attach_policy_covers [of db pt pid prio ticketId tt uuid t ws] assms(1) by blast
  then show ?thesis
    using Some assms(2) by (simp add: attach_policy_def sql_insert_new_def watch_key_def new_watch_def)
qed

definition attach_wanted ::
  "tzdb \<Rightarrow> (string \<Rightarrow> string \<Rightarrow> int) \<Rightarrow> string \<Rightarrow> ms \<Rightarrow> sla_db \<Rightarrow>
     (contract_error, (policy_type \<times> string option) list) result" where
  "attach_wanted tz lc ticketId t db =
     (let service = service_of db ticketId
      in bind_result
           (case service of
              None \<Rightarrow> Inr None
            | Some s \<Rightarrow> resolveContractSla tz lc (sv_id s) (Some t)
                (filter (\<lambda>c. cc_serviceId c = sv_id s) (sd_coverage db)))
           (\<lambda>contractSlaId. Inr
             [(PT_sla, case contractSlaId of Some i \<Rightarrow> Some i | None \<Rightarrow> Option.bind service sv_slaId),
              (PT_ola, Option.bind service sv_olaId)]))"

lemma attach_wanted_eq:
  "attachTicketStopwatches tz lc uuid ticketId prio t db =
     bind_result (attach_wanted tz lc ticketId t db) (\<lambda>xs. Inr (db\<lparr>sd_watches :=
       foldl (\<lambda>ws x. attach_policy uuid db ticketId prio t x ws) (sd_watches db) xs\<rparr>))"
  by (cases "service_of db ticketId"; cases "resolveContractSla tz lc (sv_id (the (service_of db ticketId))) (Some t)
      (filter (\<lambda>c. cc_serviceId c = sv_id (the (service_of db ticketId))) (sd_coverage db))")
    (simp_all add: attachTicketStopwatches_def attach_wanted_def Let_def)

lemma attach_wanted_watches [simp]:
  "attach_wanted tz lc ticketId t (db\<lparr>sd_watches := ws\<rparr>) = attach_wanted tz lc ticketId t db"
  by (simp add: attach_wanted_def service_of_def Let_def cong: option.case_cong)

lemma policy_table_watches [simp]: "policy_table (db\<lparr>sd_watches := ws\<rparr>) pt = policy_table db pt"
  by (cases pt) (simp_all add: policy_table_def)

text \<open>
  Attaching stopwatches is idempotent and keeps the table's unique key: rows that exist are kept as
  they are, no ticket gets two stopwatches for the same policy kind and target, and doing it again
  changes nothing, whatever ids the second call draws.
\<close>

theorem attachTicketStopwatches_idempotent:
  assumes "attachTicketStopwatches tz lc uuid ticketId prio t db = Inr db'"
  shows "set (sd_watches db) \<subseteq> set (sd_watches db') \<and>
    (distinct (map watch_key (sd_watches db)) \<longrightarrow> distinct (map watch_key (sd_watches db'))) \<and>
    attachTicketStopwatches tz lc uuid' ticketId prio t db' = Inr db'"
proof -
  obtain a b where w: "attach_wanted tz lc ticketId t db = Inr [(PT_sla, a), (PT_ola, b)]"
    using assms unfolding attach_wanted_eq by (auto simp: attach_wanted_def Let_def)
  let ?w1 = "attach_policy uuid db ticketId prio t (PT_sla, a) (sd_watches db)"
  let ?w2 = "attach_policy uuid db ticketId prio t (PT_ola, b) ?w1"
  have db': "db' = db\<lparr>sd_watches := ?w2\<rparr>" using assms by (simp add: attach_wanted_eq w)
  have s: "set (sd_watches db) \<subseteq> set ?w1" "set ?w1 \<subseteq> set ?w2"
    by (rule attach_policy_keeps(2))+
  have "attach_policy uuid' db' ticketId prio t (PT_sla, a) ?w2 = ?w2"
    by (rule attach_policy_again [OF s(2)]) (simp add: db')
  moreover have "attach_policy uuid' db' ticketId prio t (PT_ola, b) ?w2 = ?w2"
    by (rule attach_policy_again [OF order_refl]) (simp add: db')
  moreover have "sd_watches db' = ?w2" by (simp add: db')
  ultimately have "attachTicketStopwatches tz lc uuid' ticketId prio t db' = Inr (db'\<lparr>sd_watches := ?w2\<rparr>)"
    using w by (simp add: attach_wanted_eq) (simp add: db')
  moreover have "db'\<lparr>sd_watches := ?w2\<rparr> = db'" by (simp add: db')
  moreover have "distinct (map watch_key (sd_watches db)) \<Longrightarrow> distinct (map watch_key ?w2)"
    by (intro attach_policy_keeps(1))
  ultimately show ?thesis using s by (auto simp: db')
qed

theorem attachTicketStopwatches_idempotent_witness:
  "\<exists>db'. attachTicketStopwatches utc_only code_unit_compare (\<lambda>pt tt. policy_type_key pt @ target_type_key tt) ''t9'' P3 0
       sample_sla_db = Inr db' \<and> length (sd_watches db') = 3 \<and> distinct (map watch_key (sd_watches db')) \<and>
     attachTicketStopwatches utc_only code_unit_compare (\<lambda>_ _. ''x'') ''t9'' P3 0 db' = Inr db'"
proof -
  obtain db' where a: "attachTicketStopwatches utc_only code_unit_compare (\<lambda>pt tt. policy_type_key pt @ target_type_key tt) ''t9'' P3 0
       sample_sla_db = Inr db'" and l: "length (sd_watches db') = 3"
    by (simp add: attach_wanted_eq attach_wanted_def service_of_def sample_sla_db_def sample_ticket_def first_row_def
        attach_policy_def choose_policy_def policy_by_id_def policy_table_def sample_policy_def
        sql_insert_new_def watch_key_def new_watch_def sample_watch_def)
  have "distinct (map watch_key (sd_watches sample_sla_db))" by (simp add: sample_sla_db_def)
  with a l attachTicketStopwatches_idempotent [OF a, of "\<lambda>_ _. ''x''"] show ?thesis by blast
qed

end
