(* ===== verification/SlaSweep.thy ===== *)
theory SlaSweep
  imports Sla
begin

text \<open>
  The sweep that marks warnings and breaches, \<open>server/sla/sweep.ts\<close>. Each watch is marked with the
  highest threshold it has reached; the unique idempotency key of the event makes marking a claim. The
  threshold is compared exactly, where the code multiplies floating-point numbers. The events the code
  fires after the commit are the result of the sweep; \<open>collate\<close> is the text order of the database.
\<close>

fun trigger_key :: "trigger_type \<Rightarrow> string" where
  "trigger_key Trig_warning = ''warning''" | "trigger_key Trig_breach = ''breach''"

fun trigger_flag :: "trigger_type \<Rightarrow> escalation_flag" where
  "trigger_flag Trig_warning = EF_warning" | "trigger_flag Trig_breach = EF_breach"

fun covers_target :: "notification_target \<Rightarrow> target_type \<Rightarrow> bool" where
  "covers_target NT_both tt = True"
| "covers_target NT_response tt = (tt = TT_response)"
| "covers_target NT_resolution tt = (tt = TT_resolution)"

definition js_upper_policy :: "policy_type \<Rightarrow> string" where
  "js_upper_policy pt = (case pt of PT_sla \<Rightarrow> ''SLA'' | PT_ola \<Rightarrow> ''OLA'')"

definition idempotency_key :: "watch \<Rightarrow> notification_rule \<Rightarrow> string" where
  "idempotency_key w r = w_id w @ '':'' @ nr_id r"

definition reason_text :: "watch \<Rightarrow> trigger_type \<Rightarrow> string" where
  "reason_text w tr =
     js_upper_policy (w_policyType w) @ '' '' @ target_type_key (w_targetType w) @ '' target '' @
     (case tr of Trig_breach \<Rightarrow> ''missed'' | Trig_warning \<Rightarrow> ''at risk'')"

definition applicable :: "watch \<Rightarrow> notification_rule \<Rightarrow> bool" where
  "applicable w r \<longleftrightarrow> nr_policyType r = w_policyType w \<and> nr_policyId r = w_policyId w \<and> nr_enabled r"

text \<open>\<open>exists(unfiredRule)\<close>.\<close>

definition has_unfired_rule :: "sla_db \<Rightarrow> watch \<Rightarrow> bool" where
  "has_unfired_rule db w \<longleftrightarrow>
     list_ex (\<lambda>r. applicable w r \<and> covers_target (nr_targetType r) (w_targetType w) \<and>
       \<not> list_ex (\<lambda>e. se_stopwatchId e = w_id w \<and> se_ruleId e = Some (nr_id r)) (sd_events db)) (sd_rules db)"

text \<open>The rule \<open>markWatch\<close> picks: the highest threshold reached.\<close>

definition reached_rule :: "sla_db \<Rightarrow> watch \<Rightarrow> sla_policy \<Rightarrow> int \<Rightarrow> notification_rule option" where
  "reached_rule db w p elapsedMs =
     (case js_sort (\<lambda>a b. nr_thresholdPercent b - nr_thresholdPercent a)
        (filter (\<lambda>r. covers_target (nr_targetType r) (w_targetType w) \<and>
           target_ms w p * nr_thresholdPercent r \<le> 100 * elapsedMs) (filter (applicable w) (sd_rules db))) of
        [] \<Rightarrow> None | r # _ \<Rightarrow> Some r)"

definition event_row :: "watch \<Rightarrow> notification_rule \<Rightarrow> escalation_event" where
  "event_row w r = \<lparr>se_idempotencyKey = idempotency_key w r, se_ticketId = w_ticketId w, se_stopwatchId = w_id w,
     se_ruleId = Some (nr_id r), se_triggerType = nr_triggerType r, se_targetType = w_targetType w,
     se_reason = reason_text w (nr_triggerType r)\<rparr>"

definition flag_ticket :: "watch \<Rightarrow> trigger_type \<Rightarrow> ticket list \<Rightarrow> ticket list" where
  "flag_ticket w tr ts =
     fst (sql_update
       (\<lambda>t. tk_id t = w_ticketId w \<and> (case tr of Trig_breach \<Rightarrow> True | Trig_warning \<Rightarrow> tk_escalationFlag t \<noteq> EF_breach))
       (\<lambda>t. t\<lparr>tk_escalationFlag := trigger_flag tr, tk_escalationReason := Some (reason_text w tr)\<rparr>) ts)"

text \<open>The transaction, and the event that is fired when it inserted the row.\<close>

definition mark_rule :: "watch \<Rightarrow> notification_rule \<Rightarrow> sla_db \<Rightarrow> sla_db \<times> escalation_event option" where
  "mark_rule w r db =
     (case sql_insert_new se_idempotencyKey (event_row w r) (sd_events db) of
        (events, inserted) \<Rightarrow>
          if inserted
          then (db\<lparr>sd_events := events, sd_tickets := flag_ticket w (nr_triggerType r) (sd_tickets db)\<rparr>,
                Some (event_row w r))
          else (db, None))"

definition markWatch ::
  "elapsed_fn \<Rightarrow> ms \<Rightarrow> watch \<Rightarrow> sla_db \<Rightarrow> (cal_error, sla_db \<times> escalation_event option) result" where
  "markWatch elapsed now w db =
     (case policy_of db w of
        None \<Rightarrow> Inr (db, None)
      | Some p \<Rightarrow>
          bind_result (elapsed (w_startedAt w) now (pol_calendarId p)) (\<lambda>n.
            case reached_rule db w p (w_accumulatedMs w + n) of
              None \<Rightarrow> Inr (db, None)
            | Some r \<Rightarrow> Inr (mark_rule w r db)))"

definition sweep_watches :: "(string \<Rightarrow> string \<Rightarrow> int) \<Rightarrow> int \<Rightarrow> sla_db \<Rightarrow> watch list" where
  "sweep_watches collate limit db =
     take (clamp_limit 1000 limit)
       (js_sort (\<lambda>a b. cmp_then (w_startedAt a - w_startedAt b) (collate (w_id a) (w_id b)))
         (filter (\<lambda>w. w_running w \<and> has_unfired_rule db w) (sd_watches db)))"

text \<open>An exception of one watch is logged and the next one is taken.\<close>

definition sweep_step ::
  "elapsed_fn \<Rightarrow> ms \<Rightarrow> watch \<Rightarrow> sla_db \<times> escalation_event list \<Rightarrow> sla_db \<times> escalation_event list" where
  "sweep_step elapsed now w = (\<lambda>(db, fired).
     case markWatch elapsed now w db of
       Inl e \<Rightarrow> (db, fired)
     | Inr (db', None) \<Rightarrow> (db', fired)
     | Inr (db', Some e) \<Rightarrow> (db', fired @ [e]))"

definition sweepSla ::
  "elapsed_fn \<Rightarrow> (string \<Rightarrow> string \<Rightarrow> int) \<Rightarrow> ms \<Rightarrow> int \<Rightarrow> sla_db \<Rightarrow> sla_db \<times> escalation_event list" where
  "sweepSla elapsed collate now limit db =
     fold (sweep_step elapsed now) (sweep_watches collate limit db) (db, [])"

section \<open>The ledger of events\<close>

text \<open>Inserting the event of a watch and a rule is the claim to fire it.\<close>

interpretation escalation_ledger: claim_ledger
  "\<lambda>k t. sql_insert_new se_idempotencyKey
     \<lparr>se_idempotencyKey = k, se_ticketId = [], se_stopwatchId = [], se_ruleId = None, se_triggerType = Trig_warning,
      se_targetType = TT_response, se_reason = []\<rparr> t"
  "\<lambda>t. se_idempotencyKey ` set t"
  by (rule claim_ledger_insert_new) simp

text \<open>What every step keeps: the events only grow, by what is fired, and no key occurs twice.\<close>

definition unique_keys :: "escalation_event list \<Rightarrow> bool" where
  "unique_keys evs = distinct (map se_idempotencyKey evs)"

definition ledger_grows :: "sla_db \<Rightarrow> sla_db \<times> escalation_event list \<Rightarrow> bool" where
  "ledger_grows db0 s \<longleftrightarrow> sd_events (fst s) = sd_events db0 @ snd s \<and>
     (unique_keys (sd_events db0) \<longrightarrow> unique_keys (sd_events (fst s)))"

text \<open>The order of flags: a sweep only raises one.\<close>

fun flag_rank :: "escalation_flag \<Rightarrow> nat" where
  "flag_rank EF_none = 0" | "flag_rank EF_warning = 1" | "flag_rank EF_breach = 2"

definition raised :: "ticket \<Rightarrow> ticket \<Rightarrow> bool" where
  "raised t t' \<longleftrightarrow> (\<exists>f r. flag_rank (tk_escalationFlag t) \<le> flag_rank f \<and>
     t' = t\<lparr>tk_escalationFlag := f, tk_escalationReason := r\<rparr>)"

lemma raised_refl [simp]: "raised t t"
proof -
  have "t = t\<lparr>tk_escalationFlag := tk_escalationFlag t, tk_escalationReason := tk_escalationReason t\<rparr>" by simp
  then show ?thesis unfolding raised_def by blast
qed

lemma raised_trans: "raised a b \<Longrightarrow> raised b c \<Longrightarrow> raised a c"
proof -
  assume "raised a b" "raised b c"
  then obtain f r f' r' where b: "b = a\<lparr>tk_escalationFlag := f, tk_escalationReason := r\<rparr>"
    "flag_rank (tk_escalationFlag a) \<le> flag_rank f"
    and c: "c = b\<lparr>tk_escalationFlag := f', tk_escalationReason := r'\<rparr>" "flag_rank (tk_escalationFlag b) \<le> flag_rank f'"
    unfolding raised_def by (elim exE conjE) (rule that)
  then have "c = a\<lparr>tk_escalationFlag := f', tk_escalationReason := r'\<rparr>" "flag_rank (tk_escalationFlag a) \<le> flag_rank f'"
    by simp_all
  then show ?thesis unfolding raised_def by (intro exI conjI)
qed

definition flags_raised :: "ticket list \<Rightarrow> ticket list \<Rightarrow> bool" where
  "flags_raised ts ts' \<longleftrightarrow> list_all2 raised ts ts'"

lemma flags_raised_refl: "flags_raised ts ts"
  by (simp add: flags_raised_def list_all2_refl)

lemma flags_raised_trans: "flags_raised a b \<Longrightarrow> flags_raised b c \<Longrightarrow> flags_raised a c"
  unfolding flags_raised_def by (rule list_all2_trans [of raised raised raised]) (rule raised_trans)

lemma flag_ticket_raises: "flags_raised ts (flag_ticket w tr ts)"
proof -
  let ?P = "\<lambda>t. tk_id t = w_ticketId w \<and> (case tr of Trig_breach \<Rightarrow> True | Trig_warning \<Rightarrow> tk_escalationFlag t \<noteq> EF_breach)"
  let ?f = "\<lambda>t. t\<lparr>tk_escalationFlag := trigger_flag tr, tk_escalationReason := Some (reason_text w tr)\<rparr>"
  have "raised t (?f t)" if "?P t" for t
  proof -
    have "flag_rank (tk_escalationFlag t) \<le> flag_rank (trigger_flag tr)"
      using that by (cases tr; cases "tk_escalationFlag t") simp_all
    then show ?thesis unfolding raised_def by blast
  qed
  then have "raised t (if ?P t then ?f t else t)" for t by simp
  then show ?thesis
    unfolding flags_raised_def flag_ticket_def sql_update_def by (simp add: list_all2_map2 list_all2_refl)
qed

lemma mark_rule_facts:
  assumes "mark_rule w r db = (db', f)"
  shows "sd_events db' = sd_events db @ (case f of None \<Rightarrow> [] | Some e \<Rightarrow> [e]) \<and>
    (unique_keys (sd_events db) \<longrightarrow> unique_keys (sd_events db')) \<and>
    flags_raised (sd_tickets db) (sd_tickets db')"
  using assms flag_ticket_raises flags_raised_refl
  by (auto simp: unique_keys_def mark_rule_def sql_insert_new_def split: if_splits)

lemma markWatch_facts:
  assumes "markWatch elapsed now w db = Inr (db', f)"
  shows "sd_events db' = sd_events db @ (case f of None \<Rightarrow> [] | Some e \<Rightarrow> [e]) \<and>
    (unique_keys (sd_events db) \<longrightarrow> unique_keys (sd_events db')) \<and>
    flags_raised (sd_tickets db) (sd_tickets db')"
proof -
  consider "db' = db" "f = None" | r where "mark_rule w r db = (db', f)"
    using assms by (auto simp: markWatch_def split: option.splits)
  then show ?thesis
    by cases (simp add: flags_raised_refl, rule mark_rule_facts)
qed

definition swept :: "sla_db \<Rightarrow> sla_db \<times> escalation_event list \<Rightarrow> bool" where
  "swept db0 s \<longleftrightarrow> ledger_grows db0 s \<and> flags_raised (sd_tickets db0) (sd_tickets (fst s))"

lemma sweep_step_swept: "swept db0 s \<Longrightarrow> swept db0 (sweep_step elapsed now w s)"
proof -
  obtain db fired where s: "s = (db, fired)" by (cases s)
  assume a: "swept db0 s"
  show ?thesis
  proof (cases "markWatch elapsed now w db")
    case (Inl e)
    then show ?thesis using a by (simp add: sweep_step_def s)
  next
    case (Inr x)
    obtain db' f where x: "x = (db', f)" by (cases x)
    from markWatch_facts [OF Inr [unfolded x]] a show ?thesis
      by (cases f) (auto simp: sweep_step_def s Inr x swept_def ledger_grows_def intro: flags_raised_trans)
  qed
qed

lemma sweepSla_swept: "swept db (sweepSla elapsed collate now limit db)"
proof -
  have "swept db s \<Longrightarrow> swept db (fold (sweep_step elapsed now) ws s)" for ws s
    by (induction ws arbitrary: s) (simp_all add: sweep_step_swept)
  moreover have "swept db (db, [])" by (simp add: swept_def ledger_grows_def flags_raised_refl)
  ultimately show ?thesis by (simp add: sweepSla_def)
qed

text \<open>A history of sweeps, of this process and of others, each with its instant and limit.\<close>

fun run_sweeps ::
  "elapsed_fn \<Rightarrow> (string \<Rightarrow> string \<Rightarrow> int) \<Rightarrow> (ms \<times> int) list \<Rightarrow> sla_db \<Rightarrow> sla_db \<times> escalation_event list" where
  "run_sweeps elapsed collate [] db = (db, [])"
| "run_sweeps elapsed collate ((now, limit) # ss) db =
     (let (db1, f1) = sweepSla elapsed collate now limit db; (db2, f2) = run_sweeps elapsed collate ss db1
      in (db2, f1 @ f2))"

lemma run_sweeps_swept: "swept db (run_sweeps elapsed collate ss db)"
proof (induction ss arbitrary: db)
  case Nil
  then show ?case by (simp add: swept_def ledger_grows_def flags_raised_refl)
next
  case (Cons x ss)
  obtain now limit where x: "x = (now, limit)" by (cases x)
  obtain db1 f1 where s1: "sweepSla elapsed collate now limit db = (db1, f1)" by (cases "sweepSla elapsed collate now limit db")
  obtain db2 f2 where s2: "run_sweeps elapsed collate ss db1 = (db2, f2)" by (cases "run_sweeps elapsed collate ss db1")
  show ?case
    using sweepSla_swept [of db elapsed collate now limit] Cons.IH [of db1]
    by (auto simp: x s1 s2 swept_def ledger_grows_def intro: flags_raised_trans)
qed

section \<open>Properties\<close>


definition sample_rule :: notification_rule where
  "sample_rule = \<lparr>nr_id = ''r100'', nr_policyType = PT_sla, nr_policyId = ''p1'', nr_triggerType = Trig_breach,
     nr_targetType = NT_response, nr_thresholdPercent = 100, nr_enabled = True\<rparr>"

definition warning_rule :: notification_rule where
  "warning_rule = sample_rule\<lparr>nr_id := ''r80'', nr_triggerType := Trig_warning, nr_thresholdPercent := 80\<rparr>"

text \<open>Two tickets with a breached response target; the older watch has its breach recorded already.\<close>

definition late_watch :: watch where
  "late_watch = sample_watch\<lparr>w_id := ''w2'', w_ticketId := ''t2'', w_startedAt := friday_1600 + 1\<rparr>"

definition breached_db :: sla_db where
  "breached_db = sample_sla_db\<lparr>sd_tickets := [sample_ticket, sample_ticket\<lparr>tk_id := ''t2''\<rparr>],
     sd_watches := [sample_watch, late_watch], sd_rules := [warning_rule, sample_rule]\<rparr>"

definition wall_clock :: elapsed_fn where
  "wall_clock a b cid = Inr (max 0 (b - a))"

definition eight_days :: ms where "eight_days = friday_1600 + 8 * day_ms"

lemmas sweep_sample_defs = breached_db_def sample_sla_db_def sample_rule_def warning_rule_def late_watch_def
  sample_watch_def new_watch_def sample_policy_def wall_clock_def eight_days_def friday_1600_def

lemma breached_sweep:
  "run_sweeps wall_clock code_unit_compare [(eight_days, 1), (eight_days, 1)] breached_db =
     (breached_db\<lparr>sd_events := [event_row sample_watch sample_rule],
        sd_tickets := flag_ticket sample_watch Trig_breach (sd_tickets breached_db)\<rparr>, [event_row sample_watch sample_rule])"
  by code_simp


text \<open>
  The sweep never lowers the escalation flag of a ticket: a breach is not turned into a warning, and
  no other column of a ticket changes but the reason.
\<close>

theorem sweepSla_never_downgrades:
  "flags_raised (sd_tickets db) (sd_tickets (fst (run_sweeps elapsed collate ss db)))"
  using run_sweeps_swept [of db elapsed collate ss] by (simp add: swept_def)

text \<open>
  A watch whose highest reached rule has been marked is not marked again, but it is still selected
  while a lower rule was never fired; when all the watches that fill the sweep's window are of this
  kind, the sweep does nothing, whatever other watches are due.
\<close>

theorem sweepSla_starves:
  assumes "\<And>w. w \<in> set (sweep_watches collate limit db) \<Longrightarrow>
      \<exists>p n r. policy_of db w = Some p \<and> elapsed (w_startedAt w) now (pol_calendarId p) = Inr n \<and>
        reached_rule db w p (w_accumulatedMs w + n) = Some r \<and>
        idempotency_key w r \<in> se_idempotencyKey ` set (sd_events db)"
  shows "sweepSla elapsed collate now limit db = (db, [])"
proof -
  have "markWatch elapsed now w db = Inr (db, None)" if w: "w \<in> set (sweep_watches collate limit db)" for w
  proof -
    obtain p n r where "policy_of db w = Some p" "elapsed (w_startedAt w) now (pol_calendarId p) = Inr n"
      "reached_rule db w p (w_accumulatedMs w + n) = Some r"
      "idempotency_key w r \<in> se_idempotencyKey ` set (sd_events db)"
      using assms [OF w] by blast
    moreover from this(4) have "mark_rule w r db = (db, None)"
      by (auto simp: mark_rule_def sql_insert_new_def event_row_def)
    ultimately show ?thesis by (simp add: markWatch_def)
  qed
  then have "set ws \<subseteq> set (sweep_watches collate limit db) \<Longrightarrow> fold (sweep_step elapsed now) ws (db, []) = (db, [])" for ws
    by (induction ws) (auto simp: sweep_step_def)
  then show ?thesis by (simp add: sweepSla_def)
qed

text \<open>The second watch of the example is due and unmarked, and is never reached with a window of one.\<close>

theorem sweepSla_starves_witness:
  "let db = fst (run_sweeps wall_clock code_unit_compare [(eight_days, 1)] breached_db)
   in sweepSla wall_clock code_unit_compare eight_days 1 db = (db, []) \<and>
      markWatch wall_clock eight_days late_watch db \<noteq> Inr (db, None)"
proof -
  let ?db = "fst (run_sweeps wall_clock code_unit_compare [(eight_days, 1)] breached_db)"
  have w: "sweep_watches code_unit_compare 1 ?db = [sample_watch]" by code_simp
  have "policy_of ?db sample_watch = Some sample_policy" by code_simp
  moreover have "wall_clock (w_startedAt sample_watch) eight_days (pol_calendarId sample_policy) = Inr (8 * day_ms)"
    by code_simp
  moreover have "reached_rule ?db sample_watch sample_policy (w_accumulatedMs sample_watch + 8 * day_ms) = Some sample_rule"
    by code_simp
  moreover have "idempotency_key sample_watch sample_rule \<in> se_idempotencyKey ` set (sd_events ?db)" by code_simp
  ultimately have "sweepSla wall_clock code_unit_compare eight_days 1 ?db = (?db, [])"
    by (intro sweepSla_starves) (auto simp only: w list.set empty_iff insert_iff)
  moreover have "markWatch wall_clock eight_days late_watch ?db \<noteq> Inr (?db, None)" by code_simp
  ultimately show ?thesis unfolding Let_def by (rule conjI)
qed

end
