(* ===== verification/ForeignMapping.thy ===== *)
theory ForeignMapping
  imports Vocabulary
begin

text \<open>
  Reading a record of a foreign ITSM system, \<open>server/connectors/mapping.ts\<close>: which ticket it maps to
  and which environment it is routed to. Objects used as dictionaries are association lists in
  insertion order. The result of a mapping is stored as strings in a map, as the code does, and
  read back as vocabulary; \<open>localeCompare\<close> is a parameter.
\<close>

record field_mapping =
  fm_sourceField :: string
  fm_targetField :: mappable_field
  fm_valueMap :: "(string \<times> string) list"
  fm_onUnmapped :: unmapped_policy
  fm_defaultValue :: "string option"

record foreign_record =
  fr_externalId :: string
  fr_externalKey :: string
  fr_externalUrl :: "string option"
  fr_title :: string
  fr_body :: string
  fr_updatedAt :: string
  fr_requesterEmail :: "string option"
  fr_fields :: "(string \<times> string option) list"

record mapped_ticket =
  mt_recordType :: record_type
  mt_impact :: impact
  mt_urgency :: urgency
  mt_priority :: priority
  mt_status :: "string option"
  mt_serviceId :: string
  mt_serviceSubcategoryId :: string

record mapping_issue =
  mi_sourceField :: string
  mi_targetField :: mappable_field
  mi_value :: "string option"
  mi_reason :: string

datatype mapping_outcome =
    Mapping_ok mapped_ticket "mapping_issue list"
  | Mapping_rejected "mapping_issue list" "mapping_issue list"

record mapping_vocabulary =
  mv_statusKeys :: "string list"
  mv_serviceIds :: "string list"
  mv_serviceSubcategoryIds :: "string list"
  mv_defaultServiceId :: string
  mv_defaultServiceSubcategoryId :: string

definition normalizeKey :: "string \<Rightarrow> string" where
  "normalizeKey v = js_lower (js_trim v)"

fun lookup_value :: "(string \<times> string) list \<Rightarrow> string \<Rightarrow> string option" where
  "lookup_value [] v = None"
| "lookup_value ((key, mapped) # es) v =
     (if normalizeKey key = normalizeKey v then Some mapped else lookup_value es v)"

definition permitted :: "mappable_field \<Rightarrow> string \<Rightarrow> mapping_vocabulary \<Rightarrow> bool" where
  "permitted target v voc =
     (case target of
        Field_recordType \<Rightarrow> v \<in> set (map record_type_key RECORD_TYPES)
      | Field_impact \<Rightarrow> v \<in> set (map level_key IMPACT_LEVELS)
      | Field_urgency \<Rightarrow> v \<in> set (map level_key URGENCY_LEVELS)
      | Field_status \<Rightarrow> v \<in> set (mv_statusKeys voc)
      | Field_serviceId \<Rightarrow> v \<in> set (mv_serviceIds voc)
      | Field_serviceSubcategoryId \<Rightarrow> v \<in> set (mv_serviceSubcategoryIds voc))"

text \<open>\<open>record.fields[sourceField] ?? null\<close>.\<close>

definition field_of :: "foreign_record \<Rightarrow> string \<Rightarrow> string option" where
  "field_of r f = (case map_of (fr_fields r) f of None \<Rightarrow> None | Some v \<Rightarrow> v)"

record mapping_state =
  ms_resolved :: "mappable_field \<Rightarrow> string option"
  ms_rejected :: "mapping_issue list"
  ms_quarantined :: "mapping_issue list"

definition issue_of :: "field_mapping \<Rightarrow> string option \<Rightarrow> string \<Rightarrow> mapping_issue" where
  "issue_of m raw why = \<lparr>mi_sourceField = fm_sourceField m, mi_targetField = fm_targetField m, mi_value = raw, mi_reason = why\<rparr>"

text \<open>One turn of the loop over the mappings: the branch taken, and what it does.\<close>

datatype verdict = V_absent | V_resolve string | V_quarantine string | V_reject string

definition field_verdict :: "foreign_record \<Rightarrow> mapping_vocabulary \<Rightarrow> field_mapping \<Rightarrow> verdict" where
  "field_verdict r voc m =
     (case field_of r (fm_sourceField m) of
        None \<Rightarrow> V_absent
      | Some v \<Rightarrow>
          if js_trim v = [] then V_absent
          else (case lookup_value (fm_valueMap m) v of
            None \<Rightarrow>
              (case fm_onUnmapped m of
                 Unmapped_reject \<Rightarrow> V_reject ''no mapping entry for this value''
               | Unmapped_quarantine \<Rightarrow> V_quarantine ''no mapping entry for this value''
               | Unmapped_default \<Rightarrow>
                   (case fm_defaultValue m of
                      None \<Rightarrow> V_quarantine ''no mapping entry, and the default is invalid''
                    | Some d \<Rightarrow>
                        if permitted (fm_targetField m) d voc then V_resolve d
                        else V_quarantine ''no mapping entry, and the default is invalid''))
          | Some mapped \<Rightarrow>
              if permitted (fm_targetField m) mapped voc then V_resolve mapped
              else V_quarantine (''maps to \"'' @ mapped @ ''\", which is not a known '' @
                mappable_field_key (fm_targetField m))))"

definition map_field :: "foreign_record \<Rightarrow> mapping_vocabulary \<Rightarrow> field_mapping \<Rightarrow> mapping_state \<Rightarrow> mapping_state" where
  "map_field r voc m s =
     (let issue = issue_of m (field_of r (fm_sourceField m))
      in case field_verdict r voc m of
        V_absent \<Rightarrow> s
      | V_resolve v \<Rightarrow> s\<lparr>ms_resolved := (ms_resolved s)(fm_targetField m \<mapsto> v)\<rparr>
      | V_quarantine why \<Rightarrow> s\<lparr>ms_quarantined := ms_quarantined s @ [issue why]\<rparr>
      | V_reject why \<Rightarrow> s\<lparr>ms_rejected := ms_rejected s @ [issue why]\<rparr>)"

text \<open>A cast of a stored string back to the vocabulary, with the default where nothing is stored.\<close>

definition cast_or :: "('a \<Rightarrow> string) \<Rightarrow> 'a list \<Rightarrow> 'a \<Rightarrow> string option \<Rightarrow> 'a" where
  "cast_or key vals d v =
     (case v of None \<Rightarrow> d | Some s \<Rightarrow> (case of_key key vals s of None \<Rightarrow> d | Some x \<Rightarrow> x))"

definition or_else :: "'a option \<Rightarrow> 'a \<Rightarrow> 'a" where
  "or_else v d = (case v of None \<Rightarrow> d | Some x \<Rightarrow> x)"

text \<open>A string is truthy where it is not empty.\<close>

definition truthy :: "string option \<Rightarrow> bool" where
  "truthy v = (case v of None \<Rightarrow> False | Some s \<Rightarrow> s \<noteq> [])"

definition mapped_of :: "mapping_vocabulary \<Rightarrow> (mappable_field \<Rightarrow> string option) \<Rightarrow> mapped_ticket" where
  "mapped_of voc resolved =
     (let impact = cast_or level_key IMPACT_LEVELS L_medium (resolved Field_impact);
          urgency = cast_or level_key URGENCY_LEVELS L_medium (resolved Field_urgency)
      in \<lparr>mt_recordType = cast_or record_type_key RECORD_TYPES RT_incident (resolved Field_recordType),
          mt_impact = impact, mt_urgency = urgency, mt_priority = derivePriority impact urgency,
          mt_status = resolved Field_status,
          mt_serviceId = or_else (resolved Field_serviceId) (mv_defaultServiceId voc),
          mt_serviceSubcategoryId =
            (if truthy (resolved Field_serviceId) \<and> \<not> truthy (resolved Field_serviceSubcategoryId)
             then mv_defaultServiceSubcategoryId voc
             else or_else (resolved Field_serviceSubcategoryId) (mv_defaultServiceSubcategoryId voc))\<rparr>)"

definition mapForeignRecord ::
  "foreign_record \<Rightarrow> field_mapping list \<Rightarrow> mapping_vocabulary \<Rightarrow> mapping_outcome" where
  "mapForeignRecord r mappings voc =
     (let s = fold (map_field r voc) mappings \<lparr>ms_resolved = \<lambda>_. None, ms_rejected = [], ms_quarantined = []\<rparr>
      in if ms_rejected s \<noteq> [] then Mapping_rejected (ms_rejected s) (ms_quarantined s)
         else Mapping_ok (mapped_of voc (ms_resolved s)) (ms_quarantined s))"

record environment_route =
  er_sourceField :: string
  er_sourceValue :: string
  er_environmentKey :: string
  er_position :: int

datatype resolution_via = Via_route | Via_default | Via_default_after_invalid_route

record environment_resolution =
  res_environmentKey :: string
  res_via :: resolution_via
  res_matched :: "environment_route option"

definition route_compare :: "(string \<Rightarrow> string \<Rightarrow> int) \<Rightarrow> environment_route \<Rightarrow> environment_route \<Rightarrow> int" where
  "route_compare lc a b =
     cmp_then (er_position a - er_position b)
       (cmp_then (lc (er_sourceField a) (er_sourceField b)) (lc (er_sourceValue a) (er_sourceValue b)))"

definition route_matches :: "foreign_record \<Rightarrow> environment_route \<Rightarrow> bool" where
  "route_matches r route =
     (case field_of r (er_sourceField route) of None \<Rightarrow> False
      | Some raw \<Rightarrow> normalizeKey raw = normalizeKey (er_sourceValue route))"

fun first_route :: "foreign_record \<Rightarrow> string list \<Rightarrow> string \<Rightarrow> environment_route list \<Rightarrow> bool \<Rightarrow> environment_resolution" where
  "first_route r known dflt [] sawInvalid =
     \<lparr>res_environmentKey = dflt,
      res_via = (if sawInvalid then Via_default_after_invalid_route else Via_default), res_matched = None\<rparr>"
| "first_route r known dflt (route # routes) sawInvalid =
     (if \<not> route_matches r route then first_route r known dflt routes sawInvalid
      else if er_environmentKey route \<notin> set known then first_route r known dflt routes True
      else \<lparr>res_environmentKey = er_environmentKey route, res_via = Via_route, res_matched = Some route\<rparr>)"

definition resolveEnvironmentKey ::
  "(string \<Rightarrow> string \<Rightarrow> int) \<Rightarrow> foreign_record \<Rightarrow> environment_route list \<Rightarrow> string \<Rightarrow> string list \<Rightarrow>
     environment_resolution" where
  "resolveEnvironmentKey lc r routes dflt known = first_route r known dflt (js_sort (route_compare lc) routes) False"

section \<open>The loop over the mappings\<close>

lemma normalizeKey_idem [simp]: "normalizeKey (normalizeKey v) = normalizeKey v"
  by (simp add: normalizeKey_def js_trim_lower)

lemma verdict_permitted: "field_verdict r voc m = V_resolve v \<Longrightarrow> permitted (fm_targetField m) v voc"
  by (auto simp: field_verdict_def split: option.splits unmapped_policy.splits if_splits)

text \<open>A record is rejected by a mapping that says so and knows no value for what the record holds.\<close>

definition rejects :: "foreign_record \<Rightarrow> field_mapping \<Rightarrow> bool" where
  "rejects r m \<longleftrightarrow> fm_onUnmapped m = Unmapped_reject \<and>
     (\<exists>v. field_of r (fm_sourceField m) = Some v \<and> js_trim v \<noteq> [] \<and> lookup_value (fm_valueMap m) v = None)"

lemma verdict_reject_iff: "(\<exists>why. field_verdict r voc m = V_reject why) \<longleftrightarrow> rejects r m"
  by (auto simp: field_verdict_def rejects_def split: option.splits unmapped_policy.splits)

text \<open>The mappings whose source field holds something.\<close>

definition present :: "foreign_record \<Rightarrow> field_mapping \<Rightarrow> bool" where
  "present r m = (case field_of r (fm_sourceField m) of None \<Rightarrow> False | Some v \<Rightarrow> js_trim v \<noteq> [])"

lemma verdict_absent_iff: "field_verdict r voc m = V_absent \<longleftrightarrow> \<not> present r m"
  by (auto simp: field_verdict_def present_def split: option.splits unmapped_policy.splits)

text \<open>What the loop keeps: everything resolved is permitted.\<close>

definition all_permitted :: "mapping_vocabulary \<Rightarrow> mapping_state \<Rightarrow> bool" where
  "all_permitted voc s \<longleftrightarrow> (\<forall>f v. ms_resolved s f = Some v \<longrightarrow> permitted f v voc)"

lemma fold_permitted: "all_permitted voc s \<Longrightarrow> all_permitted voc (fold (map_field r voc) ms s)"
proof (induction ms arbitrary: s)
  case (Cons m ms)
  have "all_permitted voc (map_field r voc m s)"
    using Cons.prems verdict_permitted [of r voc m]
    by (auto simp: all_permitted_def map_field_def Let_def split: verdict.splits)
  then show ?case using Cons.IH by simp
qed simp

text \<open>The issues, in order, are those of the mappings that reject or quarantine.\<close>

definition issues_of :: "(verdict \<Rightarrow> string option) \<Rightarrow> foreign_record \<Rightarrow> mapping_vocabulary \<Rightarrow> field_mapping list \<Rightarrow> mapping_issue list" where
  "issues_of pick r voc ms = List.map_filter (\<lambda>m. map_option (issue_of m (field_of r (fm_sourceField m)))
     (pick (field_verdict r voc m))) ms"

definition reject_reason :: "verdict \<Rightarrow> string option" where
  "reject_reason v = (case v of V_reject why \<Rightarrow> Some why | _ \<Rightarrow> None)"

definition quarantine_reason :: "verdict \<Rightarrow> string option" where
  "quarantine_reason v = (case v of V_quarantine why \<Rightarrow> Some why | _ \<Rightarrow> None)"

lemma fold_issues:
  "ms_rejected (fold (map_field r voc) ms s) = ms_rejected s @ issues_of reject_reason r voc ms"
  "ms_quarantined (fold (map_field r voc) ms s) = ms_quarantined s @ issues_of quarantine_reason r voc ms"
  by (induction ms arbitrary: s)
    (simp_all add: map_field_def Let_def issues_of_def map_filter_simps reject_reason_def quarantine_reason_def split: verdict.splits)

lemma issues_Nil_iff: "issues_of pick r voc ms = [] \<longleftrightarrow> (\<forall>m\<in>set ms. pick (field_verdict r voc m) = None)"
  by (induction ms) (simp_all add: issues_of_def map_filter_simps split: option.splits)

text \<open>Reading back a state in which everything resolved is permitted gives known values and defaults.\<close>

lemma mapped_permitted:
  assumes "all_permitted voc s"
  shows "(\<forall>st. mt_status (mapped_of voc (ms_resolved s)) = Some st \<longrightarrow> st \<in> set (mv_statusKeys voc)) \<and>
    mt_serviceId (mapped_of voc (ms_resolved s)) \<in> insert (mv_defaultServiceId voc) (set (mv_serviceIds voc)) \<and>
    mt_serviceSubcategoryId (mapped_of voc (ms_resolved s)) \<in>
      insert (mv_defaultServiceSubcategoryId voc) (set (mv_serviceSubcategoryIds voc)) \<and>
    mt_priority (mapped_of voc (ms_resolved s)) =
      derivePriority (mt_impact (mapped_of voc (ms_resolved s))) (mt_urgency (mapped_of voc (ms_resolved s)))"
proof -
  have known: "ms_resolved s f = Some v \<Longrightarrow> permitted f v voc" for f v
    using assms by (simp add: all_permitted_def)
  have "or_else (ms_resolved s Field_serviceId) d \<in> insert d (set (mv_serviceIds voc))" for d
    using known [of Field_serviceId] by (cases "ms_resolved s Field_serviceId") (simp_all add: or_else_def permitted_def)
  moreover have "or_else (ms_resolved s Field_serviceSubcategoryId) d \<in> insert d (set (mv_serviceSubcategoryIds voc))" for d
    using known [of Field_serviceSubcategoryId]
    by (cases "ms_resolved s Field_serviceSubcategoryId") (simp_all add: or_else_def permitted_def)
  moreover have "ms_resolved s Field_status = Some st \<Longrightarrow> st \<in> set (mv_statusKeys voc)" for st
    using known [of Field_status st] by (simp add: permitted_def)
  ultimately show ?thesis by (simp add: mapped_of_def Let_def)
qed

section \<open>Properties of the mapping\<close>

text \<open>A record is rejected exactly by a mapping that rejects it.\<close>

lemma rejected_iff:
  "(\<exists>issues quarantined. mapForeignRecord r ms voc = Mapping_rejected issues quarantined) \<longleftrightarrow> (\<exists>m\<in>set ms. rejects r m)"
proof -
  have "issues_of reject_reason r voc ms = [] \<longleftrightarrow> \<not> (\<exists>m\<in>set ms. rejects r m)"
    unfolding issues_Nil_iff verdict_reject_iff [of r voc, symmetric]
    by (auto simp: reject_reason_def split: verdict.splits)
  then show ?thesis by (auto simp: mapForeignRecord_def Let_def fold_issues)
qed

text \<open>
  What a mapping yields is local vocabulary: a status, a service and a subcategory are known ones or
  the defaults, and the priority is always derived from impact and urgency.
\<close>

theorem mapForeignRecord_vocabulary:
  assumes "mapForeignRecord r ms voc = Mapping_ok t quarantined"
  shows "(\<forall>s. mt_status t = Some s \<longrightarrow> s \<in> set (mv_statusKeys voc)) \<and>
    mt_serviceId t \<in> insert (mv_defaultServiceId voc) (set (mv_serviceIds voc)) \<and>
    mt_serviceSubcategoryId t \<in> insert (mv_defaultServiceSubcategoryId voc) (set (mv_serviceSubcategoryIds voc)) \<and>
    mt_priority t = derivePriority (mt_impact t) (mt_urgency t)"
proof -
  let ?s = "fold (map_field r voc) ms \<lparr>ms_resolved = \<lambda>_. None, ms_rejected = [], ms_quarantined = []\<rparr>"
  have "all_permitted voc ?s" by (rule fold_permitted) (simp add: all_permitted_def)
  moreover have "t = mapped_of voc (ms_resolved ?s)"
    using assms by (auto simp: mapForeignRecord_def Let_def split: if_splits)
  ultimately show ?thesis using mapped_permitted by blast
qed

text \<open>A stored value is always read back as the vocabulary it was stored for, never as the default.\<close>

lemma cast_permitted:
  "permitted Field_impact v voc \<Longrightarrow> level_key (cast_or level_key IMPACT_LEVELS d (Some v)) = v"
  "permitted Field_urgency v voc \<Longrightarrow> level_key (cast_or level_key URGENCY_LEVELS d (Some v)) = v"
  "permitted Field_recordType v voc \<Longrightarrow> record_type_key (cast_or record_type_key RECORD_TYPES d' (Some v)) = v"
  by (auto simp: permitted_def cast_or_def of_key_def IMPACT_LEVELS_def URGENCY_LEVELS_def RECORD_TYPES_def)

text \<open>
  A mapped service without a mapped subcategory is combined with the default subcategory, whatever
  service that one belongs to; the comment in the source says that this pair is what it avoids.
\<close>

theorem mapForeignRecord_mixes_default:
  assumes "resolved Field_serviceId = Some sid" and "sid \<noteq> []" and "resolved Field_serviceSubcategoryId = None"
  shows "mt_serviceId (mapped_of voc resolved) = sid \<and>
    mt_serviceSubcategoryId (mapped_of voc resolved) = mv_defaultServiceSubcategoryId voc"
  using assms by (simp add: mapped_of_def Let_def or_else_def truthy_def)

definition sample_record :: foreign_record where
  "sample_record = \<lparr>fr_externalId = ''sys1'', fr_externalKey = ''INC0010023'', fr_externalUrl = None, fr_title = ''VPN'',
     fr_body = ''down'', fr_updatedAt = ''2026-01-01T00:00:00.000Z'', fr_requesterEmail = None,
     fr_fields = [(''severity'', Some '' HIGH ''), (''state'', Some ''Weird''), (''cmdb_env'', Some ''Prod'')]\<rparr>"

definition sample_mappings :: "field_mapping list" where
  "sample_mappings =
     [\<lparr>fm_sourceField = ''severity'', fm_targetField = Field_impact, fm_valueMap = [(''high'', ''high'')],
       fm_onUnmapped = Unmapped_reject, fm_defaultValue = None\<rparr>,
      \<lparr>fm_sourceField = ''state'', fm_targetField = Field_status, fm_valueMap = [(''new'', ''open'')],
       fm_onUnmapped = Unmapped_quarantine, fm_defaultValue = None\<rparr>]"

definition sample_vocabulary :: mapping_vocabulary where
  "sample_vocabulary = \<lparr>mv_statusKeys = [''open'', ''resolved''], mv_serviceIds = [''svc-general''],
     mv_serviceSubcategoryIds = [''ss-general''], mv_defaultServiceId = ''svc-general'',
     mv_defaultServiceSubcategoryId = ''ss-general''\<rparr>"

theorem mapForeignRecord_vocabulary_witness:
  "\<exists>t q. mapForeignRecord sample_record sample_mappings sample_vocabulary = Mapping_ok t q \<and> mt_impact t = L_high \<and>
     length q = 1 \<and> mt_priority t = derivePriority (mt_impact t) (mt_urgency t)"
proof -
  obtain t q where tq: "mapForeignRecord sample_record sample_mappings sample_vocabulary = Mapping_ok t q"
    "mt_impact t = L_high" "length q = 1"
  proof
    show "mapForeignRecord sample_record sample_mappings sample_vocabulary = Mapping_ok
        (case mapForeignRecord sample_record sample_mappings sample_vocabulary of Mapping_ok t q \<Rightarrow> t)
        (case mapForeignRecord sample_record sample_mappings sample_vocabulary of Mapping_ok t q \<Rightarrow> q)"
      "mt_impact (case mapForeignRecord sample_record sample_mappings sample_vocabulary of Mapping_ok t q \<Rightarrow> t) = L_high"
      "length (case mapForeignRecord sample_record sample_mappings sample_vocabulary of Mapping_ok t q \<Rightarrow> q) = 1"
      by code_simp+
  qed
  with mapForeignRecord_vocabulary [OF tq(1)] show ?thesis by blast
qed

theorem mapForeignRecord_mixes_default_witness:
  "mt_serviceSubcategoryId (mapped_of sample_vocabulary ((\<lambda>_. None)(Field_serviceId \<mapsto> ''svc-mail''))) = ''ss-general''"
  using mapForeignRecord_mixes_default [of "(\<lambda>_. None)(Field_serviceId \<mapsto> ''svc-mail'')" "''svc-mail''" sample_vocabulary]
  by (simp add: sample_vocabulary_def)

section \<open>Properties of the environment routing\<close>

lemma first_route_facts:
  "(res_via (first_route r known d routes bad) = Via_route \<and>
      (\<exists>pre route post. routes = pre @ route # post \<and> route_matches r route \<and>
         er_environmentKey route \<in> set known \<and> res_matched (first_route r known d routes bad) = Some route \<and>
         res_environmentKey (first_route r known d routes bad) = er_environmentKey route \<and>
         (\<forall>p\<in>set pre. \<not> (route_matches r p \<and> er_environmentKey p \<in> set known)))) \<or>
   (res_via (first_route r known d routes bad) \<noteq> Via_route \<and> res_matched (first_route r known d routes bad) = None \<and>
      res_environmentKey (first_route r known d routes bad) = d \<and>
      (\<forall>p\<in>set routes. \<not> (route_matches r p \<and> er_environmentKey p \<in> set known)))"
proof (induction r known d routes bad rule: first_route.induct)
  case (1 r known d bad)
  then show ?case by simp
next
  case (2 r known d route routes bad)
  consider "\<not> route_matches r route" | "route_matches r route" "er_environmentKey route \<notin> set known"
    | "route_matches r route" "er_environmentKey route \<in> set known" by blast
  then show ?case
  proof cases
    case 1
    with 2(1) show ?thesis by (simp, metis append_Cons set_ConsD)
  next
    case 2
    with "2.IH"(2) show ?thesis by (simp, metis append_Cons set_ConsD)
  next
    case 3
    then show ?thesis by (simp, metis append_Nil empty_iff list.set(1))
  qed
qed

lemma route_compare_order: "js_order lc \<Longrightarrow> js_order (route_compare lc)"
  unfolding route_compare_def by (rule js_order_int_key) (rule js_order_then; erule js_order_on)

text \<open>Routing reads nothing of the record but the fields the routes name.\<close>

lemma first_route_cong:
  "(\<And>p. p \<in> set routes \<Longrightarrow> field_of r (er_sourceField p) = field_of r' (er_sourceField p)) \<Longrightarrow>
     first_route r known d routes bad = first_route r' known d routes bad"
  by (induction routes arbitrary: bad) (simp_all add: route_matches_def)

text \<open>
  C18. The environment of a foreign record is that of the first route, in the administrator's order, that
  matches it and names a known environment; without one it is the default of the connector. So a
  record cannot choose an environment that is not on the allowlist.
\<close>

theorem resolveEnvironmentKey_allowlist:
  assumes "js_order lc"
  shows "case res_matched (resolveEnvironmentKey lc r routes d known) of
      None \<Rightarrow> res_environmentKey (resolveEnvironmentKey lc r routes d known) = d \<and>
        (\<forall>p\<in>set routes. \<not> (route_matches r p \<and> er_environmentKey p \<in> set known))
    | Some route \<Rightarrow>
        res_environmentKey (resolveEnvironmentKey lc r routes d known) = er_environmentKey route \<and>
        route \<in> set routes \<and> route_matches r route \<and> er_environmentKey route \<in> set known \<and>
        (\<forall>p\<in>set routes. route_matches r p \<and> er_environmentKey p \<in> set known \<longrightarrow> route_compare lc route p \<le> 0)"
proof (cases "res_via (resolveEnvironmentKey lc r routes d known) = Via_route")
  case True
  let ?f = "first_route r known d (js_sort (route_compare lc) routes) False"
  have via: "res_via ?f = Via_route" using True by (simp add: resolveEnvironmentKey_def)
  obtain pre route post where sorted: "js_sort (route_compare lc) routes = pre @ route # post"
    and hit: "route_matches r route" "er_environmentKey route \<in> set known"
    and res: "res_matched ?f = Some route" "res_environmentKey ?f = er_environmentKey route"
    and miss: "\<forall>p\<in>set pre. \<not> (route_matches r p \<and> er_environmentKey p \<in> set known)"
    using first_route_facts [of r known d "js_sort (route_compare lc) routes" False] via by blast
  have members: "set routes = set pre \<union> insert route (set post)"
    using sorted by (metis set_js_sort set_append list.simps(15))
  have "sorted_wrt (\<lambda>a b. route_compare lc a b \<le> 0) (pre @ route # post)"
    unfolding sorted [symmetric] by (rule js_order.sorted_js_sort [OF route_compare_order [OF assms]])
  then have "\<forall>p\<in>set post. route_compare lc route p \<le> 0" by (simp add: sorted_wrt_append)
  moreover have "route_compare lc route route \<le> 0"
    by (simp add: js_order.cmp_refl [OF route_compare_order [OF assms]])
  ultimately have least: "\<forall>p\<in>set routes. route_matches r p \<and> er_environmentKey p \<in> set known \<longrightarrow> route_compare lc route p \<le> 0"
    using members miss by blast
  have "route \<in> set routes" using members by blast
  with least hit res show ?thesis by (simp add: resolveEnvironmentKey_def)
next
  case False
  then show ?thesis
    using first_route_facts [of r known d "js_sort (route_compare lc) routes" False]
    by (simp add: resolveEnvironmentKey_def)
qed

definition sample_routes :: "environment_route list" where
  "sample_routes =
     [\<lparr>er_sourceField = ''cmdb_env'', er_sourceValue = ''prod '', er_environmentKey = ''prod-eu'', er_position = 2\<rparr>,
      \<lparr>er_sourceField = ''cmdb_env'', er_sourceValue = ''PROD'', er_environmentKey = ''gone'', er_position = 1\<rparr>]"

theorem resolveEnvironmentKey_allowlist_witness:
  "res_environmentKey (resolveEnvironmentKey code_unit_compare sample_record sample_routes ''dev'' [''dev'', ''prod-eu'']) = ''prod-eu'' \<and>
   er_environmentKey (hd sample_routes) \<in> set [''dev'', ''prod-eu'']"
proof -
  have "res_matched (resolveEnvironmentKey code_unit_compare sample_record sample_routes ''dev'' [''dev'', ''prod-eu'']) =
      Some (hd sample_routes)" by code_simp
  with resolveEnvironmentKey_allowlist [OF code_units.js_order_axioms, of sample_record sample_routes "''dev''" "[''dev'', ''prod-eu'']"]
  show ?thesis by (simp add: sample_routes_def)
qed

end
