(* ===== verification/SyncPlan.thy ===== *)
theory SyncPlan
  imports ForeignMapping
begin

text \<open>
  The planner of the connector, \<open>server/connectors/plan.ts\<close>: from the records of a poll, what is stored
  about them and the configuration it decides what to create, what to update and which of these start
  a run. Time stamps are the ISO strings the code compares as strings. \<open>lc\<close> is \<open>localeCompare\<close>.
\<close>

record known_origin =
  ko_ticketId :: string
  ko_externalId :: string
  ko_foreignUpdatedAt :: string
  ko_lastWrittenAt :: "string option"
  ko_dispatchCount :: int
  ko_hasTerminalRun :: bool

record foreign_comment =
  fc_externalId :: string
  fc_ours :: bool
  fc_createdAt :: string

record commented_record = foreign_record +
  cr_comments :: "foreign_comment list option"
  cr_statusValue :: "string option"
  cr_previousStatusValue :: "string option"

datatype skip_reason =
    Skip_unchanged | Skip_own_write_echo | Skip_dispatch_ceiling_reached | Skip_mapping_rejected | Skip_no_dispatch_trigger

datatype sync_decision =
    Dec_create (dec_record: commented_record) (dec_ticket: mapped_ticket) (dec_environment: environment_resolution)
      (dec_created: string) (dec_quarantined: "mapping_issue list")
  | Dec_update (dec_record: commented_record) (dec_ticketId: string) (dec_triggerKey: "string option")
      (dec_quarantined: "mapping_issue list")
  | Dec_skip (dec_record: commented_record) (dec_reason: skip_reason) (dec_detail: "string option")

record sync_plan =
  sp_fetchedCount :: nat
  sp_createCount :: nat
  sp_updateCount :: nat
  sp_skipCount :: nat
  sp_dispatchCount :: nat
  sp_watermark :: "string option"
  sp_decisions :: "sync_decision list"
  sp_quarantined :: "mapping_issue list"

record sync_config =
  sc_mappings :: "field_mapping list"
  sc_vocabulary :: mapping_vocabulary
  sc_routes :: "environment_route list"
  sc_defaultEnvironmentKey :: string
  sc_knownEnvironmentKeys :: "string list"
  sc_createCeiling :: int
  sc_dispatchCeiling :: int

datatype sync_error = Err_duplicate_external_id string | Err_create_ceiling int int

definition created_key :: "string \<Rightarrow> string" where
  "created_key externalId = ''created:'' @ externalId"

definition comment_key :: "string \<Rightarrow> string" where
  "comment_key externalId = ''comment:'' @ externalId"

definition status_key :: "string \<Rightarrow> string \<Rightarrow> string \<Rightarrow> string \<Rightarrow> string" where
  "status_key externalId from to stamp = ''status:'' @ externalId @ '':'' @ from @ ''->'' @ to @ ''@'' @ stamp"

definition laterOf :: "string option \<Rightarrow> string \<Rightarrow> string option" where
  "laterOf left right = (case left of None \<Rightarrow> Some right | Some l \<Rightarrow> if l < right then Some right else Some l)"

definition dispatchTriggerForUpdate ::
  "(string \<Rightarrow> string \<Rightarrow> int) \<Rightarrow> commented_record \<Rightarrow> known_origin \<Rightarrow> string option" where
  "dispatchTriggerForUpdate lc r known =
     (case last_of (js_sort (\<lambda>a b. lc (fc_createdAt a) (fc_createdAt b))
         (filter (\<lambda>c. ko_foreignUpdatedAt known < fc_createdAt c)
           (filter (\<lambda>c. \<not> fc_ours c) (case cr_comments r of None \<Rightarrow> [] | Some cs \<Rightarrow> cs)))) of
        Some c \<Rightarrow> Some (comment_key (fc_externalId c))
      | None \<Rightarrow>
          (case (cr_previousStatusValue r, cr_statusValue r) of
             (Some from, Some to) \<Rightarrow> if from \<noteq> to then Some (status_key (fr_externalId r) from to (fr_updatedAt r)) else None
           | _ \<Rightarrow> None))"

text \<open>What one record adds to the decisions and to the quarantined issues.\<close>

definition decide_new ::
  "(string \<Rightarrow> string \<Rightarrow> int) \<Rightarrow> sync_config \<Rightarrow> commented_record \<Rightarrow> sync_decision \<times> mapping_issue list" where
  "decide_new lc config r =
     (case mapForeignRecord (foreign_record.truncate r) (sc_mappings config) (sc_vocabulary config) of
        Mapping_rejected rejected quarantined \<Rightarrow>
          (Dec_skip r Skip_mapping_rejected (Some (js_join ''; '' (map mi_reason rejected))), rejected @ quarantined)
      | Mapping_ok ticket quarantined \<Rightarrow>
          (Dec_create r ticket
             (resolveEnvironmentKey lc (foreign_record.truncate r) (sc_routes config) (sc_defaultEnvironmentKey config)
               (sc_knownEnvironmentKeys config))
             (created_key (fr_externalId r)) quarantined, quarantined))"

definition ceiling_detail :: "int \<Rightarrow> int \<Rightarrow> string" where
  "ceiling_detail n m = ''dispatched '' @ js_int_string n @ '' times, ceiling '' @ js_int_string m"

definition decide_known ::
  "(string \<Rightarrow> string \<Rightarrow> int) \<Rightarrow> sync_config \<Rightarrow> known_origin \<Rightarrow> commented_record \<Rightarrow> sync_decision list" where
  "decide_known lc config existing r =
     (if fr_updatedAt r \<le> ko_foreignUpdatedAt existing then [Dec_skip r Skip_unchanged None]
      else if (case ko_lastWrittenAt existing of None \<Rightarrow> False | Some w \<Rightarrow> fr_updatedAt r \<le> w)
      then [Dec_skip r Skip_own_write_echo None]
      else (case dispatchTriggerForUpdate lc r existing of
              None \<Rightarrow> [Dec_update r (ko_ticketId existing) None []]
            | Some trigger \<Rightarrow>
                if sc_dispatchCeiling config \<le> ko_dispatchCount existing
                then [Dec_update r (ko_ticketId existing) None [],
                      Dec_skip r Skip_dispatch_ceiling_reached
                        (Some (ceiling_detail (ko_dispatchCount existing) (sc_dispatchCeiling config)))]
                else [Dec_update r (ko_ticketId existing) (Some trigger) []]))"

text \<open>\<open>new Map(known.map(\<dots>))\<close>: a later entry with the same key replaces an earlier one.\<close>

definition by_external_id :: "known_origin list \<Rightarrow> string \<Rightarrow> known_origin option" where
  "by_external_id known = map_of (rev (map (\<lambda>k. (ko_externalId k, k)) known))"

definition decide_record ::
  "(string \<Rightarrow> string \<Rightarrow> int) \<Rightarrow> sync_config \<Rightarrow> known_origin list \<Rightarrow> commented_record \<Rightarrow>
     sync_decision list \<times> mapping_issue list" where
  "decide_record lc config known r =
     (case by_external_id known (fr_externalId r) of
        None \<Rightarrow> (case decide_new lc config r of (d, q) \<Rightarrow> ([d], q))
      | Some existing \<Rightarrow> (decide_known lc config existing r, []))"

record sync_loop =
  sl_seen :: "string list"
  sl_decisions :: "sync_decision list"
  sl_quarantined :: "mapping_issue list"
  sl_watermark :: "string option"

definition sync_step ::
  "(string \<Rightarrow> string \<Rightarrow> int) \<Rightarrow> sync_config \<Rightarrow> known_origin list \<Rightarrow> commented_record \<Rightarrow> sync_loop \<Rightarrow>
     sync_error + sync_loop" where
  "sync_step lc config known r s =
     (if fr_externalId r \<in> set (sl_seen s) then Inl (Err_duplicate_external_id (fr_externalId r))
      else (case decide_record lc config known r of
              (ds, q) \<Rightarrow> Inr \<lparr>sl_seen = fr_externalId r # sl_seen s, sl_decisions = sl_decisions s @ ds,
                sl_quarantined = sl_quarantined s @ q, sl_watermark = laterOf (sl_watermark s) (fr_updatedAt r)\<rparr>))"

fun dispatches :: "sync_decision \<Rightarrow> bool" where
  "dispatches (Dec_create r t e k q) = True"
| "dispatches (Dec_update r i k q) = (k \<noteq> None)"
| "dispatches (Dec_skip r why d) = False"

definition calculateConnectorSync ::
  "(string \<Rightarrow> string \<Rightarrow> int) \<Rightarrow> commented_record list \<Rightarrow> known_origin list \<Rightarrow> sync_config \<Rightarrow> sync_error + sync_plan" where
  "calculateConnectorSync lc rs known config =
     bind_result (fold_result (sync_step lc config known) rs
         \<lparr>sl_seen = [], sl_decisions = [], sl_quarantined = [], sl_watermark = None\<rparr>) (\<lambda>s.
       let createCount = length (filter is_Dec_create (sl_decisions s))
       in if sc_createCeiling config < int createCount
          then Inl (Err_create_ceiling (sc_createCeiling config) (int createCount))
          else Inr \<lparr>sp_fetchedCount = length rs, sp_createCount = createCount,
            sp_updateCount = length (filter is_Dec_update (sl_decisions s)),
            sp_skipCount = length (filter is_Dec_skip (sl_decisions s)),
            sp_dispatchCount = length (filter dispatches (sl_decisions s)),
            sp_watermark = sl_watermark s, sp_decisions = sl_decisions s, sp_quarantined = sl_quarantined s\<rparr>)"

text \<open>
  \<open>syncConnector\<close> over the two operations of its store interface, passed as functions of the store's
  state.
\<close>

definition syncConnector ::
  "('s \<Rightarrow> string list \<Rightarrow> known_origin list) \<Rightarrow> (sync_plan \<Rightarrow> 's \<Rightarrow> 's) \<Rightarrow> (string \<Rightarrow> string \<Rightarrow> int) \<Rightarrow>
     commented_record list \<Rightarrow> sync_config \<Rightarrow> sync_mode \<Rightarrow> 's \<Rightarrow> (sync_error, sync_plan \<times> 's) result" where
  "syncConnector knownOrigins apply_plan lc rs config mode s =
     bind_result (calculateConnectorSync lc rs (knownOrigins s (map fr_externalId rs)) config) (\<lambda>plan.
       Inr (plan, if mode = Mode_apply then apply_plan plan s else s))"

section \<open>What the loop computes\<close>

lemma sync_step_Inr:
  "sync_step lc config known r s = Inr s' \<longleftrightarrow> fr_externalId r \<notin> set (sl_seen s) \<and>
     s' = \<lparr>sl_seen = fr_externalId r # sl_seen s, sl_decisions = sl_decisions s @ fst (decide_record lc config known r),
       sl_quarantined = sl_quarantined s @ snd (decide_record lc config known r),
       sl_watermark = laterOf (sl_watermark s) (fr_updatedAt r)\<rparr>"
  by (auto simp: sync_step_def split: prod.splits)

lemma sync_loop_Inr:
  "fold_result (sync_step lc config known) rs s = Inr s' \<longleftrightarrow>
     distinct (map fr_externalId rs) \<and> set (map fr_externalId rs) \<inter> set (sl_seen s) = {} \<and>
     s' = \<lparr>sl_seen = rev (map fr_externalId rs) @ sl_seen s,
       sl_decisions = sl_decisions s @ concat (map (\<lambda>r. fst (decide_record lc config known r)) rs),
       sl_quarantined = sl_quarantined s @ concat (map (\<lambda>r. snd (decide_record lc config known r)) rs),
       sl_watermark = foldl laterOf (sl_watermark s) (map fr_updatedAt rs)\<rparr>"
proof (induction rs arbitrary: s)
  case (Cons r rs)
  show ?case
  proof (cases "sync_step lc config known r s")
    case (Inl e)
    then have "fr_externalId r \<in> set (sl_seen s)" by (auto simp: sync_step_def split: if_splits prod.splits)
    with Inl show ?thesis by simp
  next
    case (Inr t)
    then have "fr_externalId r \<notin> set (sl_seen s)" and t: "t = \<lparr>sl_seen = fr_externalId r # sl_seen s,
       sl_decisions = sl_decisions s @ fst (decide_record lc config known r),
       sl_quarantined = sl_quarantined s @ snd (decide_record lc config known r),
       sl_watermark = laterOf (sl_watermark s) (fr_updatedAt r)\<rparr>" by (simp_all add: sync_step_Inr)
    then show ?thesis using Inr by (auto simp: Cons.IH)
  qed
qed auto

text \<open>The decisions of a poll: those of its records, one after the other.\<close>

definition decisions_of ::
  "(string \<Rightarrow> string \<Rightarrow> int) \<Rightarrow> sync_config \<Rightarrow> known_origin list \<Rightarrow> commented_record list \<Rightarrow> sync_decision list" where
  "decisions_of lc config known rs = concat (map (\<lambda>r. fst (decide_record lc config known r)) rs)"

definition create_count ::
  "(string \<Rightarrow> string \<Rightarrow> int) \<Rightarrow> sync_config \<Rightarrow> known_origin list \<Rightarrow> commented_record list \<Rightarrow> nat" where
  "create_count lc config known rs = length (filter is_Dec_create (decisions_of lc config known rs))"

lemma calculateConnectorSync_Inr:
  "calculateConnectorSync lc rs known config = Inr plan \<longleftrightarrow>
     distinct (map fr_externalId rs) \<and> int (create_count lc config known rs) \<le> sc_createCeiling config \<and>
     plan = \<lparr>sp_fetchedCount = length rs, sp_createCount = create_count lc config known rs,
       sp_updateCount = length (filter is_Dec_update (decisions_of lc config known rs)),
       sp_skipCount = length (filter is_Dec_skip (decisions_of lc config known rs)),
       sp_dispatchCount = length (filter dispatches (decisions_of lc config known rs)),
       sp_watermark = foldl laterOf None (map fr_updatedAt rs), sp_decisions = decisions_of lc config known rs,
       sp_quarantined = concat (map (\<lambda>r. snd (decide_record lc config known r)) rs)\<rparr>"
  unfolding calculateConnectorSync_def bind_result_Inr_iff sync_loop_Inr
  by (auto simp: Let_def create_count_def decisions_of_def not_less)

lemma decide_new_kind:
  "is_Dec_create (fst (decide_new lc config r)) \<longleftrightarrow> \<not> (\<exists>m\<in>set (sc_mappings config). rejects (foreign_record.truncate r) m)"
  "is_Dec_skip (fst (decide_new lc config r)) \<longleftrightarrow> (\<exists>m\<in>set (sc_mappings config). rejects (foreign_record.truncate r) m)"
  using rejected_iff [of "foreign_record.truncate r" "sc_mappings config" "sc_vocabulary config"]
  by (auto simp: decide_new_def split: mapping_outcome.splits)

lemma decide_known_no_create: "d \<in> set (decide_known lc config k r) \<Longrightarrow> \<not> is_Dec_create d"
  by (auto simp: decide_known_def split: if_splits option.splits)

text \<open>The records that would become tickets: unknown, and rejected by no mapping.\<close>

definition would_create :: "sync_config \<Rightarrow> known_origin list \<Rightarrow> commented_record \<Rightarrow> bool" where
  "would_create config known r \<longleftrightarrow> fr_externalId r \<notin> ko_externalId ` set known \<and>
     \<not> (\<exists>m\<in>set (sc_mappings config). rejects (foreign_record.truncate r) m)"

lemma by_external_id_None: "by_external_id known i = None \<longleftrightarrow> i \<notin> ko_externalId ` set known"
  by (simp add: by_external_id_def map_of_eq_None_iff image_image)

lemma by_external_id_SomeD: "by_external_id known i = Some k \<Longrightarrow> k \<in> set known \<and> ko_externalId k = i"
  by (auto simp: by_external_id_def dest!: map_of_SomeD)

lemma creates_of_record:
  "length (filter is_Dec_create (fst (decide_record lc config known r))) = (if would_create config known r then 1 else 0)"
proof (cases "by_external_id known (fr_externalId r)")
  case None
  then show ?thesis using decide_new_kind(1) [of lc config r]
    by (cases "decide_new lc config r") (auto simp: decide_record_def would_create_def by_external_id_None [symmetric])
next
  case (Some k)
  have "filter is_Dec_create (decide_known lc config k r) = []"
    using decide_known_no_create by (auto simp: filter_empty_conv)
  with Some show ?thesis
    using by_external_id_SomeD [OF Some] by (auto simp: decide_record_def would_create_def intro!: rev_image_eqI)
qed

lemma create_count_records: "create_count lc config known rs = length (filter (would_create config known) rs)"
  by (induction rs) (simp_all add: create_count_def decisions_of_def creates_of_record)

lemma watermark_Max: "foldl laterOf w xs = (case w of None \<Rightarrow> if xs = [] then None else Some (Max (set xs))
    | Some v \<Rightarrow> Some (Max (insert v (set xs))))"
proof (induction xs arbitrary: w)
  case (Cons x xs)
  have "laterOf w x = Some (case w of None \<Rightarrow> x | Some v \<Rightarrow> max v x)"
    by (auto simp: laterOf_def max_def split: option.splits)
  then show ?case
    by (cases w; cases "xs = []") (simp_all add: Cons.IH insert_commute max.commute max.left_commute)
qed (auto split: option.splits)

text \<open>One record, one decision; a record stopped by the dispatch ceiling has a second one that says so.\<close>

lemma decide_record_length:
  "1 \<le> length (fst (decide_record lc config known r))" "length (fst (decide_record lc config known r)) \<le> 2"
  by (simp_all add: decide_record_def decide_known_def split: option.splits prod.splits)

lemma kinds_partition:
  "length (filter is_Dec_create ds) + length (filter is_Dec_update ds) + length (filter is_Dec_skip ds) = length ds"
proof (induction ds)
  case (Cons d ds)
  then show ?case by (cases d) simp_all
qed simp

section \<open>Properties\<close>

text \<open>
  A pass is accepted exactly where no record occurs twice and where it would create no more tickets
  than the ceiling permits; the tickets it would create are those of the records that are neither
  known nor rejected by the mapping.
\<close>

theorem calculateConnectorSync_accepts:
  "(\<exists>plan. calculateConnectorSync lc rs known config = Inr plan) \<longleftrightarrow>
     distinct (map fr_externalId rs) \<and> int (length (filter (would_create config known) rs)) \<le> sc_createCeiling config"
  by (simp add: calculateConnectorSync_Inr create_count_records)

text \<open>What entitles a decision to start a run.\<close>

definition justified :: "sync_config \<Rightarrow> known_origin list \<Rightarrow> sync_decision \<Rightarrow> bool" where
  "justified config known d \<longleftrightarrow>
     (case d of
        Dec_create r t e key q \<Rightarrow> key = created_key (fr_externalId r) \<and> would_create config known r
      | Dec_update r ticketId key q \<Rightarrow>
          \<exists>k\<in>set known. ko_externalId k = fr_externalId r \<and> ko_ticketId k = ticketId \<and>
            ko_foreignUpdatedAt k < fr_updatedAt r \<and> (\<forall>w. ko_lastWrittenAt k = Some w \<longrightarrow> w < fr_updatedAt r) \<and>
            ko_dispatchCount k < sc_dispatchCeiling config \<and>
            ((\<exists>c\<in>set (case cr_comments r of None \<Rightarrow> [] | Some cs \<Rightarrow> cs). \<not> fc_ours c \<and> ko_foreignUpdatedAt k < fc_createdAt c \<and>
                key = Some (comment_key (fc_externalId c))) \<or>
             (\<exists>from to. cr_previousStatusValue r = Some from \<and> cr_statusValue r = Some to \<and> from \<noteq> to \<and>
                key = Some (status_key (fr_externalId r) from to (fr_updatedAt r))))
      | Dec_skip r why detail \<Rightarrow> False)"

lemma trigger_cases:
  assumes "dispatchTriggerForUpdate lc r k = Some key"
  shows "(\<exists>c\<in>set (case cr_comments r of None \<Rightarrow> [] | Some cs \<Rightarrow> cs). \<not> fc_ours c \<and> ko_foreignUpdatedAt k < fc_createdAt c \<and>
      key = comment_key (fc_externalId c)) \<or>
    (\<exists>from to. cr_previousStatusValue r = Some from \<and> cr_statusValue r = Some to \<and> from \<noteq> to \<and>
      key = status_key (fr_externalId r) from to (fr_updatedAt r))"
proof -
  let ?cs = "filter (\<lambda>c. ko_foreignUpdatedAt k < fc_createdAt c)
     (filter (\<lambda>c. \<not> fc_ours c) (case cr_comments r of None \<Rightarrow> [] | Some cs \<Rightarrow> cs))"
  show ?thesis
  proof (cases "last_of (js_sort (\<lambda>a b. lc (fc_createdAt a) (fc_createdAt b)) ?cs)")
    case None
    with assms show ?thesis by (auto simp: dispatchTriggerForUpdate_def split: option.splits if_splits)
  next
    case (Some c)
    then have "c \<in> set ?cs"
      unfolding last_of_def by (metis (no_types, lifting) last_in_set option.distinct(1) option.inject set_js_sort)
    moreover have "key = comment_key (fc_externalId c)"
      using assms Some by (simp add: dispatchTriggerForUpdate_def)
    ultimately show ?thesis by auto
  qed
qed

lemma decide_known_justified:
  assumes "d \<in> set (decide_known lc config k r)" and "dispatches d" and "k \<in> set known" and "ko_externalId k = fr_externalId r"
  shows "justified config known d"
proof -
  obtain key where key: "dispatchTriggerForUpdate lc r k = Some key" and d: "d = Dec_update r (ko_ticketId k) (Some key) []"
    and g: "\<not> fr_updatedAt r \<le> ko_foreignUpdatedAt k" "\<not> sc_dispatchCeiling config \<le> ko_dispatchCount k"
      "\<not> (case ko_lastWrittenAt k of None \<Rightarrow> False | Some w \<Rightarrow> fr_updatedAt r \<le> w)"
    using assms(1,2) by (auto simp: decide_known_def split: if_splits option.splits)
  have "\<forall>w. ko_lastWrittenAt k = Some w \<longrightarrow> w < fr_updatedAt r" using g(3) by auto
  then show ?thesis
    using assms(3,4) g trigger_cases [OF key] unfolding d justified_def by (simp only: sync_decision.case not_le) blast
qed

lemma decide_record_justified:
  assumes "d \<in> set (fst (decide_record lc config known r))" and "dispatches d"
  shows "justified config known d"
proof (cases "by_external_id known (fr_externalId r)")
  case None
  then have d: "d = fst (decide_new lc config r)" using assms(1) by (simp add: decide_record_def split: prod.splits)
  have "is_Dec_create d" using assms(2) unfolding d decide_new_def by (auto split: mapping_outcome.splits)
  moreover have "would_create config known r"
    using decide_new_kind(1) [of lc config r] None \<open>is_Dec_create d\<close> d by (simp add: would_create_def by_external_id_None)
  ultimately show ?thesis by (auto simp: justified_def d decide_new_def split: mapping_outcome.splits)
next
  case (Some k)
  then show ?thesis
    using assms by_external_id_SomeD [OF Some] by (auto simp: decide_record_def intro: decide_known_justified)
qed

text \<open>
  C9. The plan counts its decisions, never creates beyond the ceiling, and starts a run only where one
  is justified: for a record without a ticket, or for a known one whose time stamp moved past both the last
  observation and our own last write, whose ticket is below its dispatch ceiling, and which carries a new
  comment of somebody else or a change of status.
\<close>

theorem calculateConnectorSync_gated:
  assumes "calculateConnectorSync lc rs known config = Inr plan"
  shows "int (sp_createCount plan) \<le> sc_createCeiling config \<and>
    sp_fetchedCount plan \<le> sp_createCount plan + sp_updateCount plan + sp_skipCount plan \<and>
    sp_createCount plan + sp_updateCount plan + sp_skipCount plan = length (sp_decisions plan) \<and>
    (\<forall>d\<in>set (sp_decisions plan). dispatches d \<longrightarrow> justified config known d)"
proof -
  have plan: "sp_decisions plan = decisions_of lc config known rs" and ok: "int (create_count lc config known rs) \<le> sc_createCeiling config"
    using assms by (simp_all add: calculateConnectorSync_Inr)
  have "length rs \<le> length (decisions_of lc config known rs)"
  proof (induction rs)
    case (Cons r rs)
    then show ?case using decide_record_length(1) [of lc config known r] by (simp add: decisions_of_def)
  qed (simp add: decisions_of_def)
  moreover have "dispatches d \<Longrightarrow> justified config known d" if "d \<in> set (decisions_of lc config known rs)" for d
    using that decide_record_justified by (auto simp: decisions_of_def)
  moreover have "sp_createCount plan = length (filter is_Dec_create (decisions_of lc config known rs))"
    "sp_updateCount plan = length (filter is_Dec_update (decisions_of lc config known rs))"
    "sp_skipCount plan = length (filter is_Dec_skip (decisions_of lc config known rs))" "sp_fetchedCount plan = length rs"
    using assms by (simp_all add: calculateConnectorSync_Inr create_count_def)
  ultimately show ?thesis using ok plan kinds_partition [of "decisions_of lc config known rs"]
    by (simp add: create_count_def)
qed

text \<open>
  The watermark of a plan is the latest time stamp of its records, in the order of the strings, and
  absent only where there is no record.
\<close>

theorem calculateConnectorSync_watermark:
  assumes "calculateConnectorSync lc rs known config = Inr plan"
  shows "sp_watermark plan = (if rs = [] then None else Some (Max (fr_updatedAt ` set rs)))"
  using assms by (simp add: calculateConnectorSync_Inr watermark_Max)

section \<open>The interface of the store\<close>

text \<open>What makes the planner skip a known record: its stamp is not newer than the observation or our own write.\<close>

definition settled_record :: "known_origin \<Rightarrow> commented_record \<Rightarrow> bool" where
  "settled_record k r \<longleftrightarrow> fr_updatedAt r \<le> ko_foreignUpdatedAt k \<or> (\<exists>w. ko_lastWrittenAt k = Some w \<and> fr_updatedAt r \<le> w)"

lemma decide_settled: "settled_record k r \<Longrightarrow> d \<in> set (decide_known lc config k r) \<Longrightarrow> is_Dec_skip d"
  by (auto simp: decide_known_def settled_record_def split: if_splits)

text \<open>
  The contract of the store: after a plan that was computed from it has been applied, it knows every
  record of the poll as settled, except those that the mapping rejects, provided that the record's
  stamp is one the store keeps as it is.
\<close>

locale sync_store =
  fixes known :: "'s \<Rightarrow> string list \<Rightarrow> known_origin list"
    and apply_to :: "sync_plan \<Rightarrow> 's \<Rightarrow> 's"
    and applied :: "sync_plan \<Rightarrow> 's \<Rightarrow> bool"
    and keeps :: "commented_record \<Rightarrow> bool"
    and lc :: "string \<Rightarrow> string \<Rightarrow> int"
  assumes observes: "calculateConnectorSync lc rs (known s (map fr_externalId rs)) config = Inr plan \<Longrightarrow>
      applied plan s \<Longrightarrow> r \<in> set rs \<Longrightarrow> keeps r \<Longrightarrow>
      (by_external_id (known (apply_to plan s) (map fr_externalId rs)) (fr_externalId r) = None \<and>
         (\<exists>m\<in>set (sc_mappings config). rejects (foreign_record.truncate r) m)) \<or>
      (\<exists>k. by_external_id (known (apply_to plan s) (map fr_externalId rs)) (fr_externalId r) = Some k \<and> settled_record k r)"
begin

text \<open>Polling the same records again decides nothing but skips: no ticket is made and no run is started.\<close>

lemma resync_skips:
  assumes "calculateConnectorSync lc rs (known s (map fr_externalId rs)) config = Inr plan" and "applied plan s"
    and "\<forall>r\<in>set rs. keeps r"
    and "calculateConnectorSync lc rs (known (apply_to plan s) (map fr_externalId rs)) config = Inr plan'"
  shows "\<forall>d\<in>set (sp_decisions plan'). is_Dec_skip d"
proof
  fix d assume "d \<in> set (sp_decisions plan')"
  then obtain r where r: "r \<in> set rs"
    and d: "d \<in> set (fst (decide_record lc config (known (apply_to plan s) (map fr_externalId rs)) r))"
    using assms(4) by (auto simp: calculateConnectorSync_Inr decisions_of_def)
  consider (new) "by_external_id (known (apply_to plan s) (map fr_externalId rs)) (fr_externalId r) = None"
      "\<exists>m\<in>set (sc_mappings config). rejects (foreign_record.truncate r) m"
    | (old) k where "by_external_id (known (apply_to plan s) (map fr_externalId rs)) (fr_externalId r) = Some k" "settled_record k r"
    using observes [OF assms(1,2) r assms(3) [rule_format, OF r]] by (elim disjE conjE exE)
  then show "is_Dec_skip d"
  proof cases
    case new
    then have "d = fst (decide_new lc config r)" using d by (simp add: decide_record_def split: prod.splits)
    then show ?thesis using new(2) decide_new_kind(2) [of lc config r] by simp
  next
    case old
    then show ?thesis using d decide_settled [OF old(2)] by (simp add: decide_record_def)
  qed
qed

lemma resync_counts:
  assumes "calculateConnectorSync lc rs (known s (map fr_externalId rs)) config = Inr plan" and "applied plan s"
    and "\<forall>r\<in>set rs. keeps r"
    and "calculateConnectorSync lc rs (known (apply_to plan s) (map fr_externalId rs)) config = Inr plan'"
  shows "sp_createCount plan' = 0 \<and> sp_updateCount plan' = 0 \<and> sp_dispatchCount plan' = 0"
proof -
  have skip: "is_Dec_skip d" if "d \<in> set (sp_decisions plan')" for d using resync_skips [OF assms] that by blast
  have "\<not> is_Dec_create d \<and> \<not> is_Dec_update d \<and> \<not> dispatches d" if "d \<in> set (sp_decisions plan')" for d
    using skip [OF that] by (cases d) simp_all
  moreover have "sp_createCount plan' = length (filter is_Dec_create (sp_decisions plan'))"
    "sp_updateCount plan' = length (filter is_Dec_update (sp_decisions plan'))"
    "sp_dispatchCount plan' = length (filter dispatches (sp_decisions plan'))"
    using assms(4) by (simp_all add: calculateConnectorSync_Inr create_count_def)
  ultimately show ?thesis by (simp add: filter_empty_conv)
qed

end

definition sample_changed :: commented_record where
  "sample_changed = foreign_record.extend sample_record
     \<lparr>cr_comments = Some [\<lparr>fc_externalId = ''c9'', fc_ours = False, fc_createdAt = ''2026-01-01T00:00:00.000Z''\<rparr>],
      cr_statusValue = None, cr_previousStatusValue = None\<rparr>"

definition sample_origin :: known_origin where
  "sample_origin = \<lparr>ko_ticketId = ''t1'', ko_externalId = ''sys1'', ko_foreignUpdatedAt = ''2025-12-31T00:00:00.000Z'',
     ko_lastWrittenAt = None, ko_dispatchCount = 1, ko_hasTerminalRun = False\<rparr>"

definition sample_sync_config :: sync_config where
  "sample_sync_config = \<lparr>sc_mappings = sample_mappings, sc_vocabulary = sample_vocabulary, sc_routes = sample_routes,
     sc_defaultEnvironmentKey = ''dev'', sc_knownEnvironmentKeys = [''dev''], sc_createCeiling = 50, sc_dispatchCeiling = 3\<rparr>"

lemma sample_plan:
  obtains plan where "calculateConnectorSync code_unit_compare [sample_changed] [sample_origin] sample_sync_config = Inr plan"
    "sp_decisions plan = [Dec_update sample_changed ''t1'' (Some ''comment:c9'') []]"
proof -
  have "case calculateConnectorSync code_unit_compare [sample_changed] [sample_origin] sample_sync_config of
      Inr plan \<Rightarrow> sp_decisions plan = [Dec_update sample_changed ''t1'' (Some ''comment:c9'') []] | Inl _ \<Rightarrow> False" by code_simp
  then show thesis using that by (auto split: sum.splits)
qed

theorem calculateConnectorSync_gated_witness:
  "justified sample_sync_config [sample_origin] (Dec_update sample_changed ''t1'' (Some ''comment:c9'') [])"
proof -
  obtain plan where p: "calculateConnectorSync code_unit_compare [sample_changed] [sample_origin] sample_sync_config = Inr plan"
    "sp_decisions plan = [Dec_update sample_changed ''t1'' (Some ''comment:c9'') []]" by (rule sample_plan)
  show ?thesis using calculateConnectorSync_gated [OF p(1)] p(2) by simp
qed

theorem calculateConnectorSync_watermark_witness:
  "\<exists>plan. calculateConnectorSync code_unit_compare [sample_changed] [sample_origin] sample_sync_config = Inr plan \<and>
     sp_watermark plan = Some (fr_updatedAt sample_changed)"
proof -
  obtain plan where p: "calculateConnectorSync code_unit_compare [sample_changed] [sample_origin] sample_sync_config = Inr plan"
    by (rule sample_plan)
  show ?thesis using calculateConnectorSync_watermark [OF p] p by simp
qed

end
