(* ===== verification/Rules.thy ===== *)
theory Rules
  imports Vocabulary
begin

text \<open>
  The rules that run over a ticket as it is created: \<open>domain/rules.ts\<close>, \<open>server/rules/index.ts\<close> and the
  actions they share with the workflows, \<open>server/automation/actions.ts\<close>. A field of the ticket that
  may be absent or null is an \<open>option\<close>; \<open>lc\<close> is \<open>localeCompare\<close>.
\<close>

section \<open>Actions\<close>

datatype action_type =
    AT_set_service | AT_set_impact | AT_set_urgency | AT_set_team | AT_set_assignee | AT_set_sla | AT_set_ola
  | AT_set_record_type | AT_set_route | AT_route_human | AT_send_webhook | AT_send_notification

definition ACTION_TYPES :: "action_type list" where
  "ACTION_TYPES = [AT_set_service, AT_set_impact, AT_set_urgency, AT_set_team, AT_set_assignee, AT_set_sla, AT_set_ola,
     AT_set_record_type, AT_set_route, AT_route_human, AT_send_webhook, AT_send_notification]"

fun action_type_key :: "action_type \<Rightarrow> string" where
  "action_type_key AT_set_service = ''set_service''"
| "action_type_key AT_set_impact = ''set_impact''"
| "action_type_key AT_set_urgency = ''set_urgency''"
| "action_type_key AT_set_team = ''set_team''"
| "action_type_key AT_set_assignee = ''set_assignee''"
| "action_type_key AT_set_sla = ''set_sla''"
| "action_type_key AT_set_ola = ''set_ola''"
| "action_type_key AT_set_record_type = ''set_record_type''"
| "action_type_key AT_set_route = ''set_route''"
| "action_type_key AT_route_human = ''route_human''"
| "action_type_key AT_send_webhook = ''send_webhook''"
| "action_type_key AT_send_notification = ''send_notification''"

definition nonEmptyString :: "jsval \<Rightarrow> bool" where
  "nonEmptyString v = (case v of JStr s \<Rightarrow> s \<noteq> [] | _ \<Rightarrow> False)"

definition oneOf :: "string list \<Rightarrow> jsval \<Rightarrow> bool" where
  "oneOf vals v = (case v of JStr s \<Rightarrow> s \<in> set vals | _ \<Rightarrow> False)"

definition string_or_absent :: "jsval \<Rightarrow> bool" where
  "string_or_absent v = (case v of JUndef \<Rightarrow> True | JStr s \<Rightarrow> True | _ \<Rightarrow> False)"

text \<open>
  The properties of an object, or of an array (which has none of those that are asked for);
  \<open>None\<close> is a value that is not an object.
\<close>

definition object_of :: "jsval \<Rightarrow> js_object option" where
  "object_of v = (case v of JObj ob \<Rightarrow> Some ob | JArr xs \<Rightarrow> Some [] | _ \<Rightarrow> None)"

text \<open>\<open>url_protocol\<close> is \<open>new URL(s).protocol\<close>, \<open>None\<close> where the constructor throws.\<close>

definition is_webhook_value :: "(string \<Rightarrow> string option) \<Rightarrow> jsval \<Rightarrow> bool" where
  "is_webhook_value url_protocol v =
     (case object_of v of None \<Rightarrow> False
      | Some payload \<Rightarrow>
          (case prop_of payload ''url'' of
             JStr url \<Rightarrow>
               (case url_protocol url of None \<Rightarrow> False
                | Some p \<Rightarrow> (p = ''http:'' \<or> p = ''https:'') \<and>
                    (prop_of payload ''secret'' = JUndef \<or> nonEmptyString (prop_of payload ''secret'')))
           | _ \<Rightarrow> False))"

definition is_notification_value :: "jsval \<Rightarrow> bool" where
  "is_notification_value v =
     (case object_of v of None \<Rightarrow> False
      | Some payload \<Rightarrow> nonEmptyString (prop_of payload ''recipientId'') \<and>
          string_or_absent (prop_of payload ''title'') \<and> string_or_absent (prop_of payload ''body''))"

definition isAction :: "(string \<Rightarrow> string option) \<Rightarrow> jsval \<Rightarrow> bool" where
  "isAction url_protocol v =
     (case object_of v of
        None \<Rightarrow> False
      | Some action \<Rightarrow>
          (case prop_of action ''type'' of
             JStr ty \<Rightarrow>
               (case of_key action_type_key ACTION_TYPES ty of
                  None \<Rightarrow> False
                | Some AT_route_human \<Rightarrow> True
                | Some AT_set_impact \<Rightarrow> oneOf (map level_key IMPACT_LEVELS) (prop_of action ''value'')
                | Some AT_set_urgency \<Rightarrow> oneOf (map level_key URGENCY_LEVELS) (prop_of action ''value'')
                | Some AT_set_record_type \<Rightarrow> oneOf (map record_type_key RECORD_TYPES) (prop_of action ''value'')
                | Some AT_set_route \<Rightarrow> oneOf (map ticket_route_key TICKET_ROUTES) (prop_of action ''value'')
                | Some AT_send_webhook \<Rightarrow> is_webhook_value url_protocol (prop_of action ''value'')
                | Some AT_send_notification \<Rightarrow> is_notification_value (prop_of action ''value'')
                | Some _ \<Rightarrow> nonEmptyString (prop_of action ''value''))
           | _ \<Rightarrow> False))"

section \<open>Rules\<close>

datatype key_field = KF_serviceId | KF_requesterId | KF_requesterDepartment | KF_recordType | KF_origin

datatype text_field = TF_title | TF_body

datatype key_operator = Op_equals | Op_in

datatype text_operator = Op_contains | Op_text_equals

datatype crit_value = One_value string | Many_values "string list"

datatype rule_criterion =
    Key_criterion key_field key_operator crit_value
  | Text_criterion text_field text_operator string

datatype rule_action =
    Set_service string
  | Set_impact impact
  | Set_urgency urgency
  | Set_record_type record_type
  | Set_route ticket_route
  | Set_team string
  | Set_assignee string
  | Route_human

record rule_firing =
  rf_ruleId :: string
  rf_ruleName :: string
  rf_rulePosition :: int
  rf_applied :: "rule_action list"
  rf_skipped :: "rule_action list"

record rule_ticket =
  rt_title :: string
  rt_body :: string
  rt_serviceId :: "string option"
  rt_requesterId :: string
  rt_requesterDepartment :: "string option"
  rt_recordType :: record_type
  rt_origin :: "string option"
  rt_impact :: impact
  rt_urgency :: urgency
  rt_route :: "ticket_route option"
  rt_teamId :: "string option"
  rt_assigneeId :: "string option"

record ticket_rule =
  tr_id :: string
  tr_name :: string
  tr_position :: int
  tr_enabled :: bool
  tr_criteria :: "rule_criterion list"
  tr_actions :: "rule_action list"

fun action_type_of :: "rule_action \<Rightarrow> action_type" where
  "action_type_of (Set_service v) = AT_set_service"
| "action_type_of (Set_impact v) = AT_set_impact"
| "action_type_of (Set_urgency v) = AT_set_urgency"
| "action_type_of (Set_record_type v) = AT_set_record_type"
| "action_type_of (Set_route v) = AT_set_route"
| "action_type_of (Set_team v) = AT_set_team"
| "action_type_of (Set_assignee v) = AT_set_assignee"
| "action_type_of Route_human = AT_route_human"

definition RULE_ACTION_TYPES :: "action_type list" where
  "RULE_ACTION_TYPES = [AT_set_service, AT_set_impact, AT_set_urgency, AT_set_record_type, AT_set_route,
     AT_set_team, AT_set_assignee, AT_route_human]"

fun key_value :: "rule_ticket \<Rightarrow> key_field \<Rightarrow> string option" where
  "key_value t KF_serviceId = rt_serviceId t"
| "key_value t KF_requesterId = Some (rt_requesterId t)"
| "key_value t KF_requesterDepartment = rt_requesterDepartment t"
| "key_value t KF_recordType = Some (record_type_key (rt_recordType t))"
| "key_value t KF_origin = rt_origin t"

fun text_value :: "rule_ticket \<Rightarrow> text_field \<Rightarrow> string" where
  "text_value t TF_title = rt_title t"
| "text_value t TF_body = rt_body t"

fun matches :: "rule_ticket \<Rightarrow> rule_criterion \<Rightarrow> bool" where
  "matches t (Text_criterion f Op_contains v) = js_includes (js_lower (text_value t f)) (js_lower v)"
| "matches t (Text_criterion f Op_text_equals v) = (text_value t f = v)"
| "matches t (Key_criterion f Op_in v) =
     (case v of One_value s \<Rightarrow> False
      | Many_values vs \<Rightarrow> (case key_value t f of None \<Rightarrow> False | Some actual \<Rightarrow> actual \<in> set vs))"
| "matches t (Key_criterion f Op_equals v) =
     (case v of Many_values vs \<Rightarrow> False | One_value s \<Rightarrow> key_value t f = Some s)"

text \<open>\<open>result.patch[field] = result.ticket[field] = action.value\<close>: the field an action sets.\<close>

fun set_field :: "rule_action \<Rightarrow> rule_ticket \<Rightarrow> rule_ticket" where
  "set_field (Set_service v) t = t\<lparr>rt_serviceId := Some v\<rparr>"
| "set_field (Set_impact v) t = t\<lparr>rt_impact := v\<rparr>"
| "set_field (Set_urgency v) t = t\<lparr>rt_urgency := v\<rparr>"
| "set_field (Set_record_type v) t = t\<lparr>rt_recordType := v\<rparr>"
| "set_field (Set_route v) t = t\<lparr>rt_route := Some v\<rparr>"
| "set_field (Set_team v) t = t\<lparr>rt_teamId := Some v\<rparr>"
| "set_field (Set_assignee v) t = t\<lparr>rt_assigneeId := Some v\<rparr>"
| "set_field Route_human t = t"

text \<open>The patch holds the value each settled action type has set.\<close>

record rule_evaluation =
  re_patch :: "action_type \<Rightarrow> rule_action option"
  re_ticket :: rule_ticket
  re_firings :: "rule_firing list"
  re_settledActions :: "action_type list"

text \<open>One action of a rule; \<open>settled\<close> holds the same types as \<open>settledActions\<close>.\<close>

definition apply_action :: "rule_action \<Rightarrow> rule_evaluation \<times> rule_firing \<Rightarrow> rule_evaluation \<times> rule_firing" where
  "apply_action a = (\<lambda>(res, firing).
     if action_type_of a \<in> set (re_settledActions res)
     then (res, firing\<lparr>rf_skipped := rf_skipped firing @ [a]\<rparr>)
     else (res\<lparr>re_patch := (if a = Route_human then re_patch res else (re_patch res)(action_type_of a \<mapsto> a)),
               re_ticket := set_field a (re_ticket res),
               re_settledActions := re_settledActions res @ [action_type_of a]\<rparr>,
           firing\<lparr>rf_applied := rf_applied firing @ [a]\<rparr>))"

definition fires :: "rule_ticket \<Rightarrow> ticket_rule \<Rightarrow> bool" where
  "fires t r \<longleftrightarrow> tr_enabled r \<and> list_all (matches t) (tr_criteria r)"

definition run_rule :: "ticket_rule \<Rightarrow> rule_evaluation \<Rightarrow> rule_evaluation" where
  "run_rule r res =
     (if \<not> fires (re_ticket res) r then res
      else (case fold apply_action (tr_actions r)
              (res, \<lparr>rf_ruleId = tr_id r, rf_ruleName = tr_name r, rf_rulePosition = tr_position r,
                 rf_applied = [], rf_skipped = []\<rparr>) of
              (res', firing) \<Rightarrow> res'\<lparr>re_firings := re_firings res' @ [firing]\<rparr>))"

definition rule_compare :: "(string \<Rightarrow> string \<Rightarrow> int) \<Rightarrow> ticket_rule \<Rightarrow> ticket_rule \<Rightarrow> int" where
  "rule_compare lc a b = cmp_then (tr_position a - tr_position b) (lc (tr_id a) (tr_id b))"

definition start_evaluation :: "rule_ticket \<Rightarrow> rule_evaluation" where
  "start_evaluation t = \<lparr>re_patch = Map.empty, re_ticket = t, re_firings = [], re_settledActions = []\<rparr>"

definition evaluateTicketRules ::
  "(string \<Rightarrow> string \<Rightarrow> int) \<Rightarrow> rule_ticket \<Rightarrow> ticket_rule list \<Rightarrow> rule_evaluation" where
  "evaluateTicketRules lc t rules = fold run_rule (js_sort (rule_compare lc) rules) (start_evaluation t)"

definition routesToHuman :: "rule_firing list \<Rightarrow> bool" where
  "routesToHuman firings \<longleftrightarrow> list_ex (\<lambda>f. list_ex (\<lambda>a. action_type_of a = AT_route_human) (rf_applied f)) firings"

section \<open>Tokens per ticket\<close>

record token_run =
  tn_ticketId :: string
  tn_promptTokens :: "int option"
  tn_completionTokens :: "int option"

record tokens_per_ticket =
  tp_ticketCount :: nat
  tp_promptTokens :: int
  tp_completionTokens :: int
  tp_totalTokens :: int
  tp_tokensPerTicket :: "rat option"

definition or_zero :: "int option \<Rightarrow> int" where
  "or_zero v = (case v of None \<Rightarrow> 0 | Some n \<Rightarrow> n)"

definition measureTokensPerTicket :: "string list \<Rightarrow> token_run list \<Rightarrow> tokens_per_ticket" where
  "measureTokensPerTicket ticketIds runs =
     (let (promptTokens, completionTokens) =
        fold (\<lambda>r (p, c). if tn_ticketId r \<notin> set ticketIds then (p, c)
                else (p + or_zero (tn_promptTokens r), c + or_zero (tn_completionTokens r))) runs (0, 0);
          totalTokens = promptTokens + completionTokens; size = length (remdups ticketIds)
      in \<lparr>tp_ticketCount = size, tp_promptTokens = promptTokens, tp_completionTokens = completionTokens,
          tp_totalTokens = totalTokens,
          tp_tokensPerTicket = (if size \<noteq> 0 then Some (of_int totalTokens / of_nat size) else None)\<rparr>)"

section \<open>What the evaluation keeps\<close>

definition applied_actions :: "rule_evaluation \<Rightarrow> rule_action list" where
  "applied_actions res = concat (map rf_applied (re_firings res))"

text \<open>
  The actions applied so far tell the whole state: each type once, in the order they settled, the
  ticket is the original with these actions done, and the patch holds them.
\<close>

definition eval_inv :: "rule_ticket \<Rightarrow> rule_action list \<Rightarrow> rule_evaluation \<Rightarrow> bool" where
  "eval_inv t as res \<longleftrightarrow> re_settledActions res = map action_type_of as \<and> distinct (map action_type_of as) \<and>
     re_ticket res = fold set_field as t \<and>
     re_patch res = map_of (map (\<lambda>a. (action_type_of a, a)) (filter (\<lambda>a. a \<noteq> Route_human) as))"

lemma map_add_new: "k \<notin> dom m \<Longrightarrow> [k \<mapsto> v] ++ m = m(k \<mapsto> v)"
  using map_add_comm [of "[k \<mapsto> v]" m] by simp

lemma apply_action_inv:
  assumes "eval_inv t as res" and "apply_action a (res, firing) = (res', firing')"
  shows "\<exists>new. eval_inv t (as @ new) res' \<and> rf_applied firing' = rf_applied firing @ new \<and> re_firings res' = re_firings res"
proof (cases "action_type_of a \<in> set (re_settledActions res)")
  case True
  with assms show ?thesis by (intro exI [of _ "[]"]) (auto simp: apply_action_def)
next
  case False
  then have res': "res' = res\<lparr>re_patch := (if a = Route_human then re_patch res else (re_patch res)(action_type_of a \<mapsto> a)),
      re_ticket := set_field a (re_ticket res), re_settledActions := re_settledActions res @ [action_type_of a]\<rparr>"
    and f: "rf_applied firing' = rf_applied firing @ [a]"
    using assms(2) by (auto simp: apply_action_def)
  have new: "action_type_of a \<notin> action_type_of ` set as" using False assms(1) by (simp add: eval_inv_def)
  then have "action_type_of a \<notin> dom (map_of (map (\<lambda>a. (action_type_of a, a)) (filter (\<lambda>a. a \<noteq> Route_human) as)))"
    by (auto simp: dom_map_of_conv_image_fst)
  note snoc = map_add_new [OF this, of a]
  have "eval_inv t (as @ [a]) res'"
    using assms(1) new unfolding eval_inv_def res' by (simp add: snoc)
  with f res' show ?thesis by (intro exI [of _ "[a]"]) simp
qed

lemma apply_actions_inv:
  assumes "eval_inv t as res" and "fold apply_action xs (res, firing) = (res', firing')"
  shows "\<exists>new. eval_inv t (as @ new) res' \<and> rf_applied firing' = rf_applied firing @ new \<and> re_firings res' = re_firings res"
  using assms
proof (induction xs arbitrary: as res firing)
  case Nil
  then show ?case by (intro exI [of _ "[]"]) simp
next
  case (Cons x xs)
  obtain res1 f1 where one: "apply_action x (res, firing) = (res1, f1)" by fastforce
  then obtain n1 where n1: "eval_inv t (as @ n1) res1" "rf_applied f1 = rf_applied firing @ n1" "re_firings res1 = re_firings res"
    using apply_action_inv [OF Cons.prems(1)] by blast
  have "fold apply_action xs (res1, f1) = (res', firing')" using Cons.prems(2) one by simp
  then obtain n2 where "eval_inv t ((as @ n1) @ n2) res'" "rf_applied firing' = rf_applied f1 @ n2" "re_firings res' = re_firings res1"
    using Cons.IH [OF n1(1)] by blast
  with n1 show ?case by (intro exI [of _ "n1 @ n2"]) simp
qed

definition rules_inv :: "rule_ticket \<Rightarrow> rule_evaluation \<Rightarrow> bool" where
  "rules_inv t res \<longleftrightarrow> eval_inv t (applied_actions res) res"

lemma run_rule_inv:
  assumes "rules_inv t res"
  shows "rules_inv t (run_rule r res)"
proof (cases "fires (re_ticket res) r")
  case True
  let ?f0 = "\<lparr>rf_ruleId = tr_id r, rf_ruleName = tr_name r, rf_rulePosition = tr_position r, rf_applied = [], rf_skipped = []\<rparr>"
  obtain res' f where go: "fold apply_action (tr_actions r) (res, ?f0) = (res', f)" by fastforce
  obtain new where "eval_inv t (applied_actions res @ new) res'" "rf_applied f = new" "re_firings res' = re_firings res"
    using apply_actions_inv [OF assms [unfolded rules_inv_def] go] by auto
  with True go show ?thesis by (simp add: run_rule_def rules_inv_def applied_actions_def eval_inv_def)
qed (use assms in \<open>simp add: run_rule_def\<close>)

lemma rules_fold_inv: "rules_inv t res \<Longrightarrow> rules_inv t (fold run_rule rs res)"
  by (induction rs arbitrary: res) (auto intro: run_rule_inv)

lemma evaluate_inv: "rules_inv t (evaluateTicketRules lc t rules)"
  unfolding evaluateTicketRules_def
  by (rule rules_fold_inv) (simp add: rules_inv_def start_evaluation_def eval_inv_def applied_actions_def)

lemma set_field_keeps:
  "rt_title (fold set_field as t) = rt_title t" "rt_body (fold set_field as t) = rt_body t"
  "rt_requesterId (fold set_field as t) = rt_requesterId t" "rt_origin (fold set_field as t) = rt_origin t"
  "rt_requesterDepartment (fold set_field as t) = rt_requesterDepartment t"
proof (induction as arbitrary: t)
  case (Cons a as)
  {
    case 1 then show ?case using Cons.IH(1) [of "set_field a t"] by (cases a) simp_all
  next
    case 2 then show ?case using Cons.IH(2) [of "set_field a t"] by (cases a) simp_all
  next
    case 3 then show ?case using Cons.IH(3) [of "set_field a t"] by (cases a) simp_all
  next
    case 4 then show ?case using Cons.IH(4) [of "set_field a t"] by (cases a) simp_all
  next
    case 5 then show ?case using Cons.IH(5) [of "set_field a t"] by (cases a) simp_all
  }
qed simp_all

text \<open>What is applied comes from rules that are enabled, and no firing is recorded for another rule.\<close>

lemma run_rule_firings:
  "map rf_ruleId (re_firings (run_rule r res)) =
     map rf_ruleId (re_firings res) @ (if fires (re_ticket res) r then [tr_id r] else [])"
proof -
  have "re_firings (fst (fold apply_action as s)) = re_firings (fst s) \<and> rf_ruleId (snd (fold apply_action as s)) = rf_ruleId (snd s)" for as s
  proof (induction as arbitrary: s)
    case (Cons a as)
    have "re_firings (fst (apply_action a s)) = re_firings (fst s) \<and> rf_ruleId (snd (apply_action a s)) = rf_ruleId (snd s)"
      by (cases s) (simp add: apply_action_def)
    then show ?case using Cons by simp
  qed simp
  note keep = this [of "tr_actions r" "(res, \<lparr>rf_ruleId = tr_id r, rf_ruleName = tr_name r, rf_rulePosition = tr_position r,
    rf_applied = [], rf_skipped = []\<rparr>)"]
  show ?thesis using keep by (simp add: run_rule_def case_prod_unfold)
qed

lemma fold_run_rule_enabled:
  "set (map rf_ruleId (re_firings (fold run_rule rs res))) \<subseteq>
     set (map rf_ruleId (re_firings res)) \<union> tr_id ` {r \<in> set rs. tr_enabled r}"
proof (induction rs arbitrary: res)
  case (Cons r rs)
  show ?case using Cons.IH [of "run_rule r res"] unfolding run_rule_firings
    by (auto simp: fires_def split: if_splits)
qed simp

section \<open>Properties of the rules\<close>


lemma rule_compare_order: "js_order lc \<Longrightarrow> js_order (rule_compare lc)"
  unfolding rule_compare_def by (rule js_order_int_key) (rule js_order_on)

text \<open>
  The outcome of the rules does not depend on the order in which the database returns them, as long as
  their identifiers differ and the collation tells different identifiers apart.
\<close>

theorem evaluateTicketRules_order:
  assumes "js_order lc" and "\<And>a b. lc a b = 0 \<Longrightarrow> a = b" and "distinct (map tr_id rules)" and "mset rules = mset rules'"
  shows "evaluateTicketRules lc t rules = evaluateTicketRules lc t rules'"
proof -
  have "x = y" if "x \<in> set rules" "y \<in> set rules" "rule_compare lc x y = 0" for x y
  proof -
    have "tr_id x = tr_id y" using that(3) assms(2) by (auto simp: rule_compare_def cmp_then_def split: if_splits)
    then show ?thesis using that(1,2) assms(3) by (auto simp: distinct_map inj_on_def)
  qed
  then have "js_sort (rule_compare lc) rules = js_sort (rule_compare lc) rules'"
    by (intro js_order.js_sort_perm [OF rule_compare_order [OF assms(1)] assms(4)])
  then show ?thesis by (simp add: evaluateTicketRules_def)
qed

definition sample_rule_ticket :: rule_ticket where
  "sample_rule_ticket = \<lparr>rt_title = ''VPN down'', rt_body = ''no access'', rt_serviceId = Some ''svc-general'', rt_requesterId = ''u1'',
     rt_requesterDepartment = None, rt_recordType = RT_incident, rt_origin = None, rt_impact = L_medium, rt_urgency = L_medium,
     rt_route = None, rt_teamId = None, rt_assigneeId = None\<rparr>"

definition sample_rules :: "ticket_rule list" where
  "sample_rules =
     [\<lparr>tr_id = ''r2'', tr_name = ''network'', tr_position = 2, tr_enabled = True,
        tr_criteria = [Text_criterion TF_title Op_contains ''vpn''], tr_actions = [Set_impact L_low, Set_team ''net'']\<rparr>,
      \<lparr>tr_id = ''r1'', tr_name = ''urgent'', tr_position = 1, tr_enabled = True,
        tr_criteria = [Text_criterion TF_title Op_contains ''DOWN''], tr_actions = [Set_impact L_high, Set_service ''svc-vpn'']\<rparr>]"

theorem evaluateTicketRules_order_witness:
  "evaluateTicketRules code_unit_compare sample_rule_ticket sample_rules =
     evaluateTicketRules code_unit_compare sample_rule_ticket (rev sample_rules) \<and>
   rt_impact (re_ticket (evaluateTicketRules code_unit_compare sample_rule_ticket sample_rules)) = L_high"
proof
  show "evaluateTicketRules code_unit_compare sample_rule_ticket sample_rules =
     evaluateTicketRules code_unit_compare sample_rule_ticket (rev sample_rules)"
    by (rule evaluateTicketRules_order [OF code_units.js_order_axioms])
      (auto simp: code_unit_compare_def sample_rules_def split: if_splits)
  show "rt_impact (re_ticket (evaluateTicketRules code_unit_compare sample_rule_ticket sample_rules)) = L_high"
    by code_simp
qed

end
