(* ===== verification/DynamicFields.thy ===== *)
theory DynamicFields
  imports Dates
begin

text \<open>
  Custom fields, \<open>server/dynamic-fields/index.ts\<close> with its tables \<open>db/schema/dynamic-fields.ts\<close>: the checks of a
  field's configuration and of a value, the definitions of fields and the values stored for an object.
  A thrown \<open>TypeError\<close> or \<open>RangeError\<close> is the left side of a result, which carries no database: the check
  precedes every write. \<open>date_parse\<close> is \<open>Date.parse\<close> and \<open>collate\<close> the text order of the database.
\<close>

datatype field_type =
    FT_text | FT_textarea | FT_integer | FT_date | FT_datetime | FT_dropdown | FT_multiselect | FT_checkbox | FT_reference

fun field_type_key :: "field_type \<Rightarrow> string" where
  "field_type_key FT_text = ''text''"
| "field_type_key FT_textarea = ''textarea''"
| "field_type_key FT_integer = ''integer''"
| "field_type_key FT_date = ''date''"
| "field_type_key FT_datetime = ''datetime''"
| "field_type_key FT_dropdown = ''dropdown''"
| "field_type_key FT_multiselect = ''multiselect''"
| "field_type_key FT_checkbox = ''checkbox''"
| "field_type_key FT_reference = ''reference''"

text \<open>The entries the type declares, and the keys it does not that the stored JSON may still have.\<close>

record field_config =
  fg_maxLength :: "rat option"
  fg_min :: "rat option"
  fg_max :: "rat option"
  fg_options :: "string list option"
  fg_referenceType :: "string option"
  fg_other_keys :: "string list"

record field_definition =
  fd_id :: string
  fd_key :: string
  fd_label :: string
  fd_fieldType :: field_type
  fd_objectType :: string
  fd_config :: field_config
  fd_displayOrder :: int
  fd_isActive :: bool

record field_value =
  fv_fieldId :: string
  fv_objectId :: string
  fv_value :: jsval

datatype field_error = Type_error string | Range_error string | Unique_violation

definition blank :: "string \<Rightarrow> bool" where
  "blank s \<longleftrightarrow> js_trim s = []"

definition assertNonBlank :: "string \<Rightarrow> string \<Rightarrow> field_error + unit" where
  "assertNonBlank v name = (if blank v then Inl (Type_error (name @ '' must not be blank'')) else Inr ())"

definition safe_rat :: "rat \<Rightarrow> bool" where
  "safe_rat q \<longleftrightarrow> is_safe_integer (JNum q)"

definition allowed_keys :: "field_type \<Rightarrow> string list" where
  "allowed_keys ft =
     (if ft = FT_text \<or> ft = FT_textarea then [''maxLength'']
      else if ft = FT_integer then [''min'', ''max'']
      else if ft = FT_dropdown \<or> ft = FT_multiselect then [''options'']
      else if ft = FT_reference then [''referenceType'']
      else [])"

definition present_key :: "string \<Rightarrow> 'a option \<Rightarrow> string list" where
  "present_key k v = (case v of None \<Rightarrow> [] | Some _ \<Rightarrow> [k])"

text \<open>\<open>Object.keys(config)\<close>.\<close>

definition config_keys :: "field_config \<Rightarrow> string list" where
  "config_keys c =
     present_key ''maxLength'' (fg_maxLength c) @ present_key ''min'' (fg_min c) @ present_key ''max'' (fg_max c) @
     present_key ''options'' (fg_options c) @ present_key ''referenceType'' (fg_referenceType c) @ fg_other_keys c"

text \<open>The checks of a configuration, in the order of the code; the first that fails is the message.\<close>

definition config_problem :: "field_type \<Rightarrow> field_config \<Rightarrow> string option" where
  "config_problem ft c =
     (case find (\<lambda>k. k \<notin> set (allowed_keys ft)) (config_keys c) of
        Some k \<Rightarrow> Some (k @ '' is not valid for '' @ field_type_key ft)
      | None \<Rightarrow>
          if (case fg_maxLength c of None \<Rightarrow> False | Some q \<Rightarrow> \<not> safe_rat q \<or> q \<le> 0)
          then Some ''maxLength must be a positive integer''
          else if (case fg_min c of None \<Rightarrow> False | Some q \<Rightarrow> \<not> safe_rat q) then Some ''min must be a safe integer''
          else if (case fg_max c of None \<Rightarrow> False | Some q \<Rightarrow> \<not> safe_rat q) then Some ''max must be a safe integer''
          else if (case (fg_min c, fg_max c) of (Some a, Some b) \<Rightarrow> b < a | _ \<Rightarrow> False) then Some ''min must not exceed max''
          else if (case fg_options c of None \<Rightarrow> False
                   | Some opts \<Rightarrow> opts = [] \<or> list_ex blank opts \<or> \<not> distinct opts)
          then Some ''options must contain unique, non-blank strings''
          else if (ft = FT_dropdown \<or> ft = FT_multiselect) \<and> fg_options c = None
          then Some (field_type_key ft @ '' requires options'')
          else if ft = FT_reference \<and> (case fg_referenceType c of None \<Rightarrow> True | Some r \<Rightarrow> r = [])
          then Some ''reference requires referenceType''
          else if ft = FT_reference \<and> (case fg_referenceType c of None \<Rightarrow> True | Some r \<Rightarrow> blank r)
          then Some ''referenceType must not be blank''
          else None)"

definition validateFieldConfig :: "field_type \<Rightarrow> field_config \<Rightarrow> field_error + field_config" where
  "validateFieldConfig ft c = (case config_problem ft c of Some why \<Rightarrow> Inl (Type_error why) | None \<Rightarrow> Inr c)"

text \<open>\<open>datePattern.exec(value)\<close> and the three numbers.\<close>

definition date_match :: "string \<Rightarrow> (int \<times> int \<times> int) option" where
  "date_match s =
     (if length s = 10 \<and> list_all is_digit (take 4 s) \<and> s ! 4 = CHR ''-'' \<and> list_all is_digit (take 2 (drop 5 s)) \<and>
         s ! 7 = CHR ''-'' \<and> list_all is_digit (drop 8 s)
      then Some (int (digits_value (take 4 s)), int (digits_value (take 2 (drop 5 s))), int (digits_value (drop 8 s)))
      else None)"

text \<open>\<open>Date.UTC(year, month, day)\<close>, which takes a year below 100 as one of the twentieth century.\<close>

definition utc_day :: "int \<Rightarrow> int \<Rightarrow> int \<Rightarrow> day" where
  "utc_day y m d = make_day (if 0 \<le> y \<and> y \<le> 99 then 1900 + y else y) m d"

definition valid_date :: "string \<Rightarrow> bool" where
  "valid_date s = (case date_match s of None \<Rightarrow> False
     | Some (year, month, d) \<Rightarrow> date_of_day (utc_day year (month - 1) d) = (year, month, d))"

text \<open>\<open>dateTimePattern\<close>: the date and time to the minute, optional seconds and fraction, and the zone.\<close>

definition fixed_pattern :: "string \<Rightarrow> string \<Rightarrow> bool" where
  "fixed_pattern pat s \<longleftrightarrow> length s = length pat \<and> list_all2 (\<lambda>p c. if p = CHR ''9'' then is_digit c else c = p) pat s"

definition zone_suffix :: "string \<Rightarrow> bool" where
  "zone_suffix s \<longleftrightarrow> s = ''Z'' \<or> fixed_pattern ''+99:99'' s \<or> fixed_pattern ''-99:99'' s"

definition fraction_suffix :: "string \<Rightarrow> bool" where
  "fraction_suffix s \<longleftrightarrow> zone_suffix s \<or>
     list_ex (\<lambda>n. fixed_pattern (CHR ''.'' # replicate n (CHR ''9'')) (take (n + 1) s) \<and> zone_suffix (drop (n + 1) s)) [1, 2, 3]"

definition datetime_pattern :: "string \<Rightarrow> bool" where
  "datetime_pattern s \<longleftrightarrow> fixed_pattern ''9999-99-99T99:99'' (take 16 s) \<and>
     (zone_suffix (drop 16 s) \<or> fixed_pattern '':99'' (take 3 (drop 16 s)) \<and> fraction_suffix (drop 19 s))"

definition string_in :: "jsval \<Rightarrow> string list option \<Rightarrow> bool" where
  "string_in v opts = (case v of JStr s \<Rightarrow> (case opts of None \<Rightarrow> False | Some os \<Rightarrow> s \<in> set os) | _ \<Rightarrow> False)"

definition value_ok :: "(string \<Rightarrow> js_date) \<Rightarrow> field_type \<Rightarrow> field_config \<Rightarrow> jsval \<Rightarrow> bool" where
  "value_ok date_parse ft c v =
     (if ft = FT_text \<or> ft = FT_textarea \<or> ft = FT_reference
      then (case v of JStr s \<Rightarrow> \<not> (ft = FT_reference \<and> blank s) \<and>
              (case fg_maxLength c of None \<Rightarrow> True | Some n \<Rightarrow> of_nat (length s) \<le> n)
            | _ \<Rightarrow> False)
      else if ft = FT_integer
      then (case v of JNum q \<Rightarrow> safe_rat q \<and> (case fg_min c of None \<Rightarrow> True | Some a \<Rightarrow> a \<le> q) \<and>
              (case fg_max c of None \<Rightarrow> True | Some b \<Rightarrow> q \<le> b)
            | _ \<Rightarrow> False)
      else if ft = FT_date then (case v of JStr s \<Rightarrow> valid_date s | _ \<Rightarrow> False)
      else if ft = FT_datetime then (case v of JStr s \<Rightarrow> datetime_pattern s \<and> date_parse s \<noteq> None | _ \<Rightarrow> False)
      else if ft = FT_dropdown then string_in v (fg_options c)
      else if ft = FT_multiselect
      then (case v of JArr vs \<Rightarrow> list_all (\<lambda>w. string_in w (fg_options c)) vs \<and> distinct vs | _ \<Rightarrow> False)
      else (case v of JBool b \<Rightarrow> True | _ \<Rightarrow> False))"

definition validateFieldValue :: "(string \<Rightarrow> js_date) \<Rightarrow> field_definition \<Rightarrow> jsval \<Rightarrow> field_error + jsval" where
  "validateFieldValue date_parse d v =
     bind_result (validateFieldConfig (fd_fieldType d) (fd_config d)) (\<lambda>c.
       if value_ok date_parse (fd_fieldType d) c v then Inr v
       else Inl (Type_error (''Invalid value for dynamic field '' @ fd_key d)))"

section \<open>Definitions and values\<close>

record fields_db =
  fdb_fields :: "field_definition list"
  fdb_values :: "field_value list"

definition lower_letter :: "char \<Rightarrow> bool" where
  "lower_letter c = (let n = of_char c :: nat in 97 \<le> n \<and> n \<le> 122)"

definition key_pattern :: "string \<Rightarrow> bool" where
  "key_pattern s = (case s of [] \<Rightarrow> False
     | c # cs \<Rightarrow> lower_letter c \<and> length cs \<le> 63 \<and> list_all (\<lambda>x. lower_letter x \<or> is_digit x \<or> x = CHR ''_'') cs)"

definition createFieldDefinition :: "field_definition \<Rightarrow> fields_db \<Rightarrow> field_error + fields_db \<times> field_definition" where
  "createFieldDefinition input db =
     (if \<not> key_pattern (fd_key input)
      then Inl (Type_error ''key must start with a letter and contain only lowercase letters, digits, or underscores'')
      else bind_result (assertNonBlank (fd_label input) ''label'') (\<lambda>_.
        bind_result (assertNonBlank (fd_objectType input) ''objectType'') (\<lambda>_.
          bind_result (validateFieldConfig (fd_fieldType input) (fd_config input)) (\<lambda>c.
            let row = input\<lparr>fd_config := c\<rparr>
            in if list_ex (\<lambda>f. fd_id f = fd_id row \<or> fd_objectType f = fd_objectType row \<and> fd_key f = fd_key row) (fdb_fields db)
               then Inl Unique_violation
               else Inr (db\<lparr>fdb_fields := fdb_fields db @ [row]\<rparr>, row)))))"

definition listActiveFieldDefinitions ::
  "(string \<Rightarrow> string \<Rightarrow> int) \<Rightarrow> fields_db \<Rightarrow> string \<Rightarrow> field_error + field_definition list" where
  "listActiveFieldDefinitions collate db objectType =
     bind_result (assertNonBlank objectType ''objectType'') (\<lambda>_.
       Inr (js_sort (\<lambda>a b. cmp_then (fd_displayOrder a - fd_displayOrder b) (collate (fd_key a) (fd_key b)))
         (filter (\<lambda>f. fd_objectType f = objectType \<and> fd_isActive f) (fdb_fields db))))"

definition setFieldActive :: "string \<Rightarrow> bool \<Rightarrow> fields_db \<Rightarrow> field_error + fields_db \<times> field_definition" where
  "setFieldActive fieldId active db =
     (case sql_update (\<lambda>f. fd_id f = fieldId) (\<lambda>f. f\<lparr>fd_isActive := active\<rparr>) (fdb_fields db) of
        (t, []) \<Rightarrow> Inl (Range_error (''Dynamic field '' @ fieldId @ '' was not found''))
      | (t, r # rs) \<Rightarrow> Inr (db\<lparr>fdb_fields := t\<rparr>, r))"

definition retireFieldDefinition :: "string \<Rightarrow> fields_db \<Rightarrow> field_error + fields_db \<times> field_definition" where
  "retireFieldDefinition fieldId = setFieldActive fieldId False"

definition reactivateFieldDefinition :: "string \<Rightarrow> fields_db \<Rightarrow> field_error + fields_db \<times> field_definition" where
  "reactivateFieldDefinition fieldId = setFieldActive fieldId True"

text \<open>The rows of the join, and the object made of them.\<close>

definition value_rows :: "fields_db \<Rightarrow> string \<Rightarrow> string \<Rightarrow> (string \<times> jsval) list" where
  "value_rows db objectType objectId =
     concat (map (\<lambda>v. map (\<lambda>f. (fd_key f, fv_value v))
         (filter (\<lambda>f. fd_id f = fv_fieldId v \<and> fd_objectType f = objectType \<and> fd_isActive f) (fdb_fields db)))
       (filter (\<lambda>v. fv_objectId v = objectId) (fdb_values db)))"

definition readDynamicFieldValues :: "fields_db \<Rightarrow> string \<Rightarrow> string \<Rightarrow> field_error + (string \<Rightarrow> jsval option)" where
  "readDynamicFieldValues db objectType objectId =
     bind_result (assertNonBlank objectId ''objectId'') (\<lambda>_. Inr (map_of (rev (value_rows db objectType objectId))))"

text \<open>The definitions that \<open>byKey\<close> holds.\<close>

definition field_by_key :: "fields_db \<Rightarrow> string \<Rightarrow> string \<Rightarrow> field_definition option" where
  "field_by_key db objectType k =
     map_of (rev (map (\<lambda>f. (fd_key f, f)) (filter (\<lambda>f. fd_objectType f = objectType \<and> fd_isActive f) (fdb_fields db)))) k"

definition check_value :: "(string \<Rightarrow> js_date) \<Rightarrow> fields_db \<Rightarrow> string \<Rightarrow> string \<times> jsval \<Rightarrow> unit \<Rightarrow> field_error + unit" where
  "check_value date_parse db objectType = (\<lambda>(k, v) _.
     case field_by_key db objectType k of
       None \<Rightarrow> Inl (Type_error (''Unknown or inactive dynamic field '' @ k))
     | Some d \<Rightarrow> if v = JNull then Inr () else bind_result (validateFieldValue date_parse d v) (\<lambda>_. Inr ()))"

definition upsert_value :: "string \<Rightarrow> string \<Rightarrow> jsval \<Rightarrow> field_value list \<Rightarrow> field_value list" where
  "upsert_value fieldId objectId v t =
     (if list_ex (\<lambda>r. fv_fieldId r = fieldId \<and> fv_objectId r = objectId) t
      then map (\<lambda>r. if fv_fieldId r = fieldId \<and> fv_objectId r = objectId then r\<lparr>fv_value := v\<rparr> else r) t
      else t @ [\<lparr>fv_fieldId = fieldId, fv_objectId = objectId, fv_value = v\<rparr>])"

definition persist_value :: "fields_db \<Rightarrow> string \<Rightarrow> string \<Rightarrow> string \<times> jsval \<Rightarrow> field_value list \<Rightarrow> field_value list" where
  "persist_value db objectType objectId = (\<lambda>(k, v) t.
     case field_by_key db objectType k of
       None \<Rightarrow> t
     | Some d \<Rightarrow>
         if v = JNull then filter (\<lambda>r. \<not> (fv_fieldId r = fd_id d \<and> fv_objectId r = objectId)) t
         else upsert_value (fd_id d) objectId v t)"

definition writeDynamicFieldValues ::
  "(string \<Rightarrow> js_date) \<Rightarrow> string \<Rightarrow> string \<Rightarrow> js_object \<Rightarrow> fields_db \<Rightarrow> field_error + fields_db \<times> (string \<Rightarrow> jsval option)" where
  "writeDynamicFieldValues date_parse objectType objectId vs db =
     bind_result (assertNonBlank objectType ''objectType'') (\<lambda>_.
       bind_result (assertNonBlank objectId ''objectId'') (\<lambda>_.
         if vs = [] then bind_result (readDynamicFieldValues db objectType objectId) (\<lambda>r. Inr (db, r))
         else bind_result (fold_result (check_value date_parse db objectType) vs ()) (\<lambda>_.
           let db' = db\<lparr>fdb_values := fold (persist_value db objectType objectId) vs (fdb_values db)\<rparr>
           in bind_result (readDynamicFieldValues db' objectType objectId) (\<lambda>r. Inr (db', r)))))"

section \<open>Reading after writing\<close>

text \<open>What the indexes of the two tables guarantee, and what is stored for a field of an object.\<close>

definition fields_wf :: "fields_db \<Rightarrow> bool" where
  "fields_wf db \<longleftrightarrow> (\<forall>f\<in>set (fdb_fields db). \<forall>g\<in>set (fdb_fields db).
     fd_id f = fd_id g \<or> fd_objectType f = fd_objectType g \<and> fd_key f = fd_key g \<longrightarrow> f = g)"

definition stored :: "field_value list \<Rightarrow> string \<Rightarrow> string \<Rightarrow> jsval \<Rightarrow> bool" where
  "stored t fieldId objectId v \<longleftrightarrow> (\<exists>r\<in>set t. fv_fieldId r = fieldId \<and> fv_objectId r = objectId \<and> fv_value r = v)"

definition single_valued_store :: "field_value list \<Rightarrow> bool" where
  "single_valued_store t \<longleftrightarrow> (\<forall>f ob v w. stored t f ob v \<longrightarrow> stored t f ob w \<longrightarrow> v = w)"

lemma map_of_functional:
  "(\<And>v w. (k, v) \<in> set xs \<Longrightarrow> (k, w) \<in> set xs \<Longrightarrow> v = w) \<Longrightarrow> map_of xs k = Some v \<longleftrightarrow> (k, v) \<in> set xs"
  by (metis map_of_SomeD weak_map_of_SomeI)

lemma field_by_key_iff:
  assumes "fields_wf db"
  shows "field_by_key db ot k = Some d \<longleftrightarrow>
    d \<in> set (fdb_fields db) \<and> fd_objectType d = ot \<and> fd_isActive d \<and> fd_key d = k"
proof -
  have "field_by_key db ot k = Some d \<longleftrightarrow>
      (k, d) \<in> set (rev (map (\<lambda>f. (fd_key f, f)) (filter (\<lambda>f. fd_objectType f = ot \<and> fd_isActive f) (fdb_fields db))))"
    unfolding field_by_key_def by (rule map_of_functional) (use assms in \<open>auto simp: fields_wf_def\<close>)
  then show ?thesis by auto
qed

lemma value_rows_iff:
  assumes "fields_wf db"
  shows "(k, v) \<in> set (value_rows db ot ob) \<longleftrightarrow>
    (\<exists>d. field_by_key db ot k = Some d \<and> stored (fdb_values db) (fd_id d) ob v)"
  unfolding field_by_key_iff [OF assms] by (force simp: value_rows_def stored_def)

lemma read_iff:
  assumes "fields_wf db" and "single_valued_store (fdb_values db)" and "readDynamicFieldValues db ot ob = Inr m"
  shows "m k = Some v \<longleftrightarrow> (\<exists>d. field_by_key db ot k = Some d \<and> stored (fdb_values db) (fd_id d) ob v)"
proof -
  have "m = map_of (rev (value_rows db ot ob))" using assms(3) by (auto simp: readDynamicFieldValues_def)
  moreover have "map_of (rev (value_rows db ot ob)) k = Some v \<longleftrightarrow> (k, v) \<in> set (rev (value_rows db ot ob))"
    by (rule map_of_functional) (use assms(1,2) in \<open>auto simp: value_rows_iff single_valued_store_def\<close>)
  ultimately show ?thesis by (simp add: value_rows_iff [OF assms(1)])
qed

lemma stored_map:
  "stored (map (\<lambda>r. if fv_fieldId r = f \<and> fv_objectId r = ob then r\<lparr>fv_value := v\<rparr> else r) t) f' ob' w \<longleftrightarrow>
     (\<exists>r\<in>set t. fv_fieldId r = f' \<and> fv_objectId r = ob' \<and> (if f' = f \<and> ob' = ob then v else fv_value r) = w)"
  unfolding stored_def set_map bex_simps by (rule bex_cong) (simp_all, blast?)

lemma stored_upsert:
  "stored (upsert_value f ob v t) f' ob' w \<longleftrightarrow> (if f' = f \<and> ob' = ob then w = v else stored t f' ob' w)"
proof (cases "list_ex (\<lambda>r. fv_fieldId r = f \<and> fv_objectId r = ob) t")
  case True
  then have "\<exists>r\<in>set t. fv_fieldId r = f \<and> fv_objectId r = ob" by (simp add: list_ex_iff)
  then have "(\<exists>r\<in>set t. fv_fieldId r = f \<and> fv_objectId r = ob \<and> v = w) \<longleftrightarrow> w = v" by blast
  with True show ?thesis
    by (cases "f' = f \<and> ob' = ob") (simp_all only: upsert_value_def stored_map if_True if_False simp_thms, simp only: stored_def)
next
  case False
  then show ?thesis by (auto simp: upsert_value_def stored_def list_ex_iff)
qed

lemma stored_persist:
  "stored (persist_value db ot ob (k, v) t) f ob' w \<longleftrightarrow>
     (case field_by_key db ot k of
        None \<Rightarrow> stored t f ob' w
      | Some d \<Rightarrow> if f = fd_id d \<and> ob' = ob then v \<noteq> JNull \<and> w = v else stored t f ob' w)"
proof (cases "field_by_key db ot k")
  case (Some d)
  show ?thesis
  proof (cases "v = JNull")
    case True
    with Some show ?thesis by (auto simp: persist_value_def stored_def)
  next
    case False
    with Some show ?thesis by (simp add: persist_value_def stored_upsert)
  qed
qed (simp add: persist_value_def)

lemma field_by_key_inj:
  assumes "fields_wf db" and "field_by_key db ot k = Some d" and "field_by_key db ot k' = Some d'"
  shows "fd_id d = fd_id d' \<longleftrightarrow> k = k'"
proof -
  have d: "d \<in> set (fdb_fields db)" "fd_key d = k" "d' \<in> set (fdb_fields db)" "fd_key d' = k'"
    using assms field_by_key_iff [OF assms(1)] by simp_all
  have "k = k' \<Longrightarrow> d = d'" using assms(2,3) by simp
  moreover have "fd_id d = fd_id d' \<Longrightarrow> d = d'" using assms(1) d(1,3) by (simp add: fields_wf_def)
  ultimately show ?thesis using d(2,4) by metis
qed

lemma stored_fold:
  assumes "fields_wf db" and "distinct (map fst vs)" and "field_by_key db ot k = Some d"
  shows "stored (fold (persist_value db ot ob) vs t) (fd_id d) ob w \<longleftrightarrow>
    (case map_of vs k of None \<Rightarrow> stored t (fd_id d) ob w | Some v \<Rightarrow> v \<noteq> JNull \<and> w = v)"
  using assms(2)
proof (induction vs arbitrary: t)
  case (Cons kv vs)
  obtain k' v' where kv: "kv = (k', v')" by fastforce
  have new: "k' \<notin> fst ` set vs" using Cons.prems kv by simp
  note step = stored_persist [of db ot ob k' v' t "fd_id d" ob w]
  show ?case
  proof (cases "k' = k")
    case True
    then have "map_of vs k = None" using new by (simp add: map_of_eq_None_iff)
    then show ?thesis using Cons kv True step assms(3) by simp
  next
    case False
    then have "stored (persist_value db ot ob (k', v') t) (fd_id d) ob w = stored t (fd_id d) ob w"
      unfolding step using field_by_key_inj [OF assms(1) assms(3), of k'] by (auto split: option.split)
    then show ?thesis using Cons kv False by (simp split: option.splits)
  qed
qed simp

lemma single_valued_fold:
  "single_valued_store t \<Longrightarrow> single_valued_store (fold (persist_value db ot ob) vs t)"
proof (induction vs arbitrary: t)
  case (Cons kv vs)
  have "single_valued_store (persist_value db ot ob kv t)"
    using Cons.prems unfolding single_valued_store_def
    by (cases kv) (auto simp: stored_persist split: option.splits if_splits)
  then show ?case using Cons.IH by simp
qed simp

lemma write_Inr:
  assumes "writeDynamicFieldValues date_parse ot ob vs db = Inr (db', now)"
  shows "db' = db\<lparr>fdb_values := fold (persist_value db ot ob) vs (fdb_values db)\<rparr>"
    and "readDynamicFieldValues db' ot ob = Inr now"
    and "fold_result (check_value date_parse db ot) vs () = Inr ()"
  using assms by (auto simp: writeDynamicFieldValues_def Let_def split: if_splits)

lemma checked_all:
  "fold_result (check_value date_parse db ot) vs u = Inr u' \<Longrightarrow> (k, v) \<in> set vs \<Longrightarrow>
     \<exists>d. field_by_key db ot k = Some d \<and> (v = JNull \<or> validateFieldValue date_parse d v = Inr v)"
proof (induction vs arbitrary: u)
  case (Cons kv vs)
  obtain u1 where one: "check_value date_parse db ot kv u = Inr u1" "fold_result (check_value date_parse db ot) vs u1 = Inr u'"
    using Cons.prems(1) by (auto split: sum.splits)
  show ?case
  proof (cases "kv = (k, v)")
    case True
    with one(1) show ?thesis
      by (auto simp: check_value_def validateFieldValue_def split: option.splits if_splits)
  next
    case False
    with Cons one(2) show ?thesis by auto
  qed
qed simp

text \<open>
  C20. A successful write of custom fields stores exactly what it was given: reading back, a written
  field has its value, one written as null is gone, and every other field is as before; every value
  written passed the check of an active field. A refused write leaves no trace, for it has no database.
\<close>

theorem writeDynamicFieldValues_read:
  assumes "fields_wf db" and "single_valued_store (fdb_values db)" and "distinct (map fst vs)"
    and "readDynamicFieldValues db ot ob = Inr old" and "writeDynamicFieldValues date_parse ot ob vs db = Inr (db', now)"
  shows "readDynamicFieldValues db' ot ob = Inr now \<and> fdb_fields db' = fdb_fields db \<and>
    single_valued_store (fdb_values db') \<and>
    now k = (case map_of vs k of None \<Rightarrow> old k | Some v \<Rightarrow> if v = JNull then None else Some v) \<and>
    (\<forall>v. (k, v) \<in> set vs \<longrightarrow>
       (\<exists>d. field_by_key db ot k = Some d \<and> (v = JNull \<or> validateFieldValue date_parse d v = Inr v)))"
proof -
  note w = write_Inr [OF assms(5)]
  have wf': "fields_wf db'" using assms(1) by (simp add: w(1) fields_wf_def)
  have sv': "single_valued_store (fdb_values db')" using single_valued_fold [OF assms(2)] by (simp add: w(1))
  have fbk: "field_by_key db' ot k = field_by_key db ot k" by (simp add: w(1) field_by_key_def)
  have checked: "\<exists>d. field_by_key db ot k = Some d \<and> (v = JNull \<or> validateFieldValue date_parse d v = Inr v)"
    if "(k, v) \<in> set vs" for v using checked_all [OF w(3) that] .
  have "now k = Some x \<longleftrightarrow> (case map_of vs k of None \<Rightarrow> old k | Some v \<Rightarrow> if v = JNull then None else Some v) = Some x" for x
  proof (cases "field_by_key db ot k")
    case None
    then have "map_of vs k = None" using checked by (metis map_of_SomeD not_None_eq)
    then show ?thesis
      using None read_iff [OF wf' sv' w(2)] read_iff [OF assms(1,2,4)] by (simp add: fbk)
  next
    case (Some d)
    then show ?thesis
      using read_iff [OF wf' sv' w(2), of k x] read_iff [OF assms(1,2,4), of k x] stored_fold [OF assms(1,3) Some, of ob "fdb_values db" x]
      by (simp add: fbk) (auto simp: w(1) split: option.splits)
  qed
  then have "now k = (case map_of vs k of None \<Rightarrow> old k | Some v \<Rightarrow> if v = JNull then None else Some v)"
    by (metis option.exhaust)
  with w(1,2) sv' checked show ?thesis by simp
qed

section \<open>Date values\<close>

lemma date_match_digits:
  "date_match s = Some (y, m, d) \<longleftrightarrow>
     (\<exists>a b c. y = int a \<and> m = int b \<and> d = int c \<and> a < 10000 \<and> b < 100 \<and> c < 100 \<and>
        s = fixed_digits 4 a @ ''-'' @ fixed_digits 2 b @ ''-'' @ fixed_digits 2 c)" (is "?l \<longleftrightarrow> ?r")
proof
  assume l: ?l
  have s: "length s = 10" "s ! 4 = CHR ''-''" "s ! 7 = CHR ''-''" and digits: "list_all is_digit (take 4 s)"
    "list_all is_digit (take 2 (drop 5 s))" "list_all is_digit (drop 8 s)"
    and n: "y = int (digits_value (take 4 s))" "m = int (digits_value (take 2 (drop 5 s)))" "d = int (digits_value (drop 8 s))"
    using l by (auto simp: date_match_def split: if_splits)
  have "s = take 4 s @ s ! 4 # take 2 (drop 5 s) @ s ! 7 # drop 8 s"
    using s(1) by (intro nth_equalityI) (auto simp: nth_append nth_Cons' numeral_eq_Suc less_Suc_eq split: if_splits)
  then have "s = fixed_digits 4 (digits_value (take 4 s)) @ ''-'' @ fixed_digits 2 (digits_value (take 2 (drop 5 s))) @ ''-'' @
      fixed_digits 2 (digits_value (drop 8 s))"
    using read_digits(1) [OF digits(1)] read_digits(1) [OF digits(2)] read_digits(1) [OF digits(3)] s by simp
  moreover have "digits_value (take 4 s) < 10000" "digits_value (take 2 (drop 5 s)) < 100" "digits_value (drop 8 s) < 100"
    using read_digits(2) [OF digits(1)] read_digits(2) [OF digits(2)] read_digits(2) [OF digits(3)] s(1) by simp_all
  ultimately show ?r using n by blast
next
  assume ?r
  then obtain a b c where abc: "y = int a" "m = int b" "d = int c" "a < 10 ^ 4" "b < 10 ^ 2" "c < 10 ^ 2"
    and s: "s = fixed_digits 4 a @ ''-'' @ fixed_digits 2 b @ ''-'' @ fixed_digits 2 c" by auto
  have parts: "take 4 s = fixed_digits 4 a" "take 2 (drop 5 s) = fixed_digits 2 b" "drop 8 s = fixed_digits 2 c" "length s = 10"
    "s ! 4 = CHR ''-''" "s ! 7 = CHR ''-''"
    unfolding s by (simp_all add: nth_append)
  show ?l unfolding date_match_def parts
    using abc by (simp add: fixed_digits_are_digits digits_value_fixed)
qed

text \<open>
  A value of a date field is accepted exactly when it is the date form of a day of the civil calendar
  from the year 100 on: month and day in range, leap years included. Earlier years, although the form
  allows them, are read as years of the twentieth century and refused.
\<close>

theorem valid_date_iff:
  "valid_date s \<longleftrightarrow> (\<exists>y m d. 100 \<le> y \<and> y \<le> 9999 \<and> 1 \<le> m \<and> m \<le> 12 \<and> 1 \<le> d \<and> d \<le> days_in_month y (m - 1) \<and>
     s = ymd_string y m d)" (is "?l \<longleftrightarrow> ?r")
proof
  assume l: ?l
  then obtain y m d where md: "date_match s = Some (y, m, d)" and "date_of_day (utc_day y (m - 1) d) = (y, m, d)"
    by (auto simp: valid_date_def split: option.splits)
  note b = date_of_day_bounds [OF this(2)]
  obtain a b' c where abc: "y = int a" "m = int b'" "d = int c" "a < 10000" "b' < 100" "c < 100"
    and s: "s = fixed_digits 4 a @ ''-'' @ fixed_digits 2 b' @ ''-'' @ fixed_digits 2 c"
    using md unfolding date_match_digits by blast
  have "100 \<le> y"
  proof (rule ccontr)
    assume "\<not> 100 \<le> y"
    then have u: "utc_day y (m - 1) d = make_day (1900 + y) (m - 1) d" using abc by (simp add: utc_day_def)
    have range: "1 \<le> m" "m \<le> 12" "1 \<le> d" using b by simp_all
    have "year_of_day (make_day (1900 + y) (m - 1) d) = y"
      using \<open>date_of_day (utc_day y (m - 1) d) = (y, m, d)\<close> unfolding u by (simp add: date_of_day_def Let_def)
    then have "make_day (1900 + y) (m - 1) d < year_start (y + 1)" using year_of_day_bounds [of "make_day (1900 + y) (m - 1) d"] by simp
    moreover have "year_start (1900 + y) \<le> make_day (1900 + y) (m - 1) d"
      using range by (simp add: make_day_def Let_def month_start_def)
    moreover have "year_start (y + 1) \<le> year_start (1900 + y)" by (rule year_start_mono) simp
    ultimately show False by simp
  qed
  moreover have "s = ymd_string y m d"
    using abc by (simp add: s ymd_string_def digits_padded_def digits_padded_fixed)
  ultimately show ?r using b abc by (intro exI [of _ y] exI [of _ m] exI [of _ d]) simp
next
  assume ?r
  then obtain y m d where r: "100 \<le> y" "y \<le> 9999" "1 \<le> m" "m \<le> 12" "1 \<le> d" "d \<le> days_in_month y (m - 1)" "s = ymd_string y m d"
    by blast
  have d31: "d \<le> 31" using r days_in_month_bounds [of "m - 1" y] by simp
  have "s = fixed_digits 4 (nat y) @ ''-'' @ fixed_digits 2 (nat m) @ ''-'' @ fixed_digits 2 (nat d)"
    using r d31 by (simp add: ymd_string_def digits_padded_def digits_padded_fixed)
  moreover have "y = int (nat y)" "m = int (nat m)" "d = int (nat d)" "nat y < 10000" "nat m < 100" "nat d < 100"
    using r(1-6) d31 by simp_all
  ultimately have "date_match s = Some (y, m, d)" unfolding date_match_digits by blast
  then show ?l using r date_of_make_day [of m d y] by (simp add: valid_date_def utc_day_def)
qed

definition sample_fields :: fields_db where
  "sample_fields = \<lparr>fdb_fields =
     [\<lparr>fd_id = ''f1'', fd_key = ''seats'', fd_label = ''Seats'', fd_fieldType = FT_integer, fd_objectType = ''ticket'',
        fd_config = \<lparr>fg_maxLength = None, fg_min = Some 1, fg_max = Some 50, fg_options = None, fg_referenceType = None, fg_other_keys = []\<rparr>,
        fd_displayOrder = 1, fd_isActive = True\<rparr>,
      \<lparr>fd_id = ''f2'', fd_key = ''since'', fd_label = ''Since'', fd_fieldType = FT_date, fd_objectType = ''ticket'',
        fd_config = \<lparr>fg_maxLength = None, fg_min = None, fg_max = None, fg_options = None, fg_referenceType = None, fg_other_keys = []\<rparr>,
        fd_displayOrder = 2, fd_isActive = True\<rparr>],
     fdb_values = [\<lparr>fv_fieldId = ''f1'', fv_objectId = ''t1'', fv_value = JNum 3\<rparr>]\<rparr>"

theorem writeDynamicFieldValues_read_witness:
  "\<exists>db' now old. writeDynamicFieldValues (\<lambda>_. Some 0) ''ticket'' ''t1'' [(''since'', JStr ''2024-02-29''), (''seats'', JNull)] sample_fields = Inr (db', now) \<and>
     readDynamicFieldValues sample_fields ''ticket'' ''t1'' = Inr old \<and> old ''seats'' = Some (JNum 3) \<and>
     now ''since'' = Some (JStr ''2024-02-29'') \<and> now ''seats'' = None"
proof -
  let ?vs = "[(''since'', JStr ''2024-02-29''), (''seats'', JNull)]"
  let ?w = "writeDynamicFieldValues (\<lambda>_. Some 0) ''ticket'' ''t1'' ?vs sample_fields"
  let ?r = "readDynamicFieldValues sample_fields ''ticket'' ''t1''"
  have "case ?w of Inr _ \<Rightarrow> True | Inl _ \<Rightarrow> False" "case ?r of Inr old \<Rightarrow> old ''seats'' = Some (JNum 3) | Inl _ \<Rightarrow> False"
    by code_simp+
  then obtain db' now old where w: "?w = Inr (db', now)" and r: "?r = Inr old" "old ''seats'' = Some (JNum 3)"
    by (auto split: sum.splits)
  have wf: "fields_wf sample_fields" by (simp add: fields_wf_def sample_fields_def)
  have sv: "single_valued_store (fdb_values sample_fields)"
    by (auto simp: single_valued_store_def stored_def sample_fields_def)
  have "distinct (map fst ?vs)" by simp
  note p = writeDynamicFieldValues_read [OF wf sv this r(1) w]
  have "now ''since'' = Some (JStr ''2024-02-29'')" "now ''seats'' = None"
    using p [of "''since''"] p [of "''seats''"] by simp_all
  with w r show ?thesis by blast
qed

end
