(* ===== verification/TicketCreation.thy ===== *)
theory TicketCreation
  imports Sla Rules DynamicFields
begin

text \<open>
  The core of ticket creation, \<open>server/tickets/create.ts\<close>, with ticket numbers and field audits
  (\<open>server/ticket-records.ts\<close>) and the configured status changes (\<open>server/tickets.ts\<close>). A transaction is a
  function from the database to an error or a new database; where it throws, nothing is kept.

  \<open>now\<close> stands for every reading of the clock inside one transaction. \<open>uuid\<close> gives new rows their ids; the
  ids of audit and firing rows, which nothing refers to, are left out, and so is the reporter's foreign key.
\<close>

section \<open>Numbers, audits and status changes\<close>

definition number_prefix :: "record_type \<Rightarrow> string" where
  "number_prefix rt = (if rt = RT_incident then ''INC'' else ''REQ'')"

definition formatTicketNumber :: "record_type \<Rightarrow> int \<Rightarrow> int \<Rightarrow> nat \<Rightarrow> string + string" where
  "formatTicketNumber rt year sequence minimumDigits =
     (if \<not> safe_int sequence \<or> sequence < 1 then Inl ''Ticket sequence must be a positive safe integer''
      else Inr (number_prefix rt @ ''-'' @ js_int_string year @ ''-'' @
        pad_start minimumDigits CHR ''0'' (js_int_string sequence)))"

definition object_is :: "jsval \<Rightarrow> jsval \<Rightarrow> bool" where
  "object_is v w \<longleftrightarrow> strict_eq v w \<or> v = JNonFinite \<and> w = JNonFinite"

definition or_null :: "jsval \<Rightarrow> jsval" where
  "or_null v = (if v = JUndef then JNull else v)"

record audit_change =
  ac_fieldName :: string
  ac_oldValue :: jsval
  ac_newValue :: jsval

definition auditChanges :: "js_object \<Rightarrow> js_object \<Rightarrow> audit_change list" where
  "auditChanges before after =
     concat (map (\<lambda>(k, v). if object_is (prop_of before k) v then []
       else [\<lparr>ac_fieldName = k, ac_oldValue = or_null (prop_of before k), ac_newValue = or_null v\<rparr>]) after)"

definition findTicketTransition :: "status_transition list \<Rightarrow> ticket_status \<Rightarrow> string \<Rightarrow> ticket_status option" where
  "findTicketTransition ts status action =
     map_option st_toStatus (first_row (\<lambda>r. st_fromStatus r = status \<and> st_action r = action) ts)"

definition resolveTicketStatus :: "status_transition list \<Rightarrow> ticket_status \<Rightarrow> string \<Rightarrow> string + ticket_status" where
  "resolveTicketStatus ts status action =
     (case findTicketTransition ts status action of
        None \<Rightarrow> Inl (''Cannot apply '' @ action @ '' to ticket in '' @ status @ '' state'')
      | Some to \<Rightarrow> Inr to)"

definition canRerun :: "status_transition list \<Rightarrow> ticket_status \<Rightarrow> run_status option \<Rightarrow> bool" where
  "canRerun ts status latest \<longleftrightarrow> (latest = Some Run_failed \<or> latest = Some Run_exhausted) \<and>
     findTicketTransition ts status ''startRun'' \<noteq> None"

definition ticketRunOrigin :: "string option \<Rightarrow> string option \<Rightarrow> string" where
  "ticketRunOrigin mail channel =
     (case mail of Some (c # cs) \<Rightarrow> c # cs | _ \<Rightarrow> (case channel of Some (c # cs) \<Rightarrow> c # cs | _ \<Rightarrow> ''portal''))"

definition preserveUndefined :: "'a option \<Rightarrow> 'a \<Rightarrow> 'a" where
  "preserveUndefined v current = (case v of None \<Rightarrow> current | Some x \<Rightarrow> x)"

section \<open>The tables of creation\<close>

record creation_input =
  in_source :: string
  in_reporterId :: string
  in_title :: string
  in_body :: string
  in_serviceId :: "string option"
  in_serviceSubcategoryId :: "string option"
  in_recordType :: "record_type option"
  in_impact :: "impact option"
  in_urgency :: "urgency option"
  in_deviceId :: "string option"
  in_origin :: "string option"
  in_idempotencyKey :: "string option"
  in_customFields :: js_object

record created_ticket =
  ct_ticketId :: string
  ct_number :: string
  ct_priority :: priority
  ct_settledActions :: "action_type list"
  ct_created :: bool

record creation_claim =
  cl_id :: string
  cl_reporterId :: string
  cl_idempotencyKey :: string
  cl_ticketId :: "string option"
  cl_expiresAt :: ms

record number_row =
  nm_number :: string
  nm_ticketId :: string

record audit_row =
  au_ticketId :: string
  au_fieldName :: string
  au_oldValue :: jsval
  au_newValue :: jsval
  au_actorId :: string

record firing_row =
  fi_ticketId :: string
  fi_firing :: rule_firing

record creation_db =
  cd_sla :: sla_db
  cd_fields :: fields_db
  cd_subcategories :: "(string \<times> string) list"
  cd_rules :: "ticket_rule list"
  cd_claims :: "creation_claim list"
  cd_counters :: "((string \<times> string) \<times> int) list"
  cd_numbers :: "number_row list"
  cd_audit :: "audit_row list"
  cd_firings :: "firing_row list"

datatype creation_error = Creation_error string | Creation_field field_error | Creation_contract contract_error

section \<open>Creating a ticket\<close>

definition utc_year :: "ms \<Rightarrow> int" where
  "utc_year now = fst (date_of_day (now div day_ms))"

text \<open>\<open>INSERT \<dots> ON CONFLICT DO UPDATE SET last_value = last_value + 1\<close>.\<close>

definition bump_counter :: "string \<times> string \<Rightarrow> ((string \<times> string) \<times> int) list \<Rightarrow> ((string \<times> string) \<times> int) list \<times> int" where
  "bump_counter k cs =
     (case map_of cs k of
        None \<Rightarrow> (cs @ [(k, 1)], 1)
      | Some n \<Rightarrow> (map (\<lambda>(k', m). if k' = k then (k', m + 1) else (k', m)) cs, n + 1))"

definition allocateTicketNumber ::
  "ms \<Rightarrow> record_type \<Rightarrow> ((string \<times> string) \<times> int) list \<Rightarrow> string + ((string \<times> string) \<times> int) list \<times> string" where
  "allocateTicketNumber now rt cs =
     (case bump_counter (number_prefix rt, js_int_string (utc_year now)) cs of
        (cs', n) \<Rightarrow> bind_result (formatTicketNumber rt (utc_year now) n 5) (\<lambda>number. Inr (cs', number)))"

definition normalize_input :: "creation_input \<Rightarrow> creation_input" where
  "normalize_input i = i\<lparr>in_title := js_trim (in_title i), in_body := js_trim (in_body i),
     in_recordType := Some (preserveUndefined (in_recordType i) RT_incident),
     in_impact := Some (preserveUndefined (in_impact i) L_medium),
     in_urgency := Some (preserveUndefined (in_urgency i) L_medium),
     in_serviceId := Some (preserveUndefined (in_serviceId i) ''svc-general''),
     in_serviceSubcategoryId := Some (preserveUndefined (in_serviceSubcategoryId i) ''ss-general'')\<rparr>"

definition rule_ticket_of :: "creation_input \<Rightarrow> rule_ticket" where
  "rule_ticket_of n = \<lparr>rt_title = in_title n, rt_body = in_body n, rt_serviceId = in_serviceId n,
     rt_requesterId = in_reporterId n, rt_requesterDepartment = None, rt_recordType = the (in_recordType n),
     rt_origin = in_origin n, rt_impact = the (in_impact n), rt_urgency = the (in_urgency n), rt_route = None,
     rt_teamId = None, rt_assigneeId = None\<rparr>"

text \<open>The claim: a fresh row, an expired row taken over, or no claim at all.\<close>

definition claim_lifetime :: int where
  "claim_lifetime = 24 * 60 * 60000"

definition claim_key :: "creation_claim \<Rightarrow> string \<times> string" where
  "claim_key c = (cl_reporterId c, cl_idempotencyKey c)"

definition claim_creation :: "string \<Rightarrow> string \<Rightarrow> string \<Rightarrow> ms \<Rightarrow> creation_claim list \<Rightarrow> creation_claim list \<times> bool" where
  "claim_creation claimId reporter key now claims =
     (case first_row (\<lambda>c. claim_key c = (reporter, key)) claims of
        None \<Rightarrow> (claims @ [\<lparr>cl_id = claimId, cl_reporterId = reporter, cl_idempotencyKey = key, cl_ticketId = None,
            cl_expiresAt = now + claim_lifetime\<rparr>], True)
      | Some _ \<Rightarrow>
          (case sql_update (\<lambda>c. claim_key c = (reporter, key) \<and> cl_expiresAt c \<le> now)
              (\<lambda>c. c\<lparr>cl_id := claimId, cl_ticketId := None, cl_expiresAt := now + claim_lifetime\<rparr>) claims of
             (claims', hits) \<Rightarrow> (claims', hits \<noteq> [])))"

text \<open>The ticket an existing claim names, by an inner join.\<close>

definition claimed_ticket :: "string \<Rightarrow> string \<Rightarrow> creation_db \<Rightarrow> ticket option" where
  "claimed_ticket reporter key db =
     (case List.map_filter (\<lambda>c. if claim_key c = (reporter, key) then
              Option.bind (cl_ticketId c) (\<lambda>i. first_row (\<lambda>t. tk_id t = i) (sd_tickets (cd_sla db))) else None) (cd_claims db) of
        [] \<Rightarrow> None | t # _ \<Rightarrow> Some t)"

definition existing_ticket :: "string \<Rightarrow> string \<Rightarrow> creation_db \<Rightarrow> creation_error + created_ticket" where
  "existing_ticket reporter key db =
     (case claimed_ticket reporter key db of
        Some t \<Rightarrow>
          (case tk_number t of
             Some (c # cs) \<Rightarrow> Inr \<lparr>ct_ticketId = tk_id t, ct_number = c # cs, ct_priority = tk_priority t,
               ct_settledActions = [], ct_created = False\<rparr>
           | _ \<Rightarrow> Inl (Creation_error ''Ticket creation with this idempotency key is in progress''))
      | None \<Rightarrow> Inl (Creation_error ''Ticket creation with this idempotency key is in progress''))"

text \<open>The checks of the catalogue; the default status on success.\<close>

definition check_catalogue :: "creation_db \<Rightarrow> creation_input \<Rightarrow> creation_error + ticket_status" where
  "check_catalogue db n =
     (case first_row (\<lambda>(i, s). Some i = in_serviceSubcategoryId n) (cd_subcategories db) of
        None \<Rightarrow> Inl (Creation_error ''Ticket service subcategory was not found'')
      | Some (i, s) \<Rightarrow>
          (case first_row ts_isDefault (sd_statuses (cd_sla db)) of
             None \<Rightarrow> Inl (Creation_error ''Default ticket status was not found'')
           | Some status \<Rightarrow>
               if Some s \<noteq> in_serviceId n then Inl (Creation_error ''Ticket service and subcategory do not match'')
               else Inr (ts_key status)))"

definition new_ticket :: "string \<Rightarrow> string \<Rightarrow> ms \<Rightarrow> ticket_status \<Rightarrow> creation_input \<Rightarrow> rule_ticket \<Rightarrow> ticket" where
  "new_ticket tid number now status n settled =
     \<lparr>tk_id = tid, tk_reporterId = in_reporterId n, tk_deviceId = in_deviceId n, tk_title = in_title n, tk_body = in_body n,
      tk_recordType = rt_recordType settled, tk_impact = rt_impact settled, tk_urgency = rt_urgency settled,
      tk_priority = derivePriority (rt_impact settled) (rt_urgency settled),
      tk_serviceId = the (in_serviceId n), tk_serviceSubcategoryId = the (in_serviceSubcategoryId n), tk_status = status,
      tk_route = rt_route settled, tk_resolution = None, tk_resolutionCode = None, tk_escalationNote = None,
      tk_progressMarker = None, tk_assigneeId = rt_assigneeId settled, tk_ownerId = None, tk_teamId = rt_teamId settled,
      tk_mergedIntoId = None, tk_number = Some number, tk_pendingReasonId = None, tk_pendingUntil = None,
      tk_lastPendingAt = None, tk_pendingFollowups = 0, tk_escalationFlag = EF_none, tk_escalationReason = None,
      tk_version = 1, tk_createdAt = now, tk_resolvedAt = None, tk_closedAt = None, tk_reopenedAt = None,
      tk_lastHumanTransitionAt = None\<rparr>"

fun action_value :: "rule_action \<Rightarrow> jsval" where
  "action_value (Set_service v) = JStr v"
| "action_value (Set_impact v) = JStr (level_key v)"
| "action_value (Set_urgency v) = JStr (level_key v)"
| "action_value (Set_record_type v) = JStr (record_type_key v)"
| "action_value (Set_route v) = JStr (ticket_route_key v)"
| "action_value (Set_team v) = JStr v"
| "action_value (Set_assignee v) = JStr v"
| "action_value Route_human = JBool True"

definition audit_of_firings :: "string \<Rightarrow> rule_firing list \<Rightarrow> audit_row list" where
  "audit_of_firings tid firings =
     concat (map (\<lambda>f. map (\<lambda>a. \<lparr>au_ticketId = tid, au_fieldName = action_type_key (action_type_of a), au_oldValue = JNull,
       au_newValue = action_value a, au_actorId = ''rule:'' @ rf_ruleId f\<rparr>) (rf_applied f)) firings)"

definition creation_audit :: "string \<Rightarrow> string \<Rightarrow> ticket_status \<Rightarrow> rule_firing list \<Rightarrow> audit_row list" where
  "creation_audit tid source status firings =
     (case audit_of_firings tid firings of
        [] \<Rightarrow> [\<lparr>au_ticketId = tid, au_fieldName = ''status'', au_oldValue = JNull, au_newValue = JStr status,
               au_actorId = ''source:'' @ source\<rparr>]
      | a # as \<Rightarrow> a # as)"

datatype new_id = Id_claim | Id_ticket | Id_watch policy_type target_type

definition write_custom_fields ::
  "(string \<Rightarrow> js_date) \<Rightarrow> string \<Rightarrow> js_object \<Rightarrow> creation_db \<Rightarrow> creation_error + creation_db" where
  "write_custom_fields date_parse tid custom db =
     (if custom = [] then Inr db
      else (case writeDynamicFieldValues date_parse ''ticket'' tid custom (cd_fields db) of
              Inl e \<Rightarrow> Inl (Creation_field e) | Inr (fdb, _) \<Rightarrow> Inr (db\<lparr>cd_fields := fdb\<rparr>)))"

definition attach_stopwatches ::
  "tzdb \<Rightarrow> (string \<Rightarrow> string \<Rightarrow> int) \<Rightarrow> (new_id \<Rightarrow> string) \<Rightarrow> string \<Rightarrow> priority \<Rightarrow> ms \<Rightarrow> creation_db \<Rightarrow>
     creation_error + creation_db" where
  "attach_stopwatches tz lc uuid tid prio now db =
     (case attachTicketStopwatches tz lc (\<lambda>pt tt. uuid (Id_watch pt tt)) tid prio now (cd_sla db) of
        Inl e \<Rightarrow> Inl (Creation_contract e) | Inr sla \<Rightarrow> Inr (db\<lparr>cd_sla := sla\<rparr>))"

text \<open>The rows of the ticket itself: number, ticket, number history, firings and audit.\<close>

definition insert_ticket_rows ::
  "(string \<Rightarrow> string \<Rightarrow> int) \<Rightarrow> string \<Rightarrow> ms \<Rightarrow> ticket_status \<Rightarrow> creation_input \<Rightarrow> creation_db \<Rightarrow>
     creation_error + creation_db \<times> string \<times> rule_evaluation" where
  "insert_ticket_rows lc tid now status n db =
     (let evaluation = evaluateTicketRules lc (rule_ticket_of n) (filter tr_enabled (cd_rules db));
          settled = re_ticket evaluation
      in case allocateTicketNumber now (rt_recordType settled) (cd_counters db) of
        Inl why \<Rightarrow> Inl (Creation_error why)
      | Inr (counters, number) \<Rightarrow>
          if number \<in> nm_number ` set (cd_numbers db) then Inl (Creation_error ''duplicate key value'')
          else Inr (db\<lparr>cd_counters := counters,
            cd_sla := (cd_sla db)\<lparr>sd_tickets := sd_tickets (cd_sla db) @ [new_ticket tid number now status n settled]\<rparr>,
            cd_numbers := cd_numbers db @ [\<lparr>nm_number = number, nm_ticketId = tid\<rparr>],
            cd_firings := cd_firings db @ map (\<lambda>f. \<lparr>fi_ticketId = tid, fi_firing = f\<rparr>) (re_firings evaluation),
            cd_audit := cd_audit db @ creation_audit tid (in_source n) status (re_firings evaluation)\<rparr>,
            number, evaluation))"

text \<open>What follows the claim.\<close>

definition create_rows ::
  "tzdb \<Rightarrow> (string \<Rightarrow> string \<Rightarrow> int) \<Rightarrow> (string \<Rightarrow> js_date) \<Rightarrow> (new_id \<Rightarrow> string) \<Rightarrow> ms \<Rightarrow> creation_input \<Rightarrow>
     creation_db \<Rightarrow> creation_error + creation_db \<times> created_ticket" where
  "create_rows tz lc date_parse uuid now n db =
     bind_result (check_catalogue db n) (\<lambda>status.
     bind_result (insert_ticket_rows lc (uuid Id_ticket) now status n db) (\<lambda>(db1, number, evaluation).
       let prio = derivePriority (rt_impact (re_ticket evaluation)) (rt_urgency (re_ticket evaluation)) in
     bind_result (write_custom_fields date_parse (uuid Id_ticket) (in_customFields n) db1) (\<lambda>db2.
     bind_result (attach_stopwatches tz lc uuid (uuid Id_ticket) prio now db2) (\<lambda>db3.
       Inr (db3, \<lparr>ct_ticketId = uuid Id_ticket, ct_number = number, ct_priority = prio,
         ct_settledActions = re_settledActions evaluation, ct_created = True\<rparr>)))))"

definition set_claim_ticket :: "string \<Rightarrow> string \<Rightarrow> creation_db \<Rightarrow> creation_db" where
  "set_claim_ticket claimId tid db =
     db\<lparr>cd_claims := fst (sql_update (\<lambda>c. cl_id c = claimId) (\<lambda>c. c\<lparr>cl_ticketId := Some tid\<rparr>) (cd_claims db))\<rparr>"

definition createTicketInTransaction ::
  "tzdb \<Rightarrow> (string \<Rightarrow> string \<Rightarrow> int) \<Rightarrow> (string \<Rightarrow> js_date) \<Rightarrow> (new_id \<Rightarrow> string) \<Rightarrow> ms \<Rightarrow> creation_input \<Rightarrow>
     creation_db \<Rightarrow> creation_error + creation_db \<times> created_ticket" where
  "createTicketInTransaction tz lc date_parse uuid now input db =
     (let n = normalize_input input in
      if in_title n = [] \<or> in_body n = [] then Inl (Creation_error ''Ticket title and body are required'')
      else case in_idempotencyKey input of
        Some (c # cs) \<Rightarrow>
          (case claim_creation (uuid Id_claim) (in_reporterId input) (c # cs) now (cd_claims db) of
             (claims, claimed) \<Rightarrow>
               if \<not> claimed
               then bind_result (existing_ticket (in_reporterId input) (c # cs) db) (\<lambda>t. Inr (db\<lparr>cd_claims := claims\<rparr>, t))
               else bind_result (create_rows tz lc date_parse uuid now n (db\<lparr>cd_claims := claims\<rparr>)) (\<lambda>(db', t).
                 Inr (set_claim_ticket (uuid Id_claim) (ct_ticketId t) db', t)))
      | _ \<Rightarrow> create_rows tz lc date_parse uuid now n db)"

text \<open>
  \<open>createTicket\<close>: a transaction that throws leaves the database as it was. The event and the search
  index follow the commit and fail soft; \<open>fired\<close> is the ticket whose creation is announced.
\<close>

definition createTicket ::
  "tzdb \<Rightarrow> (string \<Rightarrow> string \<Rightarrow> int) \<Rightarrow> (string \<Rightarrow> js_date) \<Rightarrow> (new_id \<Rightarrow> string) \<Rightarrow> ms \<Rightarrow> creation_input \<Rightarrow>
     creation_db \<Rightarrow> creation_db \<times> (creation_error + created_ticket) \<times> string option" where
  "createTicket tz lc date_parse uuid now input db =
     (case createTicketInTransaction tz lc date_parse uuid now input db of
        Inl e \<Rightarrow> (db, Inl e, None)
      | Inr (db', t) \<Rightarrow> (db', Inr t, if ct_created t then Some (ct_ticketId t) else None))"

section \<open>Ticket numbers\<close>

text \<open>The text of a number, as the code builds it where it does not throw.\<close>

definition number_text :: "record_type \<Rightarrow> int \<Rightarrow> int \<Rightarrow> string" where
  "number_text rt y n = number_prefix rt @ ''-'' @ js_int_string y @ ''-'' @ pad_start 5 CHR ''0'' (js_int_string n)"

lemma formatTicketNumber_Inr:
  "formatTicketNumber rt y n 5 = Inr s \<longleftrightarrow> safe_int n \<and> 1 \<le> n \<and> s = number_text rt y n"
  by (auto simp: formatTicketNumber_def number_text_def)

lemma number_prefix_inj: "number_prefix rt @ x = number_prefix rt' @ y \<Longrightarrow> number_prefix rt = number_prefix rt' \<and> x = y"
  by (auto simp: number_prefix_def split: if_splits)

lemma number_text_inj:
  assumes "number_text rt y n = number_text rt' y' n'" and "0 \<le> y" "0 \<le> y'" "0 \<le> n" "0 \<le> n'"
  shows "number_prefix rt = number_prefix rt' \<and> y = y' \<and> n = n'"
proof -
  have pre: "number_prefix rt = number_prefix rt'" and rest: "js_int_string y @ CHR ''-'' # pad_start 5 CHR ''0'' (js_int_string n) =
      js_int_string y' @ CHR ''-'' # pad_start 5 CHR ''0'' (js_int_string n')"
    using number_prefix_inj [OF assms(1) [unfolded number_text_def]] by simp_all
  have "js_int_string y = js_int_string y' \<and> pad_start 5 CHR ''0'' (js_int_string n) = pad_start 5 CHR ''0'' (js_int_string n')"
    using assms(2,3) by (intro split_at_dash [OF _ _ rest]) (simp_all add: js_int_string_def js_nat_string_digits)
  then have "digits_value (js_int_string y) = digits_value (js_int_string y')"
    "digits_value (js_int_string n) = digits_value (js_int_string n')"
    by (simp, metis digits_value_pad)
  then have "nat y = nat y'" "nat n = nat n'" using assms(2-5) by (simp_all add: js_int_string_def)
  then show ?thesis using pre assms(2-5) by (simp add: eq_nat_nat_iff)
qed

lemma map_of_bump:
  "map_of (fst (bump_counter k cs)) k' = (if k' = k then Some (snd (bump_counter k cs)) else map_of cs k')"
proof (cases "map_of cs k")
  case None
  then show ?thesis by (auto simp: bump_counter_def map_add_def split: option.splits)
next
  case (Some n)
  have "map_of (map (\<lambda>(k', m). if k' = k then (k', m + 1) else (k', m)) cs) k' =
      (if k' = k then map_option (\<lambda>m. m + 1) (map_of cs k) else map_of cs k')"
    by (induction cs) auto
  with Some show ?thesis by (simp add: bump_counter_def)
qed

lemma bump_counter_value: "snd (bump_counter k cs) = (case map_of cs k of None \<Rightarrow> 1 | Some n \<Rightarrow> n + 1)"
  by (simp add: bump_counter_def split: option.splits)

text \<open>
  The invariant of numbers: every number handed out is the text of a sequence that its counter has
  passed, none is handed out twice, and a ticket's number leads to that ticket.
\<close>

definition counted :: "((string \<times> string) \<times> int) list \<Rightarrow> string \<Rightarrow> bool" where
  "counted cs s \<longleftrightarrow> (\<exists>rt y n c. s = number_text rt y n \<and> 0 \<le> y \<and> 1 \<le> n \<and>
     map_of cs (number_prefix rt, js_int_string y) = Some c \<and> n \<le> c)"

definition numbers_wf :: "creation_db \<Rightarrow> bool" where
  "numbers_wf db \<longleftrightarrow> distinct (map nm_number (cd_numbers db)) \<and>
     (\<forall>row\<in>set (cd_numbers db). counted (cd_counters db) (nm_number row)) \<and>
     (\<forall>t\<in>set (sd_tickets (cd_sla db)). \<forall>s. tk_number t = Some s \<longrightarrow>
        (\<exists>row\<in>set (cd_numbers db). nm_number row = s \<and> nm_ticketId row = tk_id t)) \<and>
     (\<forall>k c. map_of (cd_counters db) k = Some c \<longrightarrow> 1 \<le> c)"

lemma utc_year_nonneg: "0 \<le> now \<Longrightarrow> 0 \<le> utc_year now"
proof -
  assume "0 \<le> now"
  then have d: "0 \<le> now div day_ms" by simp
  let ?y = "year_of_day (now div day_ms)"
  have "\<not> ?y < 0"
  proof
    assume "?y < 0"
    then have "year_start (?y + 1) \<le> year_start 0" by (intro year_start_mono) simp
    moreover have "year_start 0 < 0" by (simp add: year_start_def)
    ultimately show False using year_of_day_bounds [of "now div day_ms"] d by simp
  qed
  then show ?thesis by (simp add: utc_year_def date_of_day_def Let_def)
qed

lemma counted_mono:
  assumes "counted cs s" and "\<And>k c. map_of cs k = Some c \<Longrightarrow> \<exists>c'. map_of cs' k = Some c' \<and> c \<le> c'"
  shows "counted cs' s"
proof -
  obtain rt y n c where c: "s = number_text rt y n" "0 \<le> y" "1 \<le> n" "n \<le> c"
    "map_of cs (number_prefix rt, js_int_string y) = Some c"
    using assms(1) unfolding counted_def by blast
  obtain c' where "map_of cs' (number_prefix rt, js_int_string y) = Some c'" "c \<le> c'" using assms(2) [OF c(5)] by blast
  moreover have "n \<le> c'" using c(4) \<open>c \<le> c'\<close> by simp
  ultimately show ?thesis using c(1-3) unfolding counted_def by blast
qed

lemma allocate_fresh:
  assumes "allocateTicketNumber now rt cs = Inr (cs', number)" and "0 \<le> now" and "\<And>k c. map_of cs k = Some c \<Longrightarrow> 1 \<le> c"
  shows "counted cs' number" and "\<not> counted cs number"
    and "map_of cs k = Some c \<Longrightarrow> \<exists>c'. map_of cs' k = Some c' \<and> c \<le> c'"
    and "map_of cs' k = Some c \<Longrightarrow> 1 \<le> c"
proof -
  let ?k = "(number_prefix rt, js_int_string (utc_year now))"
  let ?n = "snd (bump_counter ?k cs)"
  have cs': "cs' = fst (bump_counter ?k cs)" and num: "number = number_text rt (utc_year now) ?n" and n: "1 \<le> ?n"
    using assms(1) by (auto simp: allocateTicketNumber_def formatTicketNumber_Inr split: prod.splits)
  note y = utc_year_nonneg [OF assms(2)]
  show "counted cs' number"
    unfolding counted_def
  proof (intro exI conjI)
    show "number = number_text rt (utc_year now) ?n" "0 \<le> utc_year now" "1 \<le> ?n" "?n \<le> ?n" using num n y by simp_all
    show "map_of cs' ?k = Some ?n" by (simp add: cs' map_of_bump)
  qed
  show "\<not> counted cs number"
  proof
    assume "counted cs number"
    then obtain rt' y' n' c where c: "number = number_text rt' y' n'" "0 \<le> y'" "1 \<le> n'"
      "map_of cs (number_prefix rt', js_int_string y') = Some c" "n' \<le> c"
      unfolding counted_def by blast
    then have "number_prefix rt' = number_prefix rt \<and> y' = utc_year now \<and> n' = ?n"
      using num n y by (intro number_text_inj) simp_all
    then have "map_of cs ?k = Some c" "?n \<le> c" using c by simp_all
    then show False by (simp add: bump_counter_value)
  qed
  show "map_of cs k = Some c \<Longrightarrow> \<exists>c'. map_of cs' k = Some c' \<and> c \<le> c'"
    by (auto simp: cs' map_of_bump bump_counter_value)
  show "map_of cs' k = Some c \<Longrightarrow> 1 \<le> c"
    using n assms(3) by (auto simp: cs' map_of_bump split: if_splits)
qed

section \<open>What a creation adds\<close>

lemma write_custom_fields_frame:
  "write_custom_fields date_parse tid custom db = Inr db' \<Longrightarrow> \<exists>f. db' = db\<lparr>cd_fields := f\<rparr>"
  by (auto simp: write_custom_fields_def split: if_splits sum.splits) (metis creation_db.surjective creation_db.update_convs(2))

lemma attach_stopwatches_frame:
  "attach_stopwatches tz lc uuid tid prio now db = Inr db' \<Longrightarrow> \<exists>w. db' = db\<lparr>cd_sla := (cd_sla db)\<lparr>sd_watches := w\<rparr>\<rparr>"
  by (auto simp: attach_stopwatches_def attachTicketStopwatches_def Let_def split: sum.splits option.splits)

definition creation_adds ::
  "(string \<Rightarrow> string \<Rightarrow> int) \<Rightarrow> (new_id \<Rightarrow> string) \<Rightarrow> ms \<Rightarrow> creation_input \<Rightarrow> creation_db \<Rightarrow> creation_db \<Rightarrow> created_ticket \<Rightarrow>
     ticket_status \<Rightarrow> rule_evaluation \<Rightarrow> ((string \<times> string) \<times> int) list \<Rightarrow> string \<Rightarrow> bool" where
  "creation_adds lc uuid now n db db' t status ev counters number \<longleftrightarrow>
    check_catalogue db n = Inr status \<and>
    ev = evaluateTicketRules lc (rule_ticket_of n) (filter tr_enabled (cd_rules db)) \<and>
    allocateTicketNumber now (rt_recordType (re_ticket ev)) (cd_counters db) = Inr (counters, number) \<and>
    number \<notin> nm_number ` set (cd_numbers db) \<and>
    sd_tickets (cd_sla db') = sd_tickets (cd_sla db) @ [new_ticket (uuid Id_ticket) number now status n (re_ticket ev)] \<and>
    cd_counters db' = counters \<and> cd_numbers db' = cd_numbers db @ [\<lparr>nm_number = number, nm_ticketId = uuid Id_ticket\<rparr>] \<and>
    cd_audit db' = cd_audit db @ creation_audit (uuid Id_ticket) (in_source n) status (re_firings ev) \<and>
    cd_firings db' = cd_firings db @ map (\<lambda>f. \<lparr>fi_ticketId = uuid Id_ticket, fi_firing = f\<rparr>) (re_firings ev) \<and>
    cd_claims db' = cd_claims db \<and> cd_rules db' = cd_rules db \<and>
    t = \<lparr>ct_ticketId = uuid Id_ticket, ct_number = number,
      ct_priority = derivePriority (rt_impact (re_ticket ev)) (rt_urgency (re_ticket ev)),
      ct_settledActions = re_settledActions ev, ct_created = True\<rparr>"

lemma creation_addsD:
  assumes "creation_adds lc uuid now n db db' t status ev counters number"
  shows "check_catalogue db n = Inr status"
    and "ev = evaluateTicketRules lc (rule_ticket_of n) (filter tr_enabled (cd_rules db))"
    and "allocateTicketNumber now (rt_recordType (re_ticket ev)) (cd_counters db) = Inr (counters, number)"
    and "number \<notin> nm_number ` set (cd_numbers db)"
    and "sd_tickets (cd_sla db') = sd_tickets (cd_sla db) @ [new_ticket (uuid Id_ticket) number now status n (re_ticket ev)]"
    and "cd_counters db' = counters"
    and "cd_numbers db' = cd_numbers db @ [\<lparr>nm_number = number, nm_ticketId = uuid Id_ticket\<rparr>]"
    and "cd_audit db' = cd_audit db @ creation_audit (uuid Id_ticket) (in_source n) status (re_firings ev)"
    and "cd_claims db' = cd_claims db"
    and "t = \<lparr>ct_ticketId = uuid Id_ticket, ct_number = number,
      ct_priority = derivePriority (rt_impact (re_ticket ev)) (rt_urgency (re_ticket ev)),
      ct_settledActions = re_settledActions ev, ct_created = True\<rparr>"
  using assms unfolding creation_adds_def by - ((elim conjE, assumption)+)

lemma create_rows_shape:
  assumes "create_rows tz lc date_parse uuid now n db = Inr (db', t)"
  shows "\<exists>status ev counters number. creation_adds lc uuid now n db db' t status ev counters number"
proof -
  obtain status db1 number ev db2 where cat: "check_catalogue db n = Inr status"
    and ins: "insert_ticket_rows lc (uuid Id_ticket) now status n db = Inr (db1, number, ev)"
    and custom: "write_custom_fields date_parse (uuid Id_ticket) (in_customFields n) db1 = Inr db2"
    and sw: "attach_stopwatches tz lc uuid (uuid Id_ticket) (derivePriority (rt_impact (re_ticket ev)) (rt_urgency (re_ticket ev))) now db2 = Inr db'"
    and t: "t = \<lparr>ct_ticketId = uuid Id_ticket, ct_number = number,
      ct_priority = derivePriority (rt_impact (re_ticket ev)) (rt_urgency (re_ticket ev)),
      ct_settledActions = re_settledActions ev, ct_created = True\<rparr>"
    using assms by (fastforce simp: create_rows_def Let_def)
  obtain counters where ev: "ev = evaluateTicketRules lc (rule_ticket_of n) (filter tr_enabled (cd_rules db))"
    and al: "allocateTicketNumber now (rt_recordType (re_ticket ev)) (cd_counters db) = Inr (counters, number)"
    and fresh: "number \<notin> nm_number ` set (cd_numbers db)"
    and db1: "db1 = db\<lparr>cd_counters := counters,
            cd_sla := (cd_sla db)\<lparr>sd_tickets := sd_tickets (cd_sla db) @ [new_ticket (uuid Id_ticket) number now status n (re_ticket ev)]\<rparr>,
            cd_numbers := cd_numbers db @ [\<lparr>nm_number = number, nm_ticketId = uuid Id_ticket\<rparr>],
            cd_firings := cd_firings db @ map (\<lambda>f. \<lparr>fi_ticketId = uuid Id_ticket, fi_firing = f\<rparr>) (re_firings ev),
            cd_audit := cd_audit db @ creation_audit (uuid Id_ticket) (in_source n) status (re_firings ev)\<rparr>"
    using ins by (auto simp: insert_ticket_rows_def Let_def split: sum.splits prod.splits if_splits)
  obtain f w where "db2 = db1\<lparr>cd_fields := f\<rparr>" "db' = db2\<lparr>cd_sla := (cd_sla db2)\<lparr>sd_watches := w\<rparr>\<rparr>"
    using write_custom_fields_frame [OF custom] attach_stopwatches_frame [OF sw] by blast
  then have "creation_adds lc uuid now n db db' t status ev counters number"
    using cat al fresh unfolding creation_adds_def ev [symmetric] by (simp add: db1 t)
  then show ?thesis by blast
qed

text \<open>The two ways a transaction succeeds: a new ticket, or the ticket of an earlier claim.\<close>

lemma create_cases:
  assumes "createTicketInTransaction tz lc date_parse uuid now input db = Inr (db', t)"
  obtains (new) claims db1 where "create_rows tz lc date_parse uuid now (normalize_input input) (db\<lparr>cd_claims := claims\<rparr>) = Inr (db1, t)"
      "\<exists>cl. db' = db1\<lparr>cd_claims := cl\<rparr>" "js_trim (in_title input) \<noteq> []" "js_trim (in_body input) \<noteq> []"
    | (known) k where "in_idempotencyKey input = Some k" "existing_ticket (in_reporterId input) k db = Inr t"
      "\<exists>cl. db' = db\<lparr>cd_claims := cl\<rparr>" "\<not> ct_created t"
proof -
  have ok: "js_trim (in_title input) \<noteq> []" "js_trim (in_body input) \<noteq> []"
    using assms by (auto simp: createTicketInTransaction_def Let_def normalize_input_def split: if_splits)
  consider (plain) "in_idempotencyKey input = None \<or> in_idempotencyKey input = Some []"
    | (key) c cs where "in_idempotencyKey input = Some (c # cs)"
    by (metis list.exhaust option.exhaust)
  then show thesis
  proof cases
    case plain
    then have "create_rows tz lc date_parse uuid now (normalize_input input) (db\<lparr>cd_claims := cd_claims db\<rparr>) = Inr (db', t)"
      using assms by (auto simp: createTicketInTransaction_def Let_def split: if_splits)
    moreover have "db' = db'\<lparr>cd_claims := cd_claims db'\<rparr>" by simp
    ultimately show thesis using new ok by blast
  next
    case key
    obtain claims won where cl: "claim_creation (uuid Id_claim) (in_reporterId input) (c # cs) now (cd_claims db) = (claims, won)"
      by fastforce
    show thesis
    proof (cases won)
      case True
      then obtain db1 where "create_rows tz lc date_parse uuid now (normalize_input input) (db\<lparr>cd_claims := claims\<rparr>) = Inr (db1, t)"
        "db' = set_claim_ticket (uuid Id_claim) (ct_ticketId t) db1"
        using assms key cl by (auto simp: createTicketInTransaction_def Let_def split: if_splits)
      then show thesis using new ok unfolding set_claim_ticket_def by blast
    next
      case False
      then have "existing_ticket (in_reporterId input) (c # cs) db = Inr t" "db' = db\<lparr>cd_claims := claims\<rparr>"
        using assms key cl by (auto simp: createTicketInTransaction_def Let_def split: if_splits)
      moreover have "\<not> ct_created t" using calculation(1) by (auto simp: existing_ticket_def split: option.splits list.splits)
      ultimately show thesis using known key by blast
    qed
  qed
qed

lemma claimed_ticket_member: "claimed_ticket reporter k db = Some x \<Longrightarrow> x \<in> set (sd_tickets (cd_sla db))"
proof -
  let ?f = "\<lambda>c. if claim_key c = (reporter, k) then
      Option.bind (cl_ticketId c) (\<lambda>i. first_row (\<lambda>t. tk_id t = i) (sd_tickets (cd_sla db))) else None"
  assume "claimed_ticket reporter k db = Some x"
  then have "x \<in> set (List.map_filter ?f (cd_claims db))"
    by (auto simp: claimed_ticket_def split: list.splits)
  then obtain c where "?f c = Some x" unfolding set_map_filter_iff by blast
  then show ?thesis by (auto split: if_splits dest!: first_row_SomeD simp: bind_eq_Some_conv)
qed

lemma create_rows_numbers:
  assumes "create_rows tz lc date_parse uuid now n db = Inr (db', t)" and "numbers_wf db" and "0 \<le> now"
  shows "numbers_wf db'" and "ct_number t \<notin> nm_number ` set (cd_numbers db)"
proof -
  obtain status ev counters number where "creation_adds lc uuid now n db db' t status ev counters number"
    using create_rows_shape [OF assms(1)] by blast
  note adds = creation_addsD [OF this]
  note al = adds(3) and fresh = adds(4) and tk = adds(5) and cs = adds(6) and nm = adds(7)
  have t: "ct_number t = number" by (simp add: adds(10))
  show "ct_number t \<notin> nm_number ` set (cd_numbers db)" using fresh t by simp
  have pos: "1 \<le> c" if "map_of (cd_counters db) k = Some c" for k c using assms(2) that unfolding numbers_wf_def by blast
  note a = allocate_fresh [OF al assms(3) pos]
  have "counted counters (nm_number row)" if "row \<in> set (cd_numbers db)" for row
    using assms(2) that by (intro counted_mono [OF _ a(3)]) (simp_all add: numbers_wf_def)
  moreover have "\<exists>row\<in>set (cd_numbers db'). nm_number row = s \<and> nm_ticketId row = tk_id x"
    if "x \<in> set (sd_tickets (cd_sla db'))" "tk_number x = Some s" for x s
    using that assms(2) by (auto simp: tk nm numbers_wf_def new_ticket_def)
  ultimately show "numbers_wf db'"
    using assms(2) fresh a(1,4) by (auto simp: numbers_wf_def cs nm)
qed


lemma check_catalogue_Inr:
  "check_catalogue db n = Inr status \<Longrightarrow>
     (\<exists>row\<in>set (sd_statuses (cd_sla db)). ts_isDefault row \<and> ts_key row = status) \<and>
     (the (in_serviceSubcategoryId n), the (in_serviceId n)) \<in> set (cd_subcategories db)"
  by (auto simp: check_catalogue_def split: option.splits if_splits dest!: first_row_SomeD)
    (metis option.sel)

lemma normalize_input_simps [simp]:
  "in_title (normalize_input i) = js_trim (in_title i)" "in_body (normalize_input i) = js_trim (in_body i)"
  "in_serviceId (normalize_input i) = Some (preserveUndefined (in_serviceId i) ''svc-general'')"
  "in_serviceSubcategoryId (normalize_input i) = Some (preserveUndefined (in_serviceSubcategoryId i) ''ss-general'')"
  "in_reporterId (normalize_input i) = in_reporterId i" "in_source (normalize_input i) = in_source i"
  by (simp_all add: normalize_input_def)

lemma creation_audit_nonempty: "creation_audit tid source status firings \<noteq> []"
  by (simp add: creation_audit_def split: list.split)

lemma created_from_rows:
  assumes "createTicketInTransaction tz lc date_parse uuid now input db = Inr (db', t)" and "ct_created t"
  obtains claims db1 status ev counters number cl where
    "creation_adds lc uuid now (normalize_input input) (db\<lparr>cd_claims := claims\<rparr>) db1 t status ev counters number"
    "db' = db1\<lparr>cd_claims := cl\<rparr>" "js_trim (in_title input) \<noteq> []" "js_trim (in_body input) \<noteq> []"
  using assms(1)
proof (cases rule: create_cases)
  case (new claims db1)
  then show thesis using create_rows_shape [OF new(1)] that by blast
next
  case (known k)
  then show thesis using assms(2) by simp
qed

text \<open>
  C11. A creation adds exactly one ticket, with a trimmed title and body that are not blank, the default status,
  a service and a subcategory that belong together, the priority derived from the impact and urgency that
  the rules left, and its number; the audit says how it came about, and no other ticket changes.
\<close>

theorem createTicketInTransaction_new:
  assumes "createTicketInTransaction tz lc date_parse uuid now input db = Inr (db', t)" and "ct_created t"
  shows "\<exists>new rows. sd_tickets (cd_sla db') = sd_tickets (cd_sla db) @ [new] \<and> cd_audit db' = cd_audit db @ rows \<and> rows \<noteq> [] \<and>
    tk_id new = ct_ticketId t \<and> tk_number new = Some (ct_number t) \<and>
    tk_priority new = derivePriority (tk_impact new) (tk_urgency new) \<and> ct_priority t = tk_priority new \<and>
    tk_title new = js_trim (in_title input) \<and> tk_title new \<noteq> [] \<and> tk_body new = js_trim (in_body input) \<and> tk_body new \<noteq> [] \<and>
    tk_reporterId new = in_reporterId input \<and>
    (\<exists>row\<in>set (sd_statuses (cd_sla db)). ts_isDefault row \<and> ts_key row = tk_status new) \<and>
    (tk_serviceSubcategoryId new, tk_serviceId new) \<in> set (cd_subcategories db)"
  using assms
proof (rule created_from_rows)
  fix claims db1 status ev counters number cl
  assume adds: "creation_adds lc uuid now (normalize_input input) (db\<lparr>cd_claims := claims\<rparr>) db1 t status ev counters number"
    and rest: "db' = db1\<lparr>cd_claims := cl\<rparr>" "js_trim (in_title input) \<noteq> []" "js_trim (in_body input) \<noteq> []"
  note a = creation_addsD [OF adds]
  note cat = check_catalogue_Inr [OF a(1)]
  show ?thesis
  proof (intro exI conjI)
    show "sd_tickets (cd_sla db') = sd_tickets (cd_sla db) @
        [new_ticket (uuid Id_ticket) number now status (normalize_input input) (re_ticket ev)]" using a(5) rest(1) by simp
    show "cd_audit db' = cd_audit db @ creation_audit (uuid Id_ticket) (in_source (normalize_input input)) status (re_firings ev)"
      using a(8) rest(1) by simp
  qed (use a(10) rest(2,3) cat in \<open>simp_all add: new_ticket_def creation_audit_nonempty\<close>)
qed

text \<open>
  An applied \<open>set_service\<close> rule is written to the audit as done, but the ticket keeps the service it was
  submitted with: the row that is inserted takes the service of the input, not that of the rules' result.
\<close>

theorem createTicketInTransaction_ignores_set_service:
  assumes "createTicketInTransaction tz lc date_parse uuid now input db = Inr (db', t)" and "ct_created t"
    and "Set_service v \<in> set (applied_actions (evaluateTicketRules lc (rule_ticket_of (normalize_input input)) (filter tr_enabled (cd_rules db))))"
  shows "\<exists>new. last_of (sd_tickets (cd_sla db')) = Some new \<and> tk_serviceId new = preserveUndefined (in_serviceId input) ''svc-general'' \<and>
    (\<exists>row\<in>set (cd_audit db'). au_ticketId row = tk_id new \<and> au_fieldName row = ''set_service'' \<and> au_newValue row = JStr v)"
  using assms(1,2)
proof (rule created_from_rows)
  fix claims db1 status ev counters number cl
  assume adds: "creation_adds lc uuid now (normalize_input input) (db\<lparr>cd_claims := claims\<rparr>) db1 t status ev counters number"
    and rest: "db' = db1\<lparr>cd_claims := cl\<rparr>"
  note a = creation_addsD [OF adds]
  let ?new = "new_ticket (uuid Id_ticket) number now status (normalize_input input) (re_ticket ev)"
  have "Set_service v \<in> set (applied_actions ev)" using assms(3) a(2) by simp
  then obtain f where f: "f \<in> set (re_firings ev)" "Set_service v \<in> set (rf_applied f)" by (auto simp: applied_actions_def)
  let ?row = "\<lparr>au_ticketId = uuid Id_ticket, au_fieldName = ''set_service'', au_oldValue = JNull, au_newValue = JStr v,
    au_actorId = ''rule:'' @ rf_ruleId f\<rparr>"
  have "?row \<in> set (audit_of_firings (uuid Id_ticket) (re_firings ev))"
    using f by (force simp: audit_of_firings_def)
  then have "?row \<in> set (creation_audit (uuid Id_ticket) (in_source (normalize_input input)) status (re_firings ev))"
    by (auto simp: creation_audit_def split: list.split)
  then have row: "?row \<in> set (cd_audit db')" using a(8) rest by simp
  have "last_of (sd_tickets (cd_sla db')) = Some ?new" using a(5) rest by (simp add: last_of_def)
  then show ?thesis
    by (intro exI [of _ ?new] conjI bexI [OF _ row]) (simp_all add: new_ticket_def)
qed

section \<open>Idempotent creation\<close>

definition claims_wf :: "creation_claim list \<Rightarrow> bool" where
  "claims_wf cs \<longleftrightarrow> distinct (map claim_key cs)"

lemma filter_unique_key:
  "distinct (map f xs) \<Longrightarrow> x \<in> set xs \<Longrightarrow> filter (\<lambda>y. f y = f x) xs = [x]"
  by (induction xs) (auto simp: filter_empty_conv intro: rev_image_eqI)

text \<open>After a won claim the key belongs to one row, which is fresh.\<close>

lemma claim_creation_won:
  assumes "claim_creation cid reporter key now cs = (cs', True)" and "claims_wf cs"
  shows "claims_wf cs'" and "filter (\<lambda>c. claim_key c = (reporter, key)) cs' =
    [\<lparr>cl_id = cid, cl_reporterId = reporter, cl_idempotencyKey = key, cl_ticketId = None, cl_expiresAt = now + claim_lifetime\<rparr>]"
proof -
  let ?row = "\<lparr>cl_id = cid, cl_reporterId = reporter, cl_idempotencyKey = key, cl_ticketId = None, cl_expiresAt = now + claim_lifetime\<rparr>"
  have "claims_wf cs' \<and> ?row \<in> set cs'"
  proof (cases "first_row (\<lambda>c. claim_key c = (reporter, key)) cs")
    case None
    then have "cs' = cs @ [?row]" using assms(1) by (simp add: claim_creation_def)
    then show ?thesis using None assms(2) by (auto simp: first_row_None_iff claims_wf_def claim_key_def)
  next
    case (Some old)
    let ?u = "\<lambda>c. c\<lparr>cl_id := cid, cl_ticketId := None, cl_expiresAt := now + claim_lifetime\<rparr>"
    let ?P = "\<lambda>c. claim_key c = (reporter, key) \<and> cl_expiresAt c \<le> now"
    have cs': "cs' = fst (sql_update ?P ?u cs)" and hit: "snd (sql_update ?P ?u cs) \<noteq> []"
      using assms(1) Some by (auto simp: claim_creation_def split: prod.splits)
    have "map claim_key cs' = map claim_key cs" unfolding cs' by (rule sql_update_keys) (simp add: claim_key_def)
    moreover obtain c where c: "c \<in> set cs" "?P c" using hit by (auto simp: sql_update_def filter_empty_conv)
    have "?u c = ?row" using c(2) by (simp add: claim_key_def)
    then have "?row \<in> set cs'" unfolding cs' sql_update_def using c by (force intro!: image_eqI [of _ _ c])
    ultimately show ?thesis using assms(2) by (simp add: claims_wf_def)
  qed
  then show "claims_wf cs'" "filter (\<lambda>c. claim_key c = (reporter, key)) cs' = [?row]"
    using filter_unique_key [of claim_key cs' ?row] by (simp_all add: claims_wf_def claim_key_def)
qed

lemma claimed_ticket_filter:
  "claimed_ticket reporter key db =
     (case List.map_filter (\<lambda>c. Option.bind (cl_ticketId c) (\<lambda>i. first_row (\<lambda>t. tk_id t = i) (sd_tickets (cd_sla db))))
        (filter (\<lambda>c. claim_key c = (reporter, key)) (cd_claims db)) of [] \<Rightarrow> None | t # _ \<Rightarrow> Some t)"
  unfolding claimed_ticket_def map_filter_if ..

lemma filter_map_key:
  "(\<And>c. key (f c) = key c) \<Longrightarrow>
     filter (\<lambda>c. key c = k) (map (\<lambda>c. if P c then f c else c) xs) = map (\<lambda>c. if P c then f c else c) (filter (\<lambda>c. key c = k) xs)"
  by (induction xs) auto

lemma allocate_nonempty: "allocateTicketNumber now rt cs = Inr (cs', number) \<Longrightarrow> number \<noteq> []"
  by (auto simp: allocateTicketNumber_def formatTicketNumber_Inr number_text_def number_prefix_def split: prod.splits)

lemma claim_held:
  assumes "filter (\<lambda>c. claim_key c = (reporter, key)) cs = [row]" and "later < cl_expiresAt row"
  shows "claim_creation cid reporter key later cs = (cs, False)"
proof -
  have mem: "c \<in> set cs \<and> claim_key c = (reporter, key) \<longleftrightarrow> c = row" for c
  proof -
    have "c \<in> set (filter (\<lambda>c. claim_key c = (reporter, key)) cs) \<longleftrightarrow> c = row" unfolding assms(1) by simp
    then show ?thesis by simp
  qed
  then have "first_row (\<lambda>c. claim_key c = (reporter, key)) cs \<noteq> None" unfolding first_row_None_iff by blast
  moreover have "sql_update (\<lambda>c. claim_key c = (reporter, key) \<and> cl_expiresAt c \<le> later) f cs = (cs, [])" for f
    using mem assms(2) by (intro sql_update_none) (metis not_less)
  ultimately show ?thesis by (auto simp: claim_creation_def)
qed

text \<open>
  C1. Creating twice under one idempotency key creates once: for 24 hours a second attempt of the same reporter,
  whatever its content, returns the first ticket with its number and priority, marks it as not created and
  changes nothing.
\<close>

theorem createTicket_idempotent:
  assumes "createTicketInTransaction tz lc date_parse uuid now input db = Inr (db', t)" and "ct_created t"
    and "in_idempotencyKey input = Some key" and "key \<noteq> []" and "claims_wf (cd_claims db)"
    and "uuid Id_ticket \<notin> tk_id ` set (sd_tickets (cd_sla db))"
    and "in_idempotencyKey again = Some key" and "in_reporterId again = in_reporterId input"
    and "js_trim (in_title again) \<noteq> []" and "js_trim (in_body again) \<noteq> []" and "later < now + claim_lifetime"
  shows "createTicketInTransaction tz lc date_parse uuid' later again db' = Inr (db', t\<lparr>ct_settledActions := [], ct_created := False\<rparr>)"
proof -
  obtain c cs where key: "key = c # cs" using assms(4) by (cases key) auto
  let ?k = "(in_reporterId input, key)"
  obtain claims won where cl: "claim_creation (uuid Id_claim) (in_reporterId input) key now (cd_claims db) = (claims, won)" by fastforce
  have won: "won"
  proof (rule ccontr)
    assume "\<not> won"
    then have "existing_ticket (in_reporterId input) key db = Inr t"
      using assms(1,3) key cl by (auto simp: createTicketInTransaction_def Let_def split: if_splits)
    then show False using assms(2) by (auto simp: existing_ticket_def split: option.splits list.splits)
  qed
  then obtain db1 where rows: "create_rows tz lc date_parse uuid now (normalize_input input) (db\<lparr>cd_claims := claims\<rparr>) = Inr (db1, t)"
    and db': "db' = set_claim_ticket (uuid Id_claim) (ct_ticketId t) db1"
    using assms(1,3) key cl by (auto simp: createTicketInTransaction_def Let_def split: if_splits)
  obtain status ev counters number where "creation_adds lc uuid now (normalize_input input) (db\<lparr>cd_claims := claims\<rparr>) db1 t status ev counters number"
    using create_rows_shape [OF rows] by blast
  note a = creation_addsD [OF this]
  let ?new = "new_ticket (uuid Id_ticket) number now status (normalize_input input) (re_ticket ev)"
  note claim = claim_creation_won [OF cl [unfolded won [THEN eqTrueI]] assms(5)]
  have claims1: "cd_claims db1 = claims" using a(9) by simp
  have fkey: "filter (\<lambda>c. claim_key c = ?k) (cd_claims db') =
      [\<lparr>cl_id = uuid Id_claim, cl_reporterId = in_reporterId input, cl_idempotencyKey = key,
        cl_ticketId = Some (ct_ticketId t), cl_expiresAt = now + claim_lifetime\<rparr>]"
    using filter_map_key [of claim_key "\<lambda>c. c\<lparr>cl_ticketId := Some (ct_ticketId t)\<rparr>" ?k "\<lambda>c. cl_id c = uuid Id_claim" claims]
      claim(2) by (simp add: db' set_claim_ticket_def claims1 sql_update_def claim_key_def)
  have "first_row (\<lambda>x. tk_id x = uuid Id_ticket) (sd_tickets (cd_sla db')) = Some ?new"
    using a(5) assms(6) first_row_None_iff [of "\<lambda>x. tk_id x = uuid Id_ticket" "sd_tickets (cd_sla db)"]
    by (auto simp: db' set_claim_ticket_def first_row_append) (auto simp: first_row_def new_ticket_def intro: rev_image_eqI split: option.split)
  then have "claimed_ticket (in_reporterId input) key db' = Some ?new"
    unfolding claimed_ticket_filter fkey using a(10) by (simp add: map_filter_simps)
  moreover have "number \<noteq> []" using allocate_nonempty [OF a(3)] .
  ultimately have "existing_ticket (in_reporterId input) key db' = Inr (t\<lparr>ct_settledActions := [], ct_created := False\<rparr>)"
    by (cases number) (simp_all add: existing_ticket_def a(10) new_ticket_def)
  moreover have "claim_creation (uuid' Id_claim) (in_reporterId input) key later (cd_claims db') = (cd_claims db', False)"
    using claim_held [OF fkey] assms(11) by simp
  ultimately show ?thesis
    using assms(7-10) key by (simp add: createTicketInTransaction_def Let_def)
qed

section \<open>Examples\<close>

definition sample_creation_db :: creation_db where
  "sample_creation_db =
     \<lparr>cd_sla = sample_sla_db\<lparr>sd_tickets := [], sd_statuses := [sample_status\<lparr>ts_key := ''open'', ts_isDefault := True\<rparr>]\<rparr>,
      cd_fields = sample_fields, cd_subcategories = [(''ss-general'', ''svc-general'')], cd_rules = sample_rules,
      cd_claims = [], cd_counters = [], cd_numbers = [], cd_audit = [], cd_firings = []\<rparr>"

definition sample_input :: creation_input where
  "sample_input = \<lparr>in_source = ''itsm'', in_reporterId = ''u1'', in_title = '' VPN down'', in_body = ''no access '', in_serviceId = None,
     in_serviceSubcategoryId = None, in_recordType = None, in_impact = None, in_urgency = None, in_deviceId = None,
     in_origin = None, in_idempotencyKey = Some ''k1'', in_customFields = [(''since'', JStr ''2024-02-29'')]\<rparr>"

definition sample_uuid :: "new_id \<Rightarrow> string" where
  "sample_uuid i = (case i of Id_claim \<Rightarrow> ''c1'' | Id_ticket \<Rightarrow> ''t1'' | Id_watch pt tt \<Rightarrow> policy_type_key pt @ target_type_key tt)"

definition sample_creation :: "creation_error + creation_db \<times> created_ticket" where
  "sample_creation = createTicketInTransaction utc_only code_unit_compare (\<lambda>_. Some 0) sample_uuid 0 sample_input sample_creation_db"

lemma sample_creation_succeeds:
  obtains db' t where "sample_creation = Inr (db', t)" "ct_created t" "ct_number t = ''INC-1970-00001''"
proof -
  have "case sample_creation of Inr (db', t) \<Rightarrow> ct_created t \<and> ct_number t = ''INC-1970-00001'' | Inl _ \<Rightarrow> False"
    by code_simp
  then show thesis using that by (auto split: sum.splits)
qed

lemma sample_numbers_wf: "numbers_wf sample_creation_db"
  by (simp add: numbers_wf_def sample_creation_db_def)


theorem createTicketInTransaction_new_witness:
  "\<exists>db' new. createTicketInTransaction utc_only code_unit_compare (\<lambda>_. Some 0) sample_uuid 0 sample_input sample_creation_db = Inr db' \<and>
     sd_tickets (cd_sla (fst db')) = [new] \<and> tk_title new = ''VPN down'' \<and> tk_number new = Some ''INC-1970-00001''"
proof -
  obtain db' t where c: "sample_creation = Inr (db', t)" "ct_created t" "ct_number t = ''INC-1970-00001''" by (rule sample_creation_succeeds)
  have "js_trim (in_title sample_input) = ''VPN down''" by code_simp
  then show ?thesis
    using createTicketInTransaction_new [OF c(1) [unfolded sample_creation_def] c(2)] c
    by (auto simp: sample_creation_def sample_creation_db_def)
qed

theorem createTicketInTransaction_ignores_set_service_witness:
  "\<exists>db' new. createTicketInTransaction utc_only code_unit_compare (\<lambda>_. Some 0) sample_uuid 0 sample_input sample_creation_db = Inr db' \<and>
     last_of (sd_tickets (cd_sla (fst db'))) = Some new \<and> tk_serviceId new = ''svc-general'' \<and>
     (\<exists>row\<in>set (cd_audit (fst db')). au_fieldName row = ''set_service'' \<and> au_newValue row = JStr ''svc-vpn'')"
proof -
  obtain db' t where c: "sample_creation = Inr (db', t)" "ct_created t" by (rule sample_creation_succeeds)
  have "list_ex (\<lambda>a. a = Set_service ''svc-vpn'') (applied_actions (evaluateTicketRules code_unit_compare
      (rule_ticket_of (normalize_input sample_input)) (filter tr_enabled (cd_rules sample_creation_db))))" by code_simp
  then have "Set_service ''svc-vpn'' \<in> set (applied_actions (evaluateTicketRules code_unit_compare
      (rule_ticket_of (normalize_input sample_input)) (filter tr_enabled (cd_rules sample_creation_db))))" by (auto simp: list_ex_iff)
  from createTicketInTransaction_ignores_set_service [OF c(1) [unfolded sample_creation_def] c(2) this]
  show ?thesis using c(1) by (auto simp: sample_creation_def sample_input_def preserveUndefined_def)
qed

theorem createTicket_idempotent_witness:
  "\<exists>db' t. createTicketInTransaction utc_only code_unit_compare (\<lambda>_. Some 0) sample_uuid 0 sample_input sample_creation_db = Inr (db', t) \<and>
     createTicketInTransaction utc_only code_unit_compare (\<lambda>_. Some 0) sample_uuid 86399999 (sample_input\<lparr>in_title := ''again''\<rparr>) db' =
       Inr (db', t\<lparr>ct_settledActions := [], ct_created := False\<rparr>)"
proof -
  obtain db' t where c: "sample_creation = Inr (db', t)" "ct_created t" by (rule sample_creation_succeeds)
  have "js_trim ''again'' \<noteq> []" "js_trim ''no access '' \<noteq> []" by code_simp+
  then have "createTicketInTransaction utc_only code_unit_compare (\<lambda>_. Some 0) sample_uuid 86399999 (sample_input\<lparr>in_title := ''again''\<rparr>) db' =
       Inr (db', t\<lparr>ct_settledActions := [], ct_created := False\<rparr>)"
    using createTicket_idempotent [OF c(1) [unfolded sample_creation_def] c(2), of "''k1''" "sample_input\<lparr>in_title := ''again''\<rparr>" 86399999 sample_uuid]
    by (simp add: sample_input_def sample_creation_db_def claims_wf_def claim_lifetime_def)
  with c(1) show ?thesis by (auto simp: sample_creation_def)
qed

end
