(* ===== verification/Stamps.thy ===== *)
theory Stamps
  imports Dates
begin

text \<open>
  Instants as text: \<open>Date.prototype.toISOString\<close> for the years 0 to 9999, and the form with seconds only that the
  ServiceNow transport produces. The code compares such stamps as strings; the last lemmas say what that
  comparison is.
\<close>

definition clock_string :: "int \<Rightarrow> string" where
  "clock_string s = fixed_digits 2 (nat (s div 3600)) @ '':'' @ fixed_digits 2 (nat (s mod 3600 div 60)) @ '':'' @
     fixed_digits 2 (nat (s mod 60))"

text \<open>Date and time to the second; \<open>t\<close> counts seconds.\<close>

definition second_string :: "int \<Rightarrow> string" where
  "second_string t = date_string (t div 86400) @ ''T'' @ clock_string (t mod 86400)"

definition iso_string :: "ms \<Rightarrow> string" where
  "iso_string t = second_string (t div 1000) @ ''.'' @ fixed_digits 3 (nat (t mod 1000)) @ ''Z''"

text \<open>The form without milliseconds.\<close>

definition short_stamp :: "int \<Rightarrow> string" where
  "short_stamp t = second_string t @ ''Z''"

text \<open>The days of the years 0 to 9999, in which a date has ten characters.\<close>

definition plain_day :: "day \<Rightarrow> bool" where
  "plain_day d \<longleftrightarrow> 0 \<le> year_of_day d \<and> year_of_day d \<le> 9999"

definition plain_ms :: "ms \<Rightarrow> bool" where
  "plain_ms t \<longleftrightarrow> plain_day (t div day_ms)"

section \<open>Comparing stamps\<close>

lemma date_string_fixed:
  assumes "plain_day d" and "date_of_day d = (y, m, dd)"
  shows "date_string d = fixed_digits 4 (nat y) @ ''-'' @ fixed_digits 2 (nat m) @ ''-'' @ fixed_digits 2 (nat dd)"
proof -
  have y: "0 \<le> y" "y \<le> 9999" using assms by (auto simp: plain_day_def date_of_day_def Let_def)
  note b = date_of_day_bounds [OF assms(2)]
  have "dd \<le> 31" using b days_in_month_bounds [of "m - 1" y] by simp
  then have "nat y < 10 ^ 4" "nat m < 10 ^ 2" "nat dd < 10 ^ 2" using y b by auto
  then show ?thesis
    unfolding date_string_def assms(2) prod.case ymd_string_def digits_padded_def
    by (simp only: digits_padded_fixed zero_less_numeral)
qed

lemma length_date_string: "plain_day d \<Longrightarrow> length (date_string d) = 10"
proof -
  assume d: "plain_day d"
  obtain y m dd where "date_of_day d = (y, m, dd)" by (metis prod_cases3)
  from date_string_fixed [OF d this] show ?thesis by simp
qed

lemma date_string_less_plain:
  assumes "plain_day d" and "plain_day d'"
  shows "date_string d < date_string d' \<longleftrightarrow> d < d'" and "date_string d = date_string d' \<longleftrightarrow> d = d'"
proof -
  have lt: "date_string a < date_string b \<longleftrightarrow> a < b" if "plain_day a" "plain_day b" for a b
    using that by (intro date_string_less) (simp_all add: plain_day_def)
  show "date_string d < date_string d' \<longleftrightarrow> d < d'" by (rule lt [OF assms])
  show "date_string d = date_string d' \<longleftrightarrow> d = d'"
    using lt [OF assms] lt [OF assms(2,1)] by (metis less_irrefl linorder_neqE_linordered_idom)
qed

lemma length_clock_string [simp]: "length (clock_string s) = 8"
  by (simp add: clock_string_def)

lemma two_digits_less:
  "0 \<le> a \<Longrightarrow> a < 100 \<Longrightarrow> 0 \<le> b \<Longrightarrow> b < 100 \<Longrightarrow>
     (fixed_digits 2 (nat a) < fixed_digits 2 (nat b)) = (a < b) \<and> (fixed_digits 2 (nat a) = fixed_digits 2 (nat b)) = (a = b)"
  using fixed_digits_less [of "nat a" 2 "nat b"] fixed_digits_eq [of "nat a" 2 "nat b"] by auto

lemma clock_parts:
  fixes s t :: int
  shows "s < t \<longleftrightarrow> s div 3600 < t div 3600 \<or> s div 3600 = t div 3600 \<and>
    (s mod 3600 div 60 < t mod 3600 div 60 \<or> s mod 3600 div 60 = t mod 3600 div 60 \<and> s mod 60 < t mod 60)"
proof -
  have split: "x = 3600 * (x div 3600) + 60 * (x mod 3600 div 60) + x mod 60 \<and> 0 \<le> x mod 60 \<and> x mod 60 < 60 \<and>
      0 \<le> x mod 3600 div 60 \<and> x mod 3600 div 60 < 60" for x :: int
  proof -
    have "x mod 3600 mod 60 = x mod 60" by (rule mod_mod_cancel) simp
    then have "60 * (x mod 3600 div 60) + x mod 60 = x mod 3600" by (metis mult_div_mod_eq)
    then have "3600 * (x div 3600) + (60 * (x mod 3600 div 60) + x mod 60) = x" by (simp only: mult_div_mod_eq)
    moreover have "0 \<le> x mod 3600" "x mod 3600 < 3600" by simp_all
    then have "0 \<le> x mod 3600 div 60" "x mod 3600 div 60 < 60" by (simp_all add: div_less_iff_less_mult pos_imp_zdiv_nonneg_iff)
    moreover have "0 \<le> x mod 60" "x mod 60 < 60" by simp_all
    ultimately show ?thesis by linarith
  qed
  obtain a b c where abc: "a = s div 3600" "b = s mod 3600 div 60" "c = s mod 60" by blast
  obtain x y z where xyz: "x = t div 3600" "y = t mod 3600 div 60" "z = t mod 60" by blast
  have "s = 3600 * a + 60 * b + c" "0 \<le> c" "c < 60" "0 \<le> b" "b < 60" "t = 3600 * x + 60 * y + z" "0 \<le> z" "z < 60" "0 \<le> y" "y < 60"
    using split [of s] split [of t] unfolding abc xyz by blast+
  then show ?thesis unfolding abc [symmetric] xyz [symmetric] by (auto intro: ccontr) 
qed

lemma div_key_less: "a div k < b div k \<or> a div k = b div k \<and> a mod k < b mod k \<longleftrightarrow> a < b" if "0 < k" for a b k :: int
proof -
  have split: "x = k * (x div k) + x mod k" "0 \<le> x mod k" "x mod k < k" for x using that by simp_all
  have lt: "x < y" if "x div k < y div k" for x y :: int
  proof -
    have "k * (x div k + 1) \<le> k * (y div k)" using that \<open>0 < k\<close> by (intro mult_left_mono) simp_all
    then show ?thesis unfolding distrib_left using split [of x] split [of y] by linarith
  qed
  show ?thesis
  proof (cases "a div k = b div k")
    case True
    have "a = k * (b div k) + a mod k" "b = k * (b div k) + b mod k" using split(1) [of a] split(1) [of b] True by simp_all
    then show ?thesis using True by linarith
  next
    case False
    then show ?thesis using lt [of a b] lt [of b a] by (meson linorder_neqE_linordered_idom not_less_iff_gr_or_eq)
  qed
qed

lemma clock_string_less:
  assumes "0 \<le> s" "s < 86400" "0 \<le> t" "t < 86400"
  shows "clock_string s < clock_string t \<longleftrightarrow> s < t"
proof -
  have r: "0 \<le> s div 3600" "s div 3600 < 100" "0 \<le> t div 3600" "t div 3600 < 100"
    using assms by (simp_all add: div_less_iff_less_mult pos_imp_zdiv_nonneg_iff)
  have m: "0 \<le> x mod 3600 div 60 \<and> x mod 3600 div 60 < 100 \<and> 0 \<le> x mod 60 \<and> x mod 60 < 100" for x :: int
  proof -
    have "0 \<le> x mod 3600" "x mod 3600 < 3600" by simp_all
    then have "0 \<le> x mod 3600 div 60" "x mod 3600 div 60 < 100" by (simp_all add: div_less_iff_less_mult pos_imp_zdiv_nonneg_iff)
    moreover have "0 \<le> x mod 60" "x mod 60 < 60" by simp_all
    ultimately show ?thesis by linarith
  qed
  show ?thesis
    unfolding clock_string_def clock_parts [of s t]
    using two_digits_less [OF r] two_digits_less [of "s mod 3600 div 60" "t mod 3600 div 60"] two_digits_less [of "s mod 60" "t mod 60"]
      m [of s] m [of t]
    by (simp add: list_less_append_same_length del: fixed_digits.simps)
qed

lemma second_string_less:
  assumes "plain_day (t div 86400)" and "plain_day (u div 86400)"
  shows "second_string t < second_string u \<longleftrightarrow> t < u" and "second_string t = second_string u \<longleftrightarrow> t = u"
    and "length (second_string t) = 19"
proof -
  have lt: "second_string a < second_string b \<longleftrightarrow> a < b" if p: "plain_day (a div 86400)" "plain_day (b div 86400)" for a b
  proof -
    have "clock_string (a mod 86400) < clock_string (b mod 86400) \<longleftrightarrow> a mod 86400 < b mod 86400"
      by (rule clock_string_less) simp_all
    then have "second_string a < second_string b \<longleftrightarrow>
        a div 86400 < b div 86400 \<or> a div 86400 = b div 86400 \<and> a mod 86400 < b mod 86400"
      using date_string_less_plain [OF p] length_date_string [OF p(1)] length_date_string [OF p(2)]
      by (simp add: second_string_def list_less_append_same_length)
    also have "\<dots> \<longleftrightarrow> a < b" by (rule div_key_less) simp
    finally show ?thesis .
  qed
  show "second_string t < second_string u \<longleftrightarrow> t < u" by (rule lt [OF assms])
  show "second_string t = second_string u \<longleftrightarrow> t = u"
    using lt [OF assms] lt [OF assms(2,1)] by (metis less_irrefl linorder_neqE_linordered_idom)
  show "length (second_string t) = 19" by (simp add: second_string_def length_date_string [OF assms(1)])
qed

text \<open>
  Two stamps with milliseconds compare as the instants. A stamp with seconds only is at most one with
  milliseconds exactly where its second is earlier: in the same second it is the greater string.
\<close>

lemma plain_ms_second: "plain_ms t \<longleftrightarrow> plain_day (t div 1000 div 86400)"
  by (simp add: plain_ms_def div_mult2_eq [symmetric] zdiv_zmult2_eq [symmetric])

lemma iso_string_less:
  assumes "plain_ms t" and "plain_ms u"
  shows "iso_string t < iso_string u \<longleftrightarrow> t < u"
proof -
  have p: "plain_day (t div 1000 div 86400)" "plain_day (u div 1000 div 86400)" using assms by (simp_all add: plain_ms_second)
  have "0 \<le> t mod 1000" "t mod 1000 < 1000" "0 \<le> u mod 1000" "u mod 1000 < 1000" by simp_all
  then have "(fixed_digits 3 (nat (t mod 1000)) < fixed_digits 3 (nat (u mod 1000))) = (t mod 1000 < u mod 1000)"
    using fixed_digits_less [of "nat (t mod 1000)" 3 "nat (u mod 1000)"] by auto
  then have "iso_string t < iso_string u \<longleftrightarrow>
      t div 1000 < u div 1000 \<or> t div 1000 = u div 1000 \<and> t mod 1000 < u mod 1000"
    using second_string_less [OF p] second_string_less(3) [OF p(2) p(1)]
    by (simp add: iso_string_def list_less_append_same_length del: fixed_digits.simps)
  also have "\<dots> \<longleftrightarrow> t < u" by (rule div_key_less) simp
  finally show ?thesis .
qed

lemma short_stamp_le_iso:
  assumes "plain_day (t div 86400)" and "plain_ms u"
  shows "short_stamp t \<le> iso_string u \<longleftrightarrow> t < u div 1000"
proof -
  have p: "plain_day (u div 1000 div 86400)" using assms(2) by (simp add: plain_ms_second)
  have "\<not> ''Z'' \<le> ''.'' @ x" for x :: string by (simp add: less_eq_char_def)
  then have "short_stamp t < iso_string u \<longleftrightarrow> t < u div 1000"
    using second_string_less [OF assms(1) p] second_string_less(3) [OF p assms(1)]
    by (simp add: short_stamp_def iso_string_def list_less_append_same_length not_le less_char_def)
  moreover have "short_stamp t \<noteq> iso_string u"
    using second_string_less(3) [OF assms(1) p] second_string_less(3) [OF p assms(1)]
    by (auto simp: short_stamp_def iso_string_def)
  ultimately show ?thesis by (simp add: order_le_less)
qed

end
