(* ===== verification/ConnectorStore.thy ===== *)
theory ConnectorStore
  imports SyncPlan TicketCreation Stamps
begin

text \<open>
  Applying a plan and running a connector: \<open>server/connectors/store.ts\<close> and the sync pass, the failure count and
  the deferred dispatches of \<open>server/connectors/runtime.ts\<close>, over the tables of \<open>db/schema/connectors.ts\<close>. Every
  decision is a transaction of its own; where one throws, the earlier ones stay. A function that may throw
  after committing part of its work returns the database together with its result.

  The functions of the host are the record \<open>host\<close>: the time zones, the collation, \<open>Date.parse\<close>, the clock and
  the ids, which are indexed by the decision they are made for.
\<close>

section \<open>The tables\<close>

record origin_row =
  og_ticketId :: string
  og_connectorId :: string
  og_externalId :: string
  og_externalKey :: string
  og_externalUrl :: "string option"
  og_foreignUpdatedAt :: ms
  og_lastWrittenAt :: "ms option"
  og_dispatchCount :: int

record ledger_row =
  lg_id :: string
  lg_ticketId :: string
  lg_connectorId :: string
  lg_triggerKey :: string
  lg_outcome :: dispatch_outcome
  lg_detail :: "string option"
  lg_runId :: "string option"

record user_row =
  us_id :: string
  us_email :: string

record identity_row =
  di_userId :: string

record connector_row =
  cn_id :: string
  cn_baseUrl :: string
  cn_recordFilter :: string
  cn_ticketOrigin :: string
  cn_defaultEnvironmentId :: string
  cn_fallbackReporterId :: string
  cn_enabled :: bool
  cn_disabledReason :: "string option"
  cn_pollIntervalSeconds :: int
  cn_createCeiling :: int
  cn_dispatchCeiling :: int
  cn_consecutiveFailures :: int
  cn_watermark :: "ms option"
  cn_lastSuccessfulSyncAt :: "ms option"

record connector_run =
  cu_connectorId :: string
  cu_mode :: sync_mode
  cu_status :: sync_status
  cu_fetchedCount :: nat
  cu_createdCount :: nat
  cu_updatedCount :: nat
  cu_skippedCount :: nat
  cu_dispatchedCount :: nat
  cu_quarantinedCount :: nat
  cu_error :: "string option"

record mapping_row =
  mr_connectorId :: string
  mr_mapping :: field_mapping

record route_row =
  ro_connectorId :: string
  ro_sourceField :: string
  ro_sourceValue :: string
  ro_position :: int
  ro_environmentId :: string

record connector_db =
  db_creation :: creation_db
  db_users :: "user_row list"
  db_identities :: "identity_row list"
  db_origins :: "origin_row list"
  db_ledger :: "ledger_row list"
  db_connectors :: "connector_row list"
  db_runs :: "connector_run list"
  db_mappings :: "mapping_row list"
  db_routes :: "route_row list"

datatype store_id = Sid_creation new_id | Sid_ledger

record host =
  h_tz :: tzdb
  h_lc :: "string \<Rightarrow> string \<Rightarrow> int"
  h_date_parse :: "string \<Rightarrow> js_date"
  h_uuid :: "nat \<Rightarrow> store_id \<Rightarrow> string"
  h_now :: ms

section \<open>The store\<close>

record store_config =
  so_connectorId :: string
  so_ticketOrigin :: string
  so_fallbackReporterId :: string

datatype reporter_via = Via_email | Via_fallback

definition resolveReporter :: "connector_db \<Rightarrow> string option \<Rightarrow> string \<Rightarrow> string \<times> reporter_via" where
  "resolveReporter db email fallback =
     (case map_option (\<lambda>e. js_lower (js_trim e)) email of
        None \<Rightarrow> (fallback, Via_fallback)
      | Some [] \<Rightarrow> (fallback, Via_fallback)
      | Some (c # cs) \<Rightarrow>
          (case first_row (\<lambda>u. us_email u = c # cs) (db_users db) of
             Some u \<Rightarrow> (us_id u, Via_email)
           | None \<Rightarrow>
               (case first_row (\<lambda>i. \<exists>u\<in>set (db_users db). us_id u = di_userId i \<and> us_email u = c # cs) (db_identities db) of
                  Some i \<Rightarrow> (di_userId i, Via_email)
                | None \<Rightarrow> (fallback, Via_fallback))))"

definition ledger_key :: "ledger_row \<Rightarrow> string \<times> string" where
  "ledger_key r = (lg_ticketId r, lg_triggerKey r)"

definition new_ledger_row :: "string \<Rightarrow> string \<Rightarrow> string \<times> string \<Rightarrow> ledger_row" where
  "new_ledger_row rid connectorId k = \<lparr>lg_id = rid, lg_ticketId = fst k, lg_connectorId = connectorId, lg_triggerKey = snd k,
     lg_outcome = Disp_deferred_no_worker, lg_detail = None, lg_runId = None\<rparr>"

text \<open>The claim: \<open>None\<close> where the transition has been claimed before.\<close>

definition claimDispatch ::
  "string \<Rightarrow> string \<Rightarrow> string \<times> string \<Rightarrow> ledger_row list \<Rightarrow> ledger_row list \<times> string option" where
  "claimDispatch rid connectorId k ledger =
     (case sql_insert_new ledger_key (new_ledger_row rid connectorId k) ledger of
        (ledger', claimed) \<Rightarrow> (ledger', if claimed then Some rid else None))"

definition known_origin_of :: "origin_row \<Rightarrow> known_origin" where
  "known_origin_of r = \<lparr>ko_ticketId = og_ticketId r, ko_externalId = og_externalId r,
     ko_foreignUpdatedAt = iso_string (og_foreignUpdatedAt r), ko_lastWrittenAt = map_option iso_string (og_lastWrittenAt r),
     ko_dispatchCount = og_dispatchCount r, ko_hasTerminalRun = False\<rparr>"

definition knownOrigins :: "store_config \<Rightarrow> connector_db \<Rightarrow> string list \<Rightarrow> known_origin list" where
  "knownOrigins cfg db externalIds =
     (if externalIds = [] then []
      else map known_origin_of
        (filter (\<lambda>r. og_connectorId r = so_connectorId cfg \<and> og_externalId r \<in> set externalIds) (db_origins db)))"

record apply_summary =
  as_created :: "(string \<times> string \<times> reporter_via) list"
  as_updated :: "string list"
  as_skipped :: "(string \<times> skip_reason \<times> string option) list"
  as_dispatchClaims :: "string list"
  as_quarantined :: "mapping_issue list"

definition add_claim :: "string option \<Rightarrow> apply_summary \<Rightarrow> apply_summary" where
  "add_claim c s = (case c of None \<Rightarrow> s | Some i \<Rightarrow> s\<lparr>as_dispatchClaims := as_dispatchClaims s @ [i]\<rparr>)"

definition non_empty_or :: "string \<Rightarrow> string \<Rightarrow> string" where
  "non_empty_or v d = (if v = [] then d else v)"

definition sync_creation_input :: "store_config \<Rightarrow> commented_record \<Rightarrow> mapped_ticket \<Rightarrow> string \<Rightarrow> creation_input" where
  "sync_creation_input cfg r t reporter =
     \<lparr>in_source = ''itsm'', in_reporterId = reporter, in_title = non_empty_or (fr_title r) (fr_externalKey r),
      in_body = non_empty_or (fr_body r) (fr_title r), in_serviceId = Some (mt_serviceId t),
      in_serviceSubcategoryId = Some (mt_serviceSubcategoryId t), in_recordType = Some (mt_recordType t),
      in_impact = Some (mt_impact t), in_urgency = Some (mt_urgency t), in_deviceId = None,
      in_origin = Some (so_ticketOrigin cfg),
      in_idempotencyKey = Some (''itsm:'' @ so_connectorId cfg @ '':'' @ fr_externalId r), in_customFields = []\<rparr>"

datatype store_error = Store_creation creation_error | Store_constraint | Store_invalid_date

definition insert_origin ::
  "store_config \<Rightarrow> string \<Rightarrow> commented_record \<Rightarrow> ms \<Rightarrow> origin_row list \<Rightarrow> store_error + origin_row list" where
  "insert_origin cfg ticketId r stamp origins =
     (if list_ex (\<lambda>o'. og_ticketId o' = ticketId \<or> og_connectorId o' = so_connectorId cfg \<and> og_externalId o' = fr_externalId r) origins
      then Inl Store_constraint
      else Inr (origins @ [\<lparr>og_ticketId = ticketId, og_connectorId = so_connectorId cfg, og_externalId = fr_externalId r,
        og_externalKey = fr_externalKey r, og_externalUrl = fr_externalUrl r, og_foreignUpdatedAt = stamp,
        og_lastWrittenAt = None, og_dispatchCount = 0\<rparr>]))"

definition apply_create ::
  "host \<Rightarrow> store_config \<Rightarrow> nat \<Rightarrow> commented_record \<Rightarrow> mapped_ticket \<Rightarrow> string \<Rightarrow> connector_db \<times> apply_summary \<Rightarrow>
     store_error + connector_db \<times> apply_summary" where
  "apply_create h cfg i r t trigger = (\<lambda>(db, s).
     let (reporter, via) = resolveReporter db (fr_requesterEmail r) (so_fallbackReporterId cfg) in
     case createTicketInTransaction (h_tz h) (h_lc h) (h_date_parse h) (\<lambda>k. h_uuid h i (Sid_creation k)) (h_now h)
         (sync_creation_input cfg r t reporter) (db_creation db) of
       Inl e \<Rightarrow> Inl (Store_creation e)
     | Inr (cdb, created) \<Rightarrow>
         (case h_date_parse h (fr_updatedAt r) of
            None \<Rightarrow> Inl Store_invalid_date
          | Some stamp \<Rightarrow>
              bind_result (insert_origin cfg (ct_ticketId created) r stamp (db_origins db)) (\<lambda>origins.
                let (ledger, claim) = claimDispatch (h_uuid h i Sid_ledger) (so_connectorId cfg) (ct_ticketId created, trigger) (db_ledger db);
                    s' = add_claim claim s
                in Inr (db\<lparr>db_creation := cdb, db_origins := origins, db_ledger := ledger\<rparr>,
                    s'\<lparr>as_created := as_created s' @ [(ct_ticketId created, fr_externalId r, via)]\<rparr>))))"

definition apply_update ::
  "host \<Rightarrow> store_config \<Rightarrow> nat \<Rightarrow> commented_record \<Rightarrow> string \<Rightarrow> string option \<Rightarrow> connector_db \<times> apply_summary \<Rightarrow>
     store_error + connector_db \<times> apply_summary" where
  "apply_update h cfg i r ticketId trigger = (\<lambda>(db, s).
     case h_date_parse h (fr_updatedAt r) of
       None \<Rightarrow> Inl Store_invalid_date
     | Some stamp \<Rightarrow>
         let db' = db\<lparr>db_origins := fst (sql_update (\<lambda>o'. og_ticketId o' = ticketId) (\<lambda>o'. o'\<lparr>og_foreignUpdatedAt := stamp\<rparr>) (db_origins db))\<rparr>;
             s' = s\<lparr>as_updated := as_updated s @ [ticketId]\<rparr>
         in case trigger of
              None \<Rightarrow> Inr (db', s')
            | Some k \<Rightarrow>
                (case claimDispatch (h_uuid h i Sid_ledger) (so_connectorId cfg) (ticketId, k) (db_ledger db') of
                   (ledger, claim) \<Rightarrow> Inr (db'\<lparr>db_ledger := ledger\<rparr>, add_claim claim s')))"

definition apply_decision ::
  "host \<Rightarrow> store_config \<Rightarrow> nat \<Rightarrow> sync_decision \<Rightarrow> connector_db \<times> apply_summary \<Rightarrow> store_error + connector_db \<times> apply_summary" where
  "apply_decision h cfg i d st =
     (case d of
        Dec_skip r why detail \<Rightarrow>
          Inr (fst st, (snd st)\<lparr>as_skipped := as_skipped (snd st) @ [(fr_externalId r, why, detail)]\<rparr>)
      | Dec_create r t e trigger q \<Rightarrow> apply_create h cfg i r t trigger st
      | Dec_update r ticketId trigger q \<Rightarrow> apply_update h cfg i r ticketId trigger st)"

text \<open>The loop: the first decision that throws ends it, with the database as committed so far.\<close>

fun apply_decisions ::
  "host \<Rightarrow> store_config \<Rightarrow> nat \<Rightarrow> sync_decision list \<Rightarrow> connector_db \<times> apply_summary \<Rightarrow>
     connector_db \<times> (store_error + apply_summary)" where
  "apply_decisions h cfg i [] st = (fst st, Inr (snd st))"
| "apply_decisions h cfg i (d # ds) st =
     (case apply_decision h cfg i d st of Inl e \<Rightarrow> (fst st, Inl e) | Inr st' \<Rightarrow> apply_decisions h cfg (i + 1) ds st')"

definition apply_plan :: "host \<Rightarrow> store_config \<Rightarrow> sync_plan \<Rightarrow> connector_db \<Rightarrow> connector_db \<times> (store_error + apply_summary)" where
  "apply_plan h cfg plan db = apply_decisions h cfg 0 (sp_decisions plan)
     (db, \<lparr>as_created = [], as_updated = [], as_skipped = [], as_dispatchClaims = [], as_quarantined = sp_quarantined plan\<rparr>)"

section \<open>The ledger of dispatches\<close>

interpretation dispatch_ledger: claim_ledger
  "\<lambda>k t. sql_insert_new ledger_key (new_ledger_row rid connectorId k) t" "\<lambda>t. ledger_key ` set t"
  for rid connectorId
  by (rule claim_ledger_insert_new) (simp add: ledger_key_def new_ledger_row_def)

lemma claimDispatch_eq:
  "claimDispatch rid c k t =
     (if k \<in> ledger_key ` set t then (t, None) else (t @ [new_ledger_row rid c k], Some rid))"
  by (simp add: claimDispatch_def sql_insert_new_def ledger_key_def new_ledger_row_def)

text \<open>A ledger grows by rows with new keys, one for each claim that is reported.\<close>

definition ledger_extends :: "ledger_row list \<Rightarrow> ledger_row list \<Rightarrow> string list \<Rightarrow> bool" where
  "ledger_extends t t' ids \<longleftrightarrow> (\<exists>new. t' = t @ new \<and> map lg_id new = ids \<and> distinct (map ledger_key new) \<and>
     ledger_key ` set new \<inter> ledger_key ` set t = {} \<and> (\<forall>r\<in>set new. lg_outcome r = Disp_deferred_no_worker))"

lemma ledger_extends_refl: "ledger_extends t t []"
  by (simp add: ledger_extends_def)

lemma ledger_extends_trans:
  assumes "ledger_extends t u xs" and "ledger_extends u v ys"
  shows "ledger_extends t v (xs @ ys)"
proof -
  obtain a b where "u = t @ a" "map lg_id a = xs" "distinct (map ledger_key a)" "ledger_key ` set a \<inter> ledger_key ` set t = {}"
    "\<forall>r\<in>set a. lg_outcome r = Disp_deferred_no_worker"
    and "v = u @ b" "map lg_id b = ys" "distinct (map ledger_key b)" "ledger_key ` set b \<inter> ledger_key ` set u = {}"
    "\<forall>r\<in>set b. lg_outcome r = Disp_deferred_no_worker"
    using assms unfolding ledger_extends_def by blast
  then show ?thesis unfolding ledger_extends_def by (intro exI [of _ "a @ b"]) auto
qed

lemma claimDispatch_extends:
  "claimDispatch rid c k t = (t', claim) \<Longrightarrow> ledger_extends t t' (case claim of None \<Rightarrow> [] | Some i \<Rightarrow> [i])"
  by (auto simp: claimDispatch_eq ledger_extends_def new_ledger_row_def ledger_key_def split: if_splits)

lemma add_claim_ids: "as_dispatchClaims (add_claim c s) = as_dispatchClaims s @ (case c of None \<Rightarrow> [] | Some i \<Rightarrow> [i])"
  by (simp add: add_claim_def split: option.split)

lemma apply_create_Inr:
  assumes "apply_create h cfg i r t trigger (db, s) = Inr (db', s')"
  obtains via and created :: created_ticket and stamp origins ledger claim cdb where
    "h_date_parse h (fr_updatedAt r) = Some stamp"
    "insert_origin cfg (ct_ticketId created) r stamp (db_origins db) = Inr origins"
    "claimDispatch (h_uuid h i Sid_ledger) (so_connectorId cfg) (ct_ticketId created, trigger) (db_ledger db) = (ledger, claim)"
    "db' = db\<lparr>db_creation := cdb, db_origins := origins, db_ledger := ledger\<rparr>"
    "s' = (add_claim claim s)\<lparr>as_created := as_created (add_claim claim s) @ [(ct_ticketId created, fr_externalId r, via)]\<rparr>"
proof -
  obtain reporter via where rep: "resolveReporter db (fr_requesterEmail r) (so_fallbackReporterId cfg) = (reporter, via)" by fastforce
  obtain cdb created where cr: "createTicketInTransaction (h_tz h) (h_lc h) (h_date_parse h) (\<lambda>k. h_uuid h i (Sid_creation k)) (h_now h)
      (sync_creation_input cfg r t reporter) (db_creation db) = Inr (cdb, created)"
    using assms by (auto simp: apply_create_def rep split: sum.splits)
  obtain stamp where st: "h_date_parse h (fr_updatedAt r) = Some stamp"
    using assms by (auto simp: apply_create_def rep cr split: option.splits)
  obtain origins where o': "insert_origin cfg (ct_ticketId created) r stamp (db_origins db) = Inr origins"
    using assms by (auto simp: apply_create_def rep cr st)
  obtain ledger claim where c: "claimDispatch (h_uuid h i Sid_ledger) (so_connectorId cfg) (ct_ticketId created, trigger) (db_ledger db) = (ledger, claim)"
    by fastforce
  have "db\<lparr>db_creation := cdb, db_origins := origins, db_ledger := ledger\<rparr> = db'"
    "(add_claim claim s)\<lparr>as_created := as_created (add_claim claim s) @ [(ct_ticketId created, fr_externalId r, via)]\<rparr> = s'"
    using assms by (simp_all add: apply_create_def rep cr st o' c Let_def)
  from that [OF st o' c this [symmetric]] show thesis .
qed

lemma apply_decision_ledger:
  assumes "apply_decision h cfg i d (db, s) = Inr (db', s')"
  shows "\<exists>ids. as_dispatchClaims s' = as_dispatchClaims s @ ids \<and> ledger_extends (db_ledger db) (db_ledger db') ids"
proof (cases d)
  case (Dec_create r t e trigger q)
  then have "apply_create h cfg i r t trigger (db, s) = Inr (db', s')" using assms by (simp add: apply_decision_def)
  then obtain x claim where "claimDispatch (h_uuid h i Sid_ledger) (so_connectorId cfg) x (db_ledger db) = (db_ledger db', claim)"
    "as_dispatchClaims s' = as_dispatchClaims (add_claim claim s)"
    by (rule apply_create_Inr) simp
  then show ?thesis using claimDispatch_extends by (auto simp: add_claim_ids)
next
  case (Dec_update r ticketId trigger q)
  show ?thesis
  proof (cases trigger)
    case None
    with Dec_update assms have "db_ledger db' = db_ledger db" "as_dispatchClaims s' = as_dispatchClaims s"
      by (auto simp: apply_decision_def apply_update_def Let_def split: option.splits)
    then show ?thesis by (intro exI [of _ "[]"]) (simp add: ledger_extends_refl)
  next
    case (Some k)
    with Dec_update assms obtain claim where
      "claimDispatch (h_uuid h i Sid_ledger) (so_connectorId cfg) (ticketId, k) (db_ledger db) = (db_ledger db', claim)"
      "as_dispatchClaims s' = as_dispatchClaims s @ (case claim of None \<Rightarrow> [] | Some i \<Rightarrow> [i])"
      by (auto simp: apply_decision_def apply_update_def Let_def add_claim_ids split: option.splits prod.splits)
    then show ?thesis using claimDispatch_extends by blast
  qed
next
  case (Dec_skip r why detail)
  with assms have "db' = db" "as_dispatchClaims s' = as_dispatchClaims s" by (auto simp: apply_decision_def)
  then show ?thesis by (intro exI [of _ "[]"]) (simp add: ledger_extends_refl)
qed

lemma apply_decisions_ledger:
  "\<exists>ids. ledger_extends (db_ledger (fst st)) (db_ledger (fst (apply_decisions h cfg i ds st))) ids \<and>
     (\<forall>s'. snd (apply_decisions h cfg i ds st) = Inr s' \<longrightarrow> as_dispatchClaims s' = as_dispatchClaims (snd st) @ ids)"
proof (induction ds arbitrary: i st)
  case Nil
  show ?case by (intro exI [of _ "[]"]) (simp add: ledger_extends_refl)
next
  case (Cons d ds)
  show ?case
  proof (cases "apply_decision h cfg i d st")
    case (Inl e)
    then show ?thesis by (intro exI [of _ "[]"]) (simp add: ledger_extends_refl)
  next
    case (Inr st1)
    obtain ids1 where 1: "as_dispatchClaims (snd st1) = as_dispatchClaims (snd st) @ ids1"
      "ledger_extends (db_ledger (fst st)) (db_ledger (fst st1)) ids1"
      using apply_decision_ledger [of h cfg i d "fst st" "snd st" "fst st1" "snd st1"] Inr by auto
    obtain ids2 where 2: "ledger_extends (db_ledger (fst st1)) (db_ledger (fst (apply_decisions h cfg (i + 1) ds st1))) ids2"
      "\<forall>s'. snd (apply_decisions h cfg (i + 1) ds st1) = Inr s' \<longrightarrow> as_dispatchClaims s' = as_dispatchClaims (snd st1) @ ids2"
      using Cons.IH by blast
    show ?thesis using Inr 1 2 ledger_extends_trans [OF 1(2) 2(1)] by (intro exI [of _ "ids1 @ ids2"]) simp
  qed
qed

text \<open>Any history of applied plans, of any connectors.\<close>

fun run_plans :: "(host \<times> store_config \<times> sync_plan) list \<Rightarrow> connector_db \<Rightarrow> connector_db" where
  "run_plans [] db = db"
| "run_plans ((h, cfg, plan) # ps) db = run_plans ps (fst (apply_plan h cfg plan db))"

lemma run_plans_ledger: "\<exists>ids. ledger_extends (db_ledger db) (db_ledger (run_plans ps db)) ids"
proof (induction ps arbitrary: db)
  case Nil
  then show ?case using ledger_extends_refl by auto
next
  case (Cons p ps)
  obtain h cfg plan where p: "p = (h, cfg, plan)" by (cases p) auto
  obtain ids1 where "ledger_extends (db_ledger db) (db_ledger (fst (apply_plan h cfg plan db))) ids1"
    using apply_decisions_ledger [of "(db, \<lparr>as_created = [], as_updated = [], as_skipped = [], as_dispatchClaims = [],
      as_quarantined = sp_quarantined plan\<rparr>)" h cfg 0 "sp_decisions plan"] unfolding apply_plan_def fst_conv by blast
  with Cons.IH [of "fst (apply_plan h cfg plan db)"] show ?case by (auto simp: p intro: ledger_extends_trans)
qed

text \<open>
  C12. However often plans are applied, and whichever of them throw half way, one transition of one ticket is
  claimed at most once: the ledger never holds two rows for it, and a row once there stays.
\<close>

theorem apply_plans_claim_once:
  assumes "distinct (map ledger_key (db_ledger db))"
  shows "distinct (map ledger_key (db_ledger (run_plans ps db))) \<and>
    (\<exists>new. db_ledger (run_plans ps db) = db_ledger db @ new \<and> (\<forall>r\<in>set new. lg_outcome r = Disp_deferred_no_worker))"
proof -
  obtain ids new where "db_ledger (run_plans ps db) = db_ledger db @ new" "distinct (map ledger_key new)"
    "ledger_key ` set new \<inter> ledger_key ` set (db_ledger db) = {}" "\<forall>r\<in>set new. lg_outcome r = Disp_deferred_no_worker"
    using run_plans_ledger [of db ps] unfolding ledger_extends_def by blast
  with assms show ?thesis by auto
qed

section \<open>The store keeps the planner's contract\<close>

text \<open>What the indexes of the origin table guarantee, and the rows of one foreign record.\<close>

definition origin_key :: "origin_row \<Rightarrow> string \<times> string" where
  "origin_key o' = (og_connectorId o', og_externalId o')"

definition origins_wf :: "origin_row list \<Rightarrow> bool" where
  "origins_wf os \<longleftrightarrow> distinct (map og_ticketId os) \<and> distinct (map origin_key os)"

definition origin_of :: "store_config \<Rightarrow> origin_row list \<Rightarrow> string \<Rightarrow> origin_row option" where
  "origin_of cfg os x = first_row (\<lambda>o'. origin_key o' = (so_connectorId cfg, x)) os"

lemma origin_of_iff:
  assumes "origins_wf os"
  shows "origin_of cfg os x = Some o' \<longleftrightarrow> o' \<in> set os \<and> origin_key o' = (so_connectorId cfg, x)"
proof
  show "origin_of cfg os x = Some o' \<Longrightarrow> o' \<in> set os \<and> origin_key o' = (so_connectorId cfg, x)"
    unfolding origin_of_def by (drule first_row_SomeD)
  assume r: "o' \<in> set os \<and> origin_key o' = (so_connectorId cfg, x)"
  then have "origin_of cfg os x \<noteq> None" unfolding origin_of_def first_row_None_iff by blast
  then obtain p where p: "origin_of cfg os x = Some p" by blast
  have "p \<in> set os" "origin_key p = origin_key o'" using r first_row_SomeD [OF p [unfolded origin_of_def]] by simp_all
  then have "p = o'" using assms r by (auto simp: origins_wf_def distinct_map inj_on_def)
  with p show "origin_of cfg os x = Some o'" by simp
qed

lemma known_by_external_id:
  assumes "origins_wf (db_origins db)" and "x \<in> set ids"
  shows "by_external_id (knownOrigins cfg db ids) x = map_option known_origin_of (origin_of cfg (db_origins db) x)"
proof -
  have "ids \<noteq> []" using assms(2) by auto
  then have eq: "knownOrigins cfg db ids = map known_origin_of
      (filter (\<lambda>r. og_connectorId r = so_connectorId cfg \<and> og_externalId r \<in> set ids) (db_origins db))"
    by (simp add: knownOrigins_def)
  have k: "ko_externalId (known_origin_of r) = og_externalId r" for r by (simp add: known_origin_of_def)
  show ?thesis
  proof (cases "origin_of cfg (db_origins db) x")
    case None
    then have "x \<notin> ko_externalId ` set (knownOrigins cfg db ids)"
      unfolding origin_of_def first_row_None_iff eq by (auto simp: k origin_key_def)
    with None show ?thesis by (simp add: by_external_id_None)
  next
    case (Some o')
    then have o': "o' \<in> set (db_origins db)" "og_connectorId o' = so_connectorId cfg" "og_externalId o' = x"
      using origin_of_iff [OF assms(1)] by (simp_all add: origin_key_def)
    then have "known_origin_of o' \<in> set (knownOrigins cfg db ids)" using assms(2) by (simp add: eq)
    then have "x \<in> ko_externalId ` set (knownOrigins cfg db ids)" using o'(3) k [of o'] by (metis image_eqI)
    then have "by_external_id (knownOrigins cfg db ids) x \<noteq> None" by (simp add: by_external_id_None)
    then obtain p where p: "by_external_id (knownOrigins cfg db ids) x = Some p" by blast
    then obtain q where q: "q \<in> set (db_origins db)" "og_connectorId q = so_connectorId cfg" "og_externalId q = x" "p = known_origin_of q"
      using by_external_id_SomeD [OF p] unfolding eq by (auto simp: k)
    then have "q = o'" using o' assms(1) by (auto simp: origins_wf_def distinct_map inj_on_def origin_key_def)
    with p q Some show ?thesis by simp
  qed
qed

text \<open>One decision: other records keep their row, the record of the decision gets its stamp.\<close>

definition targets_ok :: "store_config \<Rightarrow> origin_row list \<Rightarrow> sync_decision \<Rightarrow> bool" where
  "targets_ok cfg os d \<longleftrightarrow> (\<forall>r ticketId k q. d = Dec_update r ticketId k q \<longrightarrow>
     (\<exists>o'. origin_of cfg os (fr_externalId r) = Some o' \<and> og_ticketId o' = ticketId))"

lemma insert_origin_Inr:
  "insert_origin cfg tid r stamp os = Inr os' \<Longrightarrow>
     (\<forall>o'\<in>set os. og_ticketId o' \<noteq> tid \<and> origin_key o' \<noteq> (so_connectorId cfg, fr_externalId r)) \<and>
     (\<exists>new. os' = os @ [new] \<and> og_ticketId new = tid \<and> origin_key new = (so_connectorId cfg, fr_externalId r) \<and>
       og_foreignUpdatedAt new = stamp)"
  by (auto simp: insert_origin_def list_ex_iff origin_key_def split: if_splits)

lemma origin_of_append:
  "origin_of cfg (os @ [new]) x = (case origin_of cfg os x of
     None \<Rightarrow> if origin_key new = (so_connectorId cfg, x) then Some new else None | Some o' \<Rightarrow> Some o')"
  by (simp add: origin_of_def first_row_append split: option.split) (simp add: first_row_def)

lemma origin_of_update:
  assumes "\<And>o'. origin_key (f o') = origin_key o'"
  shows "origin_of cfg (fst (sql_update P f os)) x = map_option (\<lambda>o'. if P o' then f o' else o') (origin_of cfg os x)"
  by (induction os) (auto simp: origin_of_def first_row_def sql_update_def assms)

lemma apply_decision_origins:
  assumes "apply_decision h cfg i d (db, s) = Inr (db', s')" and "origins_wf (db_origins db)" and "targets_ok cfg (db_origins db) d"
  shows "origins_wf (db_origins db')"
    and "fr_externalId (dec_record d) \<noteq> x \<or> is_Dec_skip d \<Longrightarrow> origin_of cfg (db_origins db') x = origin_of cfg (db_origins db) x"
    and "\<not> is_Dec_skip d \<Longrightarrow> \<exists>o' stamp. origin_of cfg (db_origins db') (fr_externalId (dec_record d)) = Some o' \<and>
      h_date_parse h (fr_updatedAt (dec_record d)) = Some stamp \<and> og_foreignUpdatedAt o' = stamp"
    and "origin_of cfg (db_origins db) y = Some o' \<Longrightarrow>
      \<exists>o''. origin_of cfg (db_origins db') y = Some o'' \<and> og_ticketId o'' = og_ticketId o'"
proof -
  let ?A = "origins_wf (db_origins db')"
  let ?B = "\<forall>x. fr_externalId (dec_record d) \<noteq> x \<or> is_Dec_skip d \<longrightarrow> origin_of cfg (db_origins db') x = origin_of cfg (db_origins db) x"
  let ?C = "\<not> is_Dec_skip d \<longrightarrow> (\<exists>o' stamp. origin_of cfg (db_origins db') (fr_externalId (dec_record d)) = Some o' \<and>
      h_date_parse h (fr_updatedAt (dec_record d)) = Some stamp \<and> og_foreignUpdatedAt o' = stamp)"
  let ?D = "\<forall>y o'. origin_of cfg (db_origins db) y = Some o' \<longrightarrow>
      (\<exists>o''. origin_of cfg (db_origins db') y = Some o'' \<and> og_ticketId o'' = og_ticketId o')"
  have "?A \<and> ?B \<and> ?C \<and> ?D"
  proof (cases d)
    case (Dec_create r t e trigger q)
    then have "apply_create h cfg i r t trigger (db, s) = Inr (db', s')" using assms(1) by (simp add: apply_decision_def)
    then obtain created :: created_ticket and stamp where st: "h_date_parse h (fr_updatedAt r) = Some stamp"
      and "insert_origin cfg (ct_ticketId created) r stamp (db_origins db) = Inr (db_origins db')"
      by (rule apply_create_Inr) simp
    from insert_origin_Inr [OF this(2)] obtain new where fresh: "\<forall>o'\<in>set (db_origins db). og_ticketId o' \<noteq> ct_ticketId created \<and>
        origin_key o' \<noteq> (so_connectorId cfg, fr_externalId r)"
      and new: "db_origins db' = db_origins db @ [new]" "og_ticketId new = ct_ticketId created"
        "origin_key new = (so_connectorId cfg, fr_externalId r)" "og_foreignUpdatedAt new = stamp" by blast
    have none: "origin_of cfg (db_origins db) (fr_externalId r) = None"
      unfolding origin_of_def first_row_None_iff using fresh by blast
    show ?thesis
      using assms(2) fresh st none by (auto simp: Dec_create new origin_of_append origins_wf_def split: option.split)
  next
    case (Dec_update r ticketId trigger q)
    let ?P = "\<lambda>o'. og_ticketId o' = ticketId"
    obtain stamp where st: "h_date_parse h (fr_updatedAt r) = Some stamp"
      and os: "db_origins db' = fst (sql_update ?P (\<lambda>o'. o'\<lparr>og_foreignUpdatedAt := stamp\<rparr>) (db_origins db))"
      using assms(1) by (auto simp: Dec_update apply_decision_def apply_update_def Let_def split: option.splits prod.splits)
    obtain target where tg: "origin_of cfg (db_origins db) (fr_externalId r) = Some target" "og_ticketId target = ticketId"
      using assms(3) by (auto simp: Dec_update targets_ok_def)
    note tg' = tg(1) [unfolded origin_of_iff [OF assms(2)]]
    have upd: "origin_of cfg (db_origins db') x = map_option (\<lambda>o'. if ?P o' then o'\<lparr>og_foreignUpdatedAt := stamp\<rparr> else o')
        (origin_of cfg (db_origins db) x)" for x
      unfolding os by (rule origin_of_update) (simp add: origin_key_def)
    have only: "\<not> ?P o'" if "origin_of cfg (db_origins db) x = Some o'" "x \<noteq> fr_externalId r" for x o'
    proof
      assume "og_ticketId o' = ticketId"
      moreover have m: "o' \<in> set (db_origins db)" "origin_key o' = (so_connectorId cfg, x)"
        using that(1) origin_of_iff [OF assms(2)] by simp_all
      ultimately have "o' = target" using tg' tg(2) assms(2) by (auto simp: origins_wf_def distinct_map inj_on_def)
      then show False using m(2) tg' that(2) by simp
    qed
    have "map og_ticketId (db_origins db') = map og_ticketId (db_origins db)" "map origin_key (db_origins db') = map origin_key (db_origins db)"
      unfolding os by (rule sql_update_keys, simp add: origin_key_def)+
    then have ?A using assms(2) by (simp add: origins_wf_def)
    moreover have ?B
    proof (intro allI impI)
      fix x assume "fr_externalId (dec_record d) \<noteq> x \<or> is_Dec_skip d"
      then have "x \<noteq> fr_externalId r" by (simp add: Dec_update)
      then show "origin_of cfg (db_origins db') x = origin_of cfg (db_origins db) x"
        using only [of x] by (cases "origin_of cfg (db_origins db) x") (simp_all add: upd)
    qed
    moreover have ?C using tg st by (auto simp: upd Dec_update)
    moreover have ?D by (auto simp: upd)
    ultimately show ?thesis by blast
  next
    case (Dec_skip r why detail)
    with assms show ?thesis by (auto simp: apply_decision_def)
  qed
  then show "origins_wf (db_origins db')"
    "fr_externalId (dec_record d) \<noteq> x \<or> is_Dec_skip d \<Longrightarrow> origin_of cfg (db_origins db') x = origin_of cfg (db_origins db) x"
    "\<not> is_Dec_skip d \<Longrightarrow> \<exists>o' stamp. origin_of cfg (db_origins db') (fr_externalId (dec_record d)) = Some o' \<and>
      h_date_parse h (fr_updatedAt (dec_record d)) = Some stamp \<and> og_foreignUpdatedAt o' = stamp"
    "origin_of cfg (db_origins db) y = Some o' \<Longrightarrow>
      \<exists>o''. origin_of cfg (db_origins db') y = Some o'' \<and> og_ticketId o'' = og_ticketId o'"
    by blast+
qed

lemma apply_decisions_origins:
  assumes "apply_decisions h cfg i ds st = (db', Inr s')" and "origins_wf (db_origins (fst st))"
    and "\<forall>d\<in>set ds. targets_ok cfg (db_origins (fst st)) d"
  shows "origins_wf (db_origins db') \<and>
    (\<forall>x. (\<forall>d\<in>set ds. is_Dec_skip d \<or> fr_externalId (dec_record d) \<noteq> x) \<longrightarrow>
       origin_of cfg (db_origins db') x = origin_of cfg (db_origins (fst st)) x) \<and>
    (\<forall>x r. (\<exists>d\<in>set ds. \<not> is_Dec_skip d \<and> fr_externalId (dec_record d) = x) \<longrightarrow>
       (\<forall>d\<in>set ds. fr_externalId (dec_record d) = x \<longrightarrow> dec_record d = r) \<longrightarrow>
       (\<exists>o'. origin_of cfg (db_origins db') x = Some o' \<and> h_date_parse h (fr_updatedAt r) = Some (og_foreignUpdatedAt o')))"
  using assms
proof (induction ds arbitrary: i st)
  case Nil
  then show ?case by simp
next
  case (Cons d ds)
  obtain st1 where step: "apply_decision h cfg i d st = Inr st1" and rest: "apply_decisions h cfg (i + 1) ds st1 = (db', Inr s')"
    using Cons.prems(1) by (auto split: sum.splits)
  have step': "apply_decision h cfg i d (fst st, snd st) = Inr (fst st1, snd st1)" using step by simp
  have td: "targets_ok cfg (db_origins (fst st)) d" using Cons.prems(3) by simp
  note one = apply_decision_origins [OF step' Cons.prems(2) td]
  have "\<forall>d\<in>set ds. targets_ok cfg (db_origins (fst st1)) d"
    using Cons.prems(3) one(4) unfolding targets_ok_def by (metis list.set_intros(2))
  note ih = Cons.IH [OF rest one(1) this]
  have frame: "origin_of cfg (db_origins db') x = origin_of cfg (db_origins (fst st)) x"
    if "\<forall>d\<in>set (d # ds). is_Dec_skip d \<or> fr_externalId (dec_record d) \<noteq> x" for x
    using ih one(2) [of x] that by auto
  have own: "\<exists>o'. origin_of cfg (db_origins db') x = Some o' \<and> h_date_parse h (fr_updatedAt r) = Some (og_foreignUpdatedAt o')"
    if hit: "\<exists>d\<in>set (d # ds). \<not> is_Dec_skip d \<and> fr_externalId (dec_record d) = x"
      and same: "\<forall>d\<in>set (d # ds). fr_externalId (dec_record d) = x \<longrightarrow> dec_record d = r" for x r
  proof (cases "\<exists>d\<in>set ds. \<not> is_Dec_skip d \<and> fr_externalId (dec_record d) = x")
    case True
    then show ?thesis using ih same by auto
  next
    case False
    then have "origin_of cfg (db_origins db') x = origin_of cfg (db_origins (fst st1)) x" using ih by blast
    moreover have "\<not> is_Dec_skip d" "fr_externalId (dec_record d) = x" "dec_record d = r" using hit False same by auto
    ultimately show ?thesis using one(3) by auto
  qed
  show ?case using ih frame own by blast
qed

lemma decide_record_of: "d \<in> set (fst (decide_record lc config known r)) \<Longrightarrow> dec_record d = r"
  by (auto simp: decide_record_def decide_new_def decide_known_def split: option.splits mapping_outcome.splits if_splits)

text \<open>A stamp the store keeps: what it parses to prints as the same text.\<close>

definition keeps_stamp :: "host \<Rightarrow> commented_record \<Rightarrow> bool" where
  "keeps_stamp h r \<longleftrightarrow> (case h_date_parse h (fr_updatedAt r) of None \<Rightarrow> False | Some t \<Rightarrow> fr_updatedAt r = iso_string t)"

definition applies :: "host \<Rightarrow> store_config \<Rightarrow> sync_plan \<Rightarrow> connector_db \<Rightarrow> bool" where
  "applies h cfg plan db \<longleftrightarrow> origins_wf (db_origins db) \<and> (case snd (apply_plan h cfg plan db) of Inl _ \<Rightarrow> False | Inr _ \<Rightarrow> True)"

lemma store_observes:
  assumes plan: "calculateConnectorSync lc rs (knownOrigins cfg db (map fr_externalId rs)) config = Inr plan"
    and applied: "applies h cfg plan db" and r: "r \<in> set rs" and keeps: "keeps_stamp h r"
  defines "db' \<equiv> fst (apply_plan h cfg plan db)"
  shows "(by_external_id (knownOrigins cfg db' (map fr_externalId rs)) (fr_externalId r) = None \<and>
      (\<exists>m\<in>set (sc_mappings config). rejects (foreign_record.truncate r) m)) \<or>
    (\<exists>k. by_external_id (knownOrigins cfg db' (map fr_externalId rs)) (fr_externalId r) = Some k \<and> settled_record k r)"
proof -
  let ?ids = "map fr_externalId rs"
  let ?x = "fr_externalId r"
  let ?ds = "sp_decisions plan"
  have wf: "origins_wf (db_origins db)" using applied by (simp add: applies_def)
  have ds: "?ds = decisions_of lc config (knownOrigins cfg db ?ids) rs" and dist: "distinct ?ids"
    using plan by (simp_all add: calculateConnectorSync_Inr)
  note known0 = known_by_external_id [OF wf, of _ ?ids cfg]
  obtain s0 s' where run: "apply_decisions h cfg 0 ?ds (db, s0) = (db', Inr s')"
    using applied unfolding applies_def db'_def apply_plan_def by (auto split: sum.splits simp: prod_eq_iff)
  have targets: "targets_ok cfg (db_origins db) d" if din: "d \<in> set ?ds" for d
    unfolding targets_ok_def
  proof (intro allI impI)
    fix y ticketId k q assume d: "d = Dec_update y ticketId k q"
    obtain y' where y': "y' \<in> set rs" "d \<in> set (fst (decide_record lc config (knownOrigins cfg db ?ids) y'))"
      using din unfolding ds decisions_of_def by auto
    then have "y' = y" using decide_record_of d by fastforce
    with y' d obtain ko where ko: "by_external_id (knownOrigins cfg db ?ids) (fr_externalId y) = Some ko" "ko_ticketId ko = ticketId"
      by (auto simp: decide_record_def decide_known_def decide_new_def split: option.splits mapping_outcome.splits if_splits)
    then show "\<exists>o'. origin_of cfg (db_origins db) (fr_externalId y) = Some o' \<and> og_ticketId o' = ticketId"
      using known0 [of "fr_externalId y"] y'(1) \<open>y' = y\<close>
      by (cases "origin_of cfg (db_origins db) (fr_externalId y)") (auto simp: known_origin_of_def)
  qed
  have "fst (db, s0) = db" by simp
  note all = apply_decisions_origins [OF run, unfolded \<open>fst (db, s0) = db\<close>, OF wf] 
  have facts: "origins_wf (db_origins db')"
    "(\<forall>d\<in>set ?ds. is_Dec_skip d \<or> fr_externalId (dec_record d) \<noteq> ?x) \<Longrightarrow> origin_of cfg (db_origins db') ?x = origin_of cfg (db_origins db) ?x"
    "\<exists>d\<in>set ?ds. \<not> is_Dec_skip d \<and> fr_externalId (dec_record d) = ?x \<Longrightarrow> \<forall>d\<in>set ?ds. fr_externalId (dec_record d) = ?x \<longrightarrow> dec_record d = r \<Longrightarrow>
       \<exists>o'. origin_of cfg (db_origins db') ?x = Some o' \<and> h_date_parse h (fr_updatedAt r) = Some (og_foreignUpdatedAt o')"
    using all targets by blast+
  have same: "\<forall>d\<in>set ?ds. fr_externalId (dec_record d) = ?x \<longrightarrow> dec_record d = r"
  proof (intro ballI impI)
    fix d assume "d \<in> set ?ds" "fr_externalId (dec_record d) = ?x"
    then obtain y where "y \<in> set rs" "dec_record d = y" "fr_externalId y = ?x"
      using decide_record_of unfolding ds decisions_of_def by fastforce
    then show "dec_record d = r" using dist r by (auto simp: distinct_map inj_on_def)
  qed
  have mine: "d \<in> set ?ds" if "d \<in> set (fst (decide_record lc config (knownOrigins cfg db ?ids) r))" for d
    using that r unfolding ds decisions_of_def by auto
  have theirs: "d \<in> set (fst (decide_record lc config (knownOrigins cfg db ?ids) r))" if din: "d \<in> set ?ds" and ext: "fr_externalId (dec_record d) = ?x" for d
  proof -
    obtain y where "y \<in> set rs" "d \<in> set (fst (decide_record lc config (knownOrigins cfg db ?ids) y))"
      using din unfolding ds decisions_of_def by auto
    moreover have "y = r" using decide_record_of [OF calculation(2)] same din ext by auto
    ultimately show ?thesis by simp
  qed
  have k1: "by_external_id (knownOrigins cfg db' ?ids) ?x = map_option known_origin_of (origin_of cfg (db_origins db') ?x)"
    using r by (intro known_by_external_id [OF facts(1)]) simp
  have k0: "by_external_id (knownOrigins cfg db ?ids) ?x = map_option known_origin_of (origin_of cfg (db_origins db) ?x)"
    using r by (intro known0) simp
  show ?thesis
  proof (cases "\<forall>d\<in>set (fst (decide_record lc config (knownOrigins cfg db ?ids) r)). is_Dec_skip d")
    case True
    then have same_origin: "by_external_id (knownOrigins cfg db' ?ids) ?x = by_external_id (knownOrigins cfg db ?ids) ?x"
      using facts(2) theirs unfolding k0 k1 by fastforce
    show ?thesis
    proof (cases "by_external_id (knownOrigins cfg db ?ids) ?x")
      case None
      then show ?thesis using True decide_new_kind(2) [of lc config r] unfolding same_origin
        by (cases "decide_new lc config r") (simp add: decide_record_def)
    next
      case (Some k)
      then have "settled_record k r"
        using True by (auto simp: decide_record_def decide_known_def settled_record_def split: if_splits option.splits)
      then show ?thesis unfolding same_origin using Some by blast
    qed
  next
    case False
    then obtain d where "d \<in> set ?ds" "\<not> is_Dec_skip d" "fr_externalId (dec_record d) = ?x"
      using mine decide_record_of by blast
    then obtain o' where o': "origin_of cfg (db_origins db') ?x = Some o'" "h_date_parse h (fr_updatedAt r) = Some (og_foreignUpdatedAt o')"
      using facts(3) [OF _ same] by blast
    then have "settled_record (known_origin_of o') r"
      using keeps by (simp add: keeps_stamp_def settled_record_def known_origin_of_def)
    then show ?thesis unfolding k1 o'(1) by simp
  qed
qed

interpretation store: sync_store "knownOrigins cfg" "\<lambda>plan db. fst (apply_plan h cfg plan db)" "applies h cfg" "keeps_stamp h" lc
  for cfg h lc
  by unfold_locales (rule store_observes)


section \<open>Examples\<close>

definition sample_host :: host where
  "sample_host = \<lparr>h_tz = utc_only, h_lc = code_unit_compare, h_date_parse = (\<lambda>_. Some 1767225600000),
     h_uuid = (\<lambda>n i. case i of Sid_creation k \<Rightarrow> sample_uuid k | Sid_ledger \<Rightarrow> ''d'' @ js_nat_string n), h_now = 0\<rparr>"

definition sample_store_config :: store_config where
  "sample_store_config = \<lparr>so_connectorId = ''k1'', so_ticketOrigin = ''itsm'', so_fallbackReporterId = ''u1''\<rparr>"

definition sample_origin_row :: origin_row where
  "sample_origin_row = \<lparr>og_ticketId = ''t1'', og_connectorId = ''k1'', og_externalId = ''sys1'', og_externalKey = ''INC'',
     og_externalUrl = None, og_foreignUpdatedAt = 0, og_lastWrittenAt = None, og_dispatchCount = 1\<rparr>"

definition sample_connector_db :: connector_db where
  "sample_connector_db = \<lparr>db_creation = sample_creation_db, db_users = [], db_identities = [], db_origins = [sample_origin_row],
     db_ledger = [], db_connectors = [], db_runs = [], db_mappings = [], db_routes = []\<rparr>"

definition sample_synced :: "connector_db \<Rightarrow> sync_plan \<Rightarrow> bool" where
  "sample_synced db plan \<longleftrightarrow> calculateConnectorSync code_unit_compare [sample_changed]
     (knownOrigins sample_store_config db (map fr_externalId [sample_changed])) sample_sync_config = Inr plan"

lemma sample_first_sync:
  "\<exists>plan plan'. sample_synced sample_connector_db plan \<and> sp_dispatchCount plan = 1 \<and>
    applies sample_host sample_store_config plan sample_connector_db \<and>
    sample_synced (fst (apply_plan sample_host sample_store_config plan sample_connector_db)) plan'"
proof -
  have "case calculateConnectorSync code_unit_compare [sample_changed]
      (knownOrigins sample_store_config sample_connector_db (map fr_externalId [sample_changed])) sample_sync_config of
      Inl _ \<Rightarrow> False
    | Inr plan \<Rightarrow> sp_dispatchCount plan = 1 \<and> applies sample_host sample_store_config plan sample_connector_db \<and>
        (case calculateConnectorSync code_unit_compare [sample_changed] (knownOrigins sample_store_config
            (fst (apply_plan sample_host sample_store_config plan sample_connector_db)) (map fr_externalId [sample_changed])) sample_sync_config of
           Inl _ \<Rightarrow> False | Inr _ \<Rightarrow> True)" by code_simp
  then show ?thesis by (cases "calculateConnectorSync code_unit_compare [sample_changed]
      (knownOrigins sample_store_config sample_connector_db (map fr_externalId [sample_changed])) sample_sync_config")
    (simp_all add: sample_synced_def split: sum.splits)
qed

theorem apply_plans_claim_once_witness:
  "\<exists>plan. distinct (map ledger_key (db_ledger (run_plans
     [(sample_host, sample_store_config, plan), (sample_host, sample_store_config, plan)] sample_connector_db))) \<and> sp_dispatchCount plan = 1"
proof -
  obtain plan :: sync_plan where "sp_dispatchCount plan = 1" using sample_first_sync by blast
  moreover have "distinct (map ledger_key (db_ledger sample_connector_db))" by (simp add: sample_connector_db_def)
  ultimately show ?thesis using apply_plans_claim_once by blast
qed


end
