(* ===== verification/Environments.thy ===== *)
theory Environments
  imports Tables
begin

text \<open>
  The environment a run works in: the pure resolution of \<open>server/environments/resolve.ts\<close>, and what
  \<open>server/environments/runtime.ts\<close> reads from the database before a run starts and for each of its tool calls. A query
  without an order and with a limit of one takes the first of the matching rows.
\<close>

section \<open>The tables\<close>

datatype environment_mode = Mode_act | Mode_shadow

datatype environment_source = ES_ticket | ES_cmdb | ES_default

record environment_row =
  en_id :: string
  en_key :: string
  en_connectionType :: string
  en_contextName :: "string option"
  en_credentialEncrypted :: "string option"
  en_mode :: environment_mode
  en_isDefault :: bool

record run_row =
  rn_id :: string
  rn_ticketId :: string
  rn_environmentId :: "string option"

text \<open>The link tables are lists of pairs.\<close>

record environment_db =
  ed_environments :: "environment_row list"
  ed_serviceEnvironments :: "(string \<times> string) list" \<comment> \<open>service, environment\<close>
  ed_ticketEnvironments :: "(string \<times> string) list" \<comment> \<open>ticket, environment\<close>
  ed_ticketCmdbObjects :: "(string \<times> string) list" \<comment> \<open>ticket, object\<close>
  ed_cmdbObjectEnvironments :: "(string \<times> string) list" \<comment> \<open>object, environment\<close>
  ed_runs :: "run_row list"
  ed_tickets :: "ticket list"

section \<open>Resolution\<close>

datatype environment_error = Err_not_linked string string | Err_unresolved | Err_environment_missing string

text \<open>A string is truthy where it is not empty.\<close>

definition non_empty :: "string option \<Rightarrow> string option" where
  "non_empty v = (case v of None \<Rightarrow> None | Some [] \<Rightarrow> None | Some (c # cs) \<Rightarrow> Some (c # cs))"

definition resolveEnvironment ::
  "string \<Rightarrow> string option \<Rightarrow> string list \<Rightarrow> string option \<Rightarrow> string option \<Rightarrow> environment_error + string \<times> environment_source" where
  "resolveEnvironment serviceId ticketEnvironment serviceEnvironments cmdbEnvironment defaultEnvironment =
     (case non_empty ticketEnvironment of
        Some e \<Rightarrow> if e \<notin> set serviceEnvironments then Inl (Err_not_linked e serviceId) else Inr (e, ES_ticket)
      | None \<Rightarrow>
          (case non_empty cmdbEnvironment of
             Some e \<Rightarrow> if e \<notin> set serviceEnvironments then Inl (Err_not_linked e serviceId) else Inr (e, ES_cmdb)
           | None \<Rightarrow>
               (case non_empty defaultEnvironment of
                  Some e \<Rightarrow> Inr (e, ES_default)
                | None \<Rightarrow> Inl Err_unresolved)))"

section \<open>The environment of a new run\<close>

record resolved_run_environment =
  re_environmentId :: "string option"
  re_environmentKey :: "string option"
  re_environmentSource :: "environment_source option"

definition linked_to :: "'a \<Rightarrow> ('a \<times> 'b) list \<Rightarrow> 'b list" where
  "linked_to a links = map snd (filter (\<lambda>l. fst l = a) links)"

definition first_of :: "'a list \<Rightarrow> 'a option" where
  "first_of xs = (case xs of [] \<Rightarrow> None | x # _ \<Rightarrow> Some x)"

definition cmdb_environments :: "environment_db \<Rightarrow> string \<Rightarrow> string list" where
  "cmdb_environments db ticketId = concat (map (\<lambda>ob. linked_to ob (ed_cmdbObjectEnvironments db)) (linked_to ticketId (ed_ticketCmdbObjects db)))"

definition resolveRunEnvironment :: "environment_db \<Rightarrow> string \<Rightarrow> string \<Rightarrow> environment_error + resolved_run_environment" where
  "resolveRunEnvironment db ticketId serviceId =
     (let ticketLink = first_of (linked_to ticketId (ed_ticketEnvironments db));
          cmdbEnv = first_of (cmdb_environments db ticketId);
          defaultEnv = map_option en_id (first_row en_isDefault (ed_environments db))
      in if ticketLink = None \<and> cmdbEnv = None \<and> defaultEnv = None
         then Inr \<lparr>re_environmentId = None, re_environmentKey = Some ''default'', re_environmentSource = Some ES_default\<rparr>
         else bind_result
           (resolveEnvironment serviceId ticketLink (linked_to serviceId (ed_serviceEnvironments db)) cmdbEnv defaultEnv)
           (\<lambda>(environmentId, source).
              case first_row (\<lambda>e. en_id e = environmentId) (ed_environments db) of
                None \<Rightarrow> Inl (Err_environment_missing environmentId)
              | Some e \<Rightarrow> Inr \<lparr>re_environmentId = Some environmentId, re_environmentKey = Some (en_key e),
                  re_environmentSource = Some source\<rparr>))"

section \<open>The environment of a tool call\<close>

record environment_connection =
  ec_id :: string
  ec_key :: string
  ec_connectionType :: string
  ec_contextName :: "string option"
  ec_credentialEncrypted :: "string option"

record run_environment =
  ru_environment :: "(string \<times> environment_mode \<times> environment_connection) option"
  ru_linked :: "string set"

definition no_environment :: run_environment where
  "no_environment = \<lparr>ru_environment = None, ru_linked = {}\<rparr>"

definition environment_keys :: "environment_db \<Rightarrow> string \<Rightarrow> string list" where
  "environment_keys db serviceId =
     concat (map (\<lambda>i. map en_key (filter (\<lambda>e. en_id e = i) (ed_environments db))) (linked_to serviceId (ed_serviceEnvironments db)))"

definition loadRunEnvironment :: "environment_db \<Rightarrow> string \<Rightarrow> run_environment" where
  "loadRunEnvironment db runId =
     (case first_row (\<lambda>r. rn_id r = runId) (ed_runs db) of
        None \<Rightarrow> no_environment
      | Some run \<Rightarrow>
          let linked = (case first_row (\<lambda>t. tk_id t = rn_ticketId run) (ed_tickets db) of
                None \<Rightarrow> [] | Some t \<Rightarrow> environment_keys db (tk_serviceId t))
          in (case non_empty (rn_environmentId run) of
                None \<Rightarrow> no_environment
              | Some environmentId \<Rightarrow>
                  (case first_row (\<lambda>e. en_id e = environmentId) (ed_environments db) of
                     None \<Rightarrow> no_environment
                   | Some e \<Rightarrow>
                       \<lparr>ru_environment = Some (en_key e, en_mode e,
                          \<lparr>ec_id = en_id e, ec_key = en_key e, ec_connectionType = en_connectionType e,
                           ec_contextName = non_empty (en_contextName e), ec_credentialEncrypted = non_empty (en_credentialEncrypted e)\<rparr>),
                        ru_linked = insert (en_key e) (set linked)\<rparr>)))"

section \<open>Properties\<close>

text \<open>
  The environment of a run is never one that nobody linked: unless it is the configured default, it is linked to the
  service of the ticket; and it exists.
\<close>

theorem resolveRunEnvironment_linked:
  assumes "resolveRunEnvironment db ticketId serviceId = Inr r" and "re_environmentId r = Some i"
  shows "(re_environmentSource r \<noteq> Some ES_default \<longrightarrow> i \<in> set (linked_to serviceId (ed_serviceEnvironments db))) \<and>
    (re_environmentSource r = Some ES_default \<longrightarrow> (\<exists>e\<in>set (ed_environments db). en_isDefault e \<and> en_id e = i)) \<and>
    (\<exists>e\<in>set (ed_environments db). en_id e = i \<and> re_environmentKey r = Some (en_key e))"
proof -
  let ?default = "map_option en_id (first_row en_isDefault (ed_environments db))"
  obtain source e where res: "resolveEnvironment serviceId (first_of (linked_to ticketId (ed_ticketEnvironments db)))
      (linked_to serviceId (ed_serviceEnvironments db)) (first_of (cmdb_environments db ticketId)) ?default = Inr (i, source)"
    and e: "first_row (\<lambda>e. en_id e = i) (ed_environments db) = Some e"
    and r: "re_environmentSource r = Some source" "re_environmentKey r = Some (en_key e)"
    using assms by (auto simp: resolveRunEnvironment_def Let_def split: if_splits option.splits)
  have "source \<noteq> ES_default \<longrightarrow> i \<in> set (linked_to serviceId (ed_serviceEnvironments db))"
    and "source = ES_default \<longrightarrow> non_empty ?default = Some i"
    using res by (auto simp: resolveEnvironment_def split: option.splits if_splits)
  moreover have "\<exists>e\<in>set (ed_environments db). en_isDefault e \<and> en_id e = i" if "non_empty ?default = Some i"
    using that first_row_SomeD [of en_isDefault "ed_environments db"] by (auto simp: non_empty_def split: option.splits list.splits)
  ultimately show ?thesis using r first_row_SomeD [OF e] by auto
qed

text \<open>
  A tool call of a run that has an environment may name this environment and those linked to the service of its ticket,
  and no other; where the run or its environment is gone, nothing is restricted and there is no connection.
\<close>

theorem loadRunEnvironment_linked:
  "(case ru_environment (loadRunEnvironment db runId) of
      None \<Rightarrow> ru_linked (loadRunEnvironment db runId) = {}
    | Some (key, mode, connection) \<Rightarrow> key \<in> ru_linked (loadRunEnvironment db runId) \<and> ec_key connection = key \<and>
        (\<forall>k\<in>ru_linked (loadRunEnvironment db runId). k = key \<or>
           (\<exists>run t s e. run \<in> set (ed_runs db) \<and> rn_id run = runId \<and> t \<in> set (ed_tickets db) \<and> tk_id t = rn_ticketId run \<and>
              (tk_serviceId t, s) \<in> set (ed_serviceEnvironments db) \<and> e \<in> set (ed_environments db) \<and> en_id e = s \<and> en_key e = k)))"
proof (cases "ru_environment (loadRunEnvironment db runId)")
  case None
  then show ?thesis by (auto simp: loadRunEnvironment_def no_environment_def Let_def split: option.splits)
next
  case (Some x)
  obtain run where run: "first_row (\<lambda>r. rn_id r = runId) (ed_runs db) = Some run"
    using Some by (auto simp: loadRunEnvironment_def no_environment_def split: option.splits)
  obtain i e where ie: "non_empty (rn_environmentId run) = Some i" "first_row (\<lambda>e. en_id e = i) (ed_environments db) = Some e"
    using Some by (auto simp: loadRunEnvironment_def no_environment_def run Let_def split: option.splits)
  have e: "loadRunEnvironment db runId =
      \<lparr>ru_environment = Some (en_key e, en_mode e,
          \<lparr>ec_id = en_id e, ec_key = en_key e, ec_connectionType = en_connectionType e,
           ec_contextName = non_empty (en_contextName e), ec_credentialEncrypted = non_empty (en_credentialEncrypted e)\<rparr>),
       ru_linked = insert (en_key e) (set (case first_row (\<lambda>t. tk_id t = rn_ticketId run) (ed_tickets db) of
         None \<Rightarrow> [] | Some t \<Rightarrow> environment_keys db (tk_serviceId t)))\<rparr>"
    by (simp add: loadRunEnvironment_def run ie Let_def)
  show ?thesis
    using first_row_SomeD [OF run] first_row_SomeD [of "\<lambda>t. tk_id t = rn_ticketId run" "ed_tickets db"]
    by (auto simp: e environment_keys_def linked_to_def dest: sym split: option.splits) (metis (no_types))
qed

definition sample_environment_db :: environment_db where
  "sample_environment_db =
     \<lparr>ed_environments = [\<lparr>en_id = ''e1'', en_key = ''prod'', en_connectionType = ''context'', en_contextName = None,
        en_credentialEncrypted = None, en_mode = Mode_shadow, en_isDefault = False\<rparr>],
      ed_serviceEnvironments = [(''svc-general'', ''e1'')], ed_ticketEnvironments = [(''t1'', ''e1'')],
      ed_ticketCmdbObjects = [], ed_cmdbObjectEnvironments = [],
      ed_runs = [\<lparr>rn_id = ''r1'', rn_ticketId = ''t1'', rn_environmentId = Some ''e1''\<rparr>], ed_tickets = [sample_ticket]\<rparr>"

theorem resolveRunEnvironment_linked_witness:
  "\<exists>r. resolveRunEnvironment sample_environment_db ''t1'' ''svc-general'' = Inr r \<and> re_environmentId r = Some ''e1'' \<and>
     ''e1'' \<in> set (linked_to ''svc-general'' (ed_serviceEnvironments sample_environment_db))"
proof -
  let ?r = "\<lparr>re_environmentId = Some ''e1'', re_environmentKey = Some ''prod'', re_environmentSource = Some ES_ticket\<rparr>"
  have "resolveRunEnvironment sample_environment_db ''t1'' ''svc-general'' = Inr ?r" by code_simp
  with resolveRunEnvironment_linked [OF this, of "''e1''"] show ?thesis by simp
qed

theorem loadRunEnvironment_linked_witness:
  "\<exists>key mode connection. ru_environment (loadRunEnvironment sample_environment_db ''r1'') = Some (key, mode, connection) \<and>
     key \<in> ru_linked (loadRunEnvironment sample_environment_db ''r1'') \<and> mode = Mode_shadow"
proof -
  have "map_option (\<lambda>(k, m, c). m) (ru_environment (loadRunEnvironment sample_environment_db ''r1'')) = Some Mode_shadow" by code_simp
  then obtain key connection where "ru_environment (loadRunEnvironment sample_environment_db ''r1'') = Some (key, Mode_shadow, connection)" by auto
  with loadRunEnvironment_linked [of sample_environment_db "''r1''"] show ?thesis by simp
qed

end
