(* ===== verification/Delivery.thy ===== *)
theory Delivery
  imports Vocabulary
begin

text \<open>
  What the two delivery queues, the webhooks of \<open>server/workflows\<close> and the work notes of \<open>server/connectors\<close>, have
  in common: a row that is claimed under a lease, attempted outside a transaction and settled. The
  columns that decide about it are \<open>delivery_row\<close>; the interface \<open>lease_queue\<close> is what their two claims and
  settlements, which are written separately, agree on.
\<close>

type_synonym delivery_status = writeback_status

record delivery_row =
  dl_id :: string
  dl_status :: delivery_status
  dl_attemptCount :: int
  dl_maxAttempts :: int
  dl_nextAttemptAt :: "ms option"
  dl_claimedAt :: "ms option"
  dl_completedAt :: "ms option"
  dl_lastError :: "string option"

text \<open>A comparison with a nullable column holds only where the column has a value.\<close>

definition at_most :: "ms option \<Rightarrow> ms \<Rightarrow> bool" where
  "at_most column t = (case column of None \<Rightarrow> False | Some c \<Rightarrow> c \<le> t)"

lemma at_most_simps [simp]: "\<not> at_most None t" "at_most (Some c) t \<longleftrightarrow> c \<le> t"
  by (simp_all add: at_most_def)

section \<open>The interface\<close>

text \<open>
  A claim takes an attempt, of which a row has a fixed number; a settlement takes none.
  Workers may interleave in every way: a history of a row is any sequence of claims and settlements.
\<close>

datatype ('c, 's) delivery_event = Ev_claim 'c | Ev_settle 's

fun deliveries :: "('c \<Rightarrow> 'r \<Rightarrow> 'r option) \<Rightarrow> ('s \<Rightarrow> 'r \<Rightarrow> 'r) \<Rightarrow> ('c, 's) delivery_event list \<Rightarrow> 'r \<Rightarrow> 'r \<times> nat" where
  "deliveries claim settle [] r = (r, 0)"
| "deliveries claim settle (Ev_claim c # es) r =
     (case claim c r of
        None \<Rightarrow> deliveries claim settle es r
      | Some r' \<Rightarrow> (case deliveries claim settle es r' of (r'', n) \<Rightarrow> (r'', Suc n)))"
| "deliveries claim settle (Ev_settle s # es) r = deliveries claim settle es (settle s r)"

locale lease_queue =
  fixes claim :: "'c \<Rightarrow> 'r \<Rightarrow> 'r option"
    and settle :: "'s \<Rightarrow> 'r \<Rightarrow> 'r"
    and attempts :: "'r \<Rightarrow> int"
    and max_attempts :: "'r \<Rightarrow> int"
  assumes claim_takes: "claim c r = Some r' \<Longrightarrow> attempts r < max_attempts r \<and> attempts r' = attempts r + 1 \<and> max_attempts r' = max_attempts r"
    and settle_takes_none: "attempts (settle s r) = attempts r \<and> max_attempts (settle s r) = max_attempts r"
begin

text \<open>However the workers interleave, a row is attempted as often as it has attempts left, at most.\<close>

lemma deliveries_count:
  "deliveries claim settle es r = (r', n) \<Longrightarrow> attempts r' = attempts r + int n \<and> max_attempts r' = max_attempts r \<and>
     (attempts r \<le> max_attempts r \<longrightarrow> attempts r' \<le> max_attempts r)"
proof (induction es arbitrary: r r' n)
  case (Cons e es)
  show ?case
  proof (cases e)
    case (Ev_claim c)
    show ?thesis
    proof (cases "claim c r")
      case None
      then have "deliveries claim settle es r = (r', n)" using Cons.prems Ev_claim by simp
      then show ?thesis by (rule Cons.IH)
    next
      case (Some s)
      obtain m where "deliveries claim settle es s = (r', m)" "n = Suc m"
        using Cons.prems Ev_claim Some by (auto split: prod.splits)
      then show ?thesis using Cons.IH [of s r' m] claim_takes [OF Some] by simp
    qed
  next
    case (Ev_settle s)
    then show ?thesis using Cons.prems Cons.IH [of "settle s r" r' n] settle_takes_none [of s r]
      by (metis deliveries.simps(3))
  qed
qed simp

lemma deliveries_bounded:
  "attempts r \<le> max_attempts r \<Longrightarrow> int (snd (deliveries claim settle es r)) \<le> max_attempts r - attempts r"
  using deliveries_count [of es r] by (cases "deliveries claim settle es r") auto

lemma deliveries_spent: "\<not> attempts r < max_attempts r \<Longrightarrow> snd (deliveries claim settle es r) = 0"
proof (induction es arbitrary: r)
  case (Cons e es)
  show ?case
  proof (cases e)
    case (Ev_claim c)
    have "claim c r = None" using claim_takes Cons.prems by (cases "claim c r") auto
    then show ?thesis using Cons Ev_claim by simp
  next
    case (Ev_settle s)
    then show ?thesis using Cons settle_takes_none [of s r] by simp
  qed
qed simp

end

section \<open>Giving up\<close>

text \<open>
  The interface of a bounded retry: a delay for an attempt number that ends by returning \<open>None\<close> and otherwise
  stays within a positive ceiling. \<open>largest\<close> bounds the maximal number of attempts, a column of 32 bits.
\<close>

definition INT4_MAX :: int where "INT4_MAX = 2147483647"

locale bounded_retry =
  fixes delay :: "int \<Rightarrow> int \<Rightarrow> int option" \<comment> \<open>maximal number of attempts, attempt\<close>
    and ceiling_ms :: int
  assumes retry_stops: "1 \<le> a \<Longrightarrow> m \<le> a \<Longrightarrow> delay m a = None"
    and retry_continues: "1 \<le> a \<Longrightarrow> a < m \<Longrightarrow> m \<le> INT4_MAX \<Longrightarrow> \<exists>d. delay m a = Some d \<and> 0 < d \<and> d \<le> ceiling_ms"
    and retry_mono: "1 \<le> a \<Longrightarrow> delay m a = Some d \<Longrightarrow> delay m (a + 1) = Some e \<Longrightarrow> d \<le> e"
begin

text \<open>The delays of a row that fails every time: as many as there are further attempts, and never shorter.\<close>

lemma delays_mono:
  "1 \<le> a \<Longrightarrow> a \<le> b \<Longrightarrow> b < m \<Longrightarrow> m \<le> INT4_MAX \<Longrightarrow> delay m a = Some d \<Longrightarrow> delay m b = Some e \<Longrightarrow> d \<le> e"
proof (induction "nat (b - a)" arbitrary: b e)
  case (Suc n)
  then have "1 \<le> b - 1" "b - 1 < m" "a \<le> b - 1" "n = nat (b - 1 - a)" by auto
  moreover obtain d' where "delay m (b - 1) = Some d'" using retry_continues [of "b - 1" m] Suc.prems calculation by auto
  ultimately have "d \<le> d'" using Suc by auto
  also have "d' \<le> e" using retry_mono [of "b - 1" m d' e] Suc.prems \<open>1 \<le> b - 1\<close> \<open>delay m (b - 1) = Some d'\<close> by simp
  finally show ?case .
qed simp

end

text \<open>
  The interface of a queue that gives up: \<open>deliver t\<close> is one delivery that fails, claimed at \<open>fst t\<close> and settled at
  \<open>snd t\<close>. A row with attempts left is due again at the latest \<open>ceiling_ms\<close> later; without, it is over.
\<close>

locale failing_queue =
  fixes deliver :: "ms \<times> ms \<Rightarrow> 'r \<Rightarrow> 'r"
    and due :: "ms \<Rightarrow> 'r \<Rightarrow> bool"
    and over :: "'r \<Rightarrow> bool"
    and attempts_left :: "'r \<Rightarrow> nat"
    and ceiling_ms :: int
  assumes fails_once: "due (fst t) r \<Longrightarrow> attempts_left r = Suc n \<Longrightarrow> attempts_left (deliver t r) = n"
    and fails_again: "due (fst t) r \<Longrightarrow> attempts_left r = Suc (Suc n) \<Longrightarrow> \<not> over (deliver t r) \<and> (\<forall>u\<ge>snd t + ceiling_ms. due u (deliver t r))"
    and fails_last: "due (fst t) r \<Longrightarrow> attempts_left r = Suc 0 \<Longrightarrow> over (deliver t r)"
begin

text \<open>Delivered at intervals of at least the ceiling, a row is given up after exactly its attempts, not before.\<close>

lemma gives_up:
  "sorted_wrt (\<lambda>s t. snd s + ceiling_ms \<le> fst t) (t # ts) \<Longrightarrow> due (fst t) r \<Longrightarrow> length (t # ts) \<le> attempts_left r \<Longrightarrow>
   (over (fold deliver (t # ts) r) \<longleftrightarrow> length (t # ts) = attempts_left r)"
proof (induction ts arbitrary: t r)
  case Nil
  then show ?case using fails_last [of t r] fails_again [of t r] by (cases "attempts_left r"; cases "attempts_left r - 1") auto
next
  case (Cons u us)
  then obtain n where n: "attempts_left r = Suc (Suc n)" by (cases "attempts_left r"; cases "attempts_left r - 1") auto
  have "due (fst u) (deliver t r)" using fails_again [OF Cons.prems(2) n] Cons.prems(1) by simp
  then show ?case
    using Cons.IH [of u "deliver t r"] Cons.prems fails_once [OF Cons.prems(2) n] n by simp
qed

end

end
