(* ===== verification/Workflows.thy ===== *)
theory Workflows
  imports Rules Delivery
begin

text \<open>
  The automation of workflows: \<open>server/workflows/core.ts\<close> (which actions a workflow may have, the signature, the delays
  of a retry, the collapsing of notifications) and the durable webhook deliveries of
  \<open>server/workflows/webhooks.ts\<close>. What answers the request is a parameter.
\<close>

section \<open>Workflow actions\<close>

definition WORKFLOW_ACTION_TYPES :: "action_type list" where
  "WORKFLOW_ACTION_TYPES = [AT_send_webhook, AT_send_notification]"

definition isWorkflowAction :: "(string \<Rightarrow> string option) \<Rightarrow> jsval \<Rightarrow> bool" where
  "isWorkflowAction protocol_of v \<longleftrightarrow> isAction protocol_of v \<and>
     prop_of (case v of JObj ob \<Rightarrow> ob | _ \<Rightarrow> []) ''type'' \<in> JStr ` action_type_key ` set WORKFLOW_ACTION_TYPES"

datatype workflow_error = Err_unknown_action | Err_empty_secret | Err_not_positive string

definition assertWorkflowActions :: "(string \<Rightarrow> string option) \<Rightarrow> jsval list \<Rightarrow> workflow_error + jsval list" where
  "assertWorkflowActions protocol_of actions =
     (if list_all (isWorkflowAction protocol_of) actions then Inr actions else Inl Err_unknown_action)"

datatype event_source = Source_ticket | Source_sla | Source_workflow

definition canTriggerWorkflow :: "event_source \<Rightarrow> bool" where
  "canTriggerWorkflow source \<longleftrightarrow> source \<noteq> Source_workflow"

text \<open>\<open>hmac\<close> is the hexadecimal HMAC-SHA256 of a body under a secret.\<close>

definition signWebhook :: "(string \<Rightarrow> string \<Rightarrow> string) \<Rightarrow> string \<Rightarrow> string \<Rightarrow> workflow_error + string" where
  "signWebhook hmac body secret = (if secret = [] then Inl Err_empty_secret else Inr (''sha256='' @ hmac secret body))"

section \<open>The delay of a retry\<close>

definition positive_safe :: "string \<times> int \<Rightarrow> bool" where
  "positive_safe p \<longleftrightarrow> safe_int (snd p) \<and> 1 \<le> snd p"

definition retryDelayMs :: "int \<Rightarrow> int \<Rightarrow> int \<Rightarrow> int \<Rightarrow> workflow_error + int option" where
  "retryDelayMs attempt baseMs maxMs maxAttempts =
     (case first_row (\<lambda>p. \<not> positive_safe p) [(''attempt'', attempt), (''baseMs'', baseMs), (''maxMs'', maxMs), (''maxAttempts'', maxAttempts)] of
        Some (name, v) \<Rightarrow> Inl (Err_not_positive name)
      | None \<Rightarrow> Inr (if maxAttempts \<le> attempt then None else Some (min maxMs (baseMs * 2 ^ nat (attempt - 1)))))"

text \<open>The defaults of the options.\<close>

definition default_delay :: "int \<Rightarrow> int \<Rightarrow> workflow_error + int option" where
  "default_delay maxAttempts attempt = retryDelayMs attempt 1000 60000 maxAttempts"

section \<open>Notifications\<close>

record notification_event =
  ne_recipientId :: string
  ne_actorId :: "string option"
  ne_recordType :: string
  ne_recordId :: string
  ne_eventType :: string
  ne_title :: string
  ne_body :: string
  ne_metadata :: "js_object option"

type_synonym notification_key = "string \<times> string \<times> string \<times> string"

definition notification_key :: "notification_event \<Rightarrow> notification_key" where
  "notification_key e = (ne_recipientId e, ne_recordType e, ne_recordId e, ne_eventType e)"

text \<open>\<open>Map.set\<close>: the place of a key is that of its first entry.\<close>

fun map_set :: "'k \<Rightarrow> 'v \<Rightarrow> ('k \<times> 'v) list \<Rightarrow> ('k \<times> 'v) list" where
  "map_set k v [] = [(k, v)]"
| "map_set k v ((k', v') # m) = (if k' = k then (k, v) # m else (k', v') # map_set k v m)"

definition about_oneself :: "notification_event \<Rightarrow> bool" where
  "about_oneself e \<longleftrightarrow> ne_actorId e = Some (ne_recipientId e)"

definition collapse_step ::
  "notification_event \<Rightarrow> (notification_key \<times> (notification_event \<times> nat)) list \<Rightarrow>
     (notification_key \<times> (notification_event \<times> nat)) list" where
  "collapse_step e m =
     (if about_oneself e then m
      else map_set (notification_key e) (e, (case map_of m (notification_key e) of None \<Rightarrow> 0 | Some (_, n) \<Rightarrow> n) + 1) m)"

definition collapseNotificationRepeats :: "notification_event list \<Rightarrow> (notification_event \<times> nat) list" where
  "collapseNotificationRepeats events = map snd (fold collapse_step events [])"

section \<open>Webhook deliveries\<close>

record webhook_delivery = delivery_row +
  wh_url :: string
  wh_requestHeaders :: "(string \<times> string) list"
  wh_requestBody :: string
  wh_responseStatus :: "int option"
  wh_responseHeaders :: "(string \<times> string) list option"
  wh_responseBody :: "string option"
  wh_createdAt :: ms

definition RESPONSE_LIMIT :: nat where "RESPONSE_LIMIT = 64 * 1024"

definition DELIVERY_LEASE_MS :: int where "DELIVERY_LEASE_MS = 30000"

record attempt_result =
  ar_status :: delivery_status
  ar_nextAttemptAt :: "ms option"
  ar_completedAt :: "ms option"

text \<open>\<open>error ?\<close>: an empty message is no error.\<close>

definition webhookAttemptResult :: "int \<Rightarrow> int \<Rightarrow> string option \<Rightarrow> ms \<Rightarrow> workflow_error + attempt_result" where
  "webhookAttemptResult attempt maxAttempts error now =
     (let failed = error \<noteq> None \<and> error \<noteq> Some [] in
      bind_result (if failed then default_delay maxAttempts attempt else Inr None) (\<lambda>delay.
        Inr \<lparr>ar_status = (if failed then if delay = None then WB_failed else WB_retrying else WB_succeeded),
             ar_nextAttemptAt = map_option (\<lambda>d. now + d) delay,
             ar_completedAt = (if failed \<and> delay \<noteq> None then None else Some now)\<rparr>))"

text \<open>The body as the reader yields it, chunk by chunk, until the limit; \<open>decode\<close> decodes the bytes.\<close>

fun read_chunks :: "nat \<Rightarrow> string list \<Rightarrow> string" where
  "read_chunks got [] = []"
| "read_chunks got (c # cs) =
     (if RESPONSE_LIMIT \<le> got then []
      else take (RESPONSE_LIMIT - got) c @ read_chunks (got + min (length c) (RESPONSE_LIMIT - got)) cs)"

definition responseBody :: "(string \<Rightarrow> string) \<Rightarrow> string list option \<Rightarrow> string" where
  "responseBody decode body = (case body of None \<Rightarrow> [] | Some chunks \<Rightarrow> decode (read_chunks 0 chunks))"

record web_response =
  wr_status :: int
  wr_headers :: "(string \<times> string) list"
  wr_body :: "string list option"

record web_answer =
  wa_status :: "int option"
  wa_headers :: "(string \<times> string) list option"
  wa_body :: "string option"
  wa_error :: "string option"

definition request_failed :: "string \<Rightarrow> web_answer" where
  "request_failed message = \<lparr>wa_status = None, wa_headers = None, wa_body = None, wa_error = Some message\<rparr>"

text \<open>
  \<open>protocol_of\<close> is the protocol of \<open>new URL(\<dots>)\<close>, \<open>Inl\<close> the message where it throws; \<open>fetcher\<close> gives the response or the
  message of what it throws.
\<close>

definition sendWebhookRequest ::
  "(string \<Rightarrow> string + string) \<Rightarrow> (string \<Rightarrow> string) \<Rightarrow> (string \<Rightarrow> (string \<times> string) list \<Rightarrow> string \<Rightarrow> string + web_response) \<Rightarrow>
     'z webhook_delivery_scheme \<Rightarrow> web_answer" where
  "sendWebhookRequest protocol_of decode fetcher d =
     (case protocol_of (wh_url d) of
        Inl message \<Rightarrow> request_failed message
      | Inr protocol \<Rightarrow>
          if protocol \<noteq> ''http:'' \<and> protocol \<noteq> ''https:'' then request_failed ''Webhook URL must use HTTP or HTTPS''
          else (case fetcher (wh_url d) (wh_requestHeaders d) (wh_requestBody d) of
                  Inl message \<Rightarrow> request_failed message
                | Inr response \<Rightarrow> \<lparr>wa_status = Some (wr_status response), wa_headers = Some (wr_headers response),
                    wa_body = Some (responseBody decode (wr_body response)),
                    wa_error = (if 200 \<le> wr_status response \<and> wr_status response \<le> 299 then None
                      else Some (''HTTP '' @ js_int_string (wr_status response)))\<rparr>))"

text \<open>The two updates of \<open>deliverWebhook\<close>: the claim, and the result of the worker that claimed at \<open>claimedAt\<close>.\<close>

definition webhook_claimable :: "ms \<Rightarrow> 'z webhook_delivery_scheme \<Rightarrow> bool" where
  "webhook_claimable now d \<longleftrightarrow>
     ((dl_status d \<in> {WB_pending, WB_retrying} \<and> (dl_nextAttemptAt d = None \<or> at_most (dl_nextAttemptAt d) now)) \<or>
      (dl_status d = WB_delivering \<and> at_most (dl_claimedAt d) (now - DELIVERY_LEASE_MS))) \<and>
     dl_attemptCount d < dl_maxAttempts d"

definition webhook_claim :: "ms \<Rightarrow> 'z webhook_delivery_scheme \<Rightarrow> 'z webhook_delivery_scheme option" where
  "webhook_claim now d =
     (if webhook_claimable now d
      then Some (d\<lparr>dl_status := WB_delivering, dl_claimedAt := Some now, dl_attemptCount := dl_attemptCount d + 1\<rparr>) else None)"

definition webhook_settle :: "ms \<times> attempt_result \<times> web_answer \<Rightarrow> 'z webhook_delivery_scheme \<Rightarrow> 'z webhook_delivery_scheme" where
  "webhook_settle = (\<lambda>(claimedAt, result, answer) d.
     if dl_status d = WB_delivering \<and> dl_claimedAt d = Some claimedAt
     then d\<lparr>dl_status := ar_status result, dl_nextAttemptAt := ar_nextAttemptAt result, dl_completedAt := ar_completedAt result,
       dl_claimedAt := None, dl_lastError := wa_error answer, wh_responseStatus := wa_status answer,
       wh_responseHeaders := wa_headers answer, wh_responseBody := wa_body answer\<rparr>
     else d)"

text \<open>
  A delivery without another worker in between, on the row of its id: the row, and whether the result was
  written. \<open>now\<close> is the time of the claim and \<open>later\<close> that of the result. The error of the retry policy is impossible for a
  claimed row, whose attempt count and maximum are positive.
\<close>

definition deliverWebhook ::
  "('z webhook_delivery_scheme \<Rightarrow> web_answer) \<Rightarrow> ms \<Rightarrow> ms \<Rightarrow> 'z webhook_delivery_scheme \<Rightarrow> workflow_error + 'z webhook_delivery_scheme \<times> bool" where
  "deliverWebhook send now later d =
     (case webhook_claim now d of
        None \<Rightarrow> Inr (d, False)
      | Some c \<Rightarrow>
          bind_result (webhookAttemptResult (dl_attemptCount c) (dl_maxAttempts c) (wa_error (send c)) later) (\<lambda>result.
            Inr (webhook_settle (now, result, send c) c, True)))"

text \<open>The rows a sweep selects, oldest first.\<close>

definition due_deliveries :: "webhook_delivery list \<Rightarrow> int \<Rightarrow> ms \<Rightarrow> string list" where
  "due_deliveries ds limit now =
     map dl_id (take (clamp_limit 100 limit) (js_sort (\<lambda>a b. wh_createdAt a - wh_createdAt b) (filter (webhook_claimable now) ds)))"

section \<open>Properties\<close>

interpretation webhook_queue: lease_queue webhook_claim webhook_settle dl_attemptCount dl_maxAttempts
  by unfold_locales (auto simp: webhook_claim_def webhook_claimable_def webhook_settle_def split: if_splits)

text \<open>
  C7. However many workers claim a webhook delivery, in whatever order their results come in and however often
  leases expire: the request is sent at most as often as the delivery has attempts left.
\<close>

theorem webhook_attempts_bounded:
  assumes "dl_attemptCount d \<le> dl_maxAttempts d"
  shows "int (snd (deliveries webhook_claim webhook_settle es d)) \<le> dl_maxAttempts d - dl_attemptCount d"
  by (rule webhook_queue.deliveries_bounded [OF assms])

lemma retryDelayMs_defaults:
  assumes "1 \<le> a" and "m \<le> INT4_MAX" and "a \<le> m"
  shows "default_delay m a = Inr (if m \<le> a then None else Some (min 60000 (1000 * 2 ^ nat (a - 1))))"
proof -
  have "positive_safe (''attempt'', a)" "positive_safe (''maxAttempts'', m)" "positive_safe (''baseMs'', 1000)" "positive_safe (''maxMs'', 60000)"
    using assms by (auto simp: positive_safe_def safe_int_def INT4_MAX_def)
  then show ?thesis by (simp add: default_delay_def retryDelayMs_def first_row_def)
qed

text \<open>\<open>null\<close> where the code gives no delay.\<close>

definition retry_delay :: "int \<Rightarrow> int \<Rightarrow> int option" where
  "retry_delay m a = (case default_delay m a of Inl _ \<Rightarrow> None | Inr d \<Rightarrow> d)"

lemma retry_delay_Some: "retry_delay m a = Some d \<Longrightarrow> 1 \<le> a \<Longrightarrow> a < m \<and> d = min 60000 (1000 * 2 ^ nat (a - 1))"
  by (auto simp: retry_delay_def default_delay_def retryDelayMs_def split: sum.splits option.splits if_splits)

interpretation webhook_retry: bounded_retry retry_delay 60000
proof
  fix a m d e :: int
  assume a: "1 \<le> a"
  show "m \<le> a \<Longrightarrow> retry_delay m a = None"
    by (auto simp: retry_delay_def default_delay_def retryDelayMs_def split: option.splits)
  have "(1 :: int) \<le> 2 ^ nat (a - 1)" by simp
  then show "a < m \<Longrightarrow> m \<le> INT4_MAX \<Longrightarrow> \<exists>d. retry_delay m a = Some d \<and> 0 < d \<and> d \<le> 60000"
    using retryDelayMs_defaults [OF a, of m] by (simp add: retry_delay_def)
  assume "retry_delay m a = Some d" "retry_delay m (a + 1) = Some e"
  then have "d = min 60000 (1000 * 2 ^ nat (a - 1))" "e = min 60000 (1000 * 2 ^ nat a)"
    using retry_delay_Some a by fastforce+
  moreover have "nat (a - 1) \<le> nat a" by simp
  then have "(2 :: int) ^ nat (a - 1) \<le> 2 ^ nat a" by (rule power_increasing) simp
  ultimately show "d \<le> e" by linarith
qed

lemma read_chunks_take: "read_chunks got chunks = take (RESPONSE_LIMIT - got) (concat chunks)"
  by (induction chunks arbitrary: got) (auto simp: min_def)

text \<open>
  The body of a response is read up to the limit of 64 KiB, however it is cut into chunks.
\<close>

theorem responseBody_limit:
  "responseBody decode (Some chunks) = decode (take RESPONSE_LIMIT (concat chunks))"
  by (simp add: responseBody_def read_chunks_take)

text \<open>A row that waits for a delivery at a time \<open>now\<close>, and a delivery of it without another worker in between.\<close>

definition waiting :: "ms \<Rightarrow> 'z webhook_delivery_scheme \<Rightarrow> bool" where
  "waiting now d \<longleftrightarrow> dl_status d \<in> {WB_pending, WB_retrying} \<and> (dl_nextAttemptAt d = None \<or> at_most (dl_nextAttemptAt d) now) \<and>
     0 \<le> dl_attemptCount d \<and> dl_maxAttempts d \<le> INT4_MAX"

definition dl_left :: "'z webhook_delivery_scheme \<Rightarrow> nat" where
  "dl_left d = nat (dl_maxAttempts d - dl_attemptCount d)"

definition deliver_row :: "('z webhook_delivery_scheme \<Rightarrow> web_answer) \<Rightarrow> ms \<times> ms \<Rightarrow> 'z webhook_delivery_scheme \<Rightarrow> 'z webhook_delivery_scheme" where
  "deliver_row send t d = (case deliverWebhook send (fst t) (snd t) d of Inl _ \<Rightarrow> d | Inr (d', _) \<Rightarrow> d')"

definition always_fails :: "('r \<Rightarrow> web_answer) \<Rightarrow> bool" where
  "always_fails send \<longleftrightarrow> (\<forall>d. wa_error (send d) \<noteq> None \<and> wa_error (send d) \<noteq> Some [])"

lemma failing_delivery:
  assumes "always_fails send" and "waiting (fst t) d" and "dl_attemptCount d < dl_maxAttempts d"
  obtains answer :: web_answer where "deliver_row send t d =
    d\<lparr>dl_status := if dl_attemptCount d + 1 < dl_maxAttempts d then WB_retrying else WB_failed,
      dl_attemptCount := dl_attemptCount d + 1, dl_claimedAt := None,
      dl_nextAttemptAt := map_option (\<lambda>w. snd t + w) (retry_delay (dl_maxAttempts d) (dl_attemptCount d + 1)),
      dl_completedAt := if dl_attemptCount d + 1 < dl_maxAttempts d then None else Some (snd t),
      dl_lastError := wa_error answer, wh_responseStatus := wa_status answer,
      wh_responseHeaders := wa_headers answer, wh_responseBody := wa_body answer\<rparr>"
proof -
  define c where "c = d\<lparr>dl_status := WB_delivering, dl_claimedAt := Some (fst t), dl_attemptCount := dl_attemptCount d + 1\<rparr>"
  have claim: "webhook_claim (fst t) d = Some c"
    using assms(2,3) by (simp add: webhook_claim_def webhook_claimable_def waiting_def c_def)
  have delay: "default_delay (dl_maxAttempts d) (dl_attemptCount d + 1) = Inr (retry_delay (dl_maxAttempts d) (dl_attemptCount d + 1))"
    using assms(2,3) retryDelayMs_defaults [of "dl_attemptCount d + 1" "dl_maxAttempts d"] by (simp add: waiting_def retry_delay_def)
  have none: "retry_delay (dl_maxAttempts d) (dl_attemptCount d + 1) = None \<longleftrightarrow> \<not> dl_attemptCount d + 1 < dl_maxAttempts d"
    using assms(2,3) retryDelayMs_defaults [of "dl_attemptCount d + 1" "dl_maxAttempts d"] by (auto simp: waiting_def retry_delay_def)
  have "wa_error (send c) \<noteq> None \<and> wa_error (send c) \<noteq> Some []" using assms(1) by (simp add: always_fails_def)
  then have "deliver_row send t d = d\<lparr>dl_status := if dl_attemptCount d + 1 < dl_maxAttempts d then WB_retrying else WB_failed,
      dl_attemptCount := dl_attemptCount d + 1, dl_claimedAt := None,
      dl_nextAttemptAt := map_option (\<lambda>w. snd t + w) (retry_delay (dl_maxAttempts d) (dl_attemptCount d + 1)),
      dl_completedAt := if dl_attemptCount d + 1 < dl_maxAttempts d then None else Some (snd t),
      dl_lastError := wa_error (send c), wh_responseStatus := wa_status (send c),
      wh_responseHeaders := wa_headers (send c), wh_responseBody := wa_body (send c)\<rparr>"
    by (simp add: deliver_row_def deliverWebhook_def claim webhookAttemptResult_def c_def delay none webhook_settle_def)
  then show thesis by (rule that)
qed

lemma failing_delivery_facts:
  assumes "always_fails send" and "waiting (fst t) d" and "dl_attemptCount d < dl_maxAttempts d"
  shows "dl_left (deliver_row send t d) = dl_left d - 1"
    and "dl_status (deliver_row send t d) = (if dl_left d = 1 then WB_failed else WB_retrying)"
    and "dl_left d \<noteq> 1 \<Longrightarrow> snd t + 60000 \<le> u \<Longrightarrow> waiting u (deliver_row send t d)"
proof -
  obtain answer :: web_answer where d: "deliver_row send t d =
    d\<lparr>dl_status := if dl_attemptCount d + 1 < dl_maxAttempts d then WB_retrying else WB_failed,
      dl_attemptCount := dl_attemptCount d + 1, dl_claimedAt := None,
      dl_nextAttemptAt := map_option (\<lambda>w. snd t + w) (retry_delay (dl_maxAttempts d) (dl_attemptCount d + 1)),
      dl_completedAt := if dl_attemptCount d + 1 < dl_maxAttempts d then None else Some (snd t),
      dl_lastError := wa_error answer, wh_responseStatus := wa_status answer,
      wh_responseHeaders := wa_headers answer, wh_responseBody := wa_body answer\<rparr>"
    by (rule failing_delivery [OF assms])
  show "dl_left (deliver_row send t d) = dl_left d - 1" using assms(3) by (simp add: d dl_left_def)
  show "dl_status (deliver_row send t d) = (if dl_left d = 1 then WB_failed else WB_retrying)"
    using assms(3) by (auto simp: d dl_left_def)
  assume "dl_left d \<noteq> 1" "snd t + 60000 \<le> u"
  moreover have "\<exists>w. retry_delay (dl_maxAttempts d) (dl_attemptCount d + 1) = Some w \<and> w \<le> 60000"
    if "dl_attemptCount d + 1 < dl_maxAttempts d"
    using webhook_retry.retry_continues [OF _ that] assms(2) by (auto simp: waiting_def)
  ultimately show "waiting u (deliver_row send t d)"
    using assms(2,3) by (fastforce simp: d dl_left_def waiting_def)
qed

interpretation webhook_failing: failing_queue "deliver_row send" "\<lambda>u d. waiting u d \<and> always_fails send" "\<lambda>d. dl_status d = WB_failed" dl_left 60000
  for send :: "webhook_delivery \<Rightarrow> web_answer"
proof
  fix t :: "ms \<times> ms" and n and d :: webhook_delivery
  assume due: "waiting (fst t) d \<and> always_fails send"
  have less: "dl_attemptCount d < dl_maxAttempts d" if "dl_left d = Suc k" for k using that by (simp add: dl_left_def)
  show "dl_left d = Suc n \<Longrightarrow> dl_left (deliver_row send t d) = n"
    using failing_delivery_facts(1) [of send t d] due less by simp
  show "dl_left d = Suc (Suc n) \<Longrightarrow> dl_status (deliver_row send t d) \<noteq> WB_failed \<and>
      (\<forall>u\<ge>snd t + 60000. waiting u (deliver_row send t d) \<and> always_fails send)"
    using failing_delivery_facts(2,3) [of send t d] due less by simp
  show "dl_left d = Suc 0 \<Longrightarrow> dl_status (deliver_row send t d) = WB_failed"
    using failing_delivery_facts(2) [of send t d] due less by simp
qed

text \<open>
  An endpoint that always fails is given up: delivered at intervals of at least a minute, which is
  the longest delay, the delivery is marked as failed after exactly the attempts it has left, and not earlier.
\<close>

theorem deliverWebhook_gives_up:
  assumes "sorted_wrt (\<lambda>s t. snd s + 60000 \<le> fst t) (t # ts)" and "waiting (fst t) (d :: webhook_delivery)" and "always_fails send"
    and "length (t # ts) \<le> dl_left d"
  shows "dl_status (fold (deliver_row send) (t # ts) d) = WB_failed \<longleftrightarrow> length (t # ts) = dl_left d"
  using assms(2,3) by (intro webhook_failing.gives_up [OF assms(1) _ assms(4)]) simp

text \<open>
  Only the holder of the claim writes the result: once the lease of a worker has expired and another one has claimed the
  delivery, whatever the first reports is dropped, and the result of the second is stored.
\<close>

theorem webhook_holder_settles:
  assumes "webhook_claim t1 d = Some d1" and "webhook_claim t2 d1 = Some d2"
  shows "t1 + DELIVERY_LEASE_MS \<le> t2 \<and> webhook_settle (t1, result1, answer1) d2 = d2 \<and>
    dl_status (webhook_settle (t2, result2, answer2) (webhook_settle (t1, result1, answer1) d2)) = ar_status result2"
  using assms by (auto simp: webhook_claim_def webhook_claimable_def webhook_settle_def DELIVERY_LEASE_MS_def split: if_splits)

section \<open>Collapsing\<close>

lemma map_set_facts:
  "map_of (map_set k v m) = (map_of m)(k \<mapsto> v)"
  "map fst (map_set k v m) = (if k \<in> fst ` set m then map fst m else map fst m @ [k])"
proof -
  show "map_of (map_set k v m) = (map_of m)(k \<mapsto> v)" by (induction m) (auto simp: fun_eq_iff)
  show "map fst (map_set k v m) = (if k \<in> fst ` set m then map fst m else map fst m @ [k])"
    by (induction m) (force simp: image_iff)+
qed

text \<open>The events that count for a key, and what a map holds for it after a list of events.\<close>

definition events_for :: "notification_key \<Rightarrow> notification_event list \<Rightarrow> notification_event list" where
  "events_for k es = filter (\<lambda>e. \<not> about_oneself e \<and> notification_key e = k) es"

lemma collapse_fold:
  "distinct (map fst (fold collapse_step es [])) \<and>
   (\<forall>k. map_of (fold collapse_step es []) k = map_option (\<lambda>e. (e, length (events_for k es))) (last_of (events_for k es)))"
proof (induction es rule: rev_induct)
  case (snoc e es)
  let ?m = "fold collapse_step es []"
  have count: "(case map_of ?m (notification_key e) of None \<Rightarrow> 0 | Some (_, n) \<Rightarrow> n) = length (events_for (notification_key e) es)"
    using spec [OF conjunct2 [OF snoc], of "notification_key e"] by (simp add: last_of_def events_for_def split: if_splits)
  show ?case
  proof (cases "about_oneself e")
    case True
    then show ?thesis using snoc by (simp add: collapse_step_def events_for_def)
  next
    case False
    then have m: "collapse_step e ?m = map_set (notification_key e) (e, length (events_for (notification_key e) es) + 1) ?m"
      by (simp add: collapse_step_def count)
    have "events_for k (es @ [e]) = (if k = notification_key e then events_for k es @ [e] else events_for k es)" for k
      using False by (simp add: events_for_def)
    then show ?thesis
      using snoc by (auto simp: m map_set_facts last_of_def simp del: split_paired_All)
  qed
qed (simp add: events_for_def last_of_def)

lemma map_snd_iff: "y \<in> set (map snd m) \<longleftrightarrow> (\<exists>k. (k, y) \<in> set m)"
  by (induction m) auto

text \<open>
  Repeated notifications are collapsed without loss: one entry per recipient, record and type, which
  carries the latest event and the number of events, those about one's own actions left out.
\<close>

theorem collapseNotificationRepeats_counts:
  "distinct (map (notification_key \<circ> fst) (collapseNotificationRepeats es)) \<and>
   (\<forall>k e n. (e, n) \<in> set (collapseNotificationRepeats es) \<and> notification_key e = k \<longleftrightarrow>
      events_for k es \<noteq> [] \<and> e = List.last (events_for k es) \<and> n = length (events_for k es))"
proof -
  let ?m = "fold collapse_step es []"
  have dist: "distinct (map fst ?m)"
    and held: "map_of ?m k = map_option (\<lambda>e. (e, length (events_for k es))) (last_of (events_for k es))" for k
    using collapse_fold [of es] by blast+
  have mem: "(k, e, n) \<in> set ?m \<longleftrightarrow> events_for k es \<noteq> [] \<and> e = List.last (events_for k es) \<and> n = length (events_for k es)" for k e n
    using map_of_eq_Some_iff [OF dist, of k "(e, n)"] held [of k] by (auto simp: last_of_def split: if_splits)
  have key: "notification_key e = k" if "(k, e, n) \<in> set ?m" for k e n
    using that last_in_set [of "events_for k es"] unfolding mem by (auto simp: events_for_def)
  then have key: "notification_key (fst (snd x)) = fst x" if "x \<in> set ?m" for x
    using that by (cases x) auto
  have "map (notification_key \<circ> fst) (collapseNotificationRepeats es) = map fst ?m"
    unfolding collapseNotificationRepeats_def map_map using key by (intro map_cong) simp_all
  moreover have "(e, n) \<in> set (collapseNotificationRepeats es) \<longleftrightarrow> (\<exists>k. (k, e, n) \<in> set ?m)" for e n
    unfolding collapseNotificationRepeats_def by (rule map_snd_iff)
  then have "(e, n) \<in> set (collapseNotificationRepeats es) \<and> notification_key e = k \<longleftrightarrow> (k, e, n) \<in> set ?m" for k e n
    using key [of "(k', e, n)" for k'] by (metis fst_conv snd_conv)
  ultimately show ?thesis using dist mem by simp
qed

section \<open>Examples\<close>

definition sample_delivery :: webhook_delivery where
  "sample_delivery = \<lparr>dl_id = ''d1'', dl_status = WB_pending, dl_attemptCount = 0, dl_maxAttempts = 2, dl_nextAttemptAt = None,
     dl_claimedAt = None, dl_completedAt = None, dl_lastError = None, wh_url = ''https://example.org/hook'', wh_requestHeaders = [],
     wh_requestBody = ''{}'', wh_responseStatus = None, wh_responseHeaders = None, wh_responseBody = None, wh_createdAt = 0\<rparr>"

definition sample_send :: "webhook_delivery \<Rightarrow> web_answer" where
  "sample_send d = request_failed ''refused''"

text \<open>Two workers, the second after the lease of the first; a third finds the attempts used up.\<close>

definition sample_history :: "(ms, ms \<times> attempt_result \<times> web_answer) delivery_event list" where
  "sample_history = [Ev_claim 0, Ev_claim 30000, Ev_claim 60000]"

theorem webhook_attempts_bounded_witness:
  "snd (deliveries webhook_claim webhook_settle sample_history sample_delivery) = 2 \<and>
   int (snd (deliveries webhook_claim webhook_settle sample_history sample_delivery)) \<le> dl_maxAttempts sample_delivery"
proof -
  have "snd (deliveries webhook_claim webhook_settle sample_history sample_delivery) = 2" by code_simp
  then show ?thesis using webhook_attempts_bounded [of sample_delivery sample_history] by (simp add: sample_delivery_def)
qed

theorem deliverWebhook_gives_up_witness:
  "dl_status (fold (deliver_row sample_send) [(0, 100), (60100, 60200)] sample_delivery) = WB_failed"
proof -
  have "always_fails sample_send" by (simp add: always_fails_def sample_send_def request_failed_def)
  moreover have "waiting (fst (0, 100)) sample_delivery" "length [(0 :: ms, 100 :: ms), (60100, 60200)] = dl_left sample_delivery"
    by (simp_all add: waiting_def sample_delivery_def INT4_MAX_def dl_left_def)
  ultimately show ?thesis
    using deliverWebhook_gives_up [of "(0, 100)" "[(60100, 60200)]" sample_delivery sample_send] by simp
qed

theorem webhook_holder_settles_witness:
  "\<exists>d1 d2. webhook_claim 0 sample_delivery = Some d1 \<and> webhook_claim 30000 d1 = Some d2 \<and>
     webhook_settle (0, \<lparr>ar_status = WB_failed, ar_nextAttemptAt = None, ar_completedAt = None\<rparr>, sample_send d1) d2 = d2"
proof -
  obtain d1 where d1: "webhook_claim 0 sample_delivery = Some d1" "dl_status d1 = WB_delivering" "dl_claimedAt d1 = Some 0"
    "dl_attemptCount d1 < dl_maxAttempts d1"
    by (simp add: webhook_claim_def webhook_claimable_def sample_delivery_def)
  then obtain d2 where d2: "webhook_claim 30000 d1 = Some d2"
    by (simp add: webhook_claim_def webhook_claimable_def DELIVERY_LEASE_MS_def)
  show ?thesis using webhook_holder_settles [OF d1(1) d2] d1(1) d2 by blast
qed

end
