(* ===== verification/Writeback.thy ===== *)
theory Writeback
  imports ConnectorStore Environments Workflows
begin

text \<open>
  What a terminal run leaves behind in the customer's system: the pure decisions of \<open>server/connectors/core.ts\<close>, the
  durable work notes of \<open>writeback.ts\<close>, and \<open>terminal.ts\<close>, which queues a note, records a proposal and later asks what
  became of it. The transport, which posts a note, is a parameter; so are \<open>JSON.stringify\<close> and the ids.
\<close>

section \<open>Decisions\<close>

definition writebackDelayMs :: "int \<Rightarrow> int \<Rightarrow> int \<Rightarrow> int \<Rightarrow> int option" where
  "writebackDelayMs attempt baseMs maxMs maxAttempts =
     (if attempt < 1 then Some baseMs
      else if maxAttempts \<le> attempt then None
      else Some (min maxMs (baseMs * 2 ^ nat (attempt - 1))))"

definition writeback_delay :: "int \<Rightarrow> int \<Rightarrow> int option" where
  "writeback_delay maxAttempts attempt = writebackDelayMs attempt 1000 60000 maxAttempts"

definition writebackOutcome :: "int \<Rightarrow> int \<Rightarrow> bool \<Rightarrow> ms \<Rightarrow> attempt_result" where
  "writebackOutcome attempt maxAttempts failed now =
     (let delay = if failed then writeback_delay maxAttempts attempt else None
      in \<lparr>ar_status = (if failed then if delay = None then WB_failed else WB_retrying else WB_succeeded),
          ar_nextAttemptAt = map_option (\<lambda>d. now + d) delay,
          ar_completedAt = (if failed \<and> delay \<noteq> None then None else Some now)\<rparr>)"

record suppressed_call =
  sp_tool :: string
  sp_input :: jsval
  sp_ordinal :: int

record note_params =
  np_shadow :: bool
  np_status :: string
  np_outcome :: "string option"
  np_evidence :: "string option"
  np_resolutionCode :: "string option"
  np_suppressedCalls :: "suppressed_call list"
  np_runUrl :: "string option"

text \<open>Characters beyond a byte are written as the bytes of their UTF-8 form.\<close>

definition axioma :: string where "axioma = ''Axi'' @ [CHR 0xC5, CHR 0x8D] @ ''ma''"

definition em_dash :: string where "em_dash = [CHR 0xE2, CHR 0x80, CHR 0x94]"

definition whatToDo :: "note_params \<Rightarrow> string" where
  "whatToDo p =
     (if np_shadow p
      then if np_suppressedCalls p \<noteq> []
        then ''Review the proposal below and decide whether to apply it yourself. '' @ axioma @ '' did not act.''
        else ''Nothing '' @ em_dash @ '' '' @ axioma @ '' reached no action worth proposing. Work this ticket normally.''
      else if np_status p = ''resolved''
      then ''Nothing '' @ em_dash @ '' the fix was applied and verified. Close this ticket if you agree.''
      else if np_status p = ''escalated''
      then ''Take this over. '' @ axioma @ '' stopped deliberately; its reasoning and evidence are below.''
      else ''Take this over. '' @ axioma @ '' could not finish, so treat its findings as partial.'')"

definition newline :: string where "newline = [CHR 0x0A]"

definition note_lines :: "(jsval \<Rightarrow> string) \<Rightarrow> note_params \<Rightarrow> string list" where
  "note_lines stringify p =
     [(if np_shadow p then axioma @ '' ran in shadow mode. Nothing was changed.'' else axioma @ '' worked this ticket.''), [],
      ''What to do: '' @ whatToDo p] @
     (case non_empty (np_outcome p) of None \<Rightarrow> [] | Some s \<Rightarrow> [[], ''Diagnosis: '' @ s]) @
     (case non_empty (np_resolutionCode p) of None \<Rightarrow> [] | Some s \<Rightarrow> [''Resolution code: '' @ s]) @
     (if np_suppressedCalls p = [] then []
      else [[], if np_shadow p then ''Proposed, not taken:'' else ''Actions taken:''] @
        map (\<lambda>c. ''- '' @ sp_tool c @ '' '' @ stringify (sp_input c)) (np_suppressedCalls p)) @
     (case non_empty (np_evidence p) of None \<Rightarrow> [] | Some s \<Rightarrow> [[], ''Evidence:'', s]) @
     (case non_empty (np_runUrl p) of None \<Rightarrow> [] | Some s \<Rightarrow> [[], ''Full transcript: '' @ s])"

definition renderWorkNote :: "(jsval \<Rightarrow> string) \<Rightarrow> note_params \<Rightarrow> string" where
  "renderWorkNote stringify p = js_join newline (note_lines stringify p)"

section \<open>The tables\<close>

record writeback_row = delivery_row +
  wb_connectorId :: string
  wb_ticketId :: string
  wb_runId :: "string option"
  wb_note :: string
  wb_externalId :: string
  wb_correlationId :: "string option"
  wb_externalReceiptId :: "string option"

record step_row =
  sr_runId :: string
  sr_ordinal :: int
  sr_toolName :: "string option"
  sr_toolInput :: jsval
  sr_error :: "string option"

record proposal_row =
  pp_id :: string
  pp_runId :: string
  pp_ticketId :: string
  pp_connectorId :: string
  pp_suppressedCalls :: "suppressed_call list"
  pp_postedAt :: "ms option"
  pp_foreignResolution :: "string option"
  pp_foreignClosedBy :: "string option"
  pp_observedAt :: "ms option"
  pp_createdAt :: ms

record runtime_db =
  rt_db :: connector_db
  rt_env :: environment_db
  rt_writebacks :: "writeback_row list"
  rt_proposals :: "proposal_row list"
  rt_steps :: "step_row list"

section \<open>Work notes\<close>

record note_request =
  nr_connectorId :: string
  nr_ticketId :: string
  nr_runId :: "string option"
  nr_note :: string
  nr_externalId :: string
  nr_correlationId :: "string option"

definition queueWorkNote :: "string \<Rightarrow> ms \<Rightarrow> note_request \<Rightarrow> runtime_db \<Rightarrow> runtime_db" where
  "queueWorkNote rid now q db = db\<lparr>rt_writebacks := rt_writebacks db @
     [\<lparr>dl_id = rid, dl_status = WB_pending, dl_attemptCount = 0, dl_maxAttempts = 5, dl_nextAttemptAt = Some now,
       dl_claimedAt = None, dl_completedAt = None, dl_lastError = None, wb_connectorId = nr_connectorId q, wb_ticketId = nr_ticketId q,
       wb_runId = nr_runId q, wb_note = nr_note q, wb_externalId = nr_externalId q, wb_correlationId = nr_correlationId q,
       wb_externalReceiptId = None\<rparr>]\<rparr>"

definition writeback_lease_ms :: int where "writeback_lease_ms = 30000"

definition writeback_claimable :: "ms \<Rightarrow> 'z delivery_row_scheme \<Rightarrow> bool" where
  "writeback_claimable now w \<longleftrightarrow> dl_attemptCount w < dl_maxAttempts w \<and>
     ((dl_status w \<in> {WB_pending, WB_retrying} \<and> (dl_nextAttemptAt w = None \<or> at_most (dl_nextAttemptAt w) now)) \<or>
      (dl_status w = WB_delivering \<and> at_most (dl_claimedAt w) (now - writeback_lease_ms)))"

definition writeback_claim :: "ms \<Rightarrow> 'z delivery_row_scheme \<Rightarrow> 'z delivery_row_scheme option" where
  "writeback_claim now w =
     (if writeback_claimable now w
      then Some (w\<lparr>dl_status := WB_delivering, dl_claimedAt := Some now, dl_attemptCount := dl_attemptCount w + 1\<rparr>) else None)"

text \<open>The result of an attempt: its outcome, the failure and the receipt.\<close>

definition writeback_settle :: "attempt_result \<times> string option \<times> string option \<Rightarrow> writeback_row \<Rightarrow> writeback_row" where
  "writeback_settle = (\<lambda>(outcome, failure, receipt) w.
     if dl_status w = WB_delivering
     then w\<lparr>dl_status := ar_status outcome, dl_nextAttemptAt := ar_nextAttemptAt outcome, dl_completedAt := ar_completedAt outcome,
       dl_lastError := failure, wb_externalReceiptId := receipt\<rparr>
     else w)"

text \<open>\<open>postWorkNote\<close>: the message of what it throws, or the foreign time stamp and the receipt.\<close>

type_synonym transport = "string \<Rightarrow> string \<Rightarrow> string option \<Rightarrow> string + string option \<times> string option"

definition set_writeback :: "string \<Rightarrow> (writeback_row \<Rightarrow> writeback_row) \<Rightarrow> runtime_db \<Rightarrow> runtime_db" where
  "set_writeback i f db = db\<lparr>rt_writebacks := fst (sql_update (\<lambda>w. dl_id w = i) f (rt_writebacks db))\<rparr>"

definition set_origin :: "string \<Rightarrow> (origin_row \<Rightarrow> origin_row) \<Rightarrow> runtime_db \<Rightarrow> runtime_db" where
  "set_origin ticketId f db =
     db\<lparr>rt_db := (rt_db db)\<lparr>db_origins := fst (sql_update (\<lambda>o'. og_ticketId o' = ticketId) f (db_origins (rt_db db)))\<rparr>\<rparr>"

text \<open>
  A delivery without another worker in between: the database, and whether the row was claimed, or what is
  thrown where the foreign time stamp is no date.
\<close>

definition deliverWriteback ::
  "(string \<Rightarrow> js_date) \<Rightarrow> string \<Rightarrow> transport \<Rightarrow> ms \<Rightarrow> runtime_db \<Rightarrow> runtime_db \<times> (store_error + bool)" where
  "deliverWriteback date_parse i send_note now db =
     (case first_row (\<lambda>w. dl_id w = i) (rt_writebacks db) of
        None \<Rightarrow> (db, Inr False)
      | Some w \<Rightarrow>
          (case writeback_claim now w of
             None \<Rightarrow> (db, Inr False)
           | Some c \<Rightarrow>
               let answer = send_note (wb_externalId c) (wb_note c) (wb_correlationId c);
                   failure = (case answer of Inl message \<Rightarrow> Some message | Inr _ \<Rightarrow> None);
                   stamp = (case answer of Inl _ \<Rightarrow> None | Inr (updatedAt, _) \<Rightarrow> non_empty updatedAt);
                   receipt = (case answer of Inl _ \<Rightarrow> None | Inr (_, r) \<Rightarrow> r);
                   outcome = writebackOutcome (dl_attemptCount c) (dl_maxAttempts c) (failure \<noteq> None) now;
                   db' = set_writeback i (\<lambda>_. writeback_settle (outcome, failure, receipt) c) db
               in (case stamp of
                     None \<Rightarrow> (db', Inr True)
                   | Some s \<Rightarrow>
                       (case date_parse s of
                          None \<Rightarrow> (db', Inl Store_invalid_date)
                        | Some t \<Rightarrow> (set_origin (wb_ticketId c) (\<lambda>o'. o'\<lparr>og_lastWrittenAt := Some t\<rparr>) db', Inr True)))))"

definition due_writebacks :: "ms \<Rightarrow> int \<Rightarrow> runtime_db \<Rightarrow> (string \<times> string) list" where
  "due_writebacks now limit db =
     map (\<lambda>w. (dl_id w, wb_connectorId w)) (take (clamp_limit 100 limit)
       (filter (\<lambda>w. (\<exists>c\<in>set (db_connectors (rt_db db)). cn_id c = wb_connectorId w \<and> cn_enabled c) \<and>
          dl_status w \<in> {WB_pending, WB_retrying} \<and> (dl_nextAttemptAt w = None \<or> at_most (dl_nextAttemptAt w) now)) (rt_writebacks db)))"

fun deliver_due ::
  "(string \<Rightarrow> js_date) \<Rightarrow> (string \<Rightarrow> transport option) \<Rightarrow> ms \<Rightarrow> (string \<times> string) list \<Rightarrow> runtime_db \<Rightarrow> runtime_db \<times> (store_error + string list)" where
  "deliver_due date_parse transport_for now [] db = (db, Inr [])"
| "deliver_due date_parse transport_for now ((i, connectorId) # due) db =
     (case transport_for connectorId of
        None \<Rightarrow> deliver_due date_parse transport_for now due db
      | Some send_note \<Rightarrow>
          (case deliverWriteback date_parse i send_note now db of
             (db', Inl e) \<Rightarrow> (db', Inl e)
           | (db', Inr claimed) \<Rightarrow>
               (case deliver_due date_parse transport_for now due db' of
                  (db'', r) \<Rightarrow> (db'', bind_result r (\<lambda>ids. Inr (if claimed then i # ids else ids))))))"

definition sweepWritebacks ::
  "(string \<Rightarrow> js_date) \<Rightarrow> (string \<Rightarrow> transport option) \<Rightarrow> int \<Rightarrow> ms \<Rightarrow> runtime_db \<Rightarrow> runtime_db \<times> (store_error + string list)" where
  "sweepWritebacks date_parse transport_for limit now db = deliver_due date_parse transport_for now (due_writebacks now limit db) db"

section \<open>The end of a run\<close>

definition refusal_text :: string where "refusal_text = ''shadow mode; refusing write tool''"

definition suppressedCallsForRun :: "runtime_db \<Rightarrow> string \<Rightarrow> suppressed_call list" where
  "suppressedCallsForRun db runId =
     map (\<lambda>r. \<lparr>sp_tool = (case sr_toolName r of None \<Rightarrow> ''unknown'' | Some t \<Rightarrow> t), sp_input = sr_toolInput r, sp_ordinal = sr_ordinal r\<rparr>)
       (js_sort (\<lambda>a b. sr_ordinal a - sr_ordinal b)
         (filter (\<lambda>r. sr_runId r = runId \<and> (case sr_error r of None \<Rightarrow> False | Some e \<Rightarrow> js_includes e refusal_text)) (rt_steps db)))"

record terminal_run =
  tr_runId :: string
  tr_status :: string
  tr_outcome :: "string option"
  tr_evidence :: "string option"
  tr_resolutionCode :: "string option"

definition shadow_run :: "runtime_db \<Rightarrow> string \<Rightarrow> bool" where
  "shadow_run db runId = (case ru_environment (loadRunEnvironment (rt_env db) runId) of None \<Rightarrow> False | Some (_, mode, _) \<Rightarrow> mode = Mode_shadow)"

text \<open>\<open>proposal_id\<close> and \<open>note_id\<close> are the generated ids.\<close>

definition onRunTerminal ::
  "(jsval \<Rightarrow> string) \<Rightarrow> string \<Rightarrow> string \<Rightarrow> ms \<Rightarrow> terminal_run \<Rightarrow> runtime_db \<Rightarrow> runtime_db" where
  "onRunTerminal stringify proposal_id note_id now run db =
     (case first_row (\<lambda>r. rn_id r = tr_runId run) (ed_runs (rt_env db)) of
        None \<Rightarrow> db
      | Some linked \<Rightarrow>
          (case first_row (\<lambda>o'. og_ticketId o' = rn_ticketId linked) (db_origins (rt_db db)) of
             None \<Rightarrow> db
           | Some origin \<Rightarrow>
               (case first_row (\<lambda>c. cn_id c = og_connectorId origin) (db_connectors (rt_db db)) of
                  None \<Rightarrow> db
                | Some connector \<Rightarrow>
                    let shadow = shadow_run db (tr_runId run);
                        suppressed = suppressedCallsForRun db (tr_runId run);
                        proposal = \<lparr>pp_id = proposal_id, pp_runId = tr_runId run, pp_ticketId = rn_ticketId linked,
                          pp_connectorId = og_connectorId origin, pp_suppressedCalls = suppressed, pp_postedAt = Some now,
                          pp_foreignResolution = None, pp_foreignClosedBy = None, pp_observedAt = None, pp_createdAt = now\<rparr>;
                        db' = if shadow then db\<lparr>rt_proposals := fst (sql_insert_new pp_runId proposal (rt_proposals db))\<rparr> else db
                    in if \<not> cn_enabled connector then db'
                       else queueWorkNote note_id now
                         \<lparr>nr_connectorId = og_connectorId origin, nr_ticketId = rn_ticketId linked, nr_runId = Some (tr_runId run),
                          nr_note = renderWorkNote stringify \<lparr>np_shadow = shadow, np_status = tr_status run, np_outcome = tr_outcome run,
                            np_evidence = tr_evidence run, np_resolutionCode = tr_resolutionCode run, np_suppressedCalls = suppressed,
                            np_runUrl = None\<rparr>,
                          nr_externalId = og_externalId origin, nr_correlationId = Some (og_externalKey origin)\<rparr> db')))"

text \<open>\<open>fetch_state\<close> gives the state of a foreign ticket, \<open>None\<close> where there is none, or throws; it has no effect on the database.\<close>

definition pending_proposals :: "int \<Rightarrow> runtime_db \<Rightarrow> (string \<times> string \<times> string) list" where
  "pending_proposals limit db =
     map (\<lambda>(p, o'). (pp_id p, pp_connectorId p, og_externalId o'))
       (take (clamp_limit 100 limit)
         (js_sort (\<lambda>a b. pp_createdAt (fst a) - pp_createdAt (fst b))
           (concat (map (\<lambda>p. map (Pair p) (filter (\<lambda>o'. og_ticketId o' = pp_ticketId p) (db_origins (rt_db db))))
             (filter (\<lambda>p. pp_foreignResolution p = None) (rt_proposals db))))))"

definition fill_proposal :: "string \<Rightarrow> string \<Rightarrow> string option \<Rightarrow> ms \<Rightarrow> runtime_db \<Rightarrow> runtime_db" where
  "fill_proposal i resolution closedBy now db = db\<lparr>rt_proposals := fst (sql_update (\<lambda>p. pp_id p = i)
     (\<lambda>p. p\<lparr>pp_foreignResolution := Some resolution, pp_foreignClosedBy := closedBy, pp_observedAt := Some now\<rparr>) (rt_proposals db))\<rparr>"

fun backfill_all ::
  "(string \<Rightarrow> string \<Rightarrow> 'e + (string option \<times> string option) option) \<Rightarrow> ms \<Rightarrow> (string \<times> string \<times> string) list \<Rightarrow> runtime_db \<Rightarrow> nat \<Rightarrow>
     runtime_db \<times> ('e + nat)" where
  "backfill_all fetch_state now [] db filled = (db, Inr filled)"
| "backfill_all fetch_state now ((i, connectorId, externalId) # rows) db filled =
     (case fetch_state connectorId externalId of
        Inl e \<Rightarrow> (db, Inl e)
      | Inr None \<Rightarrow> backfill_all fetch_state now rows db filled
      | Inr (Some (resolution, closedBy)) \<Rightarrow>
          (case non_empty resolution of
             None \<Rightarrow> backfill_all fetch_state now rows db filled
           | Some res \<Rightarrow> backfill_all fetch_state now rows (fill_proposal i res closedBy now db) (filled + 1)))"

definition backfillProposalOutcomes ::
  "(string \<Rightarrow> string \<Rightarrow> 'e + (string option \<times> string option) option) \<Rightarrow> int \<Rightarrow> ms \<Rightarrow> runtime_db \<Rightarrow> runtime_db \<times> ('e + nat)" where
  "backfillProposalOutcomes fetch_state limit now db = backfill_all fetch_state now (pending_proposals limit db) db 0"

section \<open>The queue of work notes\<close>

interpretation writeback_queue: lease_queue writeback_claim writeback_settle dl_attemptCount dl_maxAttempts
  by unfold_locales (auto simp: writeback_claim_def writeback_claimable_def writeback_settle_def split: if_splits)

text \<open>On the attempts and maxima of a row the two policies of the code are the same.\<close>

lemma writeback_delay_eq: "1 \<le> a \<Longrightarrow> m \<le> INT4_MAX \<Longrightarrow> a \<le> m \<Longrightarrow> Inr (writeback_delay m a) = default_delay m a"
  by (simp add: retryDelayMs_defaults writeback_delay_def writebackDelayMs_def)

lemma writeback_delay_Some: "writeback_delay m a = Some d \<Longrightarrow> 1 \<le> a \<Longrightarrow> a < m \<and> d = min 60000 (1000 * 2 ^ nat (a - 1))"
  by (auto simp: writeback_delay_def writebackDelayMs_def split: if_splits)

interpretation writeback_retry: bounded_retry writeback_delay 60000
proof
  fix a m d e :: int
  assume a: "1 \<le> a"
  show "m \<le> a \<Longrightarrow> writeback_delay m a = None" using a by (simp add: writeback_delay_def writebackDelayMs_def)
  have "(1 :: int) \<le> 2 ^ nat (a - 1)" by simp
  then show "a < m \<Longrightarrow> m \<le> INT4_MAX \<Longrightarrow> \<exists>d. writeback_delay m a = Some d \<and> 0 < d \<and> d \<le> 60000"
    using a by (simp add: writeback_delay_def writebackDelayMs_def)
  assume "writeback_delay m a = Some d" "writeback_delay m (a + 1) = Some e"
  then have "d = min 60000 (1000 * 2 ^ nat (a - 1))" "e = min 60000 (1000 * 2 ^ nat a)"
    using writeback_delay_Some a by fastforce+
  moreover have "nat (a - 1) \<le> nat a" by simp
  then have "(2 :: int) ^ nat (a - 1) \<le> 2 ^ nat a" by (rule power_increasing) simp
  ultimately show "d \<le> e" by linarith
qed

text \<open>
  The result of a work note is written without asking whose claim it is: a worker whose lease has expired overwrites the row
  that another worker has claimed meanwhile, the result of that other worker is dropped, and the note may be posted again
  while it is still being posted.
\<close>

theorem writeback_expired_settles:
  assumes "writeback_claim t1 w = Some w1" and "writeback_claim t2 w1 = Some w2"
    and "o1 = writebackOutcome (dl_attemptCount w1) (dl_maxAttempts w1) (failure1 \<noteq> None) t1"
  shows "dl_status (writeback_settle (o1, failure1, receipt1) w2) = ar_status o1 \<and>
    writeback_settle result2 (writeback_settle (o1, failure1, receipt1) w2) = writeback_settle (o1, failure1, receipt1) w2"
proof -
  have "dl_status w2 = WB_delivering" using assms(2) by (auto simp: writeback_claim_def split: if_splits)
  moreover have "ar_status o1 \<noteq> WB_delivering" by (simp add: assms(3) writebackOutcome_def Let_def)
  ultimately show ?thesis by (cases result2) (simp add: writeback_settle_def)
qed

text \<open>A sweep, for the delivery of which only the ids and the states of the rows matter.\<close>

lemma deliverWriteback_rows:
  "\<exists>f. rt_writebacks (fst (deliverWriteback date_parse i send_note now db)) = fst (sql_update (\<lambda>w. dl_id w = i) f (rt_writebacks db)) \<and> (\<forall>w. dl_id w = i \<longrightarrow> dl_id (f w) = i)"
proof -
  have id: "fst (sql_update P (\<lambda>w. w) t) = t" for P and t :: "writeback_row list" by (simp add: sql_update_def)
  show ?thesis
  proof (cases "first_row (\<lambda>w. dl_id w = i) (rt_writebacks db)")
    case None
    then show ?thesis by (intro exI [of _ "\<lambda>w. w"]) (simp add: deliverWriteback_def id)
  next
    case (Some w)
    show ?thesis
    proof (cases "writeback_claim now w")
      case None
      then show ?thesis using Some by (intro exI [of _ "\<lambda>w. w"]) (simp add: deliverWriteback_def id)
    next
      case (Some c)
      have "dl_id w = i" using \<open>first_row _ _ = _\<close> first_row_SomeD by fastforce
      then have c: "dl_id c = i" using Some by (auto simp: writeback_claim_def split: if_splits)
      have "\<exists>r. rt_writebacks (fst (deliverWriteback date_parse i send_note now db)) = fst (sql_update (\<lambda>w. dl_id w = i) (\<lambda>_. writeback_settle r c) (rt_writebacks db))"
        using \<open>first_row _ _ = _\<close> Some by (auto simp: deliverWriteback_def Let_def set_writeback_def set_origin_def split: option.splits)
      moreover have "dl_id (writeback_settle r c) = i" for r using c by (cases r) (simp add: writeback_settle_def)
      ultimately show ?thesis by (metis (mono_tags, lifting))
    qed
  qed
qed

lemma deliver_due_keeps:
  "w \<in> set (rt_writebacks db) \<Longrightarrow> dl_id w \<notin> fst ` set due \<Longrightarrow> distinct (map dl_id (rt_writebacks db)) \<Longrightarrow>
   w \<in> set (rt_writebacks (fst (deliver_due date_parse tf now due db))) \<and>
   distinct (map dl_id (rt_writebacks (fst (deliver_due date_parse tf now due db))))"
proof (induction due arbitrary: db)
  case (Cons d due)
  obtain i connectorId where d: "d = (i, connectorId)" by (cases d) auto
  show ?case
  proof (cases "tf connectorId")
    case None
    then show ?thesis using Cons by (simp add: d)
  next
    case (Some send_note)
    obtain db' r where step: "deliverWriteback date_parse i send_note now db = (db', r)" by fastforce
    obtain f where rows: "rt_writebacks db' = fst (sql_update (\<lambda>w. dl_id w = i) f (rt_writebacks db))" "\<forall>w. dl_id w = i \<longrightarrow> dl_id (f w) = i"
      using deliverWriteback_rows [of date_parse i send_note now db] step by auto
    have "map dl_id (rt_writebacks db') = map dl_id (rt_writebacks db)" using rows by (auto simp: sql_update_def)
    moreover have "w \<in> set (rt_writebacks db')" using Cons.prems rows(1) by (force simp: sql_update_def d)
    ultimately show ?thesis
      using Cons.IH [of db'] Cons.prems Some step by (auto simp: d split: sum.splits prod.splits)
  qed
qed simp

lemma due_not_delivering:
  "w \<in> set (rt_writebacks db) \<Longrightarrow> dl_status w = WB_delivering \<Longrightarrow> distinct (map dl_id (rt_writebacks db)) \<Longrightarrow>
   dl_id w \<notin> fst ` set (due_writebacks now limit db)"
proof
  assume w: "w \<in> set (rt_writebacks db)" "dl_status w = WB_delivering" "distinct (map dl_id (rt_writebacks db))"
    and "dl_id w \<in> fst ` set (due_writebacks now limit db)"
  then obtain v where "v \<in> set (rt_writebacks db)" "dl_id v = dl_id w" "dl_status v \<in> {WB_pending, WB_retrying}"
    by (auto simp: due_writebacks_def dest!: in_set_takeD)
  then show False using w by (auto simp: distinct_map inj_on_def)
qed

text \<open>
  A work note whose delivery was interrupted is never delivered again: no sweep selects a row that is being
  delivered, whether or not its lease has expired, so the row stays as it is however often and late the sweeps run.
\<close>

theorem sweepWritebacks_strands:
  assumes "w \<in> set (rt_writebacks db)" and "dl_status w = WB_delivering" and "distinct (map dl_id (rt_writebacks db))"
  shows "w \<in> set (rt_writebacks (fold (\<lambda>(tf, limit, now) db. fst (sweepWritebacks date_parse tf limit now db)) sweeps db))"
proof -
  have "w \<in> set (rt_writebacks (fold (\<lambda>(tf, limit, now) db. fst (sweepWritebacks date_parse tf limit now db)) sweeps db)) \<and>
      distinct (map dl_id (rt_writebacks (fold (\<lambda>(tf, limit, now) db. fst (sweepWritebacks date_parse tf limit now db)) sweeps db)))"
    using assms(1,3)
  proof (induction sweeps arbitrary: db)
    case (Cons s sweeps)
    obtain tf limit now where s: "s = (tf, limit, now)" by (cases s) auto
    have "w \<in> set (rt_writebacks (fst (sweepWritebacks date_parse tf limit now db))) \<and>
        distinct (map dl_id (rt_writebacks (fst (sweepWritebacks date_parse tf limit now db))))"
      unfolding sweepWritebacks_def
      by (rule deliver_due_keeps [OF Cons.prems(1) due_not_delivering [OF Cons.prems(1) assms(2) Cons.prems(2)] Cons.prems(2)])
    then show ?case by (simp add: s Cons.IH)
  qed simp
  then show ?thesis by blast
qed

section \<open>Proposals\<close>

text \<open>
  The end of a run on a synced ticket: a run in a shadow environment leaves one proposal, which
  holds the write calls that were refused, and a repeated terminal update leaves no second; a note is queued
  where the connector is enabled. A ticket that came from no connector is left alone.
\<close>

theorem onRunTerminal_records:
  assumes "after = onRunTerminal stringify pid nid now run db"
    and "first_row (\<lambda>r. rn_id r = tr_runId run) (ed_runs (rt_env db)) = Some linked"
  shows "(case first_row (\<lambda>o'. og_ticketId o' = rn_ticketId linked) (db_origins (rt_db db)) of
      None \<Rightarrow> after = db
    | Some origin \<Rightarrow> (case first_row (\<lambda>c. cn_id c = og_connectorId origin) (db_connectors (rt_db db)) of
        None \<Rightarrow> after = db
      | Some connector \<Rightarrow>
          map pp_runId (rt_proposals after) = map pp_runId (rt_proposals db) @
            (if shadow_run db (tr_runId run) \<and> tr_runId run \<notin> pp_runId ` set (rt_proposals db) then [tr_runId run] else []) \<and>
          rt_proposals (onRunTerminal stringify pid' nid' now' run after) = rt_proposals after \<and>
          length (rt_writebacks after) = length (rt_writebacks db) + (if cn_enabled connector then 1 else 0) \<and>
          (\<forall>p\<in>set (rt_proposals after) - set (rt_proposals db). pp_suppressedCalls p = suppressedCallsForRun db (tr_runId run))))"
proof (cases "first_row (\<lambda>o'. og_ticketId o' = rn_ticketId linked) (db_origins (rt_db db))")
  case None
  then show ?thesis using assms by (simp add: onRunTerminal_def)
next
  case (Some origin)
  note o' = this
  show ?thesis
  proof (cases "first_row (\<lambda>c. cn_id c = og_connectorId origin) (db_connectors (rt_db db))")
    case None
    then show ?thesis using assms o' by (simp add: onRunTerminal_def)
  next
    case (Some connector)
    have frame: "rt_env after = rt_env db" "rt_db after = rt_db db"
      using assms o' Some by (simp_all add: onRunTerminal_def Let_def queueWorkNote_def)
    have proposals: "rt_proposals after = (if shadow_run db (tr_runId run) \<and> tr_runId run \<notin> pp_runId ` set (rt_proposals db)
        then rt_proposals db @ [\<lparr>pp_id = pid, pp_runId = tr_runId run, pp_ticketId = rn_ticketId linked,
          pp_connectorId = og_connectorId origin, pp_suppressedCalls = suppressedCallsForRun db (tr_runId run), pp_postedAt = Some now,
          pp_foreignResolution = None, pp_foreignClosedBy = None, pp_observedAt = None, pp_createdAt = now\<rparr>] else rt_proposals db)"
      using assms o' Some by (simp add: onRunTerminal_def Let_def queueWorkNote_def sql_insert_new_def)
    have "shadow_run after (tr_runId run) = shadow_run db (tr_runId run)" by (simp add: shadow_run_def frame)
    then have again: "rt_proposals (onRunTerminal stringify pid' nid' now' run after) = rt_proposals after"
      using assms(2) o' Some proposals by (auto simp: onRunTerminal_def Let_def queueWorkNote_def sql_insert_new_def frame)
    have queued: "length (rt_writebacks after) = length (rt_writebacks db) + (if cn_enabled connector then 1 else 0)"
      using assms o' Some by (simp add: onRunTerminal_def Let_def queueWorkNote_def)
    show ?thesis using again queued by (auto simp: o' Some proposals)
  qed
qed

text \<open>
  The back-fill of outcomes takes the oldest open proposals and nothing makes it go on to the
  others: while these have no outcome to report, for instance because their connector is disabled, no later proposal is
  ever asked about.
\<close>

theorem backfillProposalOutcomes_starves:
  assumes "\<forall>(i, connectorId, externalId)\<in>set (pending_proposals limit db).
    (case fetch_state connectorId externalId of Inl e \<Rightarrow> False | Inr None \<Rightarrow> True | Inr (Some (resolution, closedBy)) \<Rightarrow> non_empty resolution = None)"
  shows "backfillProposalOutcomes fetch_state limit now db = (db, Inr 0)"
proof -
  have "backfill_all fetch_state now ps db 0 = (db, Inr 0)" if "set ps \<subseteq> set (pending_proposals limit db)" for ps
    using that
  proof (induction ps)
    case (Cons p ps)
    obtain i c e where p: "p = (i, c, e)" by (cases p) auto
    have "case fetch_state c e of Inl e \<Rightarrow> False | Inr None \<Rightarrow> True | Inr (Some (resolution, closedBy)) \<Rightarrow> non_empty resolution = None"
      using assms Cons.prems p by fastforce
    then show ?case using Cons by (auto simp: p split: sum.splits option.splits prod.splits)
  qed simp
  then show ?thesis by (simp add: backfillProposalOutcomes_def)
qed

section \<open>Examples\<close>

definition sample_writeback :: writeback_row where
  "sample_writeback = \<lparr>dl_id = ''w1'', dl_status = WB_pending, dl_attemptCount = 0, dl_maxAttempts = 5, dl_nextAttemptAt = None,
     dl_claimedAt = None, dl_completedAt = None, dl_lastError = None, wb_connectorId = ''k1'', wb_ticketId = ''t1'', wb_runId = Some ''r1'',
     wb_note = ''note'', wb_externalId = ''sys1'', wb_correlationId = None, wb_externalReceiptId = None\<rparr>"

definition sample_connector :: connector_row where
  "sample_connector = \<lparr>cn_id = ''k1'', cn_baseUrl = ''https://example.service-now.com'', cn_recordFilter = [], cn_ticketOrigin = ''itsm'',
     cn_defaultEnvironmentId = ''e1'', cn_fallbackReporterId = ''u1'', cn_enabled = True, cn_disabledReason = None,
     cn_pollIntervalSeconds = 120, cn_createCeiling = 50, cn_dispatchCeiling = 3, cn_consecutiveFailures = 0, cn_watermark = None,
     cn_lastSuccessfulSyncAt = None\<rparr>"

definition sample_proposal :: "string \<Rightarrow> string \<Rightarrow> ms \<Rightarrow> proposal_row" where
  "sample_proposal i connectorId created = \<lparr>pp_id = i, pp_runId = i, pp_ticketId = ''t1'', pp_connectorId = connectorId,
     pp_suppressedCalls = [], pp_postedAt = None, pp_foreignResolution = None, pp_foreignClosedBy = None, pp_observedAt = None,
     pp_createdAt = created\<rparr>"

definition sample_runtime_db :: runtime_db where
  "sample_runtime_db = \<lparr>rt_db = sample_connector_db\<lparr>db_connectors := [sample_connector]\<rparr>, rt_env = sample_environment_db,
     rt_writebacks = [sample_writeback\<lparr>dl_status := WB_delivering, dl_attemptCount := 1, dl_claimedAt := Some 0\<rparr>], rt_proposals = [],
     rt_steps = [\<lparr>sr_runId = ''r1'', sr_ordinal = 1, sr_toolName = Some ''restart'', sr_toolInput = JNull,
       sr_error = Some ''prod is in shadow mode; refusing write tool restart''\<rparr>]\<rparr>"

theorem writeback_expired_settles_witness:
  "\<exists>w1 w2. writeback_claim 0 sample_writeback = Some w1 \<and> writeback_claim 30000 w1 = Some w2 \<and>
     dl_status (writeback_settle (writebackOutcome (dl_attemptCount w1) (dl_maxAttempts w1) True 0, Some ''timeout'', None) w2) = WB_retrying"
proof -
  obtain w1 where w1: "writeback_claim 0 sample_writeback = Some w1" "dl_status w1 = WB_delivering" "dl_claimedAt w1 = Some 0"
    "dl_attemptCount w1 = 1" "dl_maxAttempts w1 = 5"
    by (simp add: writeback_claim_def writeback_claimable_def sample_writeback_def)
  then obtain w2 where w2: "writeback_claim 30000 w1 = Some w2"
    by (simp add: writeback_claim_def writeback_claimable_def writeback_lease_ms_def)
  have "ar_status (writebackOutcome 1 5 True 0) = WB_retrying" by code_simp
  then show ?thesis using writeback_expired_settles [OF w1(1) w2, of _ "Some ''timeout''" None] w1 w2 by auto
qed

theorem sweepWritebacks_strands_witness:
  "hd (rt_writebacks sample_runtime_db) \<in> set (rt_writebacks (fst (sweepWritebacks (\<lambda>_. None) (\<lambda>_. None) 25 86400000 sample_runtime_db)))"
  using sweepWritebacks_strands [of "hd (rt_writebacks sample_runtime_db)" sample_runtime_db "\<lambda>_. None" "[(\<lambda>_. None, 25, 86400000)]"]
  by (simp add: sample_runtime_db_def sample_writeback_def)

theorem onRunTerminal_records_witness:
  "map pp_runId (rt_proposals (onRunTerminal (\<lambda>_. []) ''p1'' ''w2'' 0
     \<lparr>tr_runId = ''r1'', tr_status = ''escalated'', tr_outcome = None, tr_evidence = None, tr_resolutionCode = None\<rparr> sample_runtime_db)) = [''r1'']"
proof -
  let ?run = "\<lparr>tr_runId = ''r1'', tr_status = ''escalated'', tr_outcome = None, tr_evidence = None, tr_resolutionCode = None\<rparr>"
  have run: "first_row (\<lambda>r. rn_id r = tr_runId ?run) (ed_runs (rt_env sample_runtime_db)) =
      Some \<lparr>rn_id = ''r1'', rn_ticketId = ''t1'', rn_environmentId = Some ''e1''\<rparr>"
    and o': "first_row (\<lambda>o'. og_ticketId o' = ''t1'') (db_origins (rt_db sample_runtime_db)) = Some sample_origin_row"
    and c: "first_row (\<lambda>c. cn_id c = og_connectorId sample_origin_row) (db_connectors (rt_db sample_runtime_db)) = Some sample_connector"
    by (simp_all add: sample_runtime_db_def sample_environment_db_def sample_connector_db_def sample_origin_row_def sample_connector_def first_row_def)
  have "shadow_run sample_runtime_db ''r1''" by code_simp
  moreover have "rt_proposals sample_runtime_db = []" by (simp add: sample_runtime_db_def)
  ultimately show ?thesis
    using onRunTerminal_records [OF refl run, of "\<lambda>_. []" "''p1''" "''w2''" 0] by (simp add: o' c)
qed

text \<open>The first proposal belongs to a connector that is not available; the second, which has an outcome, is not reached.\<close>

definition starved_db :: runtime_db where
  "starved_db = sample_runtime_db\<lparr>rt_proposals := [sample_proposal ''p1'' ''off'' 0, sample_proposal ''p2'' ''k1'' 1]\<rparr>"

theorem backfillProposalOutcomes_starves_witness:
  "backfillProposalOutcomes (\<lambda>c i. Inr (if c = ''k1'' then Some (Some ''Solved'', None) else None) :: string + _) 1 5 starved_db = (starved_db, Inr 0)"
proof (rule backfillProposalOutcomes_starves)
  have "pending_proposals 1 starved_db = [(''p1'', ''off'', ''sys1'')]" by code_simp
  then show "\<forall>(i, connectorId, externalId)\<in>set (pending_proposals 1 starved_db).
      (case Inr (if connectorId = ''k1'' then Some (Some ''Solved'', None) else None) :: string + (string option \<times> string option) option of
         Inl e \<Rightarrow> False | Inr None \<Rightarrow> True | Inr (Some (resolution, closedBy)) \<Rightarrow> non_empty resolution = None)" by simp
qed

end
