(* ===== verification/ServiceNow.thy ===== *)
theory ServiceNow
  imports SyncPlan Stamps
begin

text \<open>
  The ServiceNow transport, \<open>server/connectors/servicenow.ts\<close>: the token cache, the classification of responses, the
  keyset pagination of changed incidents, the reading of rows and of the journal. What the instance answers
  is a parameter: the response to a token request, and for a page of a poll the parsed JSON of a path. The
  check of a connector's URL is from \<open>contracts/connectors.ts\<close>.
\<close>

section \<open>Requests\<close>

record sn_error =
  se_message :: string
  se_status :: "int option"
  se_retryAfterMs :: "rat option"

record http_response =
  hr_status :: int
  hr_retryAfter :: "string option"
  hr_json :: jsval

definition response_ok :: "http_response \<Rightarrow> bool" where
  "response_ok r \<longleftrightarrow> 200 \<le> hr_status r \<and> hr_status r \<le> 299"

text \<open>\<open>to_number\<close> is \<open>Number(\<dots>)\<close> of a string, \<open>None\<close> where it is not finite.\<close>

definition retryAfterMs :: "(string \<Rightarrow> rat option) \<Rightarrow> (string \<Rightarrow> js_date) \<Rightarrow> http_response \<Rightarrow> ms \<Rightarrow> rat option" where
  "retryAfterMs to_number date_parse r nowMs =
     (case hr_retryAfter r of
        None \<Rightarrow> None
      | Some [] \<Rightarrow> None
      | Some (c # cs) \<Rightarrow>
          (case to_number (c # cs) of
             Some seconds \<Rightarrow> Some (max 0 (seconds * 1000))
           | None \<Rightarrow> (case date_parse (c # cs) of None \<Rightarrow> None | Some d \<Rightarrow> Some (of_int (max 0 (d - nowMs))))))"

definition token_skew_ms :: int where "token_skew_ms = 60000"

record cached_token =
  tk_token :: string
  tk_expiresAtMs :: rat

definition asString :: "jsval \<Rightarrow> string option" where
  "asString v = (case v of JStr s \<Rightarrow> if js_trim s \<noteq> [] then Some s else None | _ \<Rightarrow> None)"

definition json_get :: "jsval \<Rightarrow> string \<Rightarrow> jsval" where
  "json_get v k = (case v of JObj ob \<Rightarrow> prop_of ob k | _ \<Rightarrow> JUndef)"

definition token_string :: "jsval \<Rightarrow> string" where
  "token_string payload = (case json_get payload ''access_token'' of JStr s \<Rightarrow> s | _ \<Rightarrow> [])"

definition expires_in :: "jsval \<Rightarrow> rat" where
  "expires_in payload = (case json_get payload ''expires_in'' of JNum q \<Rightarrow> q | _ \<Rightarrow> 1800)"

definition fetch_token ::
  "(http_response \<Rightarrow> ms \<Rightarrow> rat option) \<Rightarrow> http_response \<Rightarrow> ms \<Rightarrow> cached_token option \<Rightarrow>
     cached_token option \<times> (sn_error + string)" where
  "fetch_token retry response nowMs cache =
     (if \<not> response_ok response
      then (cache, Inl \<lparr>se_message = ''ServiceNow token request failed with '' @ js_int_string (hr_status response),
        se_status = Some (hr_status response), se_retryAfterMs = retry response nowMs\<rparr>)
      else if token_string (hr_json response) = []
      then (cache, Inl \<lparr>se_message = ''ServiceNow token response carried no access_token'',
        se_status = Some (hr_status response), se_retryAfterMs = None\<rparr>)
      else (Some \<lparr>tk_token = token_string (hr_json response), tk_expiresAtMs = of_int nowMs + expires_in (hr_json response) * 1000\<rparr>,
        Inr (token_string (hr_json response))))"

text \<open>The cached token while it has more than a minute to live, otherwise a new one; the new cache.\<close>

definition accessToken ::
  "(http_response \<Rightarrow> ms \<Rightarrow> rat option) \<Rightarrow> http_response \<Rightarrow> ms \<Rightarrow> cached_token option \<Rightarrow>
     cached_token option \<times> (sn_error + string)" where
  "accessToken retry response nowMs cache =
     (case cache of
        Some t \<Rightarrow> if of_int nowMs < tk_expiresAtMs t - of_int token_skew_ms then (cache, Inr (tk_token t)) else fetch_token retry response nowMs cache
      | None \<Rightarrow> fetch_token retry response nowMs cache)"

text \<open>A request with a token: a refused credential drops the cached token. \<open>send\<close> is the call with a token.\<close>

definition sn_request ::
  "(http_response \<Rightarrow> ms \<Rightarrow> rat option) \<Rightarrow> http_response \<Rightarrow> (string \<Rightarrow> http_response) \<Rightarrow> ms \<Rightarrow> cached_token option \<Rightarrow>
     cached_token option \<times> (sn_error + http_response)" where
  "sn_request retry token_response send nowMs cache =
     (case accessToken retry token_response nowMs cache of
        (cache', Inl e) \<Rightarrow> (cache', Inl e)
      | (cache', Inr token) \<Rightarrow>
          let response = send token in
          if hr_status response = 401
          then (None, Inl \<lparr>se_message = ''ServiceNow rejected the credential'', se_status = Some 401, se_retryAfterMs = None\<rparr>)
          else if \<not> response_ok response
          then (cache', Inl \<lparr>se_message = ''ServiceNow request failed with '' @ js_int_string (hr_status response),
            se_status = Some (hr_status response), se_retryAfterMs = retry response nowMs\<rparr>)
          else (cache', Inr response))"

section \<open>Reading rows\<close>

text \<open>\<open>toISOString().slice(0, 19).replace("T", " ")\<close>, and back.\<close>

fun replace_first :: "char \<Rightarrow> char \<Rightarrow> string \<Rightarrow> string" where
  "replace_first a b [] = []"
| "replace_first a b (c # cs) = (if c = a then b # cs else c # replace_first a b cs)"

definition toServiceNowDateTime :: "ms \<Rightarrow> string" where
  "toServiceNowDateTime t = replace_first CHR ''T'' CHR '' '' (take 19 (iso_string t))"

definition fromServiceNowDateTime :: "string \<Rightarrow> string" where
  "fromServiceNowDateTime v =
     (let trimmed = js_trim v in if trimmed = [] then trimmed else replace_first CHR '' '' CHR ''T'' trimmed @ ''Z'')"

text \<open>The entries of a journal, as the pattern finds them from left to right.\<close>

definition after_prefix :: "string \<Rightarrow> string \<Rightarrow> string option" where
  "after_prefix p s = (if prefix p s then Some (drop (length p) s) else None)"

definition stamp_pattern :: "string \<Rightarrow> bool" where
  "stamp_pattern s \<longleftrightarrow> length s = 19 \<and>
     list_all2 (\<lambda>p c. if p = CHR ''9'' then is_digit c else c = p) ''9999-99-99 99:99:99'' s"

definition match_entry :: "string \<Rightarrow> (string \<times> string \<times> string) option" where
  "match_entry s =
     (if \<not> stamp_pattern (take 19 s) then None
      else (case after_prefix '' - '' (drop 19 s) of
        None \<Rightarrow> None
      | Some rest \<Rightarrow>
          let author = takeWhile (\<lambda>c. c \<noteq> CHR ''('') rest; tail = dropWhile (\<lambda>c. c \<noteq> CHR ''('') rest
          in if author = [] then None
             else (case after_prefix ''(Work notes)'' tail of
                     Some r \<Rightarrow> Some (take 19 s, author, r)
                   | None \<Rightarrow> (case after_prefix ''(Additional comments)'' tail of
                       Some r \<Rightarrow> Some (take 19 s, author, r) | None \<Rightarrow> None))))"

lemma match_entry_shorter: "match_entry s = Some (a, b, r) \<Longrightarrow> length r < length s"
proof -
  assume m: "match_entry s = Some (a, b, r)"
  then have "stamp_pattern (take 19 s)" by (auto simp: match_entry_def split: if_splits)
  then have len: "19 \<le> length s" by (simp add: stamp_pattern_def min_def split: if_splits)
  obtain rest where "after_prefix '' - '' (drop 19 s) = Some rest"
    and r: "after_prefix ''(Work notes)'' (dropWhile (\<lambda>c. c \<noteq> CHR ''('') rest) = Some r \<or>
      after_prefix ''(Additional comments)'' (dropWhile (\<lambda>c. c \<noteq> CHR ''('') rest) = Some r"
    using m by (auto simp: match_entry_def Let_def split: if_splits option.splits)
  then have "length rest \<le> length s - 19" by (auto simp: after_prefix_def split: if_splits)
  moreover have "length r \<le> length rest"
    using r length_dropWhile_le [of "\<lambda>c. c \<noteq> CHR ''(''" rest] by (auto simp: after_prefix_def split: if_splits)
  ultimately show ?thesis using len by linarith
qed

definition journal_comment :: "string \<Rightarrow> string \<Rightarrow> nat \<Rightarrow> foreign_comment" where
  "journal_comment stamp author index = \<lparr>fc_externalId = stamp @ ''#'' @ js_nat_string index,
     fc_ours = js_includes (js_lower (js_trim author)) ''axioma'', fc_createdAt = fromServiceNowDateTime stamp\<rparr>"

function journal_entries :: "string \<Rightarrow> nat \<Rightarrow> foreign_comment list" where
  "journal_entries s index =
     (case s of
        [] \<Rightarrow> []
      | c # cs \<Rightarrow>
          (case match_entry s of
             Some (stamp, author, rest) \<Rightarrow> journal_comment stamp author index # journal_entries rest (index + 1)
           | None \<Rightarrow> journal_entries cs index))"
  by pat_completeness auto
termination
  by (relation "measure (\<lambda>(s, i). length s)") (auto dest: match_entry_shorter)

declare journal_entries.simps [simp del]

definition parseJournal :: "string \<Rightarrow> foreign_comment list" where
  "parseJournal journal = (if js_trim journal = [] then [] else journal_entries journal 0)"

definition string_or_empty :: "jsval \<Rightarrow> string" where
  "string_or_empty v = (case asString v of None \<Rightarrow> [] | Some s \<Rightarrow> s)"

definition toForeignRecord :: "js_object \<Rightarrow> commented_record" where
  "toForeignRecord row = \<lparr>fr_externalId = string_or_empty (prop_of row ''sys_id''),
     fr_externalKey = string_or_empty (prop_of row ''number''), fr_externalUrl = None,
     fr_title = string_or_empty (prop_of row ''short_description''), fr_body = string_or_empty (prop_of row ''description''),
     fr_updatedAt = fromServiceNowDateTime (string_or_empty (prop_of row ''sys_updated_on'')),
     fr_requesterEmail = (case asString (prop_of row ''caller_email'') of
        Some s \<Rightarrow> Some s | None \<Rightarrow> asString (prop_of row ''caller_id'')),
     fr_fields = map (\<lambda>(k, v). (k, case v of JStr s \<Rightarrow> Some s | _ \<Rightarrow> None)) row,
     cr_comments = Some (parseJournal (string_or_empty (prop_of row ''comments_and_work_notes''))),
     cr_statusValue = asString (prop_of row ''state''), cr_previousStatusValue = None\<rparr>"

section \<open>Polling\<close>

definition escapeQueryValue :: "string \<Rightarrow> string" where
  "escapeQueryValue v = map (\<lambda>c. if c = CHR ''^'' \<or> c = CHR '','' then CHR '' '' else c) v"

definition hex_digit :: "nat \<Rightarrow> char" where
  "hex_digit n = char_of (if n < 10 then 48 + n else 55 + n)"

definition percent_byte :: "nat \<Rightarrow> string" where
  "percent_byte b = [CHR ''%'', hex_digit (b div 16), hex_digit (b mod 16)]"

text \<open>\<open>encodeURIComponent\<close>: the unreserved characters stay, others become the bytes of their UTF-8 form.\<close>

definition encode_char :: "char \<Rightarrow> string" where
  "encode_char c =
     (let n = of_char c :: nat
      in if is_digit c \<or> (65 \<le> n \<and> n \<le> 90) \<or> (97 \<le> n \<and> n \<le> 122) \<or> c \<in> set ''-_.!~*()'' \<or> n = 39 then [c]
         else if n < 128 then percent_byte n
         else percent_byte (192 + n div 64) @ percent_byte (128 + n mod 64))"

definition encodeURIComponent :: "string \<Rightarrow> string" where
  "encodeURIComponent s = concat (map encode_char s)"

definition query_terms :: "string option \<Rightarrow> string \<Rightarrow> string \<Rightarrow> string list" where
  "query_terms cursor operator filt =
     (case cursor of None \<Rightarrow> [] | Some [] \<Rightarrow> [] | Some (c # cs) \<Rightarrow> [''sys_updated_on'' @ operator @ escapeQueryValue (c # cs)]) @
     (if js_trim filt = [] then [] else [js_trim filt]) @ [''ORDERBYsys_updated_on'']"

definition incident_path :: "string option \<Rightarrow> string \<Rightarrow> string \<Rightarrow> nat \<Rightarrow> string" where
  "incident_path cursor operator filt pageSize =
     ''/api/now/table/incident?'' @ js_join ''&''
       [''sysparm_query='' @ encodeURIComponent (js_join ''^'' (query_terms cursor operator filt)),
        ''sysparm_limit='' @ js_nat_string pageSize, ''sysparm_display_value=true'', ''sysparm_exclude_reference_link=true'']"

text \<open>The rows of a page: \<open>Array.isArray(payload.result) ? payload.result : []\<close>.\<close>

definition payload_rows :: "jsval \<Rightarrow> js_object list" where
  "payload_rows payload = (case json_get payload ''result'' of
     JArr vs \<Rightarrow> map (\<lambda>v. case v of JObj ob \<Rightarrow> ob | _ \<Rightarrow> []) vs | _ \<Rightarrow> [])"

text \<open>One page: unseen records with an identifier are added.\<close>

definition add_row :: "js_object \<Rightarrow> commented_record list \<Rightarrow> commented_record list" where
  "add_row row records =
     (let r = toForeignRecord row
      in if fr_externalId r = [] \<or> fr_externalId r \<in> fr_externalId ` set records then records else records @ [r])"

definition last_stamp :: "js_object list \<Rightarrow> string option" where
  "last_stamp rows = (case last_of rows of None \<Rightarrow> None | Some row \<Rightarrow> asString (prop_of row ''sys_updated_on''))"

text \<open>The loop over the pages, \<open>n\<close> of them left: the records, and whether the instance ran out.\<close>

fun fetch_pages ::
  "(string \<Rightarrow> sn_error + jsval) \<Rightarrow> string \<Rightarrow> nat \<Rightarrow> nat \<Rightarrow> string option \<Rightarrow> string \<Rightarrow> commented_record list \<Rightarrow>
     sn_error + commented_record list \<times> bool" where
  "fetch_pages get filt pageSize 0 cursor operator records = Inr (records, False)"
| "fetch_pages get filt pageSize (Suc n) cursor operator records =
     (case get (incident_path cursor operator filt pageSize) of
        Inl e \<Rightarrow> Inl e
      | Inr payload \<Rightarrow>
          let rows = payload_rows payload; records' = fold add_row rows records
          in if length rows < pageSize then Inr (records', True)
             else (case last_stamp rows of
                     None \<Rightarrow> Inr (records', False)
                   | Some stamp \<Rightarrow>
                       if length records' = length records then Inr (records', False)
                       else fetch_pages get filt pageSize n (Some stamp) ''>='' records'))"

definition newest_stamp :: "commented_record list \<Rightarrow> string" where
  "newest_stamp records = foldl (\<lambda>latest r. if latest < fr_updatedAt r then fr_updatedAt r else latest) [] records"

definition page_too_wide :: "nat \<Rightarrow> string \<Rightarrow> sn_error" where
  "page_too_wide pageSize newest = \<lparr>se_message = ''ServiceNow holds more than '' @ js_nat_string pageSize @
     '' incidents at sys_updated_on '' @ newest @ '', which one poll cannot page past. Raise the page size.'',
     se_status = None, se_retryAfterMs = None\<rparr>"

definition fetchChangedIncidents ::
  "(string \<Rightarrow> sn_error + jsval) \<Rightarrow> ms option \<Rightarrow> string \<Rightarrow> nat \<Rightarrow> nat \<Rightarrow> sn_error + commented_record list" where
  "fetchChangedIncidents get since filt wanted pages =
     (let pageSize = max 1 wanted; maxPages = max 1 pages; cursor = map_option toServiceNowDateTime since
      in bind_result (fetch_pages get filt pageSize maxPages cursor ''>'' []) (\<lambda>(records, exhausted).
        if exhausted \<or> records = [] then Inr records
        else let newest = newest_stamp records; consumed = filter (\<lambda>r. fr_updatedAt r < newest) records
             in if consumed = [] then Inl (page_too_wide pageSize newest) else Inr consumed))"

section \<open>One incident\<close>

definition object_value :: "jsval \<Rightarrow> js_object" where
  "object_value v = (case v of JObj ob \<Rightarrow> ob | _ \<Rightarrow> [])"

record incident_state =
  is_resolution :: "string option"
  is_closedBy :: "string option"

definition first_string :: "string option \<Rightarrow> string option \<Rightarrow> string option" where
  "first_string a b = (case a of None \<Rightarrow> b | Some s \<Rightarrow> Some s)"

text \<open>The state of an incident, from the parsed answer; \<open>None\<close> where it has no row.\<close>

definition fetchIncidentState :: "jsval \<Rightarrow> incident_state option" where
  "fetchIncidentState payload =
     (let result = json_get payload ''result''; row = object_value result
      in if result \<in> {JUndef, JNull, JBool False, JStr []} then None
         else Some \<lparr>is_resolution = first_string (asString (prop_of row ''close_code'')) (asString (prop_of row ''state'')),
           is_closedBy = first_string (asString (prop_of row ''closed_by'')) (asString (prop_of row ''resolved_by''))\<rparr>)"

definition work_note_body :: "string \<Rightarrow> string option \<Rightarrow> js_object" where
  "work_note_body note correlationId =
     (''work_notes'', JStr note) #
     (case correlationId of
        Some (c # cs) \<Rightarrow> [(''correlation_id'', JStr (c # cs)), (''correlation_display'', JStr ''Axioma'')]
      | _ \<Rightarrow> [])"

text \<open>What \<open>postWorkNote\<close> reads of the answer: the new time stamp and the receipt.\<close>

definition work_note_result :: "jsval \<Rightarrow> string option \<times> string option" where
  "work_note_result payload =
     (let row = object_value (json_get payload ''result'')
      in (asString (prop_of row ''sys_updated_on''), asString (prop_of row ''sys_id'')))"

section \<open>The URL of a connector\<close>

text \<open>
  \<open>contracts/connectors.ts\<close>. \<open>parse_url\<close> gives the protocol and the host name of \<open>new URL(\<dots>)\<close>, \<open>None\<close> where it throws.
  A host name is tested on the shape of the two pattern families it is compared with.
\<close>

definition split_dots :: "string \<Rightarrow> string list" where
  "split_dots s = foldr (\<lambda>c acc. if c = CHR ''.'' then [] # acc else (case acc of [] \<Rightarrow> [[c]] | x # xs \<Rightarrow> (c # x) # xs)) s [[]]"

definition ipv4_parts :: "string \<Rightarrow> nat list option" where
  "ipv4_parts host =
     (let parts = split_dots host
      in if length parts = 4 \<and> list_all (\<lambda>p. 1 \<le> length p \<and> length p \<le> 3 \<and> list_all is_digit p) parts
         then Some (map digits_value parts) else None)"

definition isPrivateIpv4 :: "string \<Rightarrow> bool" where
  "isPrivateIpv4 host =
     (case ipv4_parts host of
        Some (first # second # rest) \<Rightarrow>
          first = 0 \<or> first = 10 \<or> first = 127 \<or> (first = 169 \<and> second = 254) \<or>
          (first = 172 \<and> 16 \<le> second \<and> second \<le> 31) \<or> (first = 192 \<and> second = 168)
      | _ \<Rightarrow> False)"

definition is_hex :: "char \<Rightarrow> bool" where
  "is_hex c = (let n = of_char c :: nat in is_digit c \<or> (97 \<le> n \<and> n \<le> 102))"

definition hex_value :: "string \<Rightarrow> nat" where
  "hex_value s = foldl (\<lambda>n c. 16 * n + (let m = of_char c :: nat in if is_digit c then m - 48 else m - 87)) 0 s"

definition split_colons :: "string \<Rightarrow> string list" where
  "split_colons s = foldr (\<lambda>c acc. if c = CHR '':'' then [] # acc else (case acc of [] \<Rightarrow> [[c]] | x # xs \<Rightarrow> (c # x) # xs)) s [[]]"

definition hex_group :: "string \<Rightarrow> bool" where
  "hex_group s \<longleftrightarrow> 1 \<le> length s \<and> length s \<le> 4 \<and> list_all is_hex s"

text \<open>\<open>/^::(?:ffff:)?([0-9a-f]{1,4}):([0-9a-f]{1,4})$/\<close>: the two groups.\<close>

definition mapped_ipv4 :: "string \<Rightarrow> (nat \<times> nat) option" where
  "mapped_ipv4 host =
     (case split_colons host of
        [a, b, hi, lo] \<Rightarrow> if a = [] \<and> b = [] \<and> hex_group hi \<and> hex_group lo then Some (hex_value hi, hex_value lo) else None
      | [a, b, m, hi, lo] \<Rightarrow>
          if a = [] \<and> b = [] \<and> m = ''ffff'' \<and> hex_group hi \<and> hex_group lo then Some (hex_value hi, hex_value lo) else None
      | _ \<Rightarrow> None)"

definition dotted :: "nat \<Rightarrow> nat \<Rightarrow> string" where
  "dotted hi lo = js_join ''.'' (map js_nat_string [hi div 256, hi mod 256, lo div 256, lo mod 256])"

definition isPrivateIpv6 :: "string \<Rightarrow> bool" where
  "isPrivateIpv6 host =
     (if CHR '':'' \<notin> set host then False
      else if host = ''::1'' \<or> host = ''::'' then True
      else (case mapped_ipv4 host of
        Some (hi, lo) \<Rightarrow> isPrivateIpv4 (dotted hi lo)
      | None \<Rightarrow>
          if isPrivateIpv4 (List.last (split_colons host)) then True
          else let head = hd (split_colons host) in
            (length head \<le> 4 \<and> list_all is_hex head \<and> (prefix ''fc'' head \<or> prefix ''fd'' head)) \<or>
            (3 \<le> length head \<and> length head \<le> 4 \<and> list_all is_hex head \<and> prefix ''fe'' head \<and> head ! 2 \<in> set ''89ab'')))"

definition strip_brackets :: "string \<Rightarrow> string" where
  "strip_brackets s =
     (let a = (case s of c # cs \<Rightarrow> if c = CHR ''['' then cs else s | [] \<Rightarrow> s)
      in if a \<noteq> [] \<and> List.last a = CHR '']'' then butlast a else a)"

definition connectorBaseUrlIssue :: "(string \<Rightarrow> (string \<times> string) option) \<Rightarrow> string \<Rightarrow> string option" where
  "connectorBaseUrlIssue parse_url v =
     (case parse_url v of
        None \<Rightarrow> Some ''must be an absolute URL''
      | Some (protocol, hostname) \<Rightarrow>
          if protocol \<noteq> ''https:'' then Some ''must use https, because the client secret travels in the request body''
          else let host = strip_brackets (js_lower hostname) in
            if host = ''localhost'' \<or> suffix ''.localhost'' host \<or> suffix ''.internal'' host \<or> isPrivateIpv4 host \<or> isPrivateIpv6 host
            then Some ''must not name a loopback, link-local, private or internal host''
            else None)"

section \<open>Stamps of the instance\<close>

lemma replace_first_append: "a \<notin> set xs \<Longrightarrow> replace_first a b (xs @ a # ys) = xs @ b # ys"
  by (induction xs) auto

lemma fixed_digits_range: "c \<in> set (fixed_digits w n) \<Longrightarrow> is_digit c"
  using fixed_digits_are_digits [of w n] by (simp add: list_all_iff)

lemma date_string_chars: "plain_day d \<Longrightarrow> c \<in> set (date_string d) \<Longrightarrow> is_digit c \<or> c = CHR ''-''"
proof -
  assume d: "plain_day d" and c: "c \<in> set (date_string d)"
  obtain y m dd where "date_of_day d = (y, m, dd)" by (metis prod_cases3)
  from date_string_fixed [OF d this] c show ?thesis by (auto dest: fixed_digits_range)
qed

definition sn_stamp :: "int \<Rightarrow> string" where
  "sn_stamp t = date_string (t div 86400) @ CHR '' '' # clock_string (t mod 86400)"

lemma toServiceNowDateTime_eq: "plain_ms t \<Longrightarrow> toServiceNowDateTime t = sn_stamp (t div 1000)"
proof -
  assume "plain_ms t"
  then have p: "plain_day (t div 1000 div 86400)" by (simp add: plain_ms_second)
  have "take 19 (iso_string t) = second_string (t div 1000)"
    using second_string_less(3) [OF p p] by (simp add: iso_string_def)
  moreover have "CHR ''T'' \<notin> set (date_string (t div 1000 div 86400))"
    using date_string_chars [OF p, of "CHR ''T''"] by (auto simp: is_digit_def)
  ultimately show ?thesis
    by (simp add: toServiceNowDateTime_def second_string_def sn_stamp_def replace_first_append)
qed

lemma digit_not_space: "is_digit c \<Longrightarrow> \<not> js_space c"
  by (auto simp: is_digit_def js_space_def Let_def)

lemma js_trim_id: "s \<noteq> [] \<Longrightarrow> \<not> js_space (hd s) \<Longrightarrow> \<not> js_space (List.last s) \<Longrightarrow> js_trim s = s"
  by (simp add: js_trim_def dropWhile_id hd_rev)

lemma fixed_digits_nonempty: "0 < w \<Longrightarrow> fixed_digits w n \<noteq> []"
  by (metis length_fixed_digits length_0_conv less_numeral_extra(3))

lemma sn_stamp_trim:
  assumes "plain_day (t div 86400)"
  shows "js_trim (sn_stamp t) = sn_stamp t" and "sn_stamp t \<noteq> []"
proof -
  obtain y m dd where d: "date_of_day (t div 86400) = (y, m, dd)" by (metis prod_cases3)
  have "date_string (t div 86400) \<noteq> []" using length_date_string [OF assms] by auto
  then have "hd (sn_stamp t) \<in> set (fixed_digits 4 (nat y))"
    unfolding sn_stamp_def date_string_fixed [OF assms d] using hd_in_set [of "fixed_digits 4 (nat y)"] fixed_digits_nonempty [of 4 "nat y"]
    by (simp add: hd_append)
  moreover have "List.last (sn_stamp t) \<in> set (fixed_digits 2 (nat (t mod 86400 mod 60)))"
    using last_in_set [of "fixed_digits 2 (nat (t mod 86400 mod 60))"] fixed_digits_nonempty [of 2 "nat (t mod 86400 mod 60)"]
    by (simp add: sn_stamp_def clock_string_def last_append)
  moreover show ne: "sn_stamp t \<noteq> []" by (simp add: sn_stamp_def)
  ultimately show "js_trim (sn_stamp t) = sn_stamp t"
    using fixed_digits_range digit_not_space by (intro js_trim_id) blast+
qed

lemma fromServiceNowDateTime_stamp: "plain_day (t div 86400) \<Longrightarrow> fromServiceNowDateTime (sn_stamp t) = short_stamp t"
proof -
  assume p: "plain_day (t div 86400)"
  have "CHR '' '' \<notin> set (date_string (t div 86400))"
    using date_string_chars [OF p, of "CHR '' ''"] by (auto simp: is_digit_def)
  then have "replace_first CHR '' '' CHR ''T'' (sn_stamp t) = second_string t"
    by (simp add: sn_stamp_def second_string_def replace_first_append)
  then show ?thesis using sn_stamp_trim [OF p] by (simp add: fromServiceNowDateTime_def Let_def short_stamp_def)
qed

lemma sn_stamp_less:
  assumes "plain_day (t div 86400)" and "plain_day (u div 86400)"
  shows "sn_stamp t < sn_stamp u \<longleftrightarrow> t < u" and "short_stamp t < short_stamp u \<longleftrightarrow> t < u"
proof -
  have sep: "(x @ a # v < y @ a # w) = (x @ b # v < y @ b # w)" if "length x = length y" for x y v w :: string and a b
    using that by (simp add: list_less_append_same_length)
  have "sn_stamp t < sn_stamp u \<longleftrightarrow> second_string t < second_string u"
    unfolding sn_stamp_def second_string_def using length_date_string [OF assms(1)] length_date_string [OF assms(2)]
    by (simp add: sep [of _ _ "CHR '' ''" _ _ "CHR ''T''"])
  then show "sn_stamp t < sn_stamp u \<longleftrightarrow> t < u" using second_string_less(1) [OF assms] by simp
  show "short_stamp t < short_stamp u \<longleftrightarrow> t < u"
    unfolding short_stamp_def using second_string_less(1) [OF assms] second_string_less(3) [OF assms] second_string_less(3) [OF assms(2,1)]
    by (simp add: list_less_append_same_length)
qed

section \<open>The pagination is complete\<close>

text \<open>
  The table of the instance: rows with distinct identifiers and well-formed time stamps, in the order of
  the stamps. What the instance documents of a query is that it answers with the first rows of that
  order that satisfy the condition on the stamp.
\<close>

definition row_stamp :: "js_object \<Rightarrow> string" where
  "row_stamp row = string_or_empty (prop_of row ''sys_updated_on'')"

definition incident_row :: "js_object \<Rightarrow> bool" where
  "incident_row row \<longleftrightarrow> string_or_empty (prop_of row ''sys_id'') \<noteq> [] \<and>
     (\<exists>t. plain_day (t div 86400) \<and> prop_of row ''sys_updated_on'' = JStr (sn_stamp t))"

definition row_id :: "js_object \<Rightarrow> string" where
  "row_id row = fr_externalId (toForeignRecord row)"

definition incident_table :: "js_object list \<Rightarrow> bool" where
  "incident_table table \<longleftrightarrow> (\<forall>row\<in>set table. incident_row row) \<and>
     distinct (map row_id table) \<and> sorted (map row_stamp table)"

definition stamp_after :: "string option \<Rightarrow> string \<Rightarrow> string \<Rightarrow> bool" where
  "stamp_after cursor operator s \<longleftrightarrow> (case cursor of None \<Rightarrow> True | Some c \<Rightarrow> if operator = ''>'' then c < s else c \<le> s)"

definition page_of :: "js_object list \<Rightarrow> nat \<Rightarrow> string option \<Rightarrow> string \<Rightarrow> js_object list" where
  "page_of table n cursor operator = take n (filter (\<lambda>row. stamp_after cursor operator (row_stamp row)) table)"

definition serves ::
  "(string \<Rightarrow> sn_error + jsval) \<Rightarrow> js_object list \<Rightarrow> string option \<Rightarrow> string \<Rightarrow> nat \<Rightarrow> bool" where
  "serves get table start filt n \<longleftrightarrow>
     (\<forall>(cursor, operator)\<in>insert (start, ''>'') ((\<lambda>row. (Some (row_stamp row), ''>='')) ` set table).
        get (incident_path cursor operator filt n) = Inr (JObj [(''result'', JArr (map JObj (page_of table n cursor operator)))]))"

lemma payload_rows_page: "payload_rows (JObj [(''result'', JArr (map JObj rows))]) = rows"
  by (simp add: payload_rows_def json_get_def prop_of_def o_def)

lemma incident_row_facts:
  assumes "incident_row row"
  obtains t where "plain_day (t div 86400)" "row_stamp row = sn_stamp t" "asString (prop_of row ''sys_updated_on'') = Some (row_stamp row)"
    "fr_updatedAt (toForeignRecord row) = short_stamp t" "fr_externalId (toForeignRecord row) \<noteq> []"
proof -
  obtain t where t: "plain_day (t div 86400)" "prop_of row ''sys_updated_on'' = JStr (sn_stamp t)"
    "string_or_empty (prop_of row ''sys_id'') \<noteq> []"
    using assms by (auto simp: incident_row_def)
  have "asString (prop_of row ''sys_updated_on'') = Some (sn_stamp t)"
    using t(2) sn_stamp_trim [OF t(1)] by (simp add: asString_def)
  then show thesis
    using t fromServiceNowDateTime_stamp [OF t(1)] by (intro that [OF t(1)]) (simp_all add: row_stamp_def string_or_empty_def toForeignRecord_def)
qed

lemma row_order:
  assumes "incident_row a" and "incident_row b"
  shows "row_stamp a < row_stamp b \<longleftrightarrow> fr_updatedAt (toForeignRecord a) < fr_updatedAt (toForeignRecord b)"
proof -
  obtain t where t: "plain_day (t div 86400)" "row_stamp a = sn_stamp t" "fr_updatedAt (toForeignRecord a) = short_stamp t"
    by (rule incident_row_facts [OF assms(1)])
  obtain u where u: "plain_day (u div 86400)" "row_stamp b = sn_stamp u" "fr_updatedAt (toForeignRecord b) = short_stamp u"
    by (rule incident_row_facts [OF assms(2)])
  show ?thesis using sn_stamp_less [OF t(1) u(1)] t u by simp
qed

lemma add_rows_seen:
  "(\<And>row. row \<in> set xs \<Longrightarrow> fr_externalId (toForeignRecord row) \<in> fr_externalId ` set records) \<Longrightarrow> fold add_row xs records = records"
  by (induction xs) (simp_all add: add_row_def Let_def)

lemma add_rows_fresh:
  "distinct (map row_id xs) \<Longrightarrow> [] \<notin> row_id ` set xs \<Longrightarrow> row_id ` set xs \<inter> fr_externalId ` set records = {} \<Longrightarrow>
   fold add_row xs records = records @ map toForeignRecord xs"
proof (induction xs arbitrary: records)
  case (Cons x xs)
  have "add_row x records = records @ [toForeignRecord x]" using Cons.prems by (auto simp: add_row_def Let_def row_id_def)
  moreover have "fold add_row xs (records @ [toForeignRecord x]) = (records @ [toForeignRecord x]) @ map toForeignRecord xs"
  proof (rule Cons.IH)
    have "fr_externalId ` set (records @ [toForeignRecord x]) = insert (row_id x) (fr_externalId ` set records)" by (simp add: row_id_def)
    then show "row_id ` set xs \<inter> fr_externalId ` set (records @ [toForeignRecord x]) = {}" using Cons.prems by simp
  qed (use Cons.prems in simp_all)
  ultimately show ?case by simp
qed simp

lemma add_page:
  assumes "distinct (map row_id us)" and "[] \<notin> row_id ` set us" and "q \<le> p" and "p \<le> length us"
  shows "fold add_row (take n (drop q us)) (map toForeignRecord (take p us)) = map toForeignRecord (take (max p (q + n)) us)"
proof -
  let ?old = "take (min n (p - q)) (drop q us)" and ?new = "take (n - (p - q)) (drop p us)"
  have split: "take n (drop q us) = ?old @ ?new"
  proof (cases "n \<le> p - q")
    case False
    have "take (p - q + (n - (p - q))) (drop q us) = take (p - q) (drop q us) @ take (n - (p - q)) (drop (p - q) (drop q us))"
      by (rule take_add)
    then show ?thesis using False assms(3) by simp
  qed simp
  have "set ?old \<subseteq> set (take (p - q) (drop q us))" by (simp add: set_take_subset_set_take)
  also have "\<dots> \<subseteq> set (take p us)"
    using assms(3) set_drop_subset [of q "take p us"] by (simp add: drop_take)
  finally have seen: "fold add_row ?old (map toForeignRecord (take p us)) = map toForeignRecord (take p us)"
    by (intro add_rows_seen) (auto simp: image_image)
  have ids: "row_id ` set (take p us) = fr_externalId ` set (map toForeignRecord (take p us))"
    by (simp add: row_id_def image_image)
  have whole: "take p us @ ?new = take (p + (n - (p - q))) us" by (simp add: take_add)
  have "distinct (map row_id (take p us @ ?new))" unfolding whole take_map [symmetric] using assms(1) by (rule distinct_take)
  moreover have "[] \<notin> row_id ` set ?new" using assms(2) by (meson image_mono in_mono order_trans set_drop_subset set_take_subset)
  moreover have "row_id ` set ?new \<inter> fr_externalId ` set (map toForeignRecord (take p us)) = {}"
    unfolding ids [symmetric] using calculation(1) by auto
  ultimately have "fold add_row ?new (map toForeignRecord (take p us)) = map toForeignRecord (take p us) @ map toForeignRecord ?new"
    by (intro add_rows_fresh) auto
  also have "\<dots> = map toForeignRecord (take (p + (n - (p - q))) us)" unfolding map_append [symmetric] whole ..
  also have "p + (n - (p - q)) = max p (q + n)" using assms(3) by simp
  finally show ?thesis unfolding split fold_append o_apply seen .
qed

text \<open>The rows of a poll: those changed after \<open>start\<close>, in their order.\<close>

definition changed_rows :: "js_object list \<Rightarrow> string option \<Rightarrow> js_object list" where
  "changed_rows table start = filter (\<lambda>row. stamp_after start ''>'' (row_stamp row)) table"

lemma sorted_from:
  assumes "sorted (map f us)" and "p < length us"
  shows "\<exists>q\<le>p. filter (\<lambda>u. f (us ! p) \<le> f u) us = drop q us"
  using assms
proof (induction us arbitrary: p)
  case (Cons u us)
  show ?case
  proof (cases "f ((u # us) ! p) \<le> f u")
    case True
    then have "filter (\<lambda>v. f ((u # us) ! p) \<le> f v) (u # us) = drop 0 (u # us)"
      using Cons.prems(1) by (auto simp: filter_id_conv)
    then show ?thesis by blast
  next
    case False
    then obtain p' where p: "p = Suc p'" by (cases p) auto
    obtain q where "q \<le> p'" "filter (\<lambda>v. f (us ! p') \<le> f v) us = drop q us"
      using Cons.IH [of p'] Cons.prems p by auto
    then have "filter (\<lambda>v. f ((u # us) ! p) \<le> f v) (u # us) = drop (Suc q) (u # us)" "Suc q \<le> p"
      using False p by simp_all
    then show ?thesis by blast
  qed
qed simp

lemma later_page:
  assumes "incident_table table" and "p < length (changed_rows table start)"
  shows "\<exists>q\<le>p. page_of table n (Some (row_stamp (changed_rows table start ! p))) ''>='' = take n (drop q (changed_rows table start))"
proof -
  let ?U = "changed_rows table start"
  have "sorted (map row_stamp ?U)"
    using assms(1) by (simp add: changed_rows_def incident_table_def sorted_filter)
  then obtain q where "q \<le> p" and q: "filter (\<lambda>row. row_stamp (?U ! p) \<le> row_stamp row) ?U = drop q ?U"
    using sorted_from [of row_stamp ?U p] assms(2) by blast
  moreover have "stamp_after start ''>'' (row_stamp (?U ! p))"
    using nth_mem [OF assms(2)] by (simp add: changed_rows_def)
  then have "filter (\<lambda>row. row_stamp (?U ! p) \<le> row_stamp row) table = filter (\<lambda>row. row_stamp (?U ! p) \<le> row_stamp row) ?U"
    by (auto simp: changed_rows_def stamp_after_def split: option.splits intro!: filter_cong)
  ultimately show ?thesis by (intro exI [of _ q]) (simp add: page_of_def stamp_after_def)
qed

lemma last_of_take_drop: "rows = take n (drop q us) \<Longrightarrow> 0 < n \<Longrightarrow> q + n \<le> length us \<Longrightarrow> last_of rows = Some (us ! (q + n - 1))"
  by (cases "rows = []") (auto simp: last_of_def last_conv_nth)

lemma add_page_clipped:
  assumes "incident_table table" and "q \<le> p" and "p \<le> length (changed_rows table start)"
  shows "fold add_row (take n (drop q (changed_rows table start))) (map toForeignRecord (take p (changed_rows table start))) =
    map toForeignRecord (take (max p (q + n)) (changed_rows table start))"
proof (rule add_page [OF _ _ assms(2,3)])
  show "distinct (map row_id (changed_rows table start))"
    using assms(1) by (simp add: incident_table_def changed_rows_def distinct_map_filter)
  have "row_id row \<noteq> []" if "row \<in> set table" for row
    using assms(1) that by (auto simp: incident_table_def row_id_def elim: incident_row_facts)
  then show "[] \<notin> row_id ` set (changed_rows table start)" by (auto simp: changed_rows_def dest!: sym [of "[]"])
qed

text \<open>Where a poll stands: the rows before \<open>p\<close> have been read, and the cursor is the stamp of the last of them.\<close>

definition poll_at :: "js_object list \<Rightarrow> string option \<Rightarrow> nat \<Rightarrow> string option \<Rightarrow> string \<Rightarrow> bool" where
  "poll_at table start p cursor operator \<longleftrightarrow> p \<le> length (changed_rows table start) \<and>
     (p = 0 \<and> cursor = start \<and> operator = ''>'' \<or>
      0 < p \<and> cursor = Some (row_stamp (changed_rows table start ! (p - 1))) \<and> operator = ''>='')"

lemma poll_page:
  assumes "incident_table table" and "serves get table start filt n" and "poll_at table start p cursor operator"
  obtains q where "q \<le> p" "0 < p \<longrightarrow> q < p"
    "get (incident_path cursor operator filt n) = Inr (JObj [(''result'', JArr (map JObj (take n (drop q (changed_rows table start)))))])"
proof (cases "p = 0")
  case True
  then have "get (incident_path cursor operator filt n) = Inr (JObj [(''result'', JArr (map JObj (take n (drop 0 (changed_rows table start)))))])"
    using assms(2,3) by (auto simp: poll_at_def serves_def page_of_def changed_rows_def)
  then show thesis using True that by blast
next
  case False
  let ?U = "changed_rows table start"
  have p: "p - 1 < length ?U" "cursor = Some (row_stamp (?U ! (p - 1)))" "operator = ''>=''"
    using assms(3) False by (auto simp: poll_at_def)
  have "?U ! (p - 1) \<in> set table" using nth_mem [OF p(1)] by (simp add: changed_rows_def)
  then have "get (incident_path cursor operator filt n) = Inr (JObj [(''result'', JArr (map JObj (page_of table n cursor operator)))])"
    using assms(2) p by (auto simp: serves_def)
  moreover obtain q where "q \<le> p - 1" "page_of table n cursor operator = take n (drop q ?U)"
    using later_page [OF assms(1) p(1), of n] p(2,3) by blast
  ultimately show thesis using that [of q] False by simp
qed

lemma fetch_pages_reads:
  assumes "incident_table table" and "serves get table start filt n" and "0 < n"
  shows "poll_at table start p cursor operator \<Longrightarrow>
    \<exists>p' ended. fetch_pages get filt n k cursor operator (map toForeignRecord (take p (changed_rows table start))) =
        Inr (map toForeignRecord (take p' (changed_rows table start)), ended) \<and>
      p \<le> p' \<and> p' \<le> length (changed_rows table start) \<and> (ended \<longrightarrow> p' = length (changed_rows table start)) \<and>
      (0 < k \<longrightarrow> p = 0 \<longrightarrow> ended \<or> n \<le> p')"
proof (induction k arbitrary: p cursor operator)
  case 0
  then show ?case by (auto simp: poll_at_def)
next
  case (Suc k)
  let ?U = "changed_rows table start"
  obtain q where q: "q \<le> p" "0 < p \<longrightarrow> q < p"
    "get (incident_path cursor operator filt n) = Inr (JObj [(''result'', JArr (map JObj (take n (drop q ?U))))])"
    by (rule poll_page [OF assms(1,2) Suc.prems])
  have p: "p \<le> length ?U" using Suc.prems by (simp add: poll_at_def)
  define rows where "rows = take n (drop q ?U)"
  define p' where "p' = min (length ?U) (max p (q + n))"
  have records: "fold add_row rows (map toForeignRecord (take p ?U)) = map toForeignRecord (take p' ?U)"
    unfolding rows_def add_page_clipped [OF assms(1) q(1) p] p'_def by (simp add: min_def)
  have step: "fetch_pages get filt n (Suc k) cursor operator (map toForeignRecord (take p ?U)) =
      (if length rows < n then Inr (map toForeignRecord (take p' ?U), True)
       else (case last_stamp rows of
               None \<Rightarrow> Inr (map toForeignRecord (take p' ?U), False)
             | Some stamp \<Rightarrow> if p' = p then Inr (map toForeignRecord (take p' ?U), False)
                 else fetch_pages get filt n k (Some stamp) ''>='' (map toForeignRecord (take p' ?U))))"
  proof -
    have "length (map toForeignRecord (take p' ?U)) = length (map toForeignRecord (take p ?U)) \<longleftrightarrow> p' = p"
      using p by (auto simp: p'_def)
    then show ?thesis
      by (simp only: fetch_pages.simps q(3) payload_rows_page records Let_def sum.case flip: rows_def)
  qed
  show ?case
  proof (cases "length rows < n")
    case True
    then have "p' = length ?U" using q(1) p by (auto simp: rows_def p'_def)
    then show ?thesis using step True p by (intro exI [of _ p'] exI [of _ True]) simp
  next
    case False
    then have len: "q + n \<le> length ?U" using assms(3) by (auto simp: rows_def)
    then have p'_eq: "p' = max p (q + n)" using p by (simp add: p'_def)
    have mem: "?U ! (q + n - 1) \<in> set table"
      using nth_mem [of "q + n - 1" ?U] len assms(3) by (simp add: changed_rows_def)
    then have "asString (prop_of (?U ! (q + n - 1)) ''sys_updated_on'') = Some (row_stamp (?U ! (q + n - 1)))"
      using assms(1) by (auto simp: incident_table_def elim: incident_row_facts)
    then have stamp: "last_stamp rows = Some (row_stamp (?U ! (q + n - 1)))"
      using last_of_take_drop [OF rows_def assms(3) len] by (simp add: last_stamp_def)
    show ?thesis
    proof (cases "p' = p")
      case True
      then show ?thesis using step stamp False p p'_eq by (intro exI [of _ p'] exI [of _ False]) auto
    next
      case new: False
      then have p'_new: "p' = q + n" "p \<le> p'" "p' \<le> length ?U" "0 < p'" using p'_eq len assms(3) by auto
      then have "poll_at table start p' (Some (row_stamp (?U ! (q + n - 1)))) ''>=''" by (simp add: poll_at_def)
      from Suc.IH [OF this] obtain r ended where r: "fetch_pages get filt n k (Some (row_stamp (?U ! (q + n - 1)))) ''>=''
          (map toForeignRecord (take p' ?U)) = Inr (map toForeignRecord (take r ?U), ended)"
        "p' \<le> r" "r \<le> length ?U" "ended \<longrightarrow> r = length ?U" by blast
      have "fetch_pages get filt n (Suc k) cursor operator (map toForeignRecord (take p ?U)) = Inr (map toForeignRecord (take r ?U), ended)"
        by (simp only: step stamp False new r(1) option.case if_False)
      then show ?thesis using r p'_new by (intro exI [of _ r] exI [of _ ended]) simp
    qed
  qed
qed

lemma newest_stamp_Max: "records \<noteq> [] \<Longrightarrow> newest_stamp records = Max (fr_updatedAt ` set records)"
proof -
  have "foldl (\<lambda>latest r. if latest < fr_updatedAt r then fr_updatedAt r else latest) w records = fold max (map fr_updatedAt records) w" for w
    by (induction records arbitrary: w) (auto simp: max_def)
  then have "newest_stamp records = Max (set ([] # map fr_updatedAt records))"
    unfolding newest_stamp_def Max.set_eq_fold by simp
  moreover assume "records \<noteq> []"
  ultimately show ?thesis by (simp add: Max_insert max_absorb2)
qed

lemma newest_of_take:
  assumes "incident_table table" and "0 < p" and "p \<le> length (changed_rows table start)"
  shows "newest_stamp (map toForeignRecord (take p (changed_rows table start))) =
    fr_updatedAt (toForeignRecord (changed_rows table start ! (p - 1)))"
    and "filter (\<lambda>r. fr_updatedAt r < fr_updatedAt (toForeignRecord (changed_rows table start ! (p - 1))))
        (map toForeignRecord (take p (changed_rows table start))) =
      map toForeignRecord (filter (\<lambda>row. row_stamp row < row_stamp (changed_rows table start ! (p - 1))) (changed_rows table start))"
    and "\<forall>row\<in>set (take p (changed_rows table start)). row_stamp row \<le> row_stamp (changed_rows table start ! (p - 1))"
proof -
  let ?U = "changed_rows table start" and ?newest = "fr_updatedAt (toForeignRecord (changed_rows table start ! (p - 1)))"
  have rows: "incident_row row" if "row \<in> set ?U" for row
    using assms(1) that by (simp add: incident_table_def changed_rows_def)
  have sorted: "sorted (map row_stamp ?U)"
    using assms(1) by (simp add: changed_rows_def incident_table_def sorted_filter)
  have last: "?U ! (p - 1) \<in> set ?U" using assms(2,3) by (intro nth_mem) simp
  show stamps: "\<forall>row\<in>set (take p ?U). row_stamp row \<le> row_stamp (?U ! (p - 1))"
    using sorted_nth_mono [OF sorted, of _ "p - 1"] assms(2,3) by (auto simp: in_set_conv_nth)
  then have bound: "\<forall>r\<in>set (map toForeignRecord (take p ?U)). fr_updatedAt r \<le> ?newest"
    using row_order [OF rows [OF last] rows] by (auto simp: not_less [symmetric] dest: in_set_takeD)
  have "?U ! (p - 1) \<in> set (take p ?U)"
    using assms(2,3) nth_mem [of "p - 1" "take p ?U"] by simp
  then have "toForeignRecord (?U ! (p - 1)) \<in> set (map toForeignRecord (take p ?U))" by simp
  then have "Max (fr_updatedAt ` set (map toForeignRecord (take p ?U))) = ?newest"
    using bound by (intro Max_eqI) blast+
  moreover have "take p ?U \<noteq> []" using assms(2,3) by auto
  ultimately show "newest_stamp (map toForeignRecord (take p ?U)) = ?newest" by (simp add: newest_stamp_Max)
  have "filter (\<lambda>row. row_stamp row < row_stamp (?U ! (p - 1))) (drop p ?U) = []"
    using sorted_nth_mono [OF sorted, of "p - 1"] assms(2,3)
    by (auto simp: filter_empty_conv in_set_conv_nth not_less)
  then have "filter (\<lambda>row. row_stamp row < row_stamp (?U ! (p - 1))) ?U = filter (\<lambda>row. row_stamp row < row_stamp (?U ! (p - 1))) (take p ?U)"
    by (metis append_Nil2 append_take_drop_id filter_append)
  moreover have "filter (\<lambda>row. row_stamp row < row_stamp (?U ! (p - 1))) (take p ?U) = filter (\<lambda>row. fr_updatedAt (toForeignRecord row) < ?newest) (take p ?U)"
    using row_order [OF rows rows [OF last]] by (intro filter_cong) (auto dest: in_set_takeD)
  ultimately show "filter (\<lambda>r. fr_updatedAt r < ?newest) (map toForeignRecord (take p ?U)) =
      map toForeignRecord (filter (\<lambda>row. row_stamp row < row_stamp (?U ! (p - 1))) ?U)"
    by (simp add: filter_map o_def)
qed

text \<open>
  C2. A poll leaves no gap. Where it succeeds, it returns all rows that changed after the watermark,
  or exactly those among them before the time stamp at which it stopped, so that a watermark set to
  the newest of them does not step over an unread row; it always makes progress. Where it fails although the
  instance answers, a whole page shares one time stamp.
\<close>

theorem fetchChangedIncidents_complete:
  assumes "incident_table table" and "serves get table (map_option toServiceNowDateTime since) filt (max 1 wanted)"
  defines "changed \<equiv> changed_rows table (map_option toServiceNowDateTime since)"
  shows "fetchChangedIncidents get since filt wanted pages = Inr (map toForeignRecord changed) \<or>
    (\<exists>stop. fetchChangedIncidents get since filt wanted pages = Inr (map toForeignRecord (filter (\<lambda>row. row_stamp row < stop) changed)) \<and>
      filter (\<lambda>row. row_stamp row < stop) changed \<noteq> []) \<or>
    (\<exists>stop. fetchChangedIncidents get since filt wanted pages = Inl (page_too_wide (max 1 wanted) (fromServiceNowDateTime stop)) \<and>
      max 1 wanted \<le> length (filter (\<lambda>row. row_stamp row = stop) changed))"
proof -
  let ?start = "map_option toServiceNowDateTime since" and ?n = "max 1 wanted"
  have init: "poll_at table ?start 0 ?start ''>''" by (simp add: poll_at_def)
  have sizes: "0 < ?n" "0 < max 1 pages" by simp_all
  obtain p ended where pages: "fetch_pages get filt ?n (max 1 pages) ?start ''>'' [] = Inr (map toForeignRecord (take p changed), ended)"
    and p: "p \<le> length changed" "ended \<longrightarrow> p = length changed" "ended \<or> ?n \<le> p"
    using fetch_pages_reads [OF assms(1,2) sizes(1) init, of "max 1 pages"] sizes(2) unfolding changed_def take_0 list.map by blast
  show ?thesis
  proof (cases ended)
    case True
    then show ?thesis using pages p by (simp add: fetchChangedIncidents_def Let_def)
  next
    case False
    then have pos: "0 < p" "?n \<le> p" using p(3) by auto
    then have "take p changed \<noteq> []" using p(1) by auto
    define stop where "stop = row_stamp (changed ! (p - 1))"
    note newest = newest_of_take [OF assms(1) pos(1) p(1) [unfolded changed_def], folded changed_def, folded stop_def]
    have last: "changed ! (p - 1) \<in> set changed" using pos(1) p(1) by (intro nth_mem) simp
    have result: "fetchChangedIncidents get since filt wanted pages =
        (if filter (\<lambda>row. row_stamp row < stop) changed = [] then Inl (page_too_wide ?n (fromServiceNowDateTime stop))
         else Inr (map toForeignRecord (filter (\<lambda>row. row_stamp row < stop) changed)))"
      using False pages newest(1,2) \<open>take p changed \<noteq> []\<close>
      by (simp add: fetchChangedIncidents_def Let_def stop_def row_stamp_def toForeignRecord_def)
    show ?thesis
    proof (cases "filter (\<lambda>row. row_stamp row < stop) changed = []")
      case True
      have "row_stamp row = stop" if "row \<in> set (take p changed)" for row
        using True newest(3) that by (fastforce simp: filter_empty_conv dest: in_set_takeD)
      then have "filter (\<lambda>row. row_stamp row = stop) (take p changed) = take p changed" by simp
      then have "p \<le> length (filter (\<lambda>row. row_stamp row = stop) changed)"
        using p(1) by (metis append_take_drop_id filter_append length_append length_take le_add1 min.absorb2)
      then have "?n \<le> length (filter (\<lambda>row. row_stamp row = stop) changed)" using pos(2) by linarith
      then show ?thesis using result True by auto
    next
      case False
      then show ?thesis using result by auto
    qed
  qed
qed

definition sample_incident :: "string \<Rightarrow> string \<Rightarrow> js_object" where
  "sample_incident i stamp = [(''sys_id'', JStr i), (''number'', JStr ''INC''), (''sys_updated_on'', JStr stamp)]"

definition sample_table :: "js_object list" where
  "sample_table = [sample_incident ''a'' ''2025-03-01 09:00:00'', sample_incident ''b'' ''2025-03-01 09:00:00'']"

definition sample_get :: "string \<Rightarrow> sn_error + jsval" where
  "sample_get path = Inr (JObj [(''result'', JArr (map JObj sample_table))])"

lemma sample_table_ok: "incident_table sample_table"
proof -
  have stamp: "sn_stamp 1740819600 = ''2025-03-01 09:00:00''" by code_simp
  have "plain_day (1740819600 div 86400)" by code_simp
  then have "incident_row (sample_incident ''a'' ''2025-03-01 09:00:00'')" "incident_row (sample_incident ''b'' ''2025-03-01 09:00:00'')"
    unfolding incident_row_def
    by (auto simp: sample_incident_def prop_of_def stamp [symmetric] string_or_empty_def asString_def js_trim_def js_space_def
      intro!: exI [of _ "1740819600 :: int"])
  moreover have "distinct (map row_id sample_table)" "sorted (map row_stamp sample_table)" by code_simp+
  ultimately show ?thesis by (auto simp: incident_table_def sample_table_def)
qed

theorem fetchChangedIncidents_complete_witness:
  "fetchChangedIncidents sample_get None [] 5 3 = Inr (map toForeignRecord sample_table)"
proof -
  have "page_of sample_table 5 None ''>'' = sample_table" "page_of sample_table 5 (Some ''2025-03-01 09:00:00'') ''>='' = sample_table"
    "map row_stamp sample_table = [''2025-03-01 09:00:00'', ''2025-03-01 09:00:00'']" "changed_rows sample_table None = sample_table"
    by code_simp+
  moreover from this(3) have "(\<lambda>row. (Some (row_stamp row), ''>='')) ` set sample_table = {(Some ''2025-03-01 09:00:00'', ''>='')}"
    by (simp add: sample_table_def)
  ultimately have "serves sample_get sample_table (map_option toServiceNowDateTime None) [] (max 1 5)"
    by (simp add: serves_def sample_get_def)
  from fetchChangedIncidents_complete [OF sample_table_ok this, of 3]
  have cases: "fetchChangedIncidents sample_get None [] 5 3 = Inr (map toForeignRecord sample_table) \<or>
    (\<exists>stop. fetchChangedIncidents sample_get None [] 5 3 = Inr (map toForeignRecord (filter (\<lambda>row. row_stamp row < stop) sample_table)) \<and>
      filter (\<lambda>row. row_stamp row < stop) sample_table \<noteq> []) \<or>
    (\<exists>stop. 5 \<le> length (filter (\<lambda>row. row_stamp row = stop) sample_table))"
    unfolding list.map option.map \<open>changed_rows sample_table None = sample_table\<close> by auto
  have "filter (\<lambda>row. row_stamp row < stop) sample_table = sample_table \<or> filter (\<lambda>row. row_stamp row < stop) sample_table = []" for stop
    using \<open>map row_stamp sample_table = _\<close> by (simp add: sample_table_def)
  moreover have "\<not> 5 \<le> length (filter P sample_table)" for P
    using length_filter_le [of P sample_table] by (simp add: sample_table_def)
  ultimately show ?thesis using cases by metis
qed

section \<open>The journal\<close>

record journal_entry =
  je_stamp :: string
  je_author :: string
  je_text :: string

text \<open>A work note as the instance writes it; its text ends its line and contains nothing that looks like a stamp.\<close>

definition work_note :: "journal_entry \<Rightarrow> string" where
  "work_note e = je_stamp e @ '' - '' @ je_author e @ ''(Work notes)'' @ je_text e"

definition plain_note :: "journal_entry \<Rightarrow> bool" where
  "plain_note e \<longleftrightarrow> stamp_pattern (je_stamp e) \<and> je_author e \<noteq> [] \<and> CHR ''('' \<notin> set (je_author e) \<and>
     je_text e \<noteq> [] \<and> List.last (je_text e) = CHR 0x0A \<and> (\<forall>i. \<not> stamp_pattern (take 19 (drop i (je_text e))))"

fun note_comments :: "journal_entry list \<Rightarrow> nat \<Rightarrow> foreign_comment list" where
  "note_comments [] i = []"
| "note_comments (e # es) i = journal_comment (je_stamp e) (je_author e) i # note_comments es (i + 1)"

lemma match_work_note:
  assumes "plain_note e"
  shows "match_entry (work_note e @ rest) = Some (je_stamp e, je_author e, je_text e @ rest)"
proof -
  have len: "length (je_stamp e) = 19" and pattern: "stamp_pattern (je_stamp e)" using assms by (simp_all add: plain_note_def stamp_pattern_def)
  have "CHR ''('' \<notin> set a \<Longrightarrow> takeWhile (\<lambda>c. c \<noteq> CHR ''('') (a @ CHR ''('' # xs) = a"
    "CHR ''('' \<notin> set a \<Longrightarrow> dropWhile (\<lambda>c. c \<noteq> CHR ''('') (a @ CHR ''('' # xs) = CHR ''('' # xs" for a xs
    by (induction a) auto
  then show ?thesis
    using len pattern assms by (simp add: match_entry_def work_note_def after_prefix_def plain_note_def Let_def)
qed

lemma stamp_has_no_newline: "stamp_pattern s \<Longrightarrow> CHR 0x0A \<notin> set s"
  by (auto simp: stamp_pattern_def list_all2_Cons1 is_digit_def)

lemma journal_skips_text:
  "(\<forall>i. \<not> stamp_pattern (take 19 (drop i body))) \<Longrightarrow> body = [] \<or> List.last body = CHR 0x0A \<Longrightarrow>
   journal_entries (body @ rest) n = journal_entries rest n"
proof (induction body)
  case (Cons c cs)
  have "\<not> stamp_pattern (take 19 ((c # cs) @ rest))"
  proof (cases "19 \<le> length (c # cs)")
    case True
    then show ?thesis using Cons.prems(1) [rule_format, of 0] by simp
  next
    case False
    then have "take 19 ((c # cs) @ rest) = (c # cs) @ take (19 - length (c # cs)) rest" by simp
    moreover have "CHR 0x0A \<in> set (c # cs)" using Cons.prems(2) by (metis last_in_set list.distinct(1))
    ultimately show ?thesis using stamp_has_no_newline by (metis Un_iff set_append)
  qed
  then have "match_entry ((c # cs) @ rest) = None" by (simp add: match_entry_def)
  moreover have "journal_entries (cs @ rest) n = journal_entries rest n"
  proof (rule Cons.IH)
    show "\<forall>i. \<not> stamp_pattern (take 19 (drop i cs))"
    proof
      fix i show "\<not> stamp_pattern (take 19 (drop i cs))" using spec [OF Cons.prems(1), of "Suc i"] by simp
    qed
  qed (use Cons.prems(2) in \<open>simp split: if_splits\<close>)
  ultimately show ?case by (subst journal_entries.simps) simp
qed simp

lemma journal_reads_notes:
  "\<forall>e\<in>set es. plain_note e \<Longrightarrow> journal_entries (concat (map work_note es)) n = note_comments es n"
proof (induction es arbitrary: n)
  case (Cons e es)
  have "work_note e \<noteq> []" using Cons.prems by (auto simp: work_note_def)
  then obtain c cs where "work_note e @ concat (map work_note es) = c # cs" by (cases "work_note e") auto
  moreover have "match_entry (work_note e @ concat (map work_note es)) = Some (je_stamp e, je_author e, je_text e @ concat (map work_note es))"
    using Cons.prems by (intro match_work_note) simp
  moreover have "journal_entries (je_text e @ concat (map work_note es)) (n + 1) = journal_entries (concat (map work_note es)) (n + 1)"
    using Cons.prems by (intro journal_skips_text) (auto simp: plain_note_def)
  ultimately show ?case using Cons by (subst journal_entries.simps) simp
qed (simp add: journal_entries.simps)

lemma journal_parsed: "\<forall>e\<in>set es. plain_note e \<Longrightarrow> parseJournal (concat (map work_note es)) = note_comments es 0"
proof (cases es)
  case (Cons e es')
  assume plain: "\<forall>e\<in>set es. plain_note e"
  obtain c cs where stamp: "je_stamp e = c # cs" "is_digit c"
    using plain Cons by (cases "je_stamp e") (auto simp: plain_note_def stamp_pattern_def)
  then have "js_trim (concat (map work_note es)) \<noteq> []"
    using Cons digit_not_space [OF stamp(2)] by (auto simp: js_trim_def work_note_def)
  then show ?thesis using journal_reads_notes [OF plain] by (simp add: parseJournal_def)
qed (simp add: parseJournal_def js_trim_def)

text \<open>
  The journal is read back entry by entry, in its order: its comments are numbered from the
  front, and the number is part of a comment's identifier.
\<close>

theorem parseJournal_reads:
  assumes "\<forall>e\<in>set es. plain_note e"
  shows "parseJournal (concat (map work_note es)) = note_comments es 0"
  by (rule journal_parsed [OF assms])

definition sample_note :: journal_entry where
  "sample_note = \<lparr>je_stamp = ''2025-03-01 09:00:00'', je_author = ''Ada '', je_text = [CHR 0x0A] @ ''Fixed.'' @ [CHR 0x0A]\<rparr>"

lemma sample_note_plain: "plain_note sample_note"
proof -
  have "\<not> stamp_pattern (take 19 (drop i (je_text sample_note)))" for i
    by (simp add: stamp_pattern_def sample_note_def)
  moreover have "stamp_pattern (je_stamp sample_note)" by code_simp
  ultimately show ?thesis by (simp add: plain_note_def sample_note_def)
qed

theorem parseJournal_reads_witness:
  "map fc_externalId (parseJournal (work_note sample_note)) = [''2025-03-01 09:00:00#0'']"
proof -
  have "js_nat_string 0 = ''0''" by code_simp
  then show ?thesis
    using parseJournal_reads [of "[sample_note]"] sample_note_plain by (simp add: journal_comment_def sample_note_def)
qed

lemma note_comments_nth:
  "i < length es \<Longrightarrow> fc_externalId (note_comments es n ! i) = je_stamp (es ! i) @ ''#'' @ js_nat_string (n + i) \<and>
     fc_createdAt (note_comments es n ! i) = fromServiceNowDateTime (je_stamp (es ! i))"
  by (induction es arbitrary: n i) (auto simp: nth_Cons journal_comment_def split: nat.split)

lemma js_nat_string_inject: "js_nat_string m = js_nat_string n \<longleftrightarrow> m = n"
  by (metis digits_value_nat_string)

text \<open>
  The identifiers of comments are not stable. The journal holds its newest entry first; once an entry is
  added, every older comment gets another identifier, although the comment is the same, so
  the key of a dispatch that a comment triggers names another comment on the next poll.
\<close>

theorem parseJournal_renumbers:
  assumes "\<forall>e\<in>set (newer # es). plain_note e" and "i < length es"
  shows "fc_createdAt (parseJournal (concat (map work_note (newer # es))) ! Suc i) = fc_createdAt (parseJournal (concat (map work_note es)) ! i) \<and>
    fc_externalId (parseJournal (concat (map work_note (newer # es))) ! Suc i) \<noteq> fc_externalId (parseJournal (concat (map work_note es)) ! i)"
proof -
  have "parseJournal (concat (map work_note (newer # es))) = journal_comment (je_stamp newer) (je_author newer) 0 # note_comments es 1"
    using journal_parsed [OF assms(1)] by simp
  moreover have "parseJournal (concat (map work_note es)) = note_comments es 0"
    using assms(1) by (intro journal_parsed) simp
  ultimately show ?thesis
    using note_comments_nth [OF assms(2)] by (simp add: js_nat_string_inject)
qed

theorem parseJournal_renumbers_witness:
  "map fc_externalId (parseJournal (work_note sample_note @ work_note sample_note)) ! 1 \<noteq> map fc_externalId (parseJournal (work_note sample_note)) ! 0"
proof -
  have "parseJournal (work_note sample_note @ work_note sample_note) = note_comments [sample_note, sample_note] 0"
    "parseJournal (work_note sample_note) = note_comments [sample_note] 0"
    using sample_note_plain journal_parsed [of "[sample_note, sample_note]"] journal_parsed [of "[sample_note]"] by simp_all
  then show ?thesis
    using parseJournal_renumbers [of sample_note "[sample_note]" 0] sample_note_plain by simp
qed

text \<open>
  A record that has not changed since it was stored is never recognised, and neither is the echo of
  an own write: the instance's stamps have no milliseconds, the stored ones have, and the code compares them as
  strings, where the \<open>Z\<close> is greater than the point. Every poll plans an update for the record.
\<close>

theorem unchanged_record_updated:
  assumes "plain_day (t div 86400)" and "fr_updatedAt r = short_stamp t" and "plain_ms u" and "u \<le> 1000 * t"
    and "ko_foreignUpdatedAt k = iso_string u" and "\<forall>w. ko_lastWrittenAt k = Some w \<longrightarrow> w = iso_string (1000 * t)"
  shows "is_Dec_update (hd (decide_known lc config k r))"
proof -
  have "\<not> short_stamp t \<le> iso_string u" using short_stamp_le_iso [OF assms(1,3)] assms(4) by simp
  moreover have "\<not> short_stamp t \<le> w" if "ko_lastWrittenAt k = Some w" for w
    using assms(6) that short_stamp_le_iso [OF assms(1), of "1000 * t"] assms(1) by (simp add: plain_ms_second)
  ultimately show ?thesis
    using assms(2,5) by (auto simp: decide_known_def split: option.splits)
qed

definition sample_unchanged_origin :: known_origin where
  "sample_unchanged_origin = \<lparr>ko_ticketId = ''t1'', ko_externalId = ''a'', ko_foreignUpdatedAt = iso_string 1740819600000,
     ko_lastWrittenAt = Some (iso_string 1740819600000), ko_dispatchCount = 0, ko_hasTerminalRun = False\<rparr>"

theorem unchanged_record_updated_witness:
  "is_Dec_update (hd (decide_known code_unit_compare sample_sync_config sample_unchanged_origin
     (toForeignRecord (sample_incident ''a'' ''2025-03-01 09:00:00''))))"
proof (rule unchanged_record_updated [of 1740819600 _ 1740819600000])
  show "plain_day (1740819600 div 86400)" "plain_ms 1740819600000" by code_simp+
  show "fr_updatedAt (toForeignRecord (sample_incident ''a'' ''2025-03-01 09:00:00'')) = short_stamp 1740819600" by code_simp
qed (simp_all add: sample_unchanged_origin_def)

end
