(* ===== verification/ConnectorRuntime.thy ===== *)
theory ConnectorRuntime
  imports Writeback ServiceNow
begin

text \<open>
  The tick of the connectors, \<open>server/connectors/runtime.ts\<close>: a sync pass and the row it leaves, the failure count that
  disables a connector, the deferred dispatches, and the order in which a tick runs them. The instance, the
  decryption of the secret and the start of a run are parameters of the record \<open>world\<close>.
\<close>

section \<open>The surroundings\<close>

record world =
  wd_host :: host
  wd_parse_url :: "string \<Rightarrow> (string \<times> string) option"
  wd_secret :: "string \<Rightarrow> string + string" \<comment> \<open>the client secret of a connector, or the message of what decrypting it throws\<close>
  wd_get :: "string \<Rightarrow> string \<Rightarrow> sn_error + jsval" \<comment> \<open>connector, path\<close>
  wd_post :: "string \<Rightarrow> transport"
  wd_state :: "string \<Rightarrow> string \<Rightarrow> string + incident_state option"
  wd_message :: "store_error \<Rightarrow> string"
  wd_has_worker :: bool
  wd_start :: "string \<Rightarrow> string + string option" \<comment> \<open>\<open>startTicketRun\<close> of a ticket: the run, if one started\<close>

definition connector_of :: "runtime_db \<Rightarrow> string \<Rightarrow> connector_row option" where
  "connector_of db i = first_row (\<lambda>c. cn_id c = i) (db_connectors (rt_db db))"

definition set_connector :: "string \<Rightarrow> (connector_row \<Rightarrow> connector_row) \<Rightarrow> runtime_db \<Rightarrow> runtime_db" where
  "set_connector i f db =
     db\<lparr>rt_db := (rt_db db)\<lparr>db_connectors := fst (sql_update (\<lambda>c. cn_id c = i) f (db_connectors (rt_db db)))\<rparr>\<rparr>"

definition FAILURE_CEILING :: int where "FAILURE_CEILING = 10"

section \<open>Client and configuration\<close>

text \<open>The connector whose client may be used: \<open>Inr None\<close> where there is none, the message where loading it throws.\<close>

definition loadConnectorClient :: "world \<Rightarrow> runtime_db \<Rightarrow> string \<Rightarrow> string + connector_row option" where
  "loadConnectorClient w db i =
     (case connector_of db i of
        None \<Rightarrow> Inr None
      | Some c \<Rightarrow>
          if \<not> cn_enabled c then Inr None
          else (case connectorBaseUrlIssue (wd_parse_url w) (cn_baseUrl c) of
                  Some issue \<Rightarrow> Inl (''Connector '' @ i @ '' has an unusable base URL: it '' @ issue @ ''.'')
                | None \<Rightarrow> (case wd_secret w i of Inl message \<Rightarrow> Inl message | Inr _ \<Rightarrow> Inr (Some c))))"

definition unknown_connector :: "string \<Rightarrow> string" where
  "unknown_connector i = ''Unknown connector '' @ i"

definition route_rows :: "runtime_db \<Rightarrow> string \<Rightarrow> environment_route list" where
  "route_rows db i = concat (map (\<lambda>r. map (\<lambda>e. \<lparr>er_sourceField = ro_sourceField r, er_sourceValue = ro_sourceValue r,
       er_environmentKey = en_key e, er_position = ro_position r\<rparr>)
     (filter (\<lambda>e. en_id e = ro_environmentId r) (ed_environments (rt_env db))))
     (filter (\<lambda>r. ro_connectorId r = i) (db_routes (rt_db db))))"

definition loadSyncConfig :: "runtime_db \<Rightarrow> string \<Rightarrow> string + sync_config" where
  "loadSyncConfig db i =
     (case connector_of db i of
        None \<Rightarrow> Inl (unknown_connector i)
      | Some c \<Rightarrow>
          let cdb = db_creation (rt_db db) in
          Inr \<lparr>sc_mappings = map mr_mapping (filter (\<lambda>m. mr_connectorId m = i) (db_mappings (rt_db db))),
            sc_vocabulary = \<lparr>mv_statusKeys = map ts_key (sd_statuses (cd_sla cdb)), mv_serviceIds = map sv_id (sd_services (cd_sla cdb)),
              mv_serviceSubcategoryIds = map fst (cd_subcategories cdb), mv_defaultServiceId = ''svc-general'',
              mv_defaultServiceSubcategoryId = ''ss-general''\<rparr>,
            sc_routes = route_rows db i,
            sc_defaultEnvironmentKey = (case first_row (\<lambda>e. en_id e = cn_defaultEnvironmentId c) (ed_environments (rt_env db)) of
              None \<Rightarrow> [] | Some e \<Rightarrow> en_key e),
            sc_knownEnvironmentKeys = map en_key (ed_environments (rt_env db)),
            sc_createCeiling = cn_createCeiling c, sc_dispatchCeiling = cn_dispatchCeiling c\<rparr>)"

section \<open>A sync pass\<close>

text \<open>Why a pass ends early: refused by the planner's ceiling, or failed with a message.\<close>

datatype pass_error = Pass_rejected string | Pass_failed string

definition ceiling_message :: "int \<Rightarrow> int \<Rightarrow> string" where
  "ceiling_message bound attempted = ''Connector sync refused: the pass would create '' @ js_int_string attempted @
     '' tickets, above the ceiling of '' @ js_int_string bound @ ''. Check the connector filter and the watermark before raising it.''"

fun sync_failure :: "sync_error \<Rightarrow> pass_error" where
  "sync_failure (Err_duplicate_external_id i) = Pass_failed (''Connector sync received the same external id twice: '' @ i)"
| "sync_failure (Err_create_ceiling bound attempted) = Pass_rejected (ceiling_message bound attempted)"

definition run_row_of :: "string \<Rightarrow> sync_mode \<Rightarrow> sync_status \<Rightarrow> sync_plan option \<Rightarrow> string option \<Rightarrow> connector_run" where
  "run_row_of i mode status plan error = \<lparr>cu_connectorId = i, cu_mode = mode, cu_status = status,
     cu_fetchedCount = (case plan of None \<Rightarrow> 0 | Some p \<Rightarrow> sp_fetchedCount p), cu_createdCount = (case plan of None \<Rightarrow> 0 | Some p \<Rightarrow> sp_createCount p),
     cu_updatedCount = (case plan of None \<Rightarrow> 0 | Some p \<Rightarrow> sp_updateCount p), cu_skippedCount = (case plan of None \<Rightarrow> 0 | Some p \<Rightarrow> sp_skipCount p),
     cu_dispatchedCount = (case plan of None \<Rightarrow> 0 | Some p \<Rightarrow> sp_dispatchCount p),
     cu_quarantinedCount = (case plan of None \<Rightarrow> 0 | Some p \<Rightarrow> length (sp_quarantined p)), cu_error = error\<rparr>"

definition record_run :: "connector_run \<Rightarrow> runtime_db \<Rightarrow> runtime_db" where
  "record_run r db = db\<lparr>rt_db := (rt_db db)\<lparr>db_runs := db_runs (rt_db db) @ [r]\<rparr>\<rparr>"

definition store_config_of :: "connector_row \<Rightarrow> store_config" where
  "store_config_of c = \<lparr>so_connectorId = cn_id c, so_ticketOrigin = cn_ticketOrigin c, so_fallbackReporterId = cn_fallbackReporterId c\<rparr>"

text \<open>Fetching and planning, which change nothing.\<close>

definition plan_pass :: "world \<Rightarrow> runtime_db \<Rightarrow> connector_row \<Rightarrow> pass_error + sync_plan" where
  "plan_pass w db c =
     (case loadSyncConfig db (cn_id c) of
        Inl message \<Rightarrow> Inl (Pass_failed message)
      | Inr config \<Rightarrow>
          (case fetchChangedIncidents (wd_get w (cn_id c)) (cn_watermark c) (cn_recordFilter c) 200 50 of
             Inl e \<Rightarrow> Inl (Pass_failed (se_message e))
           | Inr records \<Rightarrow>
               (case calculateConnectorSync (h_lc (wd_host w)) records
                       (knownOrigins (store_config_of c) (rt_db db) (map fr_externalId records)) config of
                  Inl e \<Rightarrow> Inl (sync_failure e)
                | Inr plan \<Rightarrow> Inr plan)))"

definition mark_success :: "ms option \<Rightarrow> ms \<Rightarrow> connector_row \<Rightarrow> connector_row" where
  "mark_success watermark now c = (case watermark of None \<Rightarrow> c | Some t \<Rightarrow> c\<lparr>cn_watermark := Some t\<rparr>)
     \<lparr>cn_lastSuccessfulSyncAt := Some now, cn_consecutiveFailures := 0, cn_disabledReason := None\<rparr>"

text \<open>Applying a plan: the database, which a throw leaves with what was committed, and what was thrown.\<close>

definition apply_pass :: "world \<Rightarrow> connector_row \<Rightarrow> sync_plan \<Rightarrow> runtime_db \<Rightarrow> runtime_db \<times> pass_error option" where
  "apply_pass w c plan db =
     (case apply_plan (wd_host w) (store_config_of c) plan (rt_db db) of
        (cdb, Inl e) \<Rightarrow> (db\<lparr>rt_db := cdb\<rparr>, Some (Pass_failed (wd_message w e)))
      | (cdb, Inr summary) \<Rightarrow>
          (case sp_watermark plan of
             None \<Rightarrow> (set_connector (cn_id c) (mark_success None (h_now (wd_host w))) (db\<lparr>rt_db := cdb\<rparr>), None)
           | Some stamp \<Rightarrow>
               if stamp = [] then (set_connector (cn_id c) (mark_success None (h_now (wd_host w))) (db\<lparr>rt_db := cdb\<rparr>), None)
               else (case h_date_parse (wd_host w) stamp of
                       None \<Rightarrow> (db\<lparr>rt_db := cdb\<rparr>, Some (Pass_failed (wd_message w Store_invalid_date)))
                     | Some t \<Rightarrow> (set_connector (cn_id c) (mark_success (Some t) (h_now (wd_host w))) (db\<lparr>rt_db := cdb\<rparr>), None))))"

definition noteFailure :: "string \<Rightarrow> runtime_db \<Rightarrow> runtime_db" where
  "noteFailure i db =
     (let failures = (case connector_of db i of None \<Rightarrow> 0 | Some c \<Rightarrow> cn_consecutiveFailures c) + 1
      in set_connector i (\<lambda>c. if FAILURE_CEILING \<le> failures
           then c\<lparr>cn_consecutiveFailures := failures, cn_enabled := False,
             cn_disabledReason := Some (''disabled after '' @ js_int_string failures @ '' consecutive failures'')\<rparr>
           else c\<lparr>cn_consecutiveFailures := failures\<rparr>) db)"

fun fail_pass :: "string \<Rightarrow> sync_mode \<Rightarrow> pass_error \<Rightarrow> runtime_db \<Rightarrow> runtime_db \<times> sync_status" where
  "fail_pass i mode (Pass_rejected message) db = (record_run (run_row_of i mode Sync_rejected None (Some message)) db, Sync_rejected)"
| "fail_pass i mode (Pass_failed message) db =
     (let db' = record_run (run_row_of i mode Sync_failed None (Some message)) db
      in (if mode = Mode_apply then noteFailure i db' else db', Sync_failed))"

text \<open>The whole pass; it throws only where the connector is unknown.\<close>

definition runConnectorSync :: "world \<Rightarrow> string \<Rightarrow> sync_mode \<Rightarrow> runtime_db \<Rightarrow> string + runtime_db \<times> sync_status" where
  "runConnectorSync w i mode db =
     (case connector_of db i of
        None \<Rightarrow> Inl (unknown_connector i)
      | Some c \<Rightarrow> Inr
          (case loadConnectorClient w db i of
             Inl message \<Rightarrow> fail_pass i mode (Pass_failed message) db
           | Inr None \<Rightarrow> (record_run (run_row_of i mode Sync_failed None (Some ''connector is disabled or missing'')) db, Sync_failed)
           | Inr (Some client) \<Rightarrow>
               (case plan_pass w db c of
                  Inl e \<Rightarrow> fail_pass i mode e db
                | Inr plan \<Rightarrow>
                    (case (if mode = Mode_apply then apply_pass w c plan db else (db, None)) of
                       (db', Some e) \<Rightarrow> fail_pass i mode e db'
                     | (db', None) \<Rightarrow> (record_run (run_row_of i mode Sync_completed (Some plan) None) db', Sync_completed)))))"

section \<open>Deferred dispatches\<close>

definition set_ledger :: "string \<Rightarrow> (ledger_row \<Rightarrow> ledger_row) \<Rightarrow> runtime_db \<Rightarrow> runtime_db" where
  "set_ledger i f db = db\<lparr>rt_db := (rt_db db)\<lparr>db_ledger := fst (sql_update (\<lambda>r. lg_id r = i) f (db_ledger (rt_db db)))\<rparr>\<rparr>"

definition dispatch_step :: "(string \<Rightarrow> string + string option) \<Rightarrow> string \<times> string \<Rightarrow> runtime_db \<times> nat \<Rightarrow> runtime_db \<times> nat" where
  "dispatch_step start = (\<lambda>(i, ticketId) (db, dispatched).
     case start ticketId of
       Inr runId \<Rightarrow>
         (set_origin ticketId (\<lambda>o'. o'\<lparr>og_dispatchCount := og_dispatchCount o' + 1\<rparr>)
            (set_ledger i (\<lambda>r. r\<lparr>lg_outcome := Disp_dispatched, lg_runId := runId\<rparr>) db), dispatched + 1)
     | Inl message \<Rightarrow>
         (if js_includes message ''Axel is not connected'' then db
          else set_ledger i (\<lambda>r. r\<lparr>lg_outcome := Disp_refused, lg_detail := Some message\<rparr>) db, dispatched))"

definition deferred_dispatches :: "int \<Rightarrow> runtime_db \<Rightarrow> (string \<times> string) list" where
  "deferred_dispatches limit db = map (\<lambda>r. (lg_id r, lg_ticketId r))
     (take (clamp_limit 100 limit) (filter (\<lambda>r. lg_outcome r = Disp_deferred_no_worker) (db_ledger (rt_db db))))"

definition sweepDeferredDispatches :: "world \<Rightarrow> int \<Rightarrow> runtime_db \<Rightarrow> runtime_db \<times> nat" where
  "sweepDeferredDispatches w limit db =
     (if \<not> wd_has_worker w then (db, 0) else fold (dispatch_step (wd_start w)) (deferred_dispatches limit db) (db, 0))"

section \<open>A tick\<close>

definition connector_due :: "ms \<Rightarrow> connector_row \<Rightarrow> bool" where
  "connector_due now c \<longleftrightarrow> cn_enabled c \<and>
     (cn_lastSuccessfulSyncAt c = None \<or> at_most (cn_lastSuccessfulSyncAt c) (now - cn_pollIntervalSeconds c * 1000))"

fun sync_all :: "world \<Rightarrow> string list \<Rightarrow> runtime_db \<Rightarrow> runtime_db \<times> string option" where
  "sync_all w [] db = (db, None)"
| "sync_all w (i # is) db =
     (case runConnectorSync w i Mode_apply db of Inl message \<Rightarrow> (db, Some message) | Inr (db', _) \<Rightarrow> sync_all w is db')"

definition client_or_none :: "world \<Rightarrow> runtime_db \<Rightarrow> string \<Rightarrow> connector_row option" where
  "client_or_none w db i = (case loadConnectorClient w db i of Inl _ \<Rightarrow> None | Inr c \<Rightarrow> c)"

definition foreign_state :: "world \<Rightarrow> runtime_db \<Rightarrow> string \<Rightarrow> string \<Rightarrow> string + (string option \<times> string option) option" where
  "foreign_state w db connectorId externalId =
     (case client_or_none w db connectorId of
        None \<Rightarrow> Inr None
      | Some _ \<Rightarrow> bind_result (wd_state w connectorId externalId) (\<lambda>st. Inr (map_option (\<lambda>s. (is_resolution s, is_closedBy s)) st)))"

text \<open>The first half of a tick: every due connector is polled, then the deferred dispatches are started.\<close>

definition tick_polls :: "world \<Rightarrow> ms \<Rightarrow> runtime_db \<Rightarrow> runtime_db \<times> string option" where
  "tick_polls w now db =
     (case sync_all w (map cn_id (filter (connector_due now) (db_connectors (rt_db db)))) db of
        (db', Some message) \<Rightarrow> (db', Some message)
      | (db', None) \<Rightarrow> (fst (sweepDeferredDispatches w 25 db'), None))"

text \<open>The tick, and the message where it throws.\<close>

definition runConnectorTick :: "world \<Rightarrow> ms \<Rightarrow> runtime_db \<Rightarrow> runtime_db \<times> string option" where
  "runConnectorTick w now db =
     (case tick_polls w now db of
        (db1, Some message) \<Rightarrow> (db1, Some message)
      | (db1, None) \<Rightarrow>
          (case backfillProposalOutcomes (foreign_state w db1) 25 (h_now (wd_host w)) db1 of
             (db2, Inl message) \<Rightarrow> (db2, Some message)
           | (db2, Inr filled) \<Rightarrow>
               (case sweepWritebacks (h_date_parse (wd_host w)) (\<lambda>i. map_option (\<lambda>_. wd_post w i) (client_or_none w db2 i)) 25
                   (h_now (wd_host w)) db2 of
                  (db3, Inl e) \<Rightarrow> (db3, Some (wd_message w e))
                | (db3, Inr ids) \<Rightarrow> (db3, None))))"

section \<open>What a pass leaves\<close>

lemma connector_of_set:
  "(\<And>c. cn_id (f c) = cn_id c) \<Longrightarrow> connector_of (set_connector i f db) i = map_option f (connector_of db i)"
proof -
  assume id: "\<And>c. cn_id (f c) = cn_id c"
  have "first_row (\<lambda>c. cn_id c = i) (fst (sql_update (\<lambda>c. cn_id c = i) f t)) = map_option f (first_row (\<lambda>c. cn_id c = i) t)" for t
    by (induction t) (simp_all add: sql_update_def first_row_def id)
  then show ?thesis by (simp add: connector_of_def set_connector_def)
qed

lemma connector_of_record [simp]: "connector_of (record_run r db) i = connector_of db i"
  by (simp add: connector_of_def record_run_def)

lemma apply_decision_frame:
  "apply_decision h cfg i d (db, s) = Inr (db', s') \<Longrightarrow> db_connectors db' = db_connectors db \<and> db_runs db' = db_runs db"
proof (cases d)
  case (Dec_create r t e trigger q)
  assume "apply_decision h cfg i d (db, s) = Inr (db', s')"
  then have "apply_create h cfg i r t trigger (db, s) = Inr (db', s')" by (simp add: Dec_create apply_decision_def)
  then show ?thesis by (rule apply_create_Inr) simp
qed (auto simp: apply_decision_def apply_update_def Let_def split: option.splits prod.splits)

lemma apply_decisions_frame:
  "db_connectors (fst (apply_decisions h cfg i ds st)) = db_connectors (fst st) \<and> db_runs (fst (apply_decisions h cfg i ds st)) = db_runs (fst st)"
proof (induction ds arbitrary: i st)
  case (Cons d ds)
  show ?case
  proof (cases "apply_decision h cfg i d st")
    case (Inr st')
    then have "apply_decision h cfg i d (fst st, snd st) = Inr (fst st', snd st')" by simp
    then show ?thesis using Cons.IH [of "i + 1" st'] Inr apply_decision_frame by fastforce
  qed simp
qed simp

lemma apply_plan_frame:
  "apply_plan h cfg plan db = (db', r) \<Longrightarrow> db_connectors db' = db_connectors db \<and> db_runs db' = db_runs db"
  unfolding apply_plan_def using apply_decisions_frame by (metis fst_conv)

lemma apply_pass_runs: "db_runs (rt_db (fst (apply_pass w c plan db))) = db_runs (rt_db db)"
  by (auto simp: apply_pass_def set_connector_def dest!: apply_plan_frame split: prod.splits sum.splits option.splits)

lemma apply_pass_connector:
  "snd (apply_pass w c plan db) = None \<Longrightarrow> \<exists>t. connector_of (fst (apply_pass w c plan db)) (cn_id c) =
     map_option (mark_success t (h_now (wd_host w))) (connector_of db (cn_id c))"
  "snd (apply_pass w c plan db) = Some e \<Longrightarrow> connector_of (fst (apply_pass w c plan db)) i = connector_of db i \<and> (\<exists>m. e = Pass_failed m)"
proof -
  obtain cdb r where a: "apply_plan (wd_host w) (store_config_of c) plan (rt_db db) = (cdb, r)" by fastforce
  have same: "connector_of (db\<lparr>rt_db := cdb\<rparr>) j = connector_of db j" for j
    using apply_plan_frame [OF a] by (simp add: connector_of_def)
  have set: "connector_of (set_connector (cn_id c) (mark_success t now) (db\<lparr>rt_db := cdb\<rparr>)) (cn_id c) =
      map_option (mark_success t now) (connector_of db (cn_id c))" for t now
    unfolding same [symmetric] by (rule connector_of_set) (simp add: mark_success_def split: option.split)
  show "snd (apply_pass w c plan db) = None \<Longrightarrow> \<exists>t. connector_of (fst (apply_pass w c plan db)) (cn_id c) =
     map_option (mark_success t (h_now (wd_host w))) (connector_of db (cn_id c))"
    using set by (auto simp: apply_pass_def a split: sum.splits option.splits if_splits)
  show "snd (apply_pass w c plan db) = Some e \<Longrightarrow> connector_of (fst (apply_pass w c plan db)) i = connector_of db i \<and> (\<exists>m. e = Pass_failed m)"
    using same by (auto simp: apply_pass_def a split: sum.splits option.splits if_splits)
qed

lemma fail_pass_runs:
  "\<exists>m. db_runs (rt_db (fst (fail_pass i mode e db))) = db_runs (rt_db db) @ [run_row_of i mode (snd (fail_pass i mode e db)) None (Some m)] \<and>
     snd (fail_pass i mode e db) \<noteq> Sync_completed"
  by (cases e) (auto simp: Let_def record_run_def noteFailure_def set_connector_def)

text \<open>
  C26. Every pass over a known connector leaves exactly one row, whether it completes, is refused or fails, with the status it
  reports; a preview leaves nothing else.
\<close>

theorem runConnectorSync_records:
  assumes "runConnectorSync w i mode db = Inr (db', status)"
  shows "\<exists>r. db_runs (rt_db db') = db_runs (rt_db db) @ [r] \<and> cu_connectorId r = i \<and> cu_mode r = mode \<and> cu_status r = status \<and>
    (cu_error r = None \<longleftrightarrow> status = Sync_completed) \<and> (mode = Mode_preview \<longrightarrow> db' = record_run r db)"
proof -
  obtain c where c: "connector_of db i = Some c" using assms by (auto simp: runConnectorSync_def split: option.splits)
  have failed: "\<exists>r. db_runs (rt_db db') = db_runs (rt_db db0) @ [r] \<and> cu_connectorId r = i \<and> cu_mode r = mode \<and> cu_status r = status \<and>
      (cu_error r = None \<longleftrightarrow> status = Sync_completed) \<and> (mode = Mode_preview \<longrightarrow> db' = record_run r db0)"
    if "fail_pass i mode e db0 = (db', status)" for e db0
  proof (cases e)
    case (Pass_rejected m)
    then show ?thesis using that by (intro exI [of _ "run_row_of i mode Sync_rejected None (Some m)"]) (auto simp: record_run_def run_row_of_def)
  next
    case (Pass_failed m)
    then show ?thesis using that
      by (intro exI [of _ "run_row_of i mode Sync_failed None (Some m)"])
        (auto simp: Let_def record_run_def run_row_of_def noteFailure_def set_connector_def split: if_splits)
  qed
  show ?thesis
  proof (cases "loadConnectorClient w db i")
    case (Inl m)
    then show ?thesis using assms c failed by (simp add: runConnectorSync_def del: fail_pass.simps)
  next
    case (Inr client)
    show ?thesis
    proof (cases client)
      case None
      then show ?thesis using assms c Inr by (auto simp: runConnectorSync_def record_run_def run_row_of_def)
    next
      case (Some client')
      show ?thesis
      proof (cases "plan_pass w db c")
        case (Inl e)
        then show ?thesis using assms c failed \<open>loadConnectorClient w db i = _\<close> Some by (simp add: runConnectorSync_def del: fail_pass.simps)
      next
        case (Inr plan)
        obtain db1 e where a: "(if mode = Mode_apply then apply_pass w c plan db else (db, None)) = (db1, e)" by fastforce
        have runs: "db_runs (rt_db db1) = db_runs (rt_db db)" "mode = Mode_preview \<Longrightarrow> db1 = db"
          using a apply_pass_runs [of w c plan db] by (auto split: if_splits)
        show ?thesis
        proof (cases e)
          case None
          then show ?thesis
            using assms c \<open>loadConnectorClient w db i = _\<close> Some Inr a runs
            by (intro exI [of _ "run_row_of i mode Sync_completed (Some plan) None"]) (auto simp: runConnectorSync_def record_run_def run_row_of_def)
        next
          case (Some e')
          then show ?thesis
            using assms c \<open>loadConnectorClient w db i = _\<close> \<open>client = _\<close> Inr a runs failed [of e' db1]
            by (cases mode) (auto simp: runConnectorSync_def simp del: fail_pass.simps)
        qed
      qed
    qed
  qed
qed

section \<open>Failures\<close>

text \<open>The row of a connector after a pass, by the status of the pass.\<close>

definition after_pass :: "connector_row \<Rightarrow> sync_status \<Rightarrow> connector_row \<Rightarrow> bool" where
  "after_pass c status c' \<longleftrightarrow> cn_id c' = cn_id c \<and> (case status of
       Sync_completed \<Rightarrow> cn_consecutiveFailures c' = 0 \<and> cn_enabled c'
     | Sync_rejected \<Rightarrow> c' = c
     | Sync_failed \<Rightarrow> cn_consecutiveFailures c' = cn_consecutiveFailures c + 1 \<and>
         (cn_enabled c' \<longleftrightarrow> cn_consecutiveFailures c + 1 < FAILURE_CEILING))"

lemma after_failure:
  assumes "fail_pass i Mode_apply e db = (db', status)" and "connector_of db i = Some c" and "cn_enabled c"
  shows "\<exists>c'. connector_of db' i = Some c' \<and> after_pass c status c'"
proof (cases e)
  case (Pass_rejected m)
  then show ?thesis using assms by (auto simp: after_pass_def)
next
  case (Pass_failed m)
  define f :: "connector_row \<Rightarrow> connector_row" where "f = (\<lambda>c'. if FAILURE_CEILING \<le> cn_consecutiveFailures c + 1
     then c'\<lparr>cn_consecutiveFailures := cn_consecutiveFailures c + 1, cn_enabled := False,
       cn_disabledReason := Some (''disabled after '' @ js_int_string (cn_consecutiveFailures c + 1) @ '' consecutive failures'')\<rparr>
     else c'\<lparr>cn_consecutiveFailures := cn_consecutiveFailures c + 1\<rparr>)"
  have "db' = set_connector i f (record_run (run_row_of i Mode_apply Sync_failed None (Some m)) db)" "status = Sync_failed"
    using assms(1,2) by (simp_all add: Pass_failed Let_def noteFailure_def f_def cong: if_cong)
  moreover have "connector_of (set_connector i f db0) i = map_option f (connector_of db0 i)" for db0
    by (rule connector_of_set) (simp add: f_def)
  ultimately show ?thesis using assms(2,3) by (auto simp: after_pass_def f_def)
qed

lemma pass_connector:
  assumes "runConnectorSync w i Mode_apply db = Inr (db', status)" and "connector_of db i = Some c" and "cn_enabled c"
  shows "\<exists>c'. connector_of db' i = Some c' \<and> after_pass c status c'"
proof (cases "loadConnectorClient w db i")
  case (Inl m)
  then show ?thesis using assms after_failure by (simp add: runConnectorSync_def del: fail_pass.simps)
next
  case (Inr client)
  have i: "cn_id c = i" using assms(2) first_row_SomeD by (fastforce simp: connector_of_def)
  have client: "client = Some c" using Inr assms(2,3) by (auto simp: loadConnectorClient_def split: option.splits sum.splits)
  show ?thesis
  proof (cases "plan_pass w db c")
    case (Inl e)
    then show ?thesis using assms after_failure \<open>loadConnectorClient w db i = _\<close> client by (simp add: runConnectorSync_def del: fail_pass.simps)
  next
    case (Inr plan)
    obtain db1 e where a: "apply_pass w c plan db = (db1, e)" by fastforce
    show ?thesis
    proof (cases e)
      case None
      then have db': "db' = record_run (run_row_of i Mode_apply Sync_completed (Some plan) None) db1" "status = Sync_completed"
        using assms(1,2) \<open>loadConnectorClient w db i = _\<close> client Inr a by (simp_all add: runConnectorSync_def)
      moreover obtain t where "connector_of db1 i = Some (mark_success t (h_now (wd_host w)) c)"
        using apply_pass_connector(1) [of w c plan db] a None i assms(2) by auto
      ultimately show ?thesis using assms(3) by (auto simp: after_pass_def mark_success_def split: option.split)
    next
      case (Some e')
      then have "fail_pass i Mode_apply e' db1 = (db', status)"
        using assms(1,2) \<open>loadConnectorClient w db i = _\<close> client Inr a by (simp add: runConnectorSync_def del: fail_pass.simps)
      moreover have "connector_of db1 i = Some c" using apply_pass_connector(2) [of w c plan db] a Some assms(2) by auto
      ultimately show ?thesis using assms(3) by (rule after_failure)
    qed
  qed
qed

text \<open>A history of passes over one connector, each in its own surroundings.\<close>

fun run_passes :: "string \<Rightarrow> world list \<Rightarrow> runtime_db \<Rightarrow> runtime_db \<times> sync_status list" where
  "run_passes i [] db = (db, [])"
| "run_passes i (w # ws) db =
     (case runConnectorSync w i Mode_apply db of
        Inl _ \<Rightarrow> run_passes i ws db
      | Inr (db', status) \<Rightarrow> (case run_passes i ws db' of (db'', ss) \<Rightarrow> (db'', status # ss)))"

lemma known_pass: "connector_of db i = Some c \<Longrightarrow> \<exists>db' status. runConnectorSync w i mode db = Inr (db', status)"
  by (auto simp: runConnectorSync_def)

text \<open>
  C8. A connector disables itself when its failures are sustained: after \<open>n\<close> failing passes in a row it counts \<open>n\<close> failures and is
  enabled exactly as long as these are fewer than ten. A pass that is refused by the ceiling does not count, and one
  that completes starts the count anew.
\<close>

theorem failing_connector_disabled:
  assumes "connector_of db i = Some c" and "cn_enabled c" and "cn_consecutiveFailures c = 0"
    and "run_passes i ws db = (db', ss)" and "length ws \<le> 10"
    and "set ss \<subseteq> {Sync_failed}"
  shows "\<exists>c'. connector_of db' i = Some c' \<and> cn_consecutiveFailures c' = int (length ws) \<and> (cn_enabled c' \<longleftrightarrow> length ws < 10)"
proof -
  have "\<exists>c'. connector_of db' i = Some c' \<and> cn_consecutiveFailures c' = f + int (length ws) \<and> (cn_enabled c' \<longleftrightarrow> f + int (length ws) < FAILURE_CEILING)"
    if "connector_of db i = Some c" "cn_enabled c" "cn_consecutiveFailures c = f" "f + int (length ws) \<le> FAILURE_CEILING"
      "run_passes i ws db = (db', ss)" "set ss \<subseteq> {Sync_failed}" "f < FAILURE_CEILING" for f
    using that
  proof (induction ws arbitrary: db c f ss)
    case (Cons w ws)
    obtain db1 status where step: "runConnectorSync w i Mode_apply db = Inr (db1, status)" using known_pass Cons.prems(1) by blast
    then obtain ss' where rest: "run_passes i ws db1 = (db', ss')" "ss = status # ss'"
      using Cons.prems(5) by (auto split: prod.splits)
    then have failed: "status = Sync_failed" "set ss' \<subseteq> {Sync_failed}" using Cons.prems(6) by auto
    obtain c1 where c1: "connector_of db1 i = Some c1" "cn_consecutiveFailures c1 = f + 1" "cn_enabled c1 \<longleftrightarrow> f + 1 < FAILURE_CEILING"
      using pass_connector [OF step Cons.prems(1,2)] Cons.prems(3) failed(1) by (auto simp: after_pass_def)
    show ?case
    proof (cases "f + 1 < FAILURE_CEILING")
      case True
      then have "cn_enabled c1" "f + 1 + int (length ws) \<le> FAILURE_CEILING" using c1(3) Cons.prems(4) by simp_all
      from Cons.IH [OF c1(1) this(1) c1(2) this(2) rest(1) failed(2) True] show ?thesis by (simp add: algebra_simps)
    next
      case False
      moreover have "f + (1 + int (length ws)) \<le> FAILURE_CEILING" using Cons.prems(4) by simp
      ultimately have "int (length ws) = 0" "f + 1 = FAILURE_CEILING" using Cons.prems(7) by linarith+
      then show ?thesis using c1 rest by simp
    qed
  qed auto
  from this [OF assms(1-3) _ assms(4) assms(6)] assms(5) show ?thesis by (simp add: FAILURE_CEILING_def)
qed

section \<open>Dispatches\<close>

lemma dispatch_steps_keep:
  "r \<in> set (db_ledger (rt_db db)) \<Longrightarrow> lg_id r \<notin> fst ` set rows \<Longrightarrow>
   r \<in> set (db_ledger (rt_db (fst (fold (dispatch_step start) rows (db, n))))) "
proof (induction rows arbitrary: db n)
  case (Cons x rows)
  obtain i ticketId where x: "x = (i, ticketId)" by (cases x) auto
  obtain db' n' where step: "dispatch_step start x (db, n) = (db', n')" by fastforce
  have "r \<in> set (db_ledger (rt_db db'))"
    using step Cons.prems by (force simp: x dispatch_step_def set_ledger_def set_origin_def sql_update_def split: sum.splits if_splits)
  then show ?case using Cons step by simp
qed simp

lemma dispatch_steps_ids:
  "map lg_id (db_ledger (rt_db (fst (fold (dispatch_step start) rows (db, n))))) = map lg_id (db_ledger (rt_db db))"
proof (induction rows arbitrary: db n)
  case (Cons x rows)
  obtain i ticketId where x: "x = (i, ticketId)" by (cases x) auto
  obtain db' n' where step: "dispatch_step start x (db, n) = (db', n')" by fastforce
  have "map lg_id (db_ledger (rt_db db')) = map lg_id (db_ledger (rt_db db))"
    using step by (auto simp: x dispatch_step_def set_ledger_def set_origin_def sql_update_def split: sum.splits if_splits)
  then show ?case using Cons step by simp
qed simp

text \<open>
  A dispatch that has been started or refused is never attempted again: its row in the ledger stays as it is through any
  number of sweeps, and no sweep selects it.
\<close>

theorem sweepDeferredDispatches_final:
  assumes "r \<in> set (db_ledger (rt_db db))" and "lg_outcome r \<noteq> Disp_deferred_no_worker" and "distinct (map lg_id (db_ledger (rt_db db)))"
  shows "r \<in> set (db_ledger (rt_db (fold (\<lambda>(w, limit) db. fst (sweepDeferredDispatches w limit db)) sweeps db))) \<and>
    lg_id r \<notin> fst ` set (deferred_dispatches limit (fold (\<lambda>(w, limit) db. fst (sweepDeferredDispatches w limit db)) sweeps db))"
proof -
  have unselected: "lg_id r \<notin> fst ` set (deferred_dispatches limit db)"
    if "r \<in> set (db_ledger (rt_db db))" "distinct (map lg_id (db_ledger (rt_db db)))" for limit db
  proof
    assume "lg_id r \<in> fst ` set (deferred_dispatches limit db)"
    then obtain q where "q \<in> set (db_ledger (rt_db db))" "lg_id q = lg_id r" "lg_outcome q = Disp_deferred_no_worker"
      by (auto simp: deferred_dispatches_def dest!: in_set_takeD)
    then show False using that assms(2) by (auto simp: distinct_map inj_on_def)
  qed
  let ?run = "\<lambda>sweeps db. fold (\<lambda>(w, limit) db. fst (sweepDeferredDispatches w limit db)) sweeps db"
  have "r \<in> set (db_ledger (rt_db (?run sweeps db))) \<and> distinct (map lg_id (db_ledger (rt_db (?run sweeps db))))"
    using assms(1,3)
  proof (induction sweeps arbitrary: db)
    case (Cons s sweeps)
    obtain w limit where s: "s = (w, limit)" by (cases s) auto
    have "r \<in> set (db_ledger (rt_db (fst (sweepDeferredDispatches w limit db))))"
      "distinct (map lg_id (db_ledger (rt_db (fst (sweepDeferredDispatches w limit db)))))"
      using Cons.prems unselected dispatch_steps_keep dispatch_steps_ids by (simp_all add: sweepDeferredDispatches_def)
    then show ?case by (simp add: s Cons.IH)
  qed simp
  then show ?thesis using unselected by blast
qed

section \<open>Ticks\<close>

lemma apply_pass_notes: "rt_writebacks (fst (apply_pass w c plan db)) = rt_writebacks db"
  by (auto simp: apply_pass_def set_connector_def split: prod.splits sum.splits option.splits)

lemma fail_pass_notes: "rt_writebacks (fst (fail_pass i mode e db)) = rt_writebacks db"
  by (cases e) (auto simp: Let_def record_run_def noteFailure_def set_connector_def)

lemma pass_notes: "runConnectorSync w i mode db = Inr (db', status) \<Longrightarrow> rt_writebacks db' = rt_writebacks db"
proof -
  assume run: "runConnectorSync w i mode db = Inr (db', status)"
  have f: "rt_writebacks db1 = rt_writebacks db0" if "fail_pass i mode e db0 = (db1, st)" for e db0 db1 st
    using fail_pass_notes [of i mode e db0] that by simp
  have a: "rt_writebacks db1 = rt_writebacks db0" if "apply_pass w c plan db0 = (db1, e)" for c plan db0 db1 e
    using apply_pass_notes [of w c plan db0] that by simp
  show ?thesis
    using run unfolding runConnectorSync_def
    by (auto simp: record_run_def simp del: fail_pass.simps dest!: a split: option.splits sum.splits prod.splits if_splits) (metis f)+
qed

lemma sync_all_notes: "rt_writebacks (fst (sync_all w is db)) = rt_writebacks db"
proof (induction "is" arbitrary: db)
  case (Cons i is')
  then show ?case using pass_notes [of w i Mode_apply db] by (auto split: sum.splits)
qed simp

lemma dispatch_notes: "rt_writebacks (fst (fold (dispatch_step start) rows (db, n))) = rt_writebacks db"
proof (induction rows arbitrary: db n)
  case (Cons x rows)
  obtain db' n' where step: "dispatch_step start x (db, n) = (db', n')" by fastforce
  have "rt_writebacks db' = rt_writebacks db"
    using step by (cases x) (auto simp: dispatch_step_def set_ledger_def set_origin_def split: sum.splits if_splits)
  then show ?case using Cons step by simp
qed simp

lemma tick_polls_notes: "rt_writebacks (fst (tick_polls w now db)) = rt_writebacks db"
  using sync_all_notes [of w "map cn_id (filter (connector_due now) (db_connectors (rt_db db)))" db] dispatch_notes
  by (auto simp: tick_polls_def sweepDeferredDispatches_def split: prod.splits option.splits)

text \<open>
  One foreign ticket that cannot be read holds up all work notes of all connectors: where reading the state of the oldest open
  proposal throws, as it does for a ticket that was deleted, the tick ends before it delivers anything, and so does every
  further tick, because the proposal stays the oldest.
\<close>

theorem runConnectorTick_blocked:
  assumes "tick_polls w now db = (db1, None)" and "pending_proposals 25 db1 = (i, connectorId, externalId) # rows"
    and "client_or_none w db1 connectorId = Some c" and "wd_state w connectorId externalId = Inl message"
  shows "snd (runConnectorTick w now db) = Some message \<and> rt_writebacks (fst (runConnectorTick w now db)) = rt_writebacks db \<and>
    rt_proposals (fst (runConnectorTick w now db)) = rt_proposals db1"
proof -
  have "backfillProposalOutcomes (foreign_state w db1) 25 (h_now (wd_host w)) db1 = (db1, Inl message)"
    using assms by (simp add: backfillProposalOutcomes_def foreign_state_def)
  then have "runConnectorTick w now db = (db1, Some message)" using assms(1) by (simp add: runConnectorTick_def)
  then show ?thesis using tick_polls_notes [of w now db] assms(1) by simp
qed

section \<open>Examples\<close>

text \<open>An instance that does not answer, with a worker that takes every ticket.\<close>

definition silent_world :: world where
  "silent_world = \<lparr>wd_host = sample_host, wd_parse_url = (\<lambda>u. Some (''https:'', ''example.service-now.com'')), wd_secret = (\<lambda>i. Inr ''s''),
     wd_get = (\<lambda>i path. Inl \<lparr>se_message = ''timeout'', se_status = None, se_retryAfterMs = None\<rparr>),
     wd_post = (\<lambda>i e n c. Inr (None, None)), wd_state = (\<lambda>i e. Inl ''ServiceNow request failed with 404''), wd_message = (\<lambda>e. []),
     wd_has_worker = True, wd_start = (\<lambda>t. Inr (Some ''r1''))\<rparr>"

lemma silent_pass:
  "\<exists>db'. runConnectorSync silent_world ''k1'' Mode_apply sample_runtime_db = Inr (db', Sync_failed)"
proof -
  have "case runConnectorSync silent_world ''k1'' Mode_apply sample_runtime_db of Inr (db', s) \<Rightarrow> s = Sync_failed | Inl _ \<Rightarrow> False" by code_simp
  then show ?thesis by (auto split: sum.splits)
qed

theorem runConnectorSync_records_witness:
  "\<exists>db'. runConnectorSync silent_world ''k1'' Mode_apply sample_runtime_db = Inr (db', Sync_failed) \<and>
     length (db_runs (rt_db db')) = Suc (length (db_runs (rt_db sample_runtime_db)))"
proof -
  obtain db' where db': "runConnectorSync silent_world ''k1'' Mode_apply sample_runtime_db = Inr (db', Sync_failed)" using silent_pass by blast
  show ?thesis using runConnectorSync_records [OF db'] db' by auto
qed

theorem failing_connector_disabled_witness:
  "\<exists>db' c. run_passes ''k1'' (replicate 10 silent_world) sample_runtime_db = (db', replicate 10 Sync_failed) \<and>
     connector_of db' ''k1'' = Some c \<and> \<not> cn_enabled c"
proof -
  have "snd (run_passes ''k1'' (replicate 10 silent_world) sample_runtime_db) = replicate 10 Sync_failed" by code_simp
  then obtain db' where run: "run_passes ''k1'' (replicate 10 silent_world) sample_runtime_db = (db', replicate 10 Sync_failed)"
    by (metis prod.collapse)
  have c: "connector_of sample_runtime_db ''k1'' = Some sample_connector" "cn_enabled sample_connector" "cn_consecutiveFailures sample_connector = 0"
    by (simp_all add: connector_of_def sample_runtime_db_def sample_connector_def first_row_def)
  show ?thesis using failing_connector_disabled [OF c run] run by auto
qed

definition sample_refused :: ledger_row where
  "sample_refused = \<lparr>lg_id = ''d1'', lg_ticketId = ''t1'', lg_connectorId = ''k1'', lg_triggerKey = ''created:sys1'', lg_outcome = Disp_refused,
     lg_detail = None, lg_runId = None\<rparr>"

theorem sweepDeferredDispatches_final_witness:
  "sample_refused \<in> set (db_ledger (rt_db (fst (sweepDeferredDispatches silent_world 25
     (sample_runtime_db\<lparr>rt_db := (rt_db sample_runtime_db)\<lparr>db_ledger := [sample_refused]\<rparr>\<rparr>)))))"
  using sweepDeferredDispatches_final [of sample_refused "sample_runtime_db\<lparr>rt_db := (rt_db sample_runtime_db)\<lparr>db_ledger := [sample_refused]\<rparr>\<rparr>"
    "[(silent_world, 25)]"]
  by (simp add: sample_refused_def)

definition blocked_db :: runtime_db where
  "blocked_db = sample_runtime_db\<lparr>rt_db := (rt_db sample_runtime_db)\<lparr>db_connectors := [sample_connector\<lparr>cn_lastSuccessfulSyncAt := Some 0\<rparr>]\<rparr>,
     rt_proposals := [sample_proposal ''p1'' ''k1'' 0]\<rparr>"

theorem runConnectorTick_blocked_witness:
  "snd (runConnectorTick silent_world 0 blocked_db) = Some ''ServiceNow request failed with 404''"
proof -
  have polls: "tick_polls silent_world 0 blocked_db = (blocked_db, None)" by code_simp
  have "pending_proposals 25 blocked_db = [(''p1'', ''k1'', ''sys1'')]" by code_simp
  moreover have "client_or_none silent_world blocked_db ''k1'' \<noteq> None" by code_simp
  then obtain c where "client_or_none silent_world blocked_db ''k1'' = Some c" by blast
  ultimately show ?thesis
    using runConnectorTick_blocked [OF polls] by (simp add: silent_world_def)
qed

end
