(* ===== verification/TicketFlow.thy ===== *)
theory TicketFlow
  imports TicketCreation
begin

text \<open>
  What people do to a ticket once it exists: \<open>server/routers/tickets.ts\<close>. The input of \<open>updateTicket\<close> is the
  discriminated union of the contract; \<open>context\<close> is the signed-in user with the capabilities of his roles.

  A handler reads, then writes inside a transaction. What other writers commit in between is the argument \<open>meanwhile\<close>,
  applied to the database after the reads; a transaction that throws leaves the database as it finds it. The search index
  and the workflow event that follow a commit are the value that the handler returns beside the ticket.
\<close>

section \<open>The tables\<close>

datatype author_type = Author_reporter | Author_staff
datatype visibility = Vis_public | Vis_private

record message_row =
  me_id :: string
  me_ticketId :: string
  me_authorId :: "string option"
  me_authorType :: author_type
  me_body :: string
  me_visibility :: visibility
  me_createdAt :: ms

record csat_row =
  cs_id :: string
  cs_ticketId :: string
  cs_token :: string
  cs_rating :: "int option"
  cs_comment :: "string option"
  cs_respondedAt :: "ms option"

datatype actor_type = Actor_human | Actor_agent

record transition_row =
  tr_id :: string
  tr_ticketId :: string
  tr_fromStatus :: ticket_status
  tr_toStatus :: ticket_status
  tr_action :: string
  tr_actorType :: actor_type
  tr_actorId :: "string option"
  tr_createdAt :: ms

datatype approval_status = Approval_waiting | Approval_approved | Approval_rejected

record approval_row =
  ap_id :: string
  ap_ticketId :: string
  ap_status :: approval_status
  ap_requestedAt :: ms

record pending_reason =
  pr_id :: string
  pr_followupFrequencyMinutes :: int
  pr_followupsBeforeResolution :: int

record followup_row =
  fo_ticketId :: string
  fo_reasonId :: string
  fo_ordinal :: int
  fo_createdAt :: ms

record link_row =
  ln_id :: string
  ln_ticketId :: string
  ln_targetTicketId :: string
  ln_relationType :: string
  ln_createdBy :: string
  ln_createdAt :: ms

record merge_row =
  mg_id :: string
  mg_sourceTicketId :: string
  mg_targetTicketId :: string
  mg_sourcePreviousStatus :: ticket_status
  mg_mergedBy :: string
  mg_mergedAt :: ms
  mg_undoneBy :: "string option"
  mg_undoneAt :: "ms option"

record presence_row =
  ps_ticketId :: string
  ps_userId :: string
  ps_lastSeenAt :: ms
  ps_expiresAt :: ms

record time_entry =
  te_ticketId :: string
  te_userId :: string
  te_minutes :: int
  te_note :: string
  te_createdAt :: ms

record device_row =
  dv_id :: string
  dv_ownerId :: "string option"
  dv_lastSeenAt :: ms

text \<open>The tables of ticket creation are those of \<open>creation_db\<close>.\<close>

record desk_db =
  dk_core :: creation_db
  dk_moves :: "status_transition list"
  dk_users :: "(string \<times> user_kind) list"
  dk_teams :: "string list"
  dk_approvals :: "approval_row list"
  dk_reasons :: "pending_reason list"
  dk_messages :: "message_row list"
  dk_csat :: "csat_row list"
  dk_transitions :: "transition_row list"
  dk_followups :: "followup_row list"
  dk_links :: "link_row list"
  dk_merges :: "merge_row list"
  dk_presence :: "presence_row list"
  dk_time :: "time_entry list"
  dk_devices :: "device_row list"

datatype desk_error =
    Not_found
  | Forbidden
  | Conflict string
  | Bad_request string
  | Unavailable string
  | Internal_error
  | Stopwatch_failed sla_error
  | Fields_failed field_error
  | Creation_failed creation_error
  | Constraint_violation

record user_context =
  cx_userId :: string
  cx_capabilities :: "capability list"

text \<open>\<open>assertCapabilities\<close>, \<open>hasEveryCapability\<close> and the two kinds of guarded procedures.\<close>

definition hasEveryCapability :: "capability list \<Rightarrow> capability list \<Rightarrow> bool" where
  "hasEveryCapability capabilities required \<longleftrightarrow> (\<forall>c\<in>set required. c \<in> set capabilities)"

definition assertCapabilities :: "user_context \<Rightarrow> capability list \<Rightarrow> desk_error + unit" where
  "assertCapabilities context required =
     (if hasEveryCapability (cx_capabilities context) required then Inr () else Inl Forbidden)"

definition anyCapability :: "user_context \<Rightarrow> capability list \<Rightarrow> desk_error + unit" where
  "anyCapability context capabilities =
     (if \<exists>c\<in>set capabilities. c \<in> set (cx_capabilities context) then Inr () else Inl Forbidden)"

definition tickets_of :: "desk_db \<Rightarrow> ticket list" where
  "tickets_of db = sd_tickets (cd_sla (dk_core db))"

definition set_tickets :: "ticket list \<Rightarrow> desk_db \<Rightarrow> desk_db" where
  "set_tickets ts db = db\<lparr>dk_core := (dk_core db)\<lparr>cd_sla := (cd_sla (dk_core db))\<lparr>sd_tickets := ts\<rparr>\<rparr>\<rparr>"

definition findTicket :: "desk_db \<Rightarrow> string \<Rightarrow> ticket option" where
  "findTicket db i = first_row (\<lambda>t. tk_id t = i) (tickets_of db)"

definition findTicket_of :: "desk_db \<Rightarrow> string \<Rightarrow> string \<Rightarrow> ticket option" where
  "findTicket_of db i reporterId = first_row (\<lambda>t. tk_id t = i \<and> tk_reporterId t = reporterId) (tickets_of db)"

text \<open>The column \<open>statusStateType\<close> of the selection.\<close>

definition state_type_of :: "desk_db \<Rightarrow> ticket_status \<Rightarrow> state_type option" where
  "state_type_of db status = map_option ts_stateType (first_row (\<lambda>s. ts_key s = status) (sd_statuses (cd_sla (dk_core db))))"

section \<open>Updating a ticket\<close>

datatype update_action =
    Act_close
  | Act_escalate string "ticket_route option"
  | Act_add_detail string
  | Act_resolve string resolution_code
  | Act_reopen
  | Act_pend string "ms option"
  | Act_unpend
  | Act_reclassify "record_type option" "impact option" "urgency option" "string option" "string option"
  | Act_assign "ticket_route option" "string option option" "string option option" "string option option"

fun action_name :: "update_action \<Rightarrow> string" where
  "action_name Act_close = ''close''"
| "action_name (Act_escalate _ _) = ''escalate''"
| "action_name (Act_add_detail _) = ''add_detail''"
| "action_name (Act_resolve _ _) = ''resolve''"
| "action_name Act_reopen = ''reopen''"
| "action_name (Act_pend _ _) = ''pend''"
| "action_name Act_unpend = ''unpend''"
| "action_name (Act_reclassify _ _ _ _ _) = ''reclassify''"
| "action_name (Act_assign _ _ _ _) = ''assign''"

fun required_capability :: "update_action \<Rightarrow> capability" where
  "required_capability Act_close = Cap_ticket_close"
| "required_capability (Act_escalate _ _) = Cap_ticket_escalate"
| "required_capability (Act_add_detail _) = Cap_ticket_create"
| "required_capability (Act_resolve _ _) = Cap_ticket_resolve"
| "required_capability Act_reopen = Cap_ticket_reopen"
| "required_capability (Act_pend _ _) = Cap_ticket_reclassify"
| "required_capability Act_unpend = Cap_ticket_reclassify"
| "required_capability (Act_reclassify _ _ _ _ _) = Cap_ticket_reclassify"
| "required_capability (Act_assign _ _ _ _) = Cap_ticket_assign"

definition update_capabilities :: "capability list" where
  "update_capabilities = [Cap_ticket_create, Cap_ticket_resolve, Cap_ticket_close, Cap_ticket_escalate,
     Cap_ticket_reclassify, Cap_ticket_assign, Cap_ticket_reopen]"

definition reporter_verdict :: "desk_db \<Rightarrow> user_context \<Rightarrow> ticket \<Rightarrow> update_action \<Rightarrow> bool" where
  "reporter_verdict db context current action \<longleftrightarrow> tk_reporterId current = cx_userId context \<and>
     state_type_of db (tk_status current) = Some ST_resolved \<and> action_name action \<in> {''close'', ''escalate''}"

text \<open>\<open>ORDER BY requested_at DESC LIMIT 1\<close>.\<close>

definition latest_approval :: "desk_db \<Rightarrow> string \<Rightarrow> approval_row option" where
  "latest_approval db ticketId =
     (case js_sort (\<lambda>a b. ap_requestedAt b - ap_requestedAt a) (filter (\<lambda>a. ap_ticketId a = ticketId) (dk_approvals db)) of
        [] \<Rightarrow> None | a # _ \<Rightarrow> Some a)"

definition approval_missing :: "desk_db \<Rightarrow> string \<Rightarrow> bool" where
  "approval_missing db ticketId =
     (case latest_approval db ticketId of None \<Rightarrow> False | Some a \<Rightarrow> ap_status a \<noteq> Approval_approved)"

definition reopen_window :: int where
  "reopen_window = 7 * 24 * 60 * 60 * 1000"

definition reopen_refused :: "ms \<Rightarrow> ticket \<Rightarrow> bool" where
  "reopen_refused now current \<longleftrightarrow> tk_reopenedAt current \<noteq> None \<or>
     (case tk_closedAt current of None \<Rightarrow> True | Some c \<Rightarrow> reopen_window < now - c)"

definition staff_ids :: "desk_db \<Rightarrow> string list \<Rightarrow> string list" where
  "staff_ids db userIds = map fst (filter (\<lambda>(u, k). u \<in> set userIds \<and> k = UK_staff) (dk_users db))"

text \<open>The ids that are strings, and the test against \<open>new Set(userIds).size\<close>.\<close>

definition named_users :: "string option option \<Rightarrow> string option option \<Rightarrow> string list" where
  "named_users assigneeId ownerId = List.map_filter (\<lambda>x. case x of None \<Rightarrow> None | Some y \<Rightarrow> y) [assigneeId, ownerId]"

definition check_assignment :: "desk_db \<Rightarrow> update_action \<Rightarrow> desk_error + unit" where
  "check_assignment db action =
     (case action of
        Act_assign _ assigneeId ownerId teamId \<Rightarrow>
          let userIds = named_users assigneeId ownerId
          in if userIds \<noteq> [] \<and> length (staff_ids db userIds) \<noteq> card (set userIds)
             then Inl (Bad_request ''Assignee and owner must be staff users'')
             else (case teamId of
                     Some (Some (c # cs)) \<Rightarrow>
                       if c # cs \<in> set (dk_teams db) then Inr () else Inl (Bad_request ''Unknown team'')
                   | _ \<Rightarrow> Inr ())
      | _ \<Rightarrow> Inr ())"

definition nextPendingFollowupAt :: "ms \<Rightarrow> int \<Rightarrow> ms" where
  "nextPendingFollowupAt lastPendingAt frequencyMinutes = lastPendingAt + frequencyMinutes * 60000"

definition check_pending :: "desk_db \<Rightarrow> update_action \<Rightarrow> desk_error + (int \<times> ms option) option" where
  "check_pending db action =
     (case action of
        Act_pend reasonId until \<Rightarrow>
          (case first_row (\<lambda>r. pr_id r = reasonId) (dk_reasons db) of
             None \<Rightarrow> Inl (Bad_request ''Unknown pending reason'')
           | Some r \<Rightarrow> Inr (Some (pr_followupFrequencyMinutes r, until)))
      | _ \<Rightarrow> Inr None)"

text \<open>\<open>input.x ?? current.x\<close>, for a reclassification.\<close>

definition impact_of :: "update_action \<Rightarrow> ticket \<Rightarrow> impact" where
  "impact_of action current = (case action of Act_reclassify _ i _ _ _ \<Rightarrow> preserveUndefined i (tk_impact current) | _ \<Rightarrow> tk_impact current)"

definition urgency_of :: "update_action \<Rightarrow> ticket \<Rightarrow> urgency" where
  "urgency_of action current = (case action of Act_reclassify _ _ u _ _ \<Rightarrow> preserveUndefined u (tk_urgency current) | _ \<Rightarrow> tk_urgency current)"

definition service_id_of :: "update_action \<Rightarrow> ticket \<Rightarrow> string" where
  "service_id_of action current =
     (case action of Act_reclassify _ _ _ s _ \<Rightarrow> preserveUndefined s (tk_serviceId current) | _ \<Rightarrow> tk_serviceId current)"

definition subcategory_of :: "update_action \<Rightarrow> ticket \<Rightarrow> string" where
  "subcategory_of action current =
     (case action of Act_reclassify _ _ _ _ s \<Rightarrow> preserveUndefined s (tk_serviceSubcategoryId current)
      | _ \<Rightarrow> tk_serviceSubcategoryId current)"

definition check_classification :: "desk_db \<Rightarrow> update_action \<Rightarrow> ticket \<Rightarrow> desk_error + unit" where
  "check_classification db action current =
     (if action_name action = ''reclassify'' \<and>
         (subcategory_of action current, service_id_of action current) \<notin> set (cd_subcategories (dk_core db))
      then Inl (Bad_request ''Ticket service and subcategory do not match'') else Inr ())"

definition pending_until_of :: "ms \<Rightarrow> update_action \<Rightarrow> (int \<times> ms option) option \<Rightarrow> ticket \<Rightarrow> ms option" where
  "pending_until_of now action pend current =
     (case pend of
        Some (frequency, Some until) \<Rightarrow> Some until
      | Some (frequency, None) \<Rightarrow> Some (nextPendingFollowupAt now frequency)
      | None \<Rightarrow> if action = Act_unpend then None else tk_pendingUntil current)"

text \<open>The checks that come before anything is written; the next status and the new \<open>pendingUntil\<close>.\<close>

definition check_update ::
  "ms \<Rightarrow> user_context \<Rightarrow> update_action \<Rightarrow> desk_db \<Rightarrow> ticket \<Rightarrow> desk_error + ticket_status \<times> ms option" where
  "check_update now context action db current =
     bind_result (if reporter_verdict db context current action then Inr ()
        else assertCapabilities context [required_capability action]) (\<lambda>_.
     bind_result (case action of
        Act_add_detail note \<Rightarrow> if tk_reporterId current \<noteq> cx_userId context then Inl Forbidden else Inr ()
      | _ \<Rightarrow> Inr ()) (\<lambda>_.
     bind_result (if action_name action \<in> {''resolve'', ''close'', ''assign''} \<and> approval_missing db (tk_id current)
        then Inl (Conflict ''This request cannot proceed without approval'') else Inr ()) (\<lambda>_.
     bind_result (case action of
        Act_resolve resolution _ \<Rightarrow> if resolution = [] then Inl (Bad_request ''resolution is required'') else Inr ()
      | Act_escalate note _ \<Rightarrow> if note = [] then Inl (Bad_request ''note is required'') else Inr ()
      | Act_add_detail note \<Rightarrow> if note = [] then Inl (Bad_request ''note is required'') else Inr ()
      | _ \<Rightarrow> Inr ()) (\<lambda>_.
     bind_result (if action = Act_reopen \<and> reopen_refused now current
        then Inl (Conflict ''This request can no longer be reopened'') else Inr ()) (\<lambda>_.
     bind_result (check_assignment db action) (\<lambda>_.
     bind_result (check_pending db action) (\<lambda>pend.
     bind_result (case resolveTicketStatus (dk_moves db) (tk_status current) (action_name action) of
        Inl message \<Rightarrow> Inl (Conflict message) | Inr s \<Rightarrow> Inr s) (\<lambda>nextStatus.
     bind_result (check_classification db action current) (\<lambda>_.
       Inr (nextStatus, pending_until_of now action pend current))))))))))"

text \<open>
  The assignments of the UPDATE. Each column is written from the ticket that was read, or from the input; \<open>route: undefined\<close>
  leaves the column alone. The columns that are not named keep what the row has.
\<close>

definition updated_row :: "ms \<Rightarrow> update_action \<Rightarrow> ticket \<Rightarrow> ticket_status \<Rightarrow> ms option \<Rightarrow> ticket \<Rightarrow> ticket" where
  "updated_row now action current nextStatus pendingUntil row =
     row\<lparr>tk_status := nextStatus,
       tk_recordType := (case action of Act_reclassify rt _ _ _ _ \<Rightarrow> preserveUndefined rt (tk_recordType current) | _ \<Rightarrow> tk_recordType current),
       tk_impact := impact_of action current,
       tk_urgency := urgency_of action current,
       tk_priority := derivePriority (impact_of action current) (urgency_of action current),
       tk_serviceId := service_id_of action current,
       tk_serviceSubcategoryId := subcategory_of action current,
       tk_route := (case action of
            Act_assign route _ _ _ \<Rightarrow> preserveUndefined (map_option Some route) (tk_route current)
          | Act_escalate _ route \<Rightarrow> (case route of None \<Rightarrow> tk_route row | Some r \<Rightarrow> Some r)
          | _ \<Rightarrow> tk_route current),
       tk_assigneeId := (case action of Act_assign _ a _ _ \<Rightarrow> preserveUndefined a (tk_assigneeId current) | _ \<Rightarrow> tk_assigneeId current),
       tk_ownerId := (case action of Act_assign _ _ ow _ \<Rightarrow> preserveUndefined ow (tk_ownerId current) | _ \<Rightarrow> tk_ownerId current),
       tk_teamId := (case action of Act_assign _ _ _ tm \<Rightarrow> preserveUndefined tm (tk_teamId current) | _ \<Rightarrow> tk_teamId current),
       tk_resolution := (case action of Act_resolve r _ \<Rightarrow> Some r | _ \<Rightarrow> tk_resolution current),
       tk_resolutionCode := (case action of Act_resolve _ c \<Rightarrow> Some c | Act_reopen \<Rightarrow> None | _ \<Rightarrow> tk_resolutionCode current),
       tk_escalationNote := (case action of Act_escalate note _ \<Rightarrow> Some note | _ \<Rightarrow> tk_escalationNote current),
       tk_escalationFlag := (if action_name action = ''escalate'' then EF_warning
          else if action_name action \<in> {''reopen'', ''pend'', ''unpend''} then EF_none else tk_escalationFlag current),
       tk_escalationReason := (if action_name action \<in> {''reopen'', ''pend'', ''unpend''} then None else tk_escalationReason current),
       tk_progressMarker := (if action_name action = ''escalate'' then Some PM_handing_to_person
          else if action = Act_reopen then None else tk_progressMarker current),
       tk_resolvedAt := (if action_name action = ''resolve'' then Some now else if action = Act_reopen then None else tk_resolvedAt current),
       tk_closedAt := (if action = Act_close then Some now else if action = Act_reopen then None else tk_closedAt current),
       tk_reopenedAt := (if action = Act_reopen then Some now else tk_reopenedAt current),
       tk_pendingReasonId := (case action of Act_pend reasonId _ \<Rightarrow> Some reasonId | Act_unpend \<Rightarrow> None | _ \<Rightarrow> tk_pendingReasonId current),
       tk_pendingUntil := pendingUntil,
       tk_lastPendingAt := (if action_name action = ''pend'' then Some now else tk_lastPendingAt current),
       tk_pendingFollowups := (if action_name action = ''pend'' then 0 else tk_pendingFollowups current),
       tk_lastHumanTransitionAt := Some now\<rparr>"

text \<open>The columns that are audited, as the UPDATE returns them.\<close>

definition or_js_null :: "string option \<Rightarrow> jsval" where
  "or_js_null v = (case v of None \<Rightarrow> JNull | Some s \<Rightarrow> JStr s)"

definition audited_columns :: "ticket \<Rightarrow> js_object" where
  "audited_columns t =
     [(''recordType'', JStr (record_type_key (tk_recordType t))), (''impact'', JStr (level_key (tk_impact t))),
      (''urgency'', JStr (level_key (tk_urgency t))), (''priority'', JStr (priority_key (tk_priority t))),
      (''serviceId'', JStr (tk_serviceId t)), (''serviceSubcategoryId'', JStr (tk_serviceSubcategoryId t)),
      (''route'', or_js_null (map_option ticket_route_key (tk_route t))), (''assigneeId'', or_js_null (tk_assigneeId t)),
      (''ownerId'', or_js_null (tk_ownerId t)), (''teamId'', or_js_null (tk_teamId t))]"

definition audit_rows :: "string \<Rightarrow> string \<Rightarrow> audit_change list \<Rightarrow> audit_row list" where
  "audit_rows ticketId actorId changes =
     map (\<lambda>c. \<lparr>au_ticketId = ticketId, au_fieldName = ac_fieldName c, au_oldValue = ac_oldValue c,
       au_newValue = ac_newValue c, au_actorId = actorId\<rparr>) changes"

definition add_audit :: "audit_row list \<Rightarrow> desk_db \<Rightarrow> desk_db" where
  "add_audit rows db = db\<lparr>dk_core := (dk_core db)\<lparr>cd_audit := cd_audit (dk_core db) @ rows\<rparr>\<rparr>"

text \<open>\<open>transitionTicketStopwatches\<close> within the transaction, and a row of the ticket's history.\<close>

definition move_watches :: "elapsed_fn \<Rightarrow> schedule \<Rightarrow> string \<Rightarrow> ticket_status \<Rightarrow> ms \<Rightarrow> desk_db \<Rightarrow> desk_error + desk_db" where
  "move_watches elapsed sched ticketId toStatus now db =
     (case transitionTicketStopwatches elapsed sched ticketId toStatus now (cd_sla (dk_core db)) of
        Inl e \<Rightarrow> Inl (Stopwatch_failed e) | Inr s \<Rightarrow> Inr (db\<lparr>dk_core := (dk_core db)\<lparr>cd_sla := s\<rparr>\<rparr>))"

datatype desk_id = Did_message | Did_csat | Did_token | Did_transition | Did_row

definition write_update ::
  "elapsed_fn \<Rightarrow> schedule \<Rightarrow> (desk_id \<Rightarrow> string) \<Rightarrow> ms \<Rightarrow> user_context \<Rightarrow> string \<Rightarrow> update_action \<Rightarrow> ticket \<Rightarrow> ticket_status \<Rightarrow>
     ms option \<Rightarrow> desk_db \<Rightarrow> desk_error + desk_db" where
  "write_update elapsed sched uuid now context ticketId action current nextStatus pendingUntil db =
     (case sql_update (\<lambda>t. tk_id t = ticketId \<and> tk_status t = tk_status current)
         (updated_row now action current nextStatus pendingUntil) (tickets_of db) of
        (_, []) \<Rightarrow> Inl (Conflict ''Ticket changed while it was being updated'')
      | (ts, changed # _) \<Rightarrow>
          bind_result (if nextStatus \<noteq> tk_status current then move_watches elapsed sched ticketId nextStatus now (set_tickets ts db)
              else Inr (set_tickets ts db)) (\<lambda>db1.
            let db2 = (case action of
                  Act_add_detail note \<Rightarrow> db1\<lparr>dk_messages := dk_messages db1 @ [\<lparr>me_id = uuid Did_message, me_ticketId = ticketId,
                    me_authorId = Some (cx_userId context), me_authorType = Author_reporter, me_body = note,
                    me_visibility = Vis_public, me_createdAt = now\<rparr>]\<rparr>
                | _ \<Rightarrow> db1);
                db3 = (if action = Act_close then db2\<lparr>dk_csat := fst (sql_insert_new cs_ticketId
                    \<lparr>cs_id = uuid Did_csat, cs_ticketId = ticketId, cs_token = uuid Did_token, cs_rating = None,
                     cs_comment = None, cs_respondedAt = None\<rparr> (dk_csat db2))\<rparr> else db2);
                db4 = (if nextStatus \<noteq> tk_status current then db3\<lparr>dk_transitions := dk_transitions db3 @
                    [\<lparr>tr_id = uuid Did_transition, tr_ticketId = ticketId, tr_fromStatus = tk_status current,
                      tr_toStatus = nextStatus, tr_action = action_name action, tr_actorType = Actor_human,
                      tr_actorId = Some (cx_userId context), tr_createdAt = now\<rparr>]\<rparr> else db3)
            in Inr (add_audit (audit_rows ticketId (cx_userId context)
                 (auditChanges (audited_columns current) (audited_columns changed))) db4)))"

record ticket_event =
  ev_type :: string
  ev_recordId :: string
  ev_actorId :: string
  ev_action :: string
  ev_fromStatus :: ticket_status
  ev_toStatus :: ticket_status

definition updateTicket ::
  "elapsed_fn \<Rightarrow> schedule \<Rightarrow> (desk_id \<Rightarrow> string) \<Rightarrow> ms \<Rightarrow> (desk_db \<Rightarrow> desk_db) \<Rightarrow> user_context \<Rightarrow> string \<Rightarrow> update_action \<Rightarrow> desk_db \<Rightarrow>
     desk_db \<times> (desk_error + ticket \<times> ticket_event)" where
  "updateTicket elapsed sched uuid now meanwhile context ticketId action db =
     (case anyCapability context update_capabilities of
        Inl e \<Rightarrow> (db, Inl e)
      | Inr _ \<Rightarrow>
     (case findTicket db ticketId of
        None \<Rightarrow> (db, Inl Not_found)
      | Some current \<Rightarrow>
     (case check_update now context action db current of
        Inl e \<Rightarrow> (db, Inl e)
      | Inr (nextStatus, pendingUntil) \<Rightarrow>
     (case write_update elapsed sched uuid now context ticketId action current nextStatus pendingUntil (meanwhile db) of
        Inl e \<Rightarrow> (meanwhile db, Inl e)
      | Inr db' \<Rightarrow>
     (case findTicket db' ticketId of
        None \<Rightarrow> (db', Inl Not_found)
      | Some updated \<Rightarrow>
          (db', Inr (updated, \<lparr>ev_type = ''ticket.updated'', ev_recordId = ticketId, ev_actorId = cx_userId context,
             ev_action = action_name action, ev_fromStatus = tk_status current, ev_toStatus = nextStatus\<rparr>)))))))"

section \<open>Messages\<close>

definition addTicketMessage ::
  "(desk_id \<Rightarrow> string) \<Rightarrow> ms \<Rightarrow> user_context \<Rightarrow> string \<Rightarrow> string \<Rightarrow> visibility \<Rightarrow> desk_db \<Rightarrow> desk_error + desk_db \<times> message_row" where
  "addTicketMessage uuid now context ticketId body vis db =
     bind_result (assertCapabilities context [Cap_ticket_read_all]) (\<lambda>_.
       case findTicket db ticketId of
         None \<Rightarrow> Inl Not_found
       | Some _ \<Rightarrow>
           let row = \<lparr>me_id = uuid Did_message, me_ticketId = ticketId, me_authorId = Some (cx_userId context),
             me_authorType = Author_staff, me_body = body, me_visibility = vis, me_createdAt = now\<rparr>
           in Inr (db\<lparr>dk_messages := dk_messages db @ [row]\<rparr>, row))"

text \<open>The columns that a reporter's answer clears on a pending ticket.\<close>

definition unpended_row :: "ticket_status \<Rightarrow> ticket \<Rightarrow> ticket" where
  "unpended_row unpendStatus t = t\<lparr>tk_status := unpendStatus, tk_pendingReasonId := None, tk_pendingUntil := None,
     tk_lastPendingAt := None\<rparr>"

definition write_reporter_message ::
  "elapsed_fn \<Rightarrow> schedule \<Rightarrow> (desk_id \<Rightarrow> string) \<Rightarrow> ms \<Rightarrow> user_context \<Rightarrow> string \<Rightarrow> string \<Rightarrow> ticket_status \<Rightarrow> ticket_status option \<Rightarrow>
     desk_db \<Rightarrow> desk_error + desk_db \<times> message_row" where
  "write_reporter_message elapsed sched uuid now context ticketId body status unpendStatus db =
     (let row = \<lparr>me_id = uuid Did_message, me_ticketId = ticketId, me_authorId = Some (cx_userId context),
             me_authorType = Author_reporter, me_body = body, me_visibility = Vis_public, me_createdAt = now\<rparr>;
          db1 = db\<lparr>dk_messages := dk_messages db @ [row]\<rparr>
      in case unpendStatus of
           None \<Rightarrow> Inr (db1, row)
         | Some to \<Rightarrow>
             (case sql_update (\<lambda>t. tk_id t = ticketId \<and> tk_status t = status) (unpended_row to) (tickets_of db1) of
                (_, []) \<Rightarrow> Inr (db1, row)
              | (ts, _ # _) \<Rightarrow>
                  let db2 = set_tickets ts db1
                  in bind_result (move_watches elapsed sched ticketId to now
                       (db2\<lparr>dk_transitions := dk_transitions db2 @ [\<lparr>tr_id = uuid Did_transition, tr_ticketId = ticketId,
                          tr_fromStatus = status, tr_toStatus = to, tr_action = ''unpend'', tr_actorType = Actor_agent,
                          tr_actorId = Some (cx_userId context), tr_createdAt = now\<rparr>]\<rparr>)) (\<lambda>db3. Inr (db3, row))))"

definition addMyTicketMessage ::
  "elapsed_fn \<Rightarrow> schedule \<Rightarrow> (desk_id \<Rightarrow> string) \<Rightarrow> ms \<Rightarrow> (desk_db \<Rightarrow> desk_db) \<Rightarrow> user_context \<Rightarrow> string \<Rightarrow> string \<Rightarrow> desk_db \<Rightarrow>
     desk_db \<times> (desk_error + message_row)" where
  "addMyTicketMessage elapsed sched uuid now meanwhile context ticketId body db =
     (case assertCapabilities context [Cap_ticket_read_own] of
        Inl e \<Rightarrow> (db, Inl e)
      | Inr _ \<Rightarrow>
     (case findTicket_of db ticketId (cx_userId context) of
        None \<Rightarrow> (db, Inl Not_found)
      | Some t \<Rightarrow>
     (case (if state_type_of db (tk_status t) = Some ST_pending
            then map_sum Conflict Some (resolveTicketStatus (dk_moves db) (tk_status t) ''unpend'') else Inr None) of
        Inl e \<Rightarrow> (db, Inl e)
      | Inr unpendStatus \<Rightarrow>
     (case write_reporter_message elapsed sched uuid now context ticketId body (tk_status t) unpendStatus (meanwhile db) of
        Inl e \<Rightarrow> (meanwhile db, Inl e)
      | Inr (db', row) \<Rightarrow> (db', Inr row)))))"

section \<open>Presence and satisfaction\<close>

definition presence_lifetime :: int where
  "presence_lifetime = 45000"

definition heartbeatTicketPresence :: "ms \<Rightarrow> user_context \<Rightarrow> string \<Rightarrow> desk_db \<Rightarrow> desk_error + desk_db \<times> ms" where
  "heartbeatTicketPresence now context ticketId db =
     bind_result (assertCapabilities context [Cap_ticket_read_all]) (\<lambda>_.
       case findTicket db ticketId of
         None \<Rightarrow> Inl Not_found
       | Some _ \<Rightarrow>
           (case sql_update (\<lambda>p. ps_ticketId p = ticketId \<and> ps_userId p = cx_userId context)
               (\<lambda>p. p\<lparr>ps_lastSeenAt := now, ps_expiresAt := now + presence_lifetime\<rparr>) (dk_presence db) of
              (_, []) \<Rightarrow> Inr (db\<lparr>dk_presence := dk_presence db @ [\<lparr>ps_ticketId = ticketId, ps_userId = cx_userId context,
                ps_lastSeenAt = now, ps_expiresAt = now + presence_lifetime\<rparr>]\<rparr>, now)
            | (rows, _ # _) \<Rightarrow> Inr (db\<lparr>dk_presence := rows\<rparr>, now)))"

definition listTicketPresence :: "ms \<Rightarrow> user_context \<Rightarrow> string \<Rightarrow> desk_db \<Rightarrow> desk_error + desk_db \<times> presence_row list" where
  "listTicketPresence now context ticketId db =
     bind_result (assertCapabilities context [Cap_ticket_read_all]) (\<lambda>_.
       case findTicket db ticketId of
         None \<Rightarrow> Inl Not_found
       | Some _ \<Rightarrow>
           let rows = filter (\<lambda>p. now \<le> ps_expiresAt p) (dk_presence db)
           in Inr (db\<lparr>dk_presence := rows\<rparr>,
                js_sort (\<lambda>a b. ps_lastSeenAt b - ps_lastSeenAt a)
                  (filter (\<lambda>p. ps_ticketId p = ticketId \<and> now < ps_expiresAt p \<and> ps_userId p \<noteq> cx_userId context) rows)))"

definition submitTicketCsat :: "ms \<Rightarrow> user_context \<Rightarrow> string \<Rightarrow> int \<Rightarrow> string option \<Rightarrow> desk_db \<Rightarrow> desk_error + desk_db" where
  "submitTicketCsat now context token rating remark db =
     bind_result (assertCapabilities context [Cap_ticket_read_own]) (\<lambda>_.
       case sql_update (\<lambda>c. cs_token c = token \<and> cs_respondedAt c = None)
           (\<lambda>c. c\<lparr>cs_rating := Some rating,
              cs_comment := (case map_option js_trim remark of Some (x # xs) \<Rightarrow> Some (x # xs) | _ \<Rightarrow> None),
              cs_respondedAt := Some now\<rparr>) (dk_csat db) of
         (_, []) \<Rightarrow> Inl (Conflict ''This satisfaction link is invalid or has already been used'')
       | (rows, _ # _) \<Rightarrow> Inr (db\<lparr>dk_csat := rows\<rparr>))"

section \<open>Links and merges\<close>

definition link_key :: "link_row \<Rightarrow> string \<times> string \<times> string" where
  "link_key l = (ln_ticketId l, ln_targetTicketId l, ln_relationType l)"

definition linkTickets ::
  "(desk_id \<Rightarrow> string) \<Rightarrow> ms \<Rightarrow> user_context \<Rightarrow> string \<Rightarrow> string \<Rightarrow> string \<Rightarrow> desk_db \<Rightarrow> desk_error + desk_db \<times> link_row" where
  "linkTickets uuid now context ticketId targetTicketId relationType db =
     bind_result (assertCapabilities context [Cap_ticket_reclassify]) (\<lambda>_.
       if ticketId = targetTicketId then Inl (Bad_request ''A ticket cannot link to itself'')
       else if length (filter (\<lambda>t. tk_id t \<in> {ticketId, targetTicketId}) (tickets_of db)) \<noteq> 2 then Inl Not_found
       else
         let row = \<lparr>ln_id = uuid Did_row, ln_ticketId = ticketId, ln_targetTicketId = targetTicketId,
               ln_relationType = relationType, ln_createdBy = cx_userId context, ln_createdAt = now\<rparr>
         in case sql_insert_new link_key row (dk_links db) of
              (_, False) \<Rightarrow> Inl (Conflict ''Ticket link already exists'')
            | (rows, True) \<Rightarrow> Inr (db\<lparr>dk_links := rows\<rparr>, row))"

definition listTicketLinks :: "user_context \<Rightarrow> string \<Rightarrow> desk_db \<Rightarrow> desk_error + link_row list" where
  "listTicketLinks context ticketId db =
     bind_result (assertCapabilities context [Cap_ticket_read_all]) (\<lambda>_.
       case findTicket db ticketId of
         None \<Rightarrow> Inl Not_found
       | Some _ \<Rightarrow> Inr (js_sort (\<lambda>a b. ln_createdAt b - ln_createdAt a) (filter (\<lambda>l. ln_ticketId l = ticketId \<or> ln_targetTicketId l = ticketId) (dk_links db))))"

definition unlinkTickets :: "user_context \<Rightarrow> string \<Rightarrow> desk_db \<Rightarrow> desk_error + desk_db \<times> bool" where
  "unlinkTickets context i db =
     bind_result (assertCapabilities context [Cap_ticket_reclassify]) (\<lambda>_.
       Inr (db\<lparr>dk_links := filter (\<lambda>l. ln_id l \<noteq> i) (dk_links db)\<rparr>, \<exists>l\<in>set (dk_links db). ln_id l = i))"

text \<open>
  Both reads come before the writes, and under \<open>READ COMMITTED\<close> another transaction may commit in between. The number of rows
  that the UPDATE hits is not looked at.
\<close>

definition merge_of :: "(desk_id \<Rightarrow> string) \<Rightarrow> ms \<Rightarrow> user_context \<Rightarrow> ticket \<Rightarrow> string \<Rightarrow> merge_row" where
  "merge_of uuid now context s target = \<lparr>mg_id = uuid Did_row, mg_sourceTicketId = tk_id s, mg_targetTicketId = target,
     mg_sourcePreviousStatus = tk_status s, mg_mergedBy = cx_userId context, mg_mergedAt = now, mg_undoneBy = None, mg_undoneAt = None\<rparr>"

definition merged_row :: "string \<Rightarrow> string \<Rightarrow> ticket \<Rightarrow> ticket" where
  "merged_row source target t = (if tk_id t = source \<and> tk_mergedIntoId t = None then t\<lparr>tk_mergedIntoId := Some target\<rparr> else t)"

definition mergeTickets ::
  "(desk_id \<Rightarrow> string) \<Rightarrow> ms \<Rightarrow> (desk_db \<Rightarrow> desk_db) \<Rightarrow> user_context \<Rightarrow> string \<Rightarrow> string \<Rightarrow> desk_db \<Rightarrow> desk_error + desk_db" where
  "mergeTickets uuid now meanwhile context source target db =
     bind_result (assertCapabilities context [Cap_ticket_reclassify]) (\<lambda>_.
       if source = target then Inl (Bad_request ''A ticket cannot merge into itself'')
       else case (first_row (\<lambda>t. tk_id t = source \<and> tk_mergedIntoId t = None) (tickets_of db), findTicket db target) of
         (Some s, Some _) \<Rightarrow>
           let db1 = set_tickets (map (merged_row source target) (tickets_of (meanwhile db))) (meanwhile db)
           in Inr (db1\<lparr>dk_merges := dk_merges db1 @ [merge_of uuid now context s target]\<rparr>)
       | _ \<Rightarrow> Inl (Conflict ''Ticket is missing or already merged''))"

text \<open>The newest merge of the source that has not been undone.\<close>

definition open_merge :: "desk_db \<Rightarrow> string \<Rightarrow> merge_row option" where
  "open_merge db source =
     (case js_sort (\<lambda>a b. mg_mergedAt b - mg_mergedAt a)
         (filter (\<lambda>m. mg_sourceTicketId m = source \<and> mg_undoneAt m = None) (dk_merges db)) of
        [] \<Rightarrow> None | m # _ \<Rightarrow> Some m)"

definition unmergeTicket :: "ms \<Rightarrow> user_context \<Rightarrow> string \<Rightarrow> desk_db \<Rightarrow> desk_error + desk_db" where
  "unmergeTicket now context source db =
     bind_result (assertCapabilities context [Cap_ticket_reclassify]) (\<lambda>_.
       case open_merge db source of
         None \<Rightarrow> Inl (Conflict ''Ticket is not merged'')
       | Some m \<Rightarrow>
           (case sql_update (\<lambda>t. tk_id t = source \<and> tk_mergedIntoId t = Some (mg_targetTicketId m))
               (\<lambda>t. t\<lparr>tk_mergedIntoId := None\<rparr>) (tickets_of db) of
              (_, []) \<Rightarrow> Inl (Conflict ''Merge changed concurrently'')
            | (ts, _ # _) \<Rightarrow>
                let db1 = set_tickets ts db
                in Inr (db1\<lparr>dk_merges := fst (sql_update (\<lambda>r. mg_id r = mg_id m)
                     (\<lambda>r. r\<lparr>mg_undoneAt := Some now, mg_undoneBy := Some (cx_userId context)\<rparr>) (dk_merges db1))\<rparr>)))"

section \<open>Time, numbers and reads\<close>

definition addTicketTimeEntry :: "ms \<Rightarrow> user_context \<Rightarrow> string \<Rightarrow> int \<Rightarrow> string \<Rightarrow> desk_db \<Rightarrow> desk_error + desk_db \<times> time_entry" where
  "addTicketTimeEntry now context ticketId minutes note db =
     bind_result (assertCapabilities context [Cap_ticket_reclassify]) (\<lambda>_.
       case findTicket db ticketId of
         None \<Rightarrow> Inl Not_found
       | Some _ \<Rightarrow>
           if minutes \<le> 0 then Inl Constraint_violation
           else let row = \<lparr>te_ticketId = ticketId, te_userId = cx_userId context, te_minutes = minutes, te_note = note, te_createdAt = now\<rparr>
                in Inr (db\<lparr>dk_time := dk_time db @ [row]\<rparr>, row))"

definition listTicketTimeEntries :: "user_context \<Rightarrow> string \<Rightarrow> desk_db \<Rightarrow> desk_error + time_entry list \<times> int" where
  "listTicketTimeEntries context ticketId db =
     bind_result (assertCapabilities context [Cap_ticket_read_all]) (\<lambda>_.
       let entries = js_sort (\<lambda>a b. te_createdAt b - te_createdAt a) (filter (\<lambda>e. te_ticketId e = ticketId) (dk_time db))
       in Inr (entries, fold (\<lambda>e s. s + te_minutes e) entries 0))"

definition lookupTicket :: "user_context \<Rightarrow> string \<Rightarrow> desk_db \<Rightarrow> desk_error + ticket option" where
  "lookupTicket context reference db =
     bind_result (assertCapabilities context [Cap_ticket_read_all]) (\<lambda>_.
       let current =
         (case first_row (\<lambda>n. nm_number n = reference) (cd_numbers (dk_core db)) of
            Some n \<Rightarrow> Some (nm_ticketId n)
          | None \<Rightarrow> map_option tk_id (first_row (\<lambda>t. tk_number t = Some reference) (tickets_of db)))
       in Inr (findTicket db (case current of None \<Rightarrow> reference | Some i \<Rightarrow> i)))"

definition findTicketMessages :: "desk_db \<Rightarrow> string \<Rightarrow> message_row list" where
  "findTicketMessages db ticketId =
     js_sort (\<lambda>a b. cmp_then (me_createdAt a - me_createdAt b) (code_unit_compare (me_id a) (me_id b)))
       (filter (\<lambda>m. me_ticketId m = ticketId) (dk_messages db))"

text \<open>A message as the portal shows it: without its visibility.\<close>

record portal_message =
  pm_id :: string
  pm_ticketId :: string
  pm_authorId :: "string option"
  pm_authorType :: author_type
  pm_body :: string
  pm_createdAt :: ms

definition portal_message_of :: "message_row \<Rightarrow> portal_message" where
  "portal_message_of m = \<lparr>pm_id = me_id m, pm_ticketId = me_ticketId m, pm_authorId = me_authorId m,
     pm_authorType = me_authorType m, pm_body = me_body m, pm_createdAt = me_createdAt m\<rparr>"

definition toPortalMessages :: "message_row list \<Rightarrow> portal_message list" where
  "toPortalMessages rows = map portal_message_of (filter (\<lambda>m. me_visibility m = Vis_public) rows)"

definition withCustomFields :: "desk_db \<Rightarrow> ticket \<Rightarrow> desk_error + ticket \<times> (string \<Rightarrow> jsval option)" where
  "withCustomFields db t =
     (case readDynamicFieldValues (cd_fields (dk_core db)) ''ticket'' (tk_id t) of
        Inl e \<Rightarrow> Inl (Fields_failed e) | Inr vs \<Rightarrow> Inr (t, vs))"

definition getMyTicket ::
  "user_context \<Rightarrow> string \<Rightarrow> desk_db \<Rightarrow>
     desk_error + ((ticket \<times> (string \<Rightarrow> jsval option)) \<times> portal_message list \<times> csat_row option) option" where
  "getMyTicket context ticketId db =
     bind_result (assertCapabilities context [Cap_ticket_read_own]) (\<lambda>_.
       case findTicket_of db ticketId (cx_userId context) of
         None \<Rightarrow> Inr None
       | Some t \<Rightarrow>
           bind_result (withCustomFields db t) (\<lambda>r.
             Inr (Some (r,
               toPortalMessages (js_sort (\<lambda>a b. me_createdAt a - me_createdAt b)
                 (filter (\<lambda>m. me_ticketId m = ticketId \<and> me_visibility m = Vis_public) (dk_messages db))),
               first_row (\<lambda>c. cs_ticketId c = ticketId) (dk_csat db)))))"

definition setTicketDynamicFields ::
  "(string \<Rightarrow> js_date) \<Rightarrow> user_context \<Rightarrow> string \<Rightarrow> js_object \<Rightarrow> desk_db \<Rightarrow> desk_error + desk_db \<times> (string \<Rightarrow> jsval option)" where
  "setTicketDynamicFields date_parse context ticketId vs db =
     bind_result (assertCapabilities context [Cap_ticket_update]) (\<lambda>_.
       case findTicket db ticketId of
         None \<Rightarrow> Inl Not_found
       | Some _ \<Rightarrow>
           (case writeDynamicFieldValues date_parse ''ticket'' ticketId vs (cd_fields (dk_core db)) of
              Inl e \<Rightarrow> Inl (Fields_failed e)
            | Inr (f, r) \<Rightarrow> Inr (db\<lparr>dk_core := (dk_core db)\<lparr>cd_fields := f\<rparr>\<rparr>, r)))"

section \<open>Filing a ticket from the portal\<close>

text \<open>The device: one of the reporter's own, or the one of his that was seen last.\<close>

definition portal_device :: "desk_db \<Rightarrow> string \<Rightarrow> string option \<Rightarrow> desk_error + string option" where
  "portal_device db userId deviceId =
     (case deviceId of
        Some (c # cs) \<Rightarrow>
          if \<exists>d\<in>set (dk_devices db). dv_id d = c # cs \<and> dv_ownerId d = Some userId then Inr deviceId else Inl Not_found
      | _ \<Rightarrow>
          Inr (case js_sort (\<lambda>a b. dv_lastSeenAt b - dv_lastSeenAt a)
              (filter (\<lambda>d. dv_ownerId d = Some userId) (dk_devices db)) of
            [] \<Rightarrow> None | d # _ \<Rightarrow> Some (dv_id d)))"

text \<open>
  The handler up to the agent: \<open>run\<close> stands for \<open>startTicketRun\<close>, \<open>auto\<close> for the setting that lets new tickets start a run
  and a connected worker.
\<close>

definition createTicket_handler ::
  "tzdb \<Rightarrow> (string \<Rightarrow> string \<Rightarrow> int) \<Rightarrow> (string \<Rightarrow> js_date) \<Rightarrow> (new_id \<Rightarrow> string) \<Rightarrow> ms \<Rightarrow> bool \<Rightarrow>
     (ticket \<Rightarrow> desk_db \<Rightarrow> desk_db \<times> (desk_error + unit)) \<Rightarrow> user_context \<Rightarrow> creation_input \<Rightarrow> desk_db \<Rightarrow>
     desk_db \<times> (desk_error + ticket \<times> (string \<Rightarrow> jsval option))" where
  "createTicket_handler tz lc date_parse uuid now auto run context input db =
     (case assertCapabilities context [Cap_ticket_create] of
        Inl e \<Rightarrow> (db, Inl e)
      | Inr _ \<Rightarrow>
     if in_recordType input = Some RT_service_request
     then (db, Inl (Bad_request ''Service requests must be submitted through the request catalogue''))
     else (case portal_device db (cx_userId context) (in_deviceId input) of
        Inl e \<Rightarrow> (db, Inl e)
      | Inr device \<Rightarrow>
     (case createTicket tz lc date_parse uuid now
         (input\<lparr>in_source := ''portal'', in_reporterId := cx_userId context, in_origin := None, in_deviceId := device\<rparr>) (dk_core db) of
        (core, Inl e, _) \<Rightarrow> (db\<lparr>dk_core := core\<rparr>, Inl (Creation_failed e))
      | (core, Inr t, _) \<Rightarrow>
          let db1 = db\<lparr>dk_core := core\<rparr>
          in (case findTicket db1 (ct_ticketId t) of
                None \<Rightarrow> (db1, Inl Internal_error)
              | Some created \<Rightarrow>
                  if ct_created t \<and> auto \<and> AT_route_human \<notin> set (ct_settledActions t)
                  then (case run created db1 of
                          (db2, Inl e) \<Rightarrow> (db2, Inl e)
                        | (db2, Inr _) \<Rightarrow>
                            (case findTicket db2 (ct_ticketId t) of
                               None \<Rightarrow> (db2, Inl Internal_error)
                             | Some created \<Rightarrow> (db2, withCustomFields db2 created)))
                  else (db1, withCustomFields db1 created)))))"

end
