(* ===== verification/TicketUpdates.thy ===== *)
theory TicketUpdates
  imports TicketFlow
begin

text \<open>
  What the operations of \<open>TicketFlow\<close> guarantee: the frame of the writes, then the properties of an update (what allowed it,
  that it is atomic, what it loses), of merging and unmerging, and of what the portal shows.
\<close>

section \<open>What an update writes\<close>

lemma first_row_map: "(\<And>t. P (f t) = P t) \<Longrightarrow> first_row P (map f xs) = map_option f (first_row P xs)"
  by (induction xs) (simp_all add: first_row_def)

lemma sql_update_pair:
  "sql_update P f t = (a, b) \<longleftrightarrow> a = map (\<lambda>r. if P r then f r else r) t \<and> b = map f (filter P t)"
  by (auto simp: sql_update_def)

lemma tickets_of_simps [simp]:
  "tickets_of (set_tickets ts db) = ts" "tickets_of (add_audit rows db) = tickets_of db"
  "tickets_of (db\<lparr>dk_messages := ms\<rparr>) = tickets_of db" "tickets_of (db\<lparr>dk_csat := cs\<rparr>) = tickets_of db"
  "tickets_of (db\<lparr>dk_transitions := ts'\<rparr>) = tickets_of db" "tickets_of (db\<lparr>dk_links := ls\<rparr>) = tickets_of db"
  "tickets_of (db\<lparr>dk_merges := mg\<rparr>) = tickets_of db" "tickets_of (db\<lparr>dk_presence := ps\<rparr>) = tickets_of db"
  "tickets_of (db\<lparr>dk_time := te\<rparr>) = tickets_of db" "tickets_of (db\<lparr>dk_followups := fo\<rparr>) = tickets_of db"
  by (simp_all add: tickets_of_def set_tickets_def add_audit_def)

lemma findTicket_SomeD: "findTicket db i = Some t \<Longrightarrow> t \<in> set (tickets_of db) \<and> tk_id t = i"
  unfolding findTicket_def by (rule first_row_SomeD)

lemma transition_keeps_tickets:
  "transitionTicketStopwatches elapsed sched i to now s = Inr s' \<Longrightarrow> \<exists>ws. s' = s\<lparr>sd_watches := ws\<rparr>"
  by (auto simp: transitionTicketStopwatches_def split: option.splits)
    (metis sla_db.surjective sla_db.update_convs(7))

text \<open>Moving the stopwatches changes nothing but them.\<close>

lemma move_watches_frame:
  assumes "move_watches elapsed sched i to now db = Inr db'"
  obtains ws where "db' = db\<lparr>dk_core := (dk_core db)\<lparr>cd_sla := (cd_sla (dk_core db))\<lparr>sd_watches := ws\<rparr>\<rparr>\<rparr>"
  using assms by (auto simp: move_watches_def split: sum.splits dest!: transition_keeps_tickets)

lemma move_watches_keeps:
  assumes "move_watches elapsed sched i to now db = Inr db'"
  shows "tickets_of db' = tickets_of db" "dk_transitions db' = dk_transitions db" "dk_csat db' = dk_csat db"
    "dk_messages db' = dk_messages db" "dk_merges db' = dk_merges db" "dk_moves db' = dk_moves db"
    "dk_reasons db' = dk_reasons db" "dk_followups db' = dk_followups db" "cd_audit (dk_core db') = cd_audit (dk_core db)"
    "sd_statuses (cd_sla (dk_core db')) = sd_statuses (cd_sla (dk_core db))"
  using assms by (auto elim!: move_watches_frame simp: tickets_of_def)

lemma set_tickets_keeps [simp]:
  "dk_transitions (set_tickets ts db) = dk_transitions db" "dk_csat (set_tickets ts db) = dk_csat db"
  "dk_messages (set_tickets ts db) = dk_messages db" "dk_merges (set_tickets ts db) = dk_merges db"
  "dk_moves (set_tickets ts db) = dk_moves db" "dk_reasons (set_tickets ts db) = dk_reasons db"
  "dk_followups (set_tickets ts db) = dk_followups db" "cd_audit (dk_core (set_tickets ts db)) = cd_audit (dk_core db)"
  "sd_statuses (cd_sla (dk_core (set_tickets ts db))) = sd_statuses (cd_sla (dk_core db))"
  by (simp_all add: set_tickets_def)

lemma add_audit_keeps [simp]:
  "dk_transitions (add_audit rows db) = dk_transitions db" "dk_csat (add_audit rows db) = dk_csat db"
  "dk_messages (add_audit rows db) = dk_messages db" "dk_merges (add_audit rows db) = dk_merges db"
  "cd_audit (dk_core (add_audit rows db)) = cd_audit (dk_core db) @ rows"
  by (simp_all add: add_audit_def)

definition update_hits :: "string \<Rightarrow> ticket \<Rightarrow> ticket \<Rightarrow> bool" where
  "update_hits ticketId current t \<longleftrightarrow> tk_id t = ticketId \<and> tk_status t = tk_status current"

definition history_row :: "(desk_id \<Rightarrow> string) \<Rightarrow> ms \<Rightarrow> user_context \<Rightarrow> string \<Rightarrow> update_action \<Rightarrow> ticket_status \<Rightarrow> ticket_status \<Rightarrow> transition_row" where
  "history_row uuid now context ticketId action from to = \<lparr>tr_id = uuid Did_transition, tr_ticketId = ticketId,
     tr_fromStatus = from, tr_toStatus = to, tr_action = action_name action, tr_actorType = Actor_human,
     tr_actorId = Some (cx_userId context), tr_createdAt = now\<rparr>"

lemma write_update_Inr:
  assumes "write_update elapsed sched uuid now context i action current nst until db = Inr db'"
  shows "tickets_of db' = map (\<lambda>t. if update_hits i current t then updated_row now action current nst until t else t) (tickets_of db)"
    and "\<exists>r ts. filter (update_hits i current) (tickets_of db) = r # ts \<and>
      cd_audit (dk_core db') = cd_audit (dk_core db) @ audit_rows i (cx_userId context)
        (auditChanges (audited_columns current) (audited_columns (updated_row now action current nst until r)))"
    and "dk_transitions db' = dk_transitions db @
      (if nst \<noteq> tk_status current then [history_row uuid now context i action (tk_status current) nst] else [])"
    and "dk_merges db' = dk_merges db"
    and "\<exists>new. dk_csat db' = dk_csat db @ new \<and> (\<forall>c\<in>set new. cs_ticketId c \<notin> cs_ticketId ` set (dk_csat db) \<and> cs_respondedAt c = None)"
proof -
  let ?f = "updated_row now action current nst until"
  let ?ts = "map (\<lambda>t. if update_hits i current t then ?f t else t) (tickets_of db)"
  have u: "sql_update (\<lambda>t. tk_id t = i \<and> tk_status t = tk_status current) ?f (tickets_of db) =
      (?ts, map ?f (filter (update_hits i current) (tickets_of db)))"
    by (simp add: sql_update_pair update_hits_def [abs_def])
  obtain r rs where r: "filter (update_hits i current) (tickets_of db) = r # rs"
    using assms by (cases "filter (update_hits i current) (tickets_of db)") (simp_all add: write_update_def u)
  obtain db1 where db1: "(if nst \<noteq> tk_status current then move_watches elapsed sched i nst now (set_tickets ?ts db)
      else Inr (set_tickets ?ts db)) = Inr db1"
    using assms r by (auto simp: write_update_def u Let_def)
  have k: "tickets_of db1 = ?ts" "dk_transitions db1 = dk_transitions db" "dk_csat db1 = dk_csat db"
      "dk_merges db1 = dk_merges db" "cd_audit (dk_core db1) = cd_audit (dk_core db)"
    using db1 by (auto simp: move_watches_keeps split: if_splits)
  note w = assms [unfolded write_update_def u r, simplified, unfolded db1 [simplified], simplified, unfolded Let_def]
  have core: "dk_core (db1\<lparr>dk_messages := x, dk_csat := y, dk_transitions := z\<rparr>) = dk_core db1" for x y z by simp
  show "tickets_of db' = ?ts" and "dk_merges db' = dk_merges db"
    using w k by (auto split: update_action.splits)
  show "\<exists>r ts. filter (update_hits i current) (tickets_of db) = r # ts \<and>
      cd_audit (dk_core db') = cd_audit (dk_core db) @ audit_rows i (cx_userId context)
        (auditChanges (audited_columns current) (audited_columns (?f r)))"
    using w k r by (auto split: update_action.splits)
  show "dk_transitions db' = dk_transitions db @
      (if nst \<noteq> tk_status current then [history_row uuid now context i action (tk_status current) nst] else [])"
    using w k by (auto simp: history_row_def split: update_action.splits)
  show "\<exists>new. dk_csat db' = dk_csat db @ new \<and> (\<forall>c\<in>set new. cs_ticketId c \<notin> cs_ticketId ` set (dk_csat db) \<and> cs_respondedAt c = None)"
    using w k by (cases "action = Act_close") (auto simp: sql_insert_new_def split: update_action.splits)
qed

lemma write_update_moves:
  "write_update elapsed sched uuid now context i action current nst until db = Inr db' \<Longrightarrow> dk_moves db' = dk_moves db"
  by (auto simp: write_update_def Let_def move_watches_keeps add_audit_def split: list.splits prod.splits if_splits update_action.splits)

section \<open>Properties of an update\<close>

definition may_update :: "desk_db \<Rightarrow> user_context \<Rightarrow> ticket \<Rightarrow> update_action \<Rightarrow> bool" where
  "may_update db context t action \<longleftrightarrow> reporter_verdict db context t action \<or>
     required_capability action \<in> set (cx_capabilities context)"

lemma check_update_Inr:
  assumes "check_update now context action db t = Inr (nst, until)"
  shows "may_update db context t action"
    and "\<exists>m\<in>set (dk_moves db). st_fromStatus m = tk_status t \<and> st_action m = action_name action \<and> st_toStatus m = nst"
    and "action_name action \<in> {''resolve'', ''close'', ''assign''} \<Longrightarrow> \<not> approval_missing db (tk_id t)"
    and "action = Act_reopen \<Longrightarrow> \<not> reopen_refused now t"
proof -
  show "may_update db context t action"
    using assms by (auto simp: check_update_def may_update_def assertCapabilities_def hasEveryCapability_def split: if_splits)
  show "\<exists>m\<in>set (dk_moves db). st_fromStatus m = tk_status t \<and> st_action m = action_name action \<and> st_toStatus m = nst"
  proof -
    have "resolveTicketStatus (dk_moves db) (tk_status t) (action_name action) = Inr nst"
      using assms by (auto simp: check_update_def split: sum.splits)
    then show ?thesis by (auto simp: resolveTicketStatus_def findTicketTransition_def split: option.splits dest!: first_row_SomeD)
  qed
  show "action_name action \<in> {''resolve'', ''close'', ''assign''} \<Longrightarrow> \<not> approval_missing db (tk_id t)"
    using assms by (auto simp: check_update_def split: if_splits)
  show "action = Act_reopen \<Longrightarrow> \<not> reopen_refused now t"
    using assms by (auto simp: check_update_def split: if_splits)
qed

lemma updateTicket_Inr:
  assumes "updateTicket elapsed sched uuid now meanwhile context i action db = (db', Inr (t', ev))"
  obtains t nst until where "findTicket db i = Some t" and "check_update now context action db t = Inr (nst, until)"
    and "write_update elapsed sched uuid now context i action t nst until (meanwhile db) = Inr db'"
    and "findTicket db' i = Some t'" and "ev_fromStatus ev = tk_status t" and "ev_toStatus ev = nst"
  using assms by (auto simp: updateTicket_def split: sum.splits option.splits prod.splits)

text \<open>Where ids are unique, the row that an update hits is the row of that id.\<close>

lemma hit_is_found:
  assumes "distinct (map tk_id (tickets_of db))" and "filter (update_hits i t) (tickets_of db) = r # rs"
  shows "findTicket db i = Some r" "tk_status r = tk_status t" "rs = []"
proof -
  have r: "r \<in> set (tickets_of db)" "tk_id r = i" "tk_status r = tk_status t"
    using assms(2) by (auto simp: update_hits_def dest!: filter_eq_ConsD)
  then obtain r' where r': "findTicket db i = Some r'"
    by (cases "findTicket db i") (auto simp: findTicket_def first_row_None_iff)
  have "r' = r" using findTicket_SomeD [OF r'] r assms(1) by (metis distinct_map inj_onD)
  then show "findTicket db i = Some r" using r' by simp
  show "tk_status r = tk_status t" by (rule r(3))
  have "distinct (map tk_id (r # rs))" unfolding assms(2) [symmetric] by (rule distinct_map_filter [OF assms(1)])
  moreover have "tk_id x = i" if "x \<in> set rs" for x
  proof -
    have "x \<in> set (filter (update_hits i t) (tickets_of db))" using that assms(2) by simp
    then show ?thesis by (simp add: update_hits_def)
  qed
  ultimately show "rs = []" using r(2) by (cases rs) auto
qed

lemma updated_found:
  assumes "distinct (map tk_id (tickets_of db))" and "filter (update_hits i t) (tickets_of db) = r # rs"
    and "tickets_of db' = map (\<lambda>x. if update_hits i t x then f x else x) (tickets_of db)" and "\<And>x. tk_id (f x) = tk_id x"
  shows "findTicket db' i = Some (f r)" and "j \<noteq> i \<Longrightarrow> findTicket db' j = findTicket db j"
proof -
  have *: "findTicket db' j = map_option (\<lambda>x. if update_hits i t x then f x else x) (findTicket db j)" for j
    unfolding findTicket_def assms(3) by (rule first_row_map) (simp add: assms(4))
  show "findTicket db' i = Some (f r)"
    using hit_is_found [OF assms(1,2)] findTicket_SomeD [of db i r] by (simp add: * update_hits_def)
  show "j \<noteq> i \<Longrightarrow> findTicket db' j = findTicket db j"
    by (cases "findTicket db j") (auto simp: * update_hits_def dest: findTicket_SomeD)
qed

lemma updated_row_id [simp]: "tk_id (updated_row now action t nst until r) = tk_id r"
  by (simp add: updated_row_def)

lemma updated_row_status [simp]: "tk_status (updated_row now action t nst until r) = nst"
  by (simp add: updated_row_def)

lemma updateTicket_write:
  assumes "updateTicket elapsed sched uuid now meanwhile context i action db = (db', Inr (t', ev))"
    and "distinct (map tk_id (tickets_of (meanwhile db)))"
  obtains t r nst until where "findTicket db i = Some t" and "check_update now context action db t = Inr (nst, until)"
    and "findTicket (meanwhile db) i = Some r" and "tk_status r = tk_status t"
    and "t' = updated_row now action t nst until r"
    and "\<And>j. j \<noteq> i \<Longrightarrow> findTicket db' j = findTicket (meanwhile db) j"
    and "cd_audit (dk_core db') = cd_audit (dk_core (meanwhile db)) @ audit_rows i (cx_userId context)
        (auditChanges (audited_columns t) (audited_columns t'))"
    and "dk_transitions db' = dk_transitions (meanwhile db) @
      (if nst \<noteq> tk_status t then [history_row uuid now context i action (tk_status t) nst] else [])"
proof -
  obtain t nst until where u: "findTicket db i = Some t" "check_update now context action db t = Inr (nst, until)"
    "write_update elapsed sched uuid now context i action t nst until (meanwhile db) = Inr db'" "findTicket db' i = Some t'"
    using assms(1) by (rule updateTicket_Inr)
  note w = write_update_Inr [OF u(3)]
  obtain r rs where r: "filter (update_hits i t) (tickets_of (meanwhile db)) = r # rs"
    and a: "cd_audit (dk_core db') = cd_audit (dk_core (meanwhile db)) @ audit_rows i (cx_userId context)
        (auditChanges (audited_columns t) (audited_columns (updated_row now action t nst until r)))"
    using w(2) by blast
  note h = hit_is_found [OF assms(2) r] and f = updated_found [OF assms(2) r w(1) updated_row_id]
  have t': "t' = updated_row now action t nst until r" using f(1) u(4) by simp
  show thesis by (rule that [OF u(1,2) h(1,2) t' f(2) _ w(3)]) (use a t' in simp_all)
qed

text \<open>
  C3. An update that succeeds was allowed by the capability of its action, or is the verdict of the reporter on a resolved
  ticket; it follows a configured status change from the status that was read; resolving, closing and assigning had no open
  or refused approval in the way; it writes the ticket's row and no other, and adds one row to the history exactly when the
  status changes. This holds whatever other writers commit between the read and the write.
\<close>

theorem updateTicket_moves:
  assumes "updateTicket elapsed sched uuid now meanwhile context i action db = (db', Inr (t', ev))"
    and "distinct (map tk_id (tickets_of (meanwhile db)))"
  shows "\<exists>t. findTicket db i = Some t \<and> may_update db context t action \<and>
    (\<exists>m\<in>set (dk_moves db). st_fromStatus m = tk_status t \<and> st_action m = action_name action \<and> st_toStatus m = tk_status t') \<and>
    (action_name action \<in> {''resolve'', ''close'', ''assign''} \<longrightarrow> \<not> approval_missing db (tk_id t)) \<and>
    findTicket db' i = Some t' \<and> (\<forall>j. j \<noteq> i \<longrightarrow> findTicket db' j = findTicket (meanwhile db) j) \<and>
    dk_transitions db' = dk_transitions (meanwhile db) @
      (if tk_status t' \<noteq> tk_status t then [history_row uuid now context i action (tk_status t) (tk_status t')] else [])"
proof -
  obtain t r nst until where u: "findTicket db i = Some t" "check_update now context action db t = Inr (nst, until)"
    "t' = updated_row now action t nst until r" "\<And>j. j \<noteq> i \<Longrightarrow> findTicket db' j = findTicket (meanwhile db) j"
    "dk_transitions db' = dk_transitions (meanwhile db) @
      (if nst \<noteq> tk_status t then [history_row uuid now context i action (tk_status t) nst] else [])"
    using updateTicket_write [OF assms] by metis
  have "findTicket db' i = Some t'" using assms(1) by (rule updateTicket_Inr)
  moreover have "tk_status t' = nst" by (simp add: u(3))
  ultimately show ?thesis using u(1,4,5) check_update_Inr [OF u(2)] by auto
qed

text \<open>
  C17. An update that fails has written nothing: the database is the one it was given, or what other writers made of it.
  It always fails where another writer has meanwhile changed the status of the ticket or removed it.
\<close>

theorem updateTicket_atomic:
  assumes "findTicket db i = Some t" and "updateTicket elapsed sched uuid now meanwhile context i action db = (db', res)"
  shows "(res \<in> range Inl \<longrightarrow> db' = db \<or> db' = meanwhile db) \<and>
    ((\<forall>r\<in>set (tickets_of (meanwhile db)). tk_id r = i \<longrightarrow> tk_status r \<noteq> tk_status t) \<longrightarrow> res \<in> range Inl)"
proof -
  let ?w = "\<lambda>nst until. write_update elapsed sched uuid now context i action t nst until (meanwhile db)"
  have found: "findTicket d i \<noteq> None" if w: "?w nst until = Inr d" for nst :: ticket_status and until d
  proof -
    obtain r rs where r: "filter (update_hits i t) (tickets_of (meanwhile db)) = r # rs" using write_update_Inr(2) [OF w] by blast
    then have "r \<in> set (tickets_of (meanwhile db)) \<and> update_hits i t r" by (auto dest!: filter_eq_ConsD)
    then have "updated_row now action t nst until r \<in> set (tickets_of d) \<and> tk_id r = i"
      unfolding write_update_Inr(1) [OF w] by (auto simp: update_hits_def)
    then show ?thesis unfolding findTicket_def first_row_None_iff by (metis updated_row_id)
  qed
  have stale: "?w nst until \<in> range Inl"
    if "\<forall>r\<in>set (tickets_of (meanwhile db)). tk_id r = i \<longrightarrow> tk_status r \<noteq> tk_status t" for nst until
  proof -
    have "sql_update (\<lambda>x. tk_id x = i \<and> tk_status x = tk_status t) (updated_row now action t nst until) (tickets_of (meanwhile db)) =
        (tickets_of (meanwhile db), [])"
      by (rule sql_update_none) (use that in auto)
    then show ?thesis by (simp add: write_update_def)
  qed
  show ?thesis
  proof (cases "\<exists>nst until. anyCapability context update_capabilities = Inr () \<and> check_update now context action db t = Inr (nst, until)")
    case True
    then obtain nst until where c: "anyCapability context update_capabilities = Inr ()" "check_update now context action db t = Inr (nst, until)"
      by blast
    then show ?thesis using assms found [of nst until] stale [of nst until]
      by (cases "?w nst until") (auto simp: updateTicket_def split: option.splits)
  next
    case False
    then show ?thesis using assms by (auto simp: updateTicket_def split: sum.splits prod.splits)
  qed
qed

text \<open>
  An update writes the columns that it does not concern from the ticket it read, and its WHERE clause compares only the
  status. So an assignment that somebody else commits between the read and the write is undone, and the audit, which compares
  with the ticket that was read, says nothing of it.
\<close>

theorem updateTicket_loses_assignment:
  assumes "updateTicket elapsed sched uuid now meanwhile context i action db = (db', Inr (t', ev))"
    and "distinct (map tk_id (tickets_of (meanwhile db)))" and "action_name action \<noteq> ''assign''"
  shows "\<exists>t rows. findTicket db i = Some t \<and> tk_assigneeId t' = tk_assigneeId t \<and> tk_ownerId t' = tk_ownerId t \<and>
    tk_teamId t' = tk_teamId t \<and> cd_audit (dk_core db') = cd_audit (dk_core (meanwhile db)) @ rows \<and>
    (\<forall>a\<in>set rows. au_fieldName a \<notin> {''assigneeId'', ''ownerId'', ''teamId''})"
proof -
  obtain t r nst until where u: "findTicket db i = Some t" "t' = updated_row now action t nst until r"
    "cd_audit (dk_core db') = cd_audit (dk_core (meanwhile db)) @ audit_rows i (cx_userId context)
        (auditChanges (audited_columns t) (audited_columns t'))"
    using updateTicket_write [OF assms(1,2)] by metis
  have e: "tk_assigneeId t' = tk_assigneeId t" "tk_ownerId t' = tk_ownerId t" "tk_teamId t' = tk_teamId t"
    using assms(3) by (cases action; simp add: u(2) updated_row_def)+
  have o: "object_is (or_js_null x) (or_js_null x)" for x by (cases x) (simp_all add: object_is_def or_js_null_def)
  have "\<forall>c\<in>set (auditChanges (audited_columns t) (audited_columns t')). ac_fieldName c \<notin> {''assigneeId'', ''ownerId'', ''teamId''}"
    by (simp add: auditChanges_def audited_columns_def e o prop_of_def)
  then show ?thesis using u(1,3) e by (intro exI [of _ t] exI conjI) (auto simp: audit_rows_def)
qed

section \<open>Properties of merges, answers and the portal\<close>

lemma assertCapabilities_Inr [simp]: "assertCapabilities context cs = Inr u \<longleftrightarrow> set cs \<subseteq> set (cx_capabilities context)"
  by (auto simp: assertCapabilities_def hasEveryCapability_def)

lemma findTicket_unmerged:
  assumes "findTicket db i = Some t" and "tk_mergedIntoId t = None"
  shows "first_row (\<lambda>x. tk_id x = i \<and> tk_mergedIntoId x = None) (tickets_of db) = Some t"
proof -
  have "find (\<lambda>x. tk_id x = i \<and> tk_mergedIntoId x = None) xs = Some t" if "find (\<lambda>x. tk_id x = i) xs = Some t" for xs
    using that assms(2) by (induction xs) (auto split: if_splits)
  then show ?thesis using assms(1) by (simp add: findTicket_def first_row_def)
qed

lemma mergeTickets_Inr:
  assumes "Cap_ticket_reclassify \<in> set (cx_capabilities context)" and "source \<noteq> target"
    and "findTicket db source = Some s" and "tk_mergedIntoId s = None" and "findTicket db target = Some t"
  shows "mergeTickets uuid now meanwhile context source target db =
    Inr ((set_tickets (map (merged_row source target) (tickets_of (meanwhile db))) (meanwhile db))
      \<lparr>dk_merges := dk_merges (meanwhile db) @ [merge_of uuid now context s target]\<rparr>)"
  using assms findTicket_unmerged [OF assms(3,4)] by (simp add: mergeTickets_def assertCapabilities_def hasEveryCapability_def)

lemma findTicket_merged:
  "findTicket (set_tickets (map (merged_row source target) (tickets_of db)) db) i = map_option (merged_row source target) (findTicket db i)"
  unfolding findTicket_def tickets_of_simps by (rule first_row_map) (simp add: merged_row_def)

lemma findTicket_merges [simp]: "findTicket (db\<lparr>dk_merges := x\<rparr>) i = findTicket db i"
  by (simp add: findTicket_def)

text \<open>
  Two tickets can be merged into each other: the target of a merge may itself have been merged away, so a ticket that is
  followed to where it was merged may come back to itself and the work on both be lost from view.
\<close>

theorem mergeTickets_cycle:
  assumes "Cap_ticket_reclassify \<in> set (cx_capabilities context)" and "a \<noteq> b"
    and "findTicket db a = Some ta" and "tk_mergedIntoId ta = None"
    and "findTicket db b = Some tb" and "tk_mergedIntoId tb = None"
  shows "\<exists>db1 db2. mergeTickets uuid1 now1 (\<lambda>d. d) context a b db = Inr db1 \<and> mergeTickets uuid2 now2 (\<lambda>d. d) context b a db1 = Inr db2 \<and>
    map_option tk_mergedIntoId (findTicket db2 a) = Some (Some b) \<and> map_option tk_mergedIntoId (findTicket db2 b) = Some (Some a)"
proof -
  obtain db1 where db1: "mergeTickets uuid1 now1 (\<lambda>d. d) context a b db = Inr db1"
    and f1: "\<And>i. findTicket db1 i = map_option (merged_row a b) (findTicket db i)"
    using mergeTickets_Inr [OF assms(1-5)] by (simp add: findTicket_merged)
  note ids = assms(3,5) [THEN findTicket_SomeD]
  have a1: "findTicket db1 a = Some (ta\<lparr>tk_mergedIntoId := Some b\<rparr>)" and b1: "findTicket db1 b = Some tb"
    using assms ids by (auto simp: f1 merged_row_def)
  obtain db2 where db2: "mergeTickets uuid2 now2 (\<lambda>d. d) context b a db1 = Inr db2"
    and f2: "\<And>i. findTicket db2 i = map_option (merged_row b a) (findTicket db1 i)"
    using mergeTickets_Inr [OF assms(1) assms(2) [symmetric] b1 assms(6) a1] by (simp add: findTicket_merged)
  show ?thesis
    using db1 db2 f2 [of a] f2 [of b] a1 b1 assms(2,6) ids by (intro exI conjI) (auto simp: merged_row_def)
qed

text \<open>
  Undoing a merge restores the tickets: where the source had no open merge before, unmerging gives back the very table of
  tickets, and leaves no open merge of the source behind.
\<close>

theorem unmergeTicket_restores:
  assumes "mergeTickets uuid now (\<lambda>d. d) context source target db = Inr db1"
    and "distinct (map tk_id (tickets_of db))"
    and "\<forall>m\<in>set (dk_merges db). mg_sourceTicketId m = source \<longrightarrow> mg_undoneAt m \<noteq> None"
    and "Cap_ticket_reclassify \<in> set (cx_capabilities context')"
  shows "\<exists>db2. unmergeTicket now' context' source db1 = Inr db2 \<and> tickets_of db2 = tickets_of db \<and> open_merge db2 source = None"
proof -
  obtain s where s: "first_row (\<lambda>t. tk_id t = source \<and> tk_mergedIntoId t = None) (tickets_of db) = Some s"
    and m1: "dk_merges db1 = dk_merges db @ [merge_of uuid now context s target]"
    and t1: "tickets_of db1 = map (merged_row source target) (tickets_of db)"
    using assms(1) by (auto simp: mergeTickets_def split: if_splits option.splits)
  let ?m = "merge_of uuid now context s target"
  note sd = first_row_SomeD [OF s]
  have m: "mg_sourceTicketId ?m = source" "mg_targetTicketId ?m = target" "mg_undoneAt ?m = None"
    using sd by (simp_all add: merge_of_def)
  have "filter (\<lambda>m. mg_sourceTicketId m = source \<and> mg_undoneAt m = None) (dk_merges db1) = [?m]"
    unfolding m1 using assms(3) m by (simp add: filter_empty_conv)
  then have om: "open_merge db1 source = Some ?m" by (simp add: open_merge_def)
  let ?P = "\<lambda>t. tk_id t = source \<and> tk_mergedIntoId t = Some target"
  have only: "t = s" if "t \<in> set (tickets_of db)" "tk_id t = source" for t
    using that sd assms(2) by (metis distinct_map inj_onD)
  have undo: "map (\<lambda>t. if ?P t then t\<lparr>tk_mergedIntoId := None\<rparr> else t) (tickets_of db1) = tickets_of db"
    unfolding t1 map_map
  proof (rule map_idI)
    fix x assume x: "x \<in> set (tickets_of db)"
    show "((\<lambda>t. if ?P t then t\<lparr>tk_mergedIntoId := None\<rparr> else t) \<circ> merged_row source target) x = x"
      using only [OF x] sd by (cases "tk_id x = source") (auto simp: merged_row_def)
  qed
  have "merged_row source target s \<in> set (filter ?P (tickets_of db1))"
    using sd by (simp add: t1 merged_row_def)
  then obtain x xs where x: "filter ?P (tickets_of db1) = x # xs" by (cases "filter ?P (tickets_of db1)") auto
  have u: "sql_update ?P (\<lambda>t. t\<lparr>tk_mergedIntoId := None\<rparr>) (tickets_of db1) =
      (tickets_of db, map (\<lambda>t. t\<lparr>tk_mergedIntoId := None\<rparr>) (x # xs))"
    by (simp only: sql_update_pair undo x)
  let ?db2 = "(set_tickets (tickets_of db) db1)\<lparr>dk_merges := fst (sql_update (\<lambda>r. mg_id r = mg_id ?m)
      (\<lambda>r. r\<lparr>mg_undoneAt := Some now', mg_undoneBy := Some (cx_userId context')\<rparr>) (dk_merges db1))\<rparr>"
  have "unmergeTicket now' context' source db1 = Inr ?db2"
    using assms(4) u om m by (simp add: unmergeTicket_def assertCapabilities_def hasEveryCapability_def Let_def)
  moreover have "open_merge ?db2 source = None"
  proof -
    have "filter (\<lambda>m. mg_sourceTicketId m = source \<and> mg_undoneAt m = None) (dk_merges ?db2) = []"
      using assms(3) m by (auto simp: m1 sql_update_def filter_empty_conv)
    then show ?thesis by (simp add: open_merge_def)
  qed
  ultimately show ?thesis by (intro exI [of _ ?db2]) simp
qed

text \<open>
  Two merges of one ticket that run at the same time both succeed, since the number of rows that the UPDATE hits is not
  looked at: the ticket goes to the first target, and a merge into the second is recorded that never took place. From then on
  the ticket cannot be unmerged: the newest open merge is the one that did not happen.
\<close>

theorem mergeTickets_race:
  assumes "mergeTickets uuid1 now1 (\<lambda>d. d) context source b db = Inr db1" and "now1 < now2" and "b \<noteq> c" and "source \<noteq> c"
    and "distinct (map tk_id (tickets_of db))" and "findTicket db source = Some s" and "findTicket db c = Some tc"
    and "\<forall>m\<in>set (dk_merges db). mg_sourceTicketId m = source \<longrightarrow> mg_undoneAt m \<noteq> None"
  shows "\<exists>db2. mergeTickets uuid2 now2 (\<lambda>_. db1) context source c db = Inr db2 \<and>
    map_option tk_mergedIntoId (findTicket db2 source) = Some (Some b) \<and>
    unmergeTicket now3 context source db2 = Inl (Conflict ''Merge changed concurrently'')"
proof -
  obtain s' where s': "first_row (\<lambda>t. tk_id t = source \<and> tk_mergedIntoId t = None) (tickets_of db) = Some s'"
    and cap: "Cap_ticket_reclassify \<in> set (cx_capabilities context)"
    and m1: "dk_merges db1 = dk_merges db @ [merge_of uuid1 now1 context s' b]"
    and t1: "tickets_of db1 = map (merged_row source b) (tickets_of db)"
    using assms(1) by (auto simp: mergeTickets_def split: if_splits option.splits)
  note sd = first_row_SomeD [OF s'] findTicket_SomeD [OF assms(6)]
  have [simp]: "s' = s" using sd assms(5) by (metis distinct_map inj_onD)
  have only: "t = s" if "t \<in> set (tickets_of db)" "tk_id t = source" for t
    using that sd assms(5) by (metis distinct_map inj_onD)
  let ?db2 = "(set_tickets (map (merged_row source c) (tickets_of db1)) db1)\<lparr>dk_merges := dk_merges db1 @ [merge_of uuid2 now2 context s c]\<rparr>"
  have merge2: "mergeTickets uuid2 now2 (\<lambda>_. db1) context source c db = Inr ?db2"
    by (rule mergeTickets_Inr [OF cap assms(4,6) _ assms(7)]) (use sd in simp)
  have t2: "tickets_of ?db2 = map (merged_row source b) (tickets_of db)"
    unfolding t1 tickets_of_simps map_map by (rule map_cong [OF refl]) (simp add: merged_row_def)
  have "findTicket ?db2 source = map_option (merged_row source b) (findTicket db source)"
    unfolding findTicket_def t2 by (rule first_row_map) (simp add: merged_row_def)
  then have into: "map_option tk_mergedIntoId (findTicket ?db2 source) = Some (Some b)"
    using sd by (simp add: assms(6) merged_row_def)
  have "filter (\<lambda>m. mg_sourceTicketId m = source \<and> mg_undoneAt m = None) (dk_merges ?db2) =
      [merge_of uuid1 now1 context s b, merge_of uuid2 now2 context s c]"
    using assms(8) sd by (simp add: m1 filter_empty_conv merge_of_def)
  then have om: "open_merge ?db2 source = Some (merge_of uuid2 now2 context s c)"
    using assms(2) by (simp add: open_merge_def merge_of_def)
  have "sql_update (\<lambda>t. tk_id t = source \<and> tk_mergedIntoId t = Some c) (\<lambda>t. t\<lparr>tk_mergedIntoId := None\<rparr>) (tickets_of ?db2) =
      (tickets_of ?db2, [])"
    unfolding t2
  proof (rule sql_update_none)
    fix r assume "r \<in> set (map (merged_row source b) (tickets_of db))"
    then obtain t where t: "t \<in> set (tickets_of db)" "r = merged_row source b t" by auto
    show "\<not> (tk_id r = source \<and> tk_mergedIntoId r = Some c)"
      using only [OF t(1)] sd assms(3) by (cases "tk_id t = source") (auto simp: t(2) merged_row_def)
  qed
  then have "unmergeTicket now3 context source ?db2 = Inl (Conflict ''Merge changed concurrently'')"
    using cap om by (simp add: unmergeTicket_def assertCapabilities_def hasEveryCapability_def merge_of_def)
  with merge2 into show ?thesis by blast
qed

text \<open>
  C27. What a reporter reads is his own ticket with its public messages, and the private messages cannot be told from it: the
  answer is the same whatever private messages there are.
\<close>

theorem getMyTicket_hides_private:
  assumes "filter (\<lambda>m. me_visibility m = Vis_public) other = filter (\<lambda>m. me_visibility m = Vis_public) (dk_messages db)"
  shows "getMyTicket context i (db\<lparr>dk_messages := other\<rparr>) = getMyTicket context i db \<and>
    (case getMyTicket context i db of
       Inr (Some ((t, _), ms, _)) \<Rightarrow> tk_id t = i \<and> tk_reporterId t = cx_userId context \<and> (\<forall>m\<in>set ms. pm_ticketId m = i)
     | _ \<Rightarrow> True)"
proof -
  have f: "filter (\<lambda>m. me_ticketId m = i \<and> me_visibility m = Vis_public) xs =
      filter (\<lambda>m. me_ticketId m = i) (filter (\<lambda>m. me_visibility m = Vis_public) xs)" for xs
    by (simp add: conj_commute)
  have w: "withCustomFields (db\<lparr>dk_messages := other\<rparr>) t = withCustomFields db t" for t by (simp add: withCustomFields_def)
  have t: "findTicket_of (db\<lparr>dk_messages := other\<rparr>) i u = findTicket_of db i u" for u by (simp add: findTicket_of_def)
  have "getMyTicket context i (db\<lparr>dk_messages := other\<rparr>) = getMyTicket context i db"
    unfolding getMyTicket_def w t f by (simp add: assms cong: option.case_cong)
  moreover have "case getMyTicket context i db of
       Inr (Some ((t, _), ms, _)) \<Rightarrow> tk_id t = i \<and> tk_reporterId t = cx_userId context \<and> (\<forall>m\<in>set ms. pm_ticketId m = i)
     | _ \<Rightarrow> True"
    by (auto simp: getMyTicket_def withCustomFields_def findTicket_of_def toPortalMessages_def portal_message_of_def
        split: sum.splits option.splits dest!: first_row_SomeD)
  ultimately show ?thesis by (rule conjI)
qed

section \<open>A sample desk\<close>

definition sample_status_row :: "ticket_status \<Rightarrow> state_type \<Rightarrow> ticket_status_row" where
  "sample_status_row k st = sample_status\<lparr>ts_key := k, ts_stateType := st, ts_isDefault := (k = ''open''), ts_pausesSla := (st = ST_pending)\<rparr>"

definition sample_moves :: "status_transition list" where
  "sample_moves = map (\<lambda>(a, b, c). \<lparr>st_fromStatus = a, st_action = b, st_toStatus = c\<rparr>)
     [(''open'', ''reclassify'', ''open''), (''open'', ''assign'', ''open''), (''open'', ''pend'', ''pending''),
      (''pending'', ''unpend'', ''open''), (''pending'', ''resolve'', ''resolved''), (''resolved'', ''close'', ''closed''),
      (''resolved'', ''escalate'', ''escalated''), (''escalated'', ''close'', ''closed''), (''closed'', ''reopen'', ''open'')]"

definition sample_desk :: desk_db where
  "sample_desk = \<lparr>dk_core = sample_creation_db\<lparr>cd_sla := sample_sla_db\<lparr>
       sd_tickets := [sample_ticket, sample_ticket\<lparr>tk_id := ''t2''\<rparr>, sample_ticket\<lparr>tk_id := ''t3'', tk_reporterId := ''u2''\<rparr>],
       sd_statuses := [sample_status_row ''open'' ST_new, sample_status_row ''pending'' ST_pending,
         sample_status_row ''resolved'' ST_resolved, sample_status_row ''escalated'' ST_open, sample_status_row ''closed'' ST_closed],
       sd_watches := []\<rparr>\<rparr>,
     dk_moves = sample_moves, dk_users = [(''u1'', UK_reporter), (''u9'', UK_staff)], dk_teams = [''net''], dk_approvals = [],
     dk_reasons = [\<lparr>pr_id = ''info'', pr_followupFrequencyMinutes = 60, pr_followupsBeforeResolution = 2\<rparr>],
     dk_messages = [], dk_csat = [], dk_transitions = [], dk_followups = [], dk_links = [], dk_merges = [], dk_presence = [],
     dk_time = [], dk_devices = []\<rparr>"

definition sample_staff :: user_context where
  "sample_staff = \<lparr>cx_userId = ''u9'', cx_capabilities = [Cap_ticket_reclassify, Cap_ticket_assign, Cap_ticket_read_own]\<rparr>"

definition sample_did :: "string \<Rightarrow> desk_id \<Rightarrow> string" where
  "sample_did p i = p @ (case i of Did_message \<Rightarrow> ''m'' | Did_csat \<Rightarrow> ''c'' | Did_token \<Rightarrow> ''k'' | Did_transition \<Rightarrow> ''t'' | Did_row \<Rightarrow> ''r'')"

definition sample_update ::
  "(desk_db \<Rightarrow> desk_db) \<Rightarrow> update_action \<Rightarrow> desk_db \<times> (desk_error + ticket \<times> ticket_event)" where
  "sample_update meanwhile action =
     updateTicket (\<lambda>_ _ _. Inr 0) alone (sample_did ''1'') 1000 meanwhile sample_staff ''t1'' action sample_desk"

lemma sample_desk_ids: "distinct (map tk_id (tickets_of sample_desk))"
  by (simp add: sample_desk_def tickets_of_def sample_ticket_def)

lemma sample_desk_tickets:
  "findTicket sample_desk ''t1'' = Some sample_ticket" "findTicket sample_desk ''t2'' = Some (sample_ticket\<lparr>tk_id := ''t2''\<rparr>)"
  "findTicket sample_desk ''t3'' = Some (sample_ticket\<lparr>tk_id := ''t3'', tk_reporterId := ''u2''\<rparr>)"
  by (simp_all add: sample_desk_def tickets_of_def sample_ticket_def findTicket_def first_row_def)

theorem updateTicket_moves_witness:
  "\<exists>db' t' ev. sample_update (\<lambda>d. d) (Act_pend ''info'' None) = (db', Inr (t', ev)) \<and>
     (\<exists>m\<in>set (dk_moves sample_desk). st_fromStatus m = ''open'' \<and> st_action m = ''pend'' \<and> st_toStatus m = tk_status t') \<and>
     findTicket db' ''t1'' = Some t' \<and> findTicket db' ''t2'' = findTicket sample_desk ''t2''"
proof -
  have "case snd (sample_update (\<lambda>d. d) (Act_pend ''info'' None)) of Inr _ \<Rightarrow> True | Inl _ \<Rightarrow> False" by code_simp
  then obtain db' t' ev where u: "sample_update (\<lambda>d. d) (Act_pend ''info'' None) = (db', Inr (t', ev))"
    by (cases "sample_update (\<lambda>d. d) (Act_pend ''info'' None)") (auto split: sum.splits)
  have "distinct (map tk_id (tickets_of ((\<lambda>d. d) sample_desk)))" using sample_desk_ids by simp
  from updateTicket_moves [OF u [unfolded sample_update_def] this] u show ?thesis
    by (simp add: sample_desk_tickets(1)) (simp add: sample_ticket_def)
qed

theorem updateTicket_atomic_witness:
  "\<exists>db' e. sample_update (\<lambda>d. set_tickets (map (\<lambda>t. t\<lparr>tk_status := ''pending''\<rparr>) (tickets_of d)) d) (Act_assign (Some Route_human_triage) None None None) =
     (db', Inl e)"
proof -
  let ?m = "\<lambda>d. set_tickets (map (\<lambda>t. t\<lparr>tk_status := ''pending''\<rparr>) (tickets_of d)) d"
  obtain db' res where u: "sample_update ?m (Act_assign (Some Route_human_triage) None None None) = (db', res)"
    by (cases "sample_update ?m (Act_assign (Some Route_human_triage) None None None)")
  have "\<forall>r\<in>set (tickets_of (?m sample_desk)). tk_id r = ''t1'' \<longrightarrow> tk_status r \<noteq> tk_status sample_ticket"
    by (simp add: sample_ticket_def)
  with updateTicket_atomic [OF sample_desk_tickets(1) u [unfolded sample_update_def]] have "res \<in> range Inl" by blast
  then show ?thesis using u by blast
qed

text \<open>A colleague assigns the ticket while another one reclassifies it.\<close>

theorem updateTicket_loses_assignment_witness:
  "\<exists>db' t' ev. sample_update (\<lambda>d. set_tickets (map (\<lambda>t. t\<lparr>tk_assigneeId := Some ''u9''\<rparr>) (tickets_of d)) d)
       (Act_reclassify None (Some L_high) None None None) = (db', Inr (t', ev)) \<and> tk_assigneeId t' = None"
proof -
  let ?m = "\<lambda>d. set_tickets (map (\<lambda>t. t\<lparr>tk_assigneeId := Some ''u9''\<rparr>) (tickets_of d)) d"
  let ?a = "Act_reclassify None (Some L_high) None None None"
  have "case snd (sample_update ?m ?a) of Inr _ \<Rightarrow> True | Inl _ \<Rightarrow> False" by code_simp
  then obtain db' t' ev where u: "sample_update ?m ?a = (db', Inr (t', ev))"
    by (cases "sample_update ?m ?a") (auto split: sum.splits)
  have "distinct (map tk_id (tickets_of (?m sample_desk)))" using sample_desk_ids by (simp add: o_def)
  from updateTicket_loses_assignment [OF u [unfolded sample_update_def] this] u show ?thesis
    by (simp add: sample_desk_tickets(1)) (simp add: sample_ticket_def)
qed

lemma sample_staff_merges: "Cap_ticket_reclassify \<in> set (cx_capabilities sample_staff)"
  by (simp add: sample_staff_def)

theorem mergeTickets_cycle_witness:
  "\<exists>db1 db2. mergeTickets (sample_did ''1'') 1 (\<lambda>d. d) sample_staff ''t1'' ''t2'' sample_desk = Inr db1 \<and>
     mergeTickets (sample_did ''2'') 2 (\<lambda>d. d) sample_staff ''t2'' ''t1'' db1 = Inr db2 \<and>
     map_option tk_mergedIntoId (findTicket db2 ''t1'') = Some (Some ''t2'') \<and>
     map_option tk_mergedIntoId (findTicket db2 ''t2'') = Some (Some ''t1'')"
  by (rule mergeTickets_cycle [OF sample_staff_merges _ sample_desk_tickets(1) _ sample_desk_tickets(2)])
    (simp_all add: sample_ticket_def)

lemma sample_merge:
  obtains db1 where "mergeTickets (sample_did ''1'') 1 (\<lambda>d. d) sample_staff ''t1'' ''t2'' sample_desk = Inr db1"
  using mergeTickets_Inr [OF sample_staff_merges _ sample_desk_tickets(1) _ sample_desk_tickets(2)]
  by (simp add: sample_ticket_def)

lemma sample_desk_merges: "\<forall>m\<in>set (dk_merges sample_desk). mg_sourceTicketId m = ''t1'' \<longrightarrow> mg_undoneAt m \<noteq> None"
  by (simp add: sample_desk_def)

theorem unmergeTicket_restores_witness:
  "\<exists>db1 db2. mergeTickets (sample_did ''1'') 1 (\<lambda>d. d) sample_staff ''t1'' ''t2'' sample_desk = Inr db1 \<and>
     unmergeTicket 5 sample_staff ''t1'' db1 = Inr db2 \<and> tickets_of db2 = tickets_of sample_desk"
proof -
  obtain db1 where m: "mergeTickets (sample_did ''1'') 1 (\<lambda>d. d) sample_staff ''t1'' ''t2'' sample_desk = Inr db1"
    by (rule sample_merge)
  from unmergeTicket_restores [OF this sample_desk_ids sample_desk_merges sample_staff_merges, of 5] m show ?thesis by blast
qed

theorem mergeTickets_race_witness:
  "\<exists>db1 db2. mergeTickets (sample_did ''1'') 1 (\<lambda>d. d) sample_staff ''t1'' ''t2'' sample_desk = Inr db1 \<and>
     mergeTickets (sample_did ''2'') 2 (\<lambda>_. db1) sample_staff ''t1'' ''t3'' sample_desk = Inr db2 \<and>
     map_option tk_mergedIntoId (findTicket db2 ''t1'') = Some (Some ''t2'') \<and>
     unmergeTicket 3 sample_staff ''t1'' db2 = Inl (Conflict ''Merge changed concurrently'')"
proof -
  obtain db1 where m: "mergeTickets (sample_did ''1'') 1 (\<lambda>d. d) sample_staff ''t1'' ''t2'' sample_desk = Inr db1"
    by (rule sample_merge)
  have "(1 :: ms) < 2" "''t2'' \<noteq> ''t3''" "''t1'' \<noteq> ''t3''" by simp_all
  from mergeTickets_race [OF m this sample_desk_ids sample_desk_tickets(1,3) sample_desk_merges, of "sample_did ''2''" 3] m
  show ?thesis by blast
qed

theorem getMyTicket_hides_private_witness:
  "getMyTicket sample_staff ''t1'' (sample_desk\<lparr>dk_messages := [\<lparr>me_id = ''m1'', me_ticketId = ''t1'', me_authorId = None,
     me_authorType = Author_staff, me_body = ''internal'', me_visibility = Vis_private, me_createdAt = 0\<rparr>]\<rparr>) =
   getMyTicket sample_staff ''t1'' sample_desk"
  by (rule getMyTicket_hides_private [THEN conjunct1]) (simp add: sample_desk_def)

end
