(* ===== verification/Pending.thy ===== *)
theory Pending
  imports TicketUpdates
begin

text \<open>
  The sweep over pending tickets, \<open>server/pending.ts\<close>: a reminder whenever a slot of the reason's cadence comes due, and
  the automatic resolution once the reason's follow-ups are used up. \<open>meanwhile t\<close> is what others commit before the
  transaction for the ticket \<open>t\<close>; a transaction that throws ends the sweep, and what the earlier ones committed stays.
\<close>

section \<open>The sweep\<close>

definition due_compare :: "ticket \<times> pending_reason \<Rightarrow> ticket \<times> pending_reason \<Rightarrow> int" where
  "due_compare a b = cmp_then (the (tk_pendingUntil (fst a)) - the (tk_pendingUntil (fst b)))
     (code_unit_compare (tk_id (fst a)) (tk_id (fst b)))"

definition is_due :: "desk_db \<Rightarrow> ms \<Rightarrow> ticket \<Rightarrow> bool" where
  "is_due db now t \<longleftrightarrow> state_type_of db (tk_status t) = Some ST_pending \<and>
     (case tk_pendingUntil t of None \<Rightarrow> False | Some u \<Rightarrow> u \<le> now)"

text \<open>The inner joins with the reason and the status, the condition and the order.\<close>

definition reason_of :: "desk_db \<Rightarrow> ticket \<Rightarrow> pending_reason option" where
  "reason_of db t = Option.bind (tk_pendingReasonId t) (\<lambda>i. first_row (\<lambda>r. pr_id r = i) (dk_reasons db))"

definition pending_due :: "desk_db \<Rightarrow> ms \<Rightarrow> (ticket \<times> pending_reason) list" where
  "pending_due db now = js_sort due_compare
     (List.map_filter (\<lambda>t. if is_due db now t then map_option (\<lambda>r. (t, r)) (reason_of db t) else None) (tickets_of db))"

text \<open>\<open>Math.ceil(n / d)\<close> for integers and a positive divisor.\<close>

definition ceil_div :: "int \<Rightarrow> int \<Rightarrow> int" where
  "ceil_div n d = - ((- n) div d)"

definition next_slot :: "ms \<Rightarrow> ms \<Rightarrow> int \<Rightarrow> ms" where
  "next_slot now slot frequencyMinutes =
     (let pendingUntil = nextPendingFollowupAt slot frequencyMinutes
      in if pendingUntil \<le> now
         then (let frequencyMs = frequencyMinutes * 60000; missed = ceil_div (now - pendingUntil + 1) frequencyMs
               in pendingUntil + missed * frequencyMs)
         else pendingUntil)"

definition auto_resolution :: "int \<Rightarrow> string" where
  "auto_resolution n = ''Auto-resolved after '' @ js_int_string n @ '' unanswered follow-ups''"

definition auto_resolved :: "ms \<Rightarrow> ticket_status \<Rightarrow> int \<Rightarrow> ticket \<Rightarrow> ticket" where
  "auto_resolved now to n t = t\<lparr>tk_status := to, tk_resolution := Some (auto_resolution n),
     tk_resolutionCode := Some RC_no_action_required, tk_resolvedAt := Some now, tk_pendingReasonId := None,
     tk_pendingUntil := None\<rparr>"

definition resolve_pending ::
  "elapsed_fn \<Rightarrow> schedule \<Rightarrow> (desk_id \<Rightarrow> string) \<Rightarrow> ms \<Rightarrow> ticket \<Rightarrow> ticket_status \<Rightarrow> desk_db \<Rightarrow> desk_error + desk_db \<times> bool" where
  "resolve_pending elapsed sched uuid now t to db =
     (case sql_update (\<lambda>r. tk_id r = tk_id t \<and> tk_status r = tk_status t) (auto_resolved now to (tk_pendingFollowups t)) (tickets_of db) of
        (_, []) \<Rightarrow> Inr (db, False)
      | (ts, _ # _) \<Rightarrow>
          let db1 = set_tickets ts db
          in bind_result (move_watches elapsed sched (tk_id t) to now
               (db1\<lparr>dk_transitions := dk_transitions db1 @ [\<lparr>tr_id = uuid Did_transition, tr_ticketId = tk_id t,
                  tr_fromStatus = tk_status t, tr_toStatus = to, tr_action = ''resolve'', tr_actorType = Actor_agent,
                  tr_actorId = Some ''pending-sweep'', tr_createdAt = now\<rparr>]\<rparr>)) (\<lambda>db2. Inr (db2, True)))"

text \<open>The text of the reminder has a typographic apostrophe, which is outside the character range; it is written \<open>'\<close>.\<close>

definition reminder_text :: string where
  "reminder_text = ''We'' @ [CHR 39] @ ''re still waiting for the information needed to continue.''"

definition followed_up :: "ms \<Rightarrow> ticket \<Rightarrow> ticket" where
  "followed_up until t = t\<lparr>tk_pendingFollowups := tk_pendingFollowups t + 1, tk_pendingUntil := Some until\<rparr>"

definition follow_up_pending :: "(desk_id \<Rightarrow> string) \<Rightarrow> ms \<Rightarrow> ticket \<Rightarrow> pending_reason \<Rightarrow> ms \<Rightarrow> desk_db \<Rightarrow> desk_db \<times> bool" where
  "follow_up_pending uuid now t reason until db =
     (case sql_update (\<lambda>r. tk_id r = tk_id t \<and> tk_status r = tk_status t \<and> tk_pendingFollowups r = tk_pendingFollowups t)
         (followed_up until) (tickets_of db) of
        (_, []) \<Rightarrow> (db, False)
      | (ts, _ # _) \<Rightarrow>
          let db1 = set_tickets ts db
          in (db1\<lparr>dk_followups := dk_followups db1 @ [\<lparr>fo_ticketId = tk_id t, fo_reasonId = pr_id reason,
                fo_ordinal = tk_pendingFollowups t + 1, fo_createdAt = now\<rparr>],
              dk_messages := dk_messages db1 @ [\<lparr>me_id = uuid Did_message, me_ticketId = tk_id t, me_authorId = None,
                me_authorType = Author_staff, me_body = reminder_text, me_visibility = Vis_public, me_createdAt = now\<rparr>]\<rparr>, True))"

definition pending_step ::
  "elapsed_fn \<Rightarrow> schedule \<Rightarrow> (ticket \<Rightarrow> desk_id \<Rightarrow> string) \<Rightarrow> ms \<Rightarrow> (ticket \<Rightarrow> desk_db \<Rightarrow> desk_db) \<Rightarrow> ticket \<Rightarrow> pending_reason \<Rightarrow>
     desk_db \<Rightarrow> desk_db \<times> (desk_error + bool)" where
  "pending_step elapsed sched uuid now meanwhile t reason db =
     (let ordinal = tk_pendingFollowups t + 1
      in if pr_followupsBeforeResolution reason < ordinal
         then (case resolveTicketStatus (dk_moves db) (tk_status t) ''resolve'' of
                 Inl message \<Rightarrow> (db, Inl (Conflict message))
               | Inr to \<Rightarrow>
                   (case resolve_pending elapsed sched (uuid t) now t to (meanwhile t db) of
                      Inl e \<Rightarrow> (meanwhile t db, Inl e) | Inr (db', done1) \<Rightarrow> (db', Inr done1)))
         else (case follow_up_pending (uuid t) now t reason
                   (next_slot now (case tk_pendingUntil t of None \<Rightarrow> now | Some u \<Rightarrow> u) (pr_followupFrequencyMinutes reason))
                   (meanwhile t db) of
                 (db', done1) \<Rightarrow> (db', Inr done1)))"

fun sweep_due ::
  "elapsed_fn \<Rightarrow> schedule \<Rightarrow> (ticket \<Rightarrow> desk_id \<Rightarrow> string) \<Rightarrow> ms \<Rightarrow> (ticket \<Rightarrow> desk_db \<Rightarrow> desk_db) \<Rightarrow> (ticket \<times> pending_reason) list \<Rightarrow>
     nat \<Rightarrow> desk_db \<Rightarrow> desk_db \<times> (desk_error + nat)" where
  "sweep_due elapsed sched uuid now meanwhile [] changed db = (db, Inr changed)"
| "sweep_due elapsed sched uuid now meanwhile ((t, reason) # rest) changed db =
     (case pending_step elapsed sched uuid now meanwhile t reason db of
        (db', Inl e) \<Rightarrow> (db', Inl e)
      | (db', Inr done1) \<Rightarrow> sweep_due elapsed sched uuid now meanwhile rest (if done1 then changed + 1 else changed) db')"

definition sweepPending ::
  "elapsed_fn \<Rightarrow> schedule \<Rightarrow> (ticket \<Rightarrow> desk_id \<Rightarrow> string) \<Rightarrow> (ticket \<Rightarrow> desk_db \<Rightarrow> desk_db) \<Rightarrow> ms \<Rightarrow> int \<Rightarrow> desk_db \<Rightarrow>
     desk_db \<times> (desk_error + nat)" where
  "sweepPending elapsed sched uuid meanwhile now limit db =
     sweep_due elapsed sched uuid now meanwhile (take (clamp_limit 1000 limit) (pending_due db now)) 0 db"

section \<open>Properties of the cadence\<close>

lemma ceil_div_bounds:
  assumes "0 < d"
  shows "n \<le> ceil_div n d * d" "ceil_div n d * d < n + d"
proof -
  have eq: "ceil_div n d * d = n + (- n) mod d"
    using div_mult_mod_eq [of "- n" d] unfolding ceil_div_def mult_minus_left by linarith
  have "0 \<le> (- n) mod d" "(- n) mod d < d" using assms by simp_all
  then show "n \<le> ceil_div n d * d" "ceil_div n d * d < n + d" unfolding eq by linarith+
qed

text \<open>
  However late the sweep runs, the next reminder is due at a slot of the cadence counted from the one that came due, later
  than the sweep and at most one period after it.
\<close>

theorem next_slot_cadence:
  assumes "0 < frequency" and "slot \<le> now"
  shows "now < next_slot now slot frequency \<and> next_slot now slot frequency \<le> now + frequency * 60000 \<and>
    frequency * 60000 dvd next_slot now slot frequency - slot"
proof (cases "slot + frequency * 60000 \<le> now")
  case True
  let ?f = "frequency * 60000" let ?u = "slot + ?f" let ?k = "ceil_div (now - ?u + 1) ?f"
  have e: "next_slot now slot frequency = ?u + ?k * ?f" using True by (simp add: next_slot_def nextPendingFollowupAt_def Let_def)
  have b: "now - ?u + 1 \<le> ?k * ?f" "?k * ?f < now - ?u + 1 + ?f" using assms(1) by (intro ceil_div_bounds; simp)+
  have d: "?u + ?k * ?f - slot = ?f * (1 + ?k)" by (simp add: algebra_simps)
  show ?thesis unfolding e d by (intro conjI) (use b in linarith, use b in linarith, rule dvd_triv_left)
next
  case False
  then show ?thesis using assms by (simp add: next_slot_def nextPendingFollowupAt_def Let_def)
qed

theorem next_slot_cadence_witness:
  "(200000 :: ms) < next_slot 200000 0 1 \<and> next_slot 200000 0 1 \<le> 260000 \<and> 60000 dvd next_slot 200000 0 1"
  using next_slot_cadence [of 1 0 200000] by simp

section \<open>What a sweep does to the tickets\<close>

text \<open>The row that a step leaves where a row \<open>t\<close> was, when nobody else writes.\<close>

definition pending_after :: "ms \<Rightarrow> pending_reason \<Rightarrow> ticket \<Rightarrow> ticket \<Rightarrow> bool" where
  "pending_after now r t t' \<longleftrightarrow> tk_id t' = tk_id t \<and>
     (if tk_pendingFollowups t < pr_followupsBeforeResolution r
      then t' = followed_up (next_slot now (case tk_pendingUntil t of None \<Rightarrow> now | Some u \<Rightarrow> u) (pr_followupFrequencyMinutes r)) t
      else tk_pendingUntil t' = None)"

definition same_tables :: "desk_db \<Rightarrow> desk_db \<Rightarrow> bool" where
  "same_tables db db' \<longleftrightarrow> dk_reasons db' = dk_reasons db \<and> sd_statuses (cd_sla (dk_core db')) = sd_statuses (cd_sla (dk_core db))"

lemma same_tables_refl [simp]: "same_tables db db"
  by (simp add: same_tables_def)

lemma same_tables_trans: "same_tables a b \<Longrightarrow> same_tables b c \<Longrightarrow> same_tables a c"
  by (simp add: same_tables_def)

lemma same_tables_cong:
  assumes "same_tables db db'"
  shows "is_due db' now t = is_due db now t" "reason_of db' t = reason_of db t"
  using assms by (simp_all add: same_tables_def is_due_def state_type_of_def reason_of_def)

lemma map_single_row:
  assumes "distinct (map tk_id ts)" and "t \<in> set ts" and "P t"
  shows "map (\<lambda>x. if tk_id x = tk_id t \<and> P x then f x else x) ts = map (\<lambda>x. if x = t then f t else x) ts"
    and "filter (\<lambda>x. tk_id x = tk_id t \<and> P x) ts \<noteq> []"
proof -
  have "x = t" if "x \<in> set ts" "tk_id x = tk_id t" for x using assms(1,2) that by (metis distinct_map inj_onD)
  then show "map (\<lambda>x. if tk_id x = tk_id t \<and> P x then f x else x) ts = map (\<lambda>x. if x = t then f t else x) ts"
    using assms(3) by (intro map_cong) auto
  show "filter (\<lambda>x. tk_id x = tk_id t \<and> P x) ts \<noteq> []" using assms(2,3) by (auto simp: filter_empty_conv)
qed

lemma pending_step_row:
  assumes "distinct (map tk_id (tickets_of db))" and "t \<in> set (tickets_of db)"
    and "pending_step elapsed sched uuid now (\<lambda>_ d. d) t r db = (db', res)"
  shows "(\<exists>e. res = Inl e \<and> db' = db) \<or>
    (\<exists>t'. res = Inr True \<and> pending_after now r t t' \<and> tickets_of db' = map (\<lambda>x. if x = t then t' else x) (tickets_of db) \<and> same_tables db db')"
proof (cases "tk_pendingFollowups t < pr_followupsBeforeResolution r")
  case True
  let ?u = "next_slot now (case tk_pendingUntil t of None \<Rightarrow> now | Some u \<Rightarrow> u) (pr_followupFrequencyMinutes r)"
  let ?P = "\<lambda>x. tk_status x = tk_status t \<and> tk_pendingFollowups x = tk_pendingFollowups t"
  have m: "map (\<lambda>x. if tk_id x = tk_id t \<and> ?P x then followed_up ?u x else x) (tickets_of db) =
      map (\<lambda>x. if x = t then followed_up ?u t else x) (tickets_of db)" "filter (\<lambda>x. tk_id x = tk_id t \<and> ?P x) (tickets_of db) \<noteq> []"
    by (rule map_single_row [OF assms(1,2), of ?P]; simp)+
  obtain y ys where y: "filter (\<lambda>x. tk_id x = tk_id t \<and> tk_status x = tk_status t \<and> tk_pendingFollowups x = tk_pendingFollowups t) (tickets_of db) = y # ys"
    using m(2) by (auto simp: neq_Nil_conv)
  have "res = Inr True \<and> tickets_of db' = map (\<lambda>x. if x = t then followed_up ?u t else x) (tickets_of db) \<and> same_tables db db'"
    using assms(3) True m(1) by (auto simp: pending_step_def follow_up_pending_def sql_update_def y same_tables_def Let_def)
  then show ?thesis using True by (intro disjI2 exI [of _ "followed_up ?u t"]) (simp add: pending_after_def followed_up_def)
next
  case False
  show ?thesis
  proof (cases res)
    case (Inl e)
    then show ?thesis using assms(3) False by (auto simp: pending_step_def Let_def follow_up_pending_def split: sum.splits list.splits prod.splits)
  next
    case (Inr b)
    then obtain to where r: "resolve_pending elapsed sched (uuid t) now t to db = Inr (db', b)"
      using assms(3) False by (auto simp: pending_step_def split: sum.splits)
    let ?f = "auto_resolved now to (tk_pendingFollowups t)"
    let ?P = "\<lambda>x. tk_status x = tk_status t"
    have m: "map (\<lambda>x. if tk_id x = tk_id t \<and> ?P x then ?f x else x) (tickets_of db) =
        map (\<lambda>x. if x = t then ?f t else x) (tickets_of db)" "filter (\<lambda>x. tk_id x = tk_id t \<and> ?P x) (tickets_of db) \<noteq> []"
      by (rule map_single_row [OF assms(1,2), of ?P]; simp)+
    obtain y ys where y: "filter (\<lambda>x. tk_id x = tk_id t \<and> tk_status x = tk_status t) (tickets_of db) = y # ys"
      using m(2) by (auto simp: neq_Nil_conv)
    have "b \<and> tickets_of db' = map (\<lambda>x. if x = t then ?f t else x) (tickets_of db) \<and> same_tables db db'"
      using r m(1) by (auto simp: resolve_pending_def sql_update_def y same_tables_def Let_def move_watches_keeps)
    then show ?thesis using False Inr by (intro disjI2 exI [of _ "?f t"]) (simp add: pending_after_def auto_resolved_def)
  qed
qed

text \<open>The tickets of a list of due ones are rows of the table, each with its reason, and no two are the same.\<close>

definition due_rows :: "desk_db \<Rightarrow> (ticket \<times> pending_reason) list \<Rightarrow> bool" where
  "due_rows db l \<longleftrightarrow> distinct (map (tk_id \<circ> fst) l) \<and>
     (\<forall>(t, r)\<in>set l. t \<in> set (tickets_of db) \<and> tk_pendingUntil t \<noteq> None \<and> reason_of db t = Some r)"

lemma due_rows_step:
  assumes "due_rows db ((t, r) # l)" and "tickets_of db' = map (\<lambda>x. if x = t then t' else x) (tickets_of db)"
    and "tk_id t' = tk_id t" and "same_tables db db'"
  shows "due_rows db' l" "t' \<notin> fst ` set l" "t \<notin> fst ` set l" "t' \<in> set (tickets_of db')"
    "map tk_id (tickets_of db') = map tk_id (tickets_of db)"
proof -
  have n: "tk_id u \<noteq> tk_id t" if "(u, q) \<in> set l" for u q using assms(1) that by (force simp: due_rows_def)
  show "t' \<notin> fst ` set l" "t \<notin> fst ` set l" using n assms(3) by fastforce+
  show "map tk_id (tickets_of db') = map tk_id (tickets_of db)" using assms(2,3) by simp
  show "t' \<in> set (tickets_of db')" using assms(1,2) by (auto simp: due_rows_def)
  have "u \<in> set (tickets_of db') \<and> tk_pendingUntil u \<noteq> None \<and> reason_of db' u = Some q" if "(u, q) \<in> set l" for u q
  proof -
    have "u \<in> set (tickets_of db) \<and> tk_pendingUntil u \<noteq> None \<and> reason_of db u = Some q"
      using assms(1) that by (fastforce simp: due_rows_def)
    moreover have "u \<noteq> t" using n [OF that] by auto
    ultimately show ?thesis by (auto simp: assms(2) same_tables_cong [OF assms(4)])
  qed
  then show "due_rows db' l" using assms(1) by (auto simp: due_rows_def)
qed

lemma sweep_due_done:
  assumes "sweep_due elapsed sched uuid now (\<lambda>_ d. d) l k db = (db', Inr n)"
    and "distinct (map tk_id (tickets_of db))" and "due_rows db l"
  shows "\<exists>g. tickets_of db' = map g (tickets_of db) \<and> (\<forall>(t, r)\<in>set l. pending_after now r t (g t)) \<and>
    (\<forall>x\<in>set (tickets_of db). x \<notin> fst ` set l \<longrightarrow> g x = x) \<and> n = k + length l \<and> same_tables db db'"
  using assms
proof (induction l arbitrary: k db)
  case Nil
  then show ?case by (intro exI [of _ "\<lambda>x. x"]) simp
next
  case (Cons p l)
  obtain t r where p: "p = (t, r)" by (cases p)
  have t: "t \<in> set (tickets_of db)" using Cons.prems(3) by (simp add: due_rows_def p)
  obtain db1 res1 where s: "pending_step elapsed sched uuid now (\<lambda>_ d. d) t r db = (db1, res1)"
    by (cases "pending_step elapsed sched uuid now (\<lambda>_ d. d) t r db")
  then obtain t' where t': "res1 = Inr True" "pending_after now r t t'" "same_tables db db1"
    "tickets_of db1 = map (\<lambda>x. if x = t then t' else x) (tickets_of db)"
    using pending_step_row [OF Cons.prems(2) t s] Cons.prems(1) by (auto simp: p)
  have i: "tk_id t' = tk_id t" using t'(2) by (simp add: pending_after_def)
  note d = due_rows_step [OF Cons.prems(3) [unfolded p] t'(4) i t'(3)]
  have "sweep_due elapsed sched uuid now (\<lambda>_ d. d) l (k + 1) db1 = (db', Inr n)"
    using Cons.prems(1) by (simp add: p s t'(1))
  from Cons.IH [OF this _ d(1)] Cons.prems(2) obtain g where g: "tickets_of db' = map g (tickets_of db1)"
    "\<forall>(u, q)\<in>set l. pending_after now q u (g u)" "\<forall>x\<in>set (tickets_of db1). x \<notin> fst ` set l \<longrightarrow> g x = x"
    "n = k + 1 + length l" "same_tables db1 db'"
    unfolding d(5) by blast
  let ?f = "\<lambda>x. if x = t then t' else x"
  have "pending_after now q u (g (?f u))" if "(u, q) \<in> set (p # l)" for u q
  proof (cases "u = t")
    case True
    then have "q = r" using that d(3) by (force simp: p)
    then show ?thesis using True g(3) d(2,4) t'(2) by simp
  next
    case False
    then show ?thesis using that g(2) by (auto simp: p)
  qed
  moreover have "g (?f x) = x" if "x \<in> set (tickets_of db)" "x \<notin> fst ` set (p # l)" for x
    using that g(3) by (auto simp: p t'(4))
  ultimately show ?case using g(1,4,5) t'(3,4) by (intro exI [of _ "g \<circ> ?f"]) (auto intro: same_tables_trans)
qed

lemma pending_due_set:
  "set (pending_due db now) = {(t, r). t \<in> set (tickets_of db) \<and> is_due db now t \<and> reason_of db t = Some r}"
  by (auto simp: pending_due_def set_map_filter_iff split: if_splits)

lemma pending_due_ids:
  assumes "distinct (map tk_id (tickets_of db))"
  shows "distinct (map (tk_id \<circ> fst) (pending_due db now))"
proof -
  let ?f = "\<lambda>t. if is_due db now t then map_option (\<lambda>r. (t, r)) (reason_of db t) else None"
  have "map (tk_id \<circ> fst) (List.map_filter ?f ts) = map tk_id (filter (\<lambda>t. is_due db now t \<and> reason_of db t \<noteq> None) ts)" for ts
    by (induction ts) (auto simp: map_filter_simps split: option.split)
  then have d: "distinct (map (tk_id \<circ> fst) (List.map_filter ?f (tickets_of db)))" using assms by (simp only: distinct_map_filter)
  have "mset (map (tk_id \<circ> fst) (pending_due db now)) = mset (map (tk_id \<circ> fst) (List.map_filter ?f (tickets_of db)))"
    unfolding pending_due_def mset_map mset_js_sort ..
  from mset_eq_imp_distinct_iff [OF this] d show ?thesis by blast
qed

lemma pending_due_rows:
  assumes "distinct (map tk_id (tickets_of db))"
  shows "due_rows db (take n (pending_due db now))"
proof -
  have "distinct (map (tk_id \<circ> fst) (take n (pending_due db now)))"
    unfolding take_map [symmetric] by (rule distinct_take [OF pending_due_ids [OF assms]])
  moreover have "t \<in> set (tickets_of db) \<and> tk_pendingUntil t \<noteq> None \<and> reason_of db t = Some r"
    if "(t, r) \<in> set (take n (pending_due db now))" for t r
    using in_set_takeD [OF that] by (auto simp: pending_due_set is_due_def split: option.splits)
  ultimately show ?thesis unfolding due_rows_def by auto
qed

text \<open>
  C15. Where a sweep of the pending tickets succeeds and its limit is not reached, it has dealt with every ticket that was due,
  each exactly once, and none is due any more at that time: every one of them is resolved or waits for a later slot. Tickets
  that were not due are as they were.
\<close>

theorem sweepPending_settles:
  assumes "sweepPending elapsed sched uuid (\<lambda>_ d. d) now limit db = (db', Inr n)"
    and "distinct (map tk_id (tickets_of db))" and "\<forall>r\<in>set (dk_reasons db). 0 < pr_followupFrequencyMinutes r"
    and "length (pending_due db now) \<le> clamp_limit 1000 limit"
  shows "pending_due db' now = [] \<and> n = length (pending_due db now) \<and>
    (\<forall>t\<in>set (tickets_of db). t \<notin> fst ` set (pending_due db now) \<longrightarrow> t \<in> set (tickets_of db'))"
proof -
  let ?l = "pending_due db now"
  have l: "due_rows db ?l" using pending_due_rows [OF assms(2), where n = "length ?l" and now = now] by (simp only: take_all order_refl)
  have s: "sweep_due elapsed sched uuid now (\<lambda>_ d. d) ?l 0 db = (db', Inr n)" using assms(1,4) by (simp add: sweepPending_def)
  obtain g where g: "tickets_of db' = map g (tickets_of db)" "\<And>t r. (t, r) \<in> set ?l \<Longrightarrow> pending_after now r t (g t)"
    "\<And>x. x \<in> set (tickets_of db) \<Longrightarrow> x \<notin> fst ` set ?l \<Longrightarrow> g x = x" "n = 0 + length ?l" "same_tables db db'"
    using sweep_due_done [OF s assms(2) l] by blast
  have "\<not> (is_due db now (g t) \<and> reason_of db (g t) \<noteq> None)" if t: "t \<in> set (tickets_of db)" for t
  proof (cases "t \<in> fst ` set ?l")
    case True
    then obtain r where r: "(t, r) \<in> set ?l" by auto
    then have d: "is_due db now t" "reason_of db t = Some r" by (simp_all add: pending_due_set)
    then obtain u where u: "tk_pendingUntil t = Some u" "u \<le> now" by (auto simp: is_due_def split: option.splits)
    have "0 < pr_followupFrequencyMinutes r"
      using d(2) assms(3) by (auto simp: reason_of_def bind_eq_Some_conv dest!: first_row_SomeD)
    then have "now < next_slot now u (pr_followupFrequencyMinutes r)"
      unfolding next_slot_def Let_def nextPendingFollowupAt_def using ceil_div_bounds(1) by (smt (verit))
    then show ?thesis using g(2) [OF r] u by (auto simp: pending_after_def is_due_def followed_up_def split: if_splits)
  next
    case False
    then have "g t = t" using g(3) [OF t] by simp
    moreover have "reason_of db t = None" if "is_due db now t"
    proof (rule ccontr)
      assume "reason_of db t \<noteq> None"
      then have "t \<in> fst ` set ?l" using t that by (force simp: pending_due_set)
      with False show False by contradiction
    qed
    ultimately show ?thesis by auto
  qed
  then have "set (pending_due db' now) = {}"
    unfolding pending_due_set g(1) by (auto simp: same_tables_cong [OF g(5)])
  then show ?thesis using g(1,3,4) by force
qed

text \<open>The steps that are left: for each waiting ticket the reminders its reason still allows and the resolution.\<close>

definition steps_left :: "desk_db \<Rightarrow> ticket \<Rightarrow> nat" where
  "steps_left db t = (case reason_of db t of None \<Rightarrow> 0
     | Some r \<Rightarrow> if tk_pendingUntil t = None then 0 else nat (pr_followupsBeforeResolution r - tk_pendingFollowups t) + 1)"

definition pending_budget :: "desk_db \<Rightarrow> nat" where
  "pending_budget db = sum_list (map (steps_left db) (tickets_of db))"

lemma sum_list_one_row:
  "distinct ts \<Longrightarrow> t \<in> set ts \<Longrightarrow>
     sum_list (map p (map (\<lambda>x. if x = t then t' else x) ts)) + p t = sum_list (map p ts) + (p t' :: nat)"
proof (induction ts)
  case (Cons y ys)
  show ?case
  proof (cases "y = t")
    case True
    then have "map (\<lambda>x. if x = t then t' else x) ys = ys" using Cons.prems(1) by (intro map_idI) auto
    then show ?thesis using True by simp
  next
    case False
    then show ?thesis using Cons by (auto simp: algebra_simps)
  qed
qed simp

lemma steps_left_after:
  assumes "pending_after now r t t'" and "reason_of db t = Some r" and "tk_pendingUntil t \<noteq> None"
  shows "steps_left db t' < steps_left db t"
proof (cases "tk_pendingFollowups t < pr_followupsBeforeResolution r")
  case True
  then have t': "t' = followed_up (next_slot now (case tk_pendingUntil t of None \<Rightarrow> now | Some u \<Rightarrow> u) (pr_followupFrequencyMinutes r)) t"
    using assms(1) by (simp add: pending_after_def)
  have "reason_of db t' = Some r" using assms(2) by (simp add: t' followed_up_def reason_of_def)
  then show ?thesis using assms(2,3) True by (simp add: steps_left_def t' followed_up_def)
next
  case False
  then show ?thesis using assms by (simp add: pending_after_def steps_left_def split: option.split)
qed

lemma sweep_due_budget:
  assumes "sweep_due elapsed sched uuid now (\<lambda>_ d. d) l k db = (db', res)"
    and "distinct (map tk_id (tickets_of db))" and "due_rows db l"
  shows "pending_budget db' + (case res of Inl _ \<Rightarrow> 0 | Inr n \<Rightarrow> n - k) \<le> pending_budget db \<and> (\<forall>n. res = Inr n \<longrightarrow> k \<le> n) \<and>
    map tk_id (tickets_of db') = map tk_id (tickets_of db)"
  using assms
proof (induction l arbitrary: k db)
  case Nil
  then show ?case by auto
next
  case (Cons p l)
  obtain t r where p: "p = (t, r)" by (cases p)
  have t: "t \<in> set (tickets_of db)" "reason_of db t = Some r" "tk_pendingUntil t \<noteq> None"
    using Cons.prems(3) by (simp_all add: due_rows_def p)
  obtain db1 res1 where s: "pending_step elapsed sched uuid now (\<lambda>_ d. d) t r db = (db1, res1)"
    by (cases "pending_step elapsed sched uuid now (\<lambda>_ d. d) t r db")
  from pending_step_row [OF Cons.prems(2) t(1) s] show ?case
  proof (elim disjE exE conjE)
    fix e assume "res1 = Inl e" "db1 = db"
    then show ?case using Cons.prems(1) by (auto simp: p s)
  next
    fix t' assume t': "res1 = Inr True" "pending_after now r t t'" "same_tables db db1"
      "tickets_of db1 = map (\<lambda>x. if x = t then t' else x) (tickets_of db)"
    have i: "tk_id t' = tk_id t" using t'(2) by (simp add: pending_after_def)
    note d = due_rows_step [OF Cons.prems(3) [unfolded p] t'(4) i t'(3)]
    have "sweep_due elapsed sched uuid now (\<lambda>_ d. d) l (k + 1) db1 = (db', res)"
      using Cons.prems(1) by (simp add: p s t'(1))
    note IH = Cons.IH [OF this _ d(1), unfolded d(5), OF Cons.prems(2)]
    have "steps_left db1 = steps_left db" by (simp add: fun_eq_iff steps_left_def same_tables_cong [OF t'(3)])
    then have "pending_budget db1 + steps_left db t = pending_budget db + steps_left db t'"
      using sum_list_one_row [of "tickets_of db" t "steps_left db" t'] Cons.prems(2) t(1)
      by (simp add: pending_budget_def t'(4) distinct_map)
    then have "pending_budget db1 < pending_budget db" using steps_left_after [OF t'(2) t(2,3)] by linarith
    then show ?case using IH by (auto split: sum.splits)
  qed
qed

fun run_pending_sweeps ::
  "elapsed_fn \<Rightarrow> schedule \<Rightarrow> (ticket \<Rightarrow> desk_id \<Rightarrow> string) \<Rightarrow> (ms \<times> int) list \<Rightarrow> desk_db \<Rightarrow> desk_db \<times> nat" where
  "run_pending_sweeps elapsed sched uuid [] db = (db, 0)"
| "run_pending_sweeps elapsed sched uuid ((now, limit) # rest) db =
     (case sweepPending elapsed sched uuid (\<lambda>_ d. d) now limit db of
        (db1, res) \<Rightarrow> (case run_pending_sweeps elapsed sched uuid rest db1 of
          (db2, n) \<Rightarrow> (db2, (case res of Inl _ \<Rightarrow> 0 | Inr m \<Rightarrow> m) + n)))"


section \<open>A sweep that cannot go on\<close>

interpretation due_order: js_order due_compare
proof -
  have "js_order (\<lambda>a b. code_unit_compare (tk_id (fst a)) (tk_id (fst b)))"
    by (rule js_order_on [OF code_units.js_order_axioms, where f = "\<lambda>a. tk_id (fst a)"])
  then show "js_order due_compare" unfolding due_compare_def [abs_def] by (rule js_order_int_key)
qed

text \<open>The ticket that has waited longest stays the first one as time goes by.\<close>

lemma pending_due_head:
  assumes "distinct (map tk_id (tickets_of db))" and "pending_due db now = (t, r) # rest" and "now \<le> now'"
  shows "\<exists>rest'. pending_due db now' = (t, r) # rest'"
proof -
  have t: "t \<in> set (tickets_of db)" "is_due db now t" "reason_of db t = Some r"
    using assms(2) pending_due_set [of db now] by auto
  obtain u where u: "tk_pendingUntil t = Some u" "u \<le> now" using t(2) by (auto simp: is_due_def split: option.splits)
  have "is_due db now' t" using t(2) u assms(3) by (simp add: is_due_def)
  then have m: "(t, r) \<in> set (pending_due db now')" using t by (simp add: pending_due_set)
  then obtain y ys where y: "pending_due db now' = y # ys" by (cases "pending_due db now'") auto
  then have "y \<in> set (pending_due db now')" by simp
  then have y': "fst y \<in> set (tickets_of db)" "is_due db now' (fst y)" "reason_of db (fst y) = Some (snd y)"
    by (auto simp: pending_due_set)
  have 1: "due_compare y (t, r) \<le> 0"
    by (rule due_order.js_sort_head_least [OF y [unfolded pending_due_def]]) (use m in \<open>simp add: pending_due_def\<close>)
  have 2: "due_compare (t, r) y \<le> 0"
  proof (cases "is_due db now (fst y)")
    case True
    then have "y \<in> set (pending_due db now)" using y' by (cases y) (simp add: pending_due_set)
    then show ?thesis
      by (intro due_order.js_sort_head_least [OF assms(2) [unfolded pending_due_def]]) (simp add: pending_due_def)
  next
    case False
    then obtain v where "tk_pendingUntil (fst y) = Some v" "now < v"
      using y'(2) by (auto simp: is_due_def not_le split: option.splits)
    then show ?thesis using u by (simp add: due_compare_def cmp_then_def)
  qed
  have "due_compare (t, r) y = 0" using 1 2 due_order.cmp_sym [of y "(t, r)"] by linarith
  then have "code_unit_compare (tk_id t) (tk_id (fst y)) = 0" by (simp add: due_compare_def cmp_then_def split: if_splits)
  then have "tk_id t = tk_id (fst y)" by (rule code_unit_compare_zero)
  then have "fst y = t" using y'(1) t(1) assms(1) by (metis distinct_map inj_onD)
  then have "y = (t, r)" using y'(3) t(3) by (cases y) simp
  with y show ?thesis by blast
qed

text \<open>
  One ticket can hold up all the others: where the follow-ups of the ticket that has waited longest are used up and its
  status has no configured resolution, the sweep throws before it has written anything, and so does every later sweep, since
  that ticket stays the first. No reminder is sent and no ticket resolved any more.
\<close>

theorem sweepPending_blocked:
  assumes "distinct (map tk_id (tickets_of db))" and "pending_due db now = (t, r) # rest" and "now \<le> now'"
    and "pr_followupsBeforeResolution r \<le> tk_pendingFollowups t" and "findTicketTransition (dk_moves db) (tk_status t) ''resolve'' = None"
  shows "\<exists>message. sweepPending elapsed sched uuid meanwhile now' limit db = (db, Inl (Conflict message))"
proof -
  obtain rest' where h: "pending_due db now' = (t, r) # rest'" using pending_due_head [OF assms(1-3)] by blast
  have "1 \<le> clamp_limit 1000 limit" using clamp_limit_bounds [of 1000 limit] by simp
  then obtain k where "clamp_limit 1000 limit = Suc k" by (cases "clamp_limit 1000 limit") auto
  then show ?thesis using assms(4,5) by (simp add: sweepPending_def h pending_step_def resolveTicketStatus_def)
qed

section \<open>Witnesses\<close>

definition waiting_ticket :: ticket where
  "waiting_ticket = sample_ticket\<lparr>tk_status := ''pending'', tk_pendingReasonId := Some ''info'', tk_pendingUntil := Some 0\<rparr>"

definition waiting_desk :: desk_db where
  "waiting_desk = set_tickets [waiting_ticket, waiting_ticket\<lparr>tk_id := ''t2'', tk_pendingFollowups := 2\<rparr>] sample_desk"

lemma waiting_desk_ids: "distinct (map tk_id (tickets_of waiting_desk))"
  by (simp add: waiting_desk_def waiting_ticket_def sample_ticket_def)

theorem sweepPending_settles_witness:
  "\<exists>db'. sweepPending (\<lambda>_ _ _. Inr 0) alone (\<lambda>_. sample_did ''1'') (\<lambda>_ d. d) 5000000 100 waiting_desk = (db', Inr 2) \<and>
     pending_due db' 5000000 = []"
proof -
  let ?s = "sweepPending (\<lambda>_ _ _. Inr 0) alone (\<lambda>_. sample_did ''1'') (\<lambda>_ d. d) 5000000 100 waiting_desk"
  have "snd ?s = Inr 2" by code_simp
  then obtain db' where s: "?s = (db', Inr 2)" by (cases ?s) auto
  have l: "length (pending_due waiting_desk 5000000) = 2" by code_simp
  have "\<forall>r\<in>set (dk_reasons waiting_desk). 0 < pr_followupFrequencyMinutes r"
    by (simp add: waiting_desk_def sample_desk_def set_tickets_def)
  from sweepPending_settles [OF s waiting_desk_ids this] s l show ?thesis by (simp add: clamp_limit_def)
qed


definition stuck_desk :: desk_db where
  "stuck_desk = (set_tickets [waiting_ticket\<lparr>tk_pendingFollowups := 2\<rparr>] sample_desk)\<lparr>dk_moves := []\<rparr>"

theorem sweepPending_blocked_witness:
  "\<exists>message. sweepPending (\<lambda>_ _ _. Inr 0) alone (\<lambda>_. sample_did ''1'') (\<lambda>_ d. d) 9000000 100 stuck_desk =
     (stuck_desk, Inl (Conflict message))"
proof -
  have t: "tickets_of stuck_desk = [waiting_ticket\<lparr>tk_pendingFollowups := 2\<rparr>]"
    by (simp add: stuck_desk_def tickets_of_def set_tickets_def)
  have i: "distinct (map tk_id (tickets_of stuck_desk))" by (simp add: t)
  have "map (\<lambda>(t, r). (tk_id t, pr_followupsBeforeResolution r)) (pending_due stuck_desk 0) = [(''t1'', 2)]" by code_simp
  then obtain t r where h: "pending_due stuck_desk 0 = (t, r) # []" "pr_followupsBeforeResolution r = 2"
    by (auto simp: map_eq_Cons_conv)
  then have "t \<in> set (tickets_of stuck_desk)" using pending_due_set [of stuck_desk 0] by auto
  then have "t = waiting_ticket\<lparr>tk_pendingFollowups := 2\<rparr>" by (simp add: t)
  then show ?thesis
    by (intro sweepPending_blocked [OF i h(1)])
      (simp_all add: h(2) stuck_desk_def findTicketTransition_def first_row_def)
qed

end
