(* ===== verification/DeskHistory.thy ===== *)
theory DeskHistory
  imports Pending
begin

text \<open>
  The life of the tickets under any sequence of the requests of \<open>TicketFlow\<close> and sweeps of \<open>Pending\<close>, served one after the
  other: what is kept from each database to the next, and the properties of whole histories that follow from it.
\<close>

section \<open>Requests\<close>

datatype desk_request =
    Rq_update string update_action
  | Rq_reporter_message string string
  | Rq_staff_message string string visibility
  | Rq_csat string int "string option"
  | Rq_link string string string
  | Rq_unlink string
  | Rq_merge string string
  | Rq_unmerge string
  | Rq_time string int string
  | Rq_heartbeat string
  | Rq_presence string
  | Rq_fields string js_object
  | Rq_sweep_pending int

text \<open>A request comes at a time, from a user, and draws its own ids.\<close>

record served =
  sq_now :: ms
  sq_context :: user_context
  sq_uuid :: "string \<Rightarrow> desk_id \<Rightarrow> string"
  sq_request :: desk_request

definition outcome :: "desk_db \<Rightarrow> ('e + desk_db) \<Rightarrow> desk_db \<times> bool" where
  "outcome db r = (case r of Inl _ \<Rightarrow> (db, False) | Inr db' \<Rightarrow> (db', True))"

definition serve :: "elapsed_fn \<Rightarrow> schedule \<Rightarrow> (string \<Rightarrow> js_date) \<Rightarrow> served \<Rightarrow> desk_db \<Rightarrow> desk_db \<times> bool" where
  "serve elapsed sched date_parse q db =
     (let now = sq_now q; context = sq_context q; uuid = sq_uuid q []
      in case sq_request q of
           Rq_update i action \<Rightarrow> map_prod id (\<lambda>r. \<not> isl r) (updateTicket elapsed sched uuid now (\<lambda>d. d) context i action db)
         | Rq_reporter_message i body \<Rightarrow> map_prod id (\<lambda>r. \<not> isl r) (addMyTicketMessage elapsed sched uuid now (\<lambda>d. d) context i body db)
         | Rq_staff_message i body vis \<Rightarrow> outcome db (map_sum id fst (addTicketMessage uuid now context i body vis db))
         | Rq_csat token rating remark \<Rightarrow> outcome db (submitTicketCsat now context token rating remark db)
         | Rq_link a b kind \<Rightarrow> outcome db (map_sum id fst (linkTickets uuid now context a b kind db))
         | Rq_unlink i \<Rightarrow> outcome db (map_sum id fst (unlinkTickets context i db))
         | Rq_merge a b \<Rightarrow> outcome db (mergeTickets uuid now (\<lambda>d. d) context a b db)
         | Rq_unmerge a \<Rightarrow> outcome db (unmergeTicket now context a db)
         | Rq_time i minutes note \<Rightarrow> outcome db (map_sum id fst (addTicketTimeEntry now context i minutes note db))
         | Rq_heartbeat i \<Rightarrow> outcome db (map_sum id fst (heartbeatTicketPresence now context i db))
         | Rq_presence i \<Rightarrow> outcome db (map_sum id fst (listTicketPresence now context i db))
         | Rq_fields i vs \<Rightarrow> outcome db (map_sum id fst (setTicketDynamicFields date_parse context i vs db))
         | Rq_sweep_pending limit \<Rightarrow> map_prod id (\<lambda>r. \<not> isl r)
             (sweepPending elapsed sched (\<lambda>t. sq_uuid q (tk_id t)) (\<lambda>_ d. d) now limit db))"

fun serve_all :: "elapsed_fn \<Rightarrow> schedule \<Rightarrow> (string \<Rightarrow> js_date) \<Rightarrow> served list \<Rightarrow> desk_db \<Rightarrow> desk_db \<times> bool list" where
  "serve_all elapsed sched date_parse [] db = (db, [])"
| "serve_all elapsed sched date_parse (q # qs) db =
     (case serve elapsed sched date_parse q db of
        (db1, done1) \<Rightarrow> (case serve_all elapsed sched date_parse qs db1 of (db2, rest) \<Rightarrow> (db2, done1 # rest)))"

section \<open>What is kept from one database to the next\<close>

text \<open>A list of history rows that leads from one status to another, each beginning where the one before ended.\<close>

fun status_path :: "ticket_status \<Rightarrow> transition_row list \<Rightarrow> ticket_status \<Rightarrow> bool" where
  "status_path s [] s' = (s = s')"
| "status_path s (r # rs) s' = (tr_fromStatus r = s \<and> status_path (tr_toStatus r) rs s')"

definition configured :: "desk_db \<Rightarrow> transition_row \<Rightarrow> bool" where
  "configured db r \<longleftrightarrow> (\<exists>m\<in>set (dk_moves db). st_fromStatus m = tr_fromStatus r \<and> st_action m = tr_action r \<and> st_toStatus m = tr_toStatus r)"

definition rows_of :: "string \<Rightarrow> transition_row list \<Rightarrow> transition_row list" where
  "rows_of i rows = filter (\<lambda>r. tr_ticketId r = i) rows"

definition carries :: "transition_row list \<Rightarrow> ticket \<Rightarrow> ticket \<Rightarrow> bool" where
  "carries new t t' \<longleftrightarrow> tk_id t' = tk_id t \<and> status_path (tk_status t) (rows_of (tk_id t) new) (tk_status t') \<and>
     (tk_reopenedAt t \<noteq> None \<longrightarrow> tk_reopenedAt t' \<noteq> None)"

definition advances :: "desk_db \<Rightarrow> desk_db \<Rightarrow> bool" where
  "advances db db' \<longleftrightarrow> dk_moves db' = dk_moves db \<and> map tk_id (tickets_of db') = map tk_id (tickets_of db) \<and>
     (\<forall>c\<in>set (dk_csat db). cs_respondedAt c \<noteq> None \<longrightarrow> c \<in> set (dk_csat db')) \<and>
     (\<exists>new. dk_transitions db' = dk_transitions db @ new \<and> (\<forall>r\<in>set new. configured db r) \<and>
       (\<forall>t\<in>set (tickets_of db). \<exists>t'\<in>set (tickets_of db'). carries new t t'))"

lemma status_path_append: "status_path a xs b \<Longrightarrow> status_path b ys c \<Longrightarrow> status_path a (xs @ ys) c"
  by (induction xs arbitrary: a) auto

lemma rows_of_append [simp]: "rows_of i (xs @ ys) = rows_of i xs @ rows_of i ys"
  by (simp add: rows_of_def)

lemma carries_trans: "carries xs a b \<Longrightarrow> carries ys b c \<Longrightarrow> carries (xs @ ys) a c"
  by (auto simp: carries_def intro: status_path_append)

lemma advances_trans:
  assumes "advances a b" and "advances b c"
  shows "advances a c"
proof -
  obtain xs where x: "dk_transitions b = dk_transitions a @ xs" "\<forall>r\<in>set xs. configured a r"
    "\<forall>t\<in>set (tickets_of a). \<exists>t'\<in>set (tickets_of b). carries xs t t'"
    using assms(1) unfolding advances_def by blast
  obtain ys where y: "dk_transitions c = dk_transitions b @ ys" "\<forall>r\<in>set ys. configured b r"
    "\<forall>t\<in>set (tickets_of b). \<exists>t'\<in>set (tickets_of c). carries ys t t'"
    using assms(2) unfolding advances_def by blast
  have m: "dk_moves b = dk_moves a" using assms(1) by (simp add: advances_def)
  have "\<forall>t\<in>set (tickets_of a). \<exists>t'\<in>set (tickets_of c). carries (xs @ ys) t t'"
    using x(3) y(3) by (meson carries_trans)
  moreover have "\<forall>r\<in>set (xs @ ys). configured a r" using x(2) y(2) m by (auto simp: configured_def)
  ultimately show ?thesis
    using assms x(1) y(1) by (auto simp: advances_def intro!: exI [of _ "xs @ ys"])
qed

lemma advances_same:
  assumes "dk_moves db' = dk_moves db" and "tickets_of db' = map f (tickets_of db)" and "dk_transitions db' = dk_transitions db"
    and "\<And>c. c \<in> set (dk_csat db) \<Longrightarrow> cs_respondedAt c \<noteq> None \<Longrightarrow> c \<in> set (dk_csat db')"
    and "\<And>t. tk_id (f t) = tk_id t" and "\<And>t. tk_status (f t) = tk_status t" and "\<And>t. tk_reopenedAt (f t) = tk_reopenedAt t"
  shows "advances db db'"
  unfolding advances_def using assms by (auto simp: carries_def rows_of_def intro!: exI [of _ "[]"])

lemma advances_refl [simp]: "advances db db"
  by (rule advances_same [where f = "\<lambda>t. t"]) simp_all

text \<open>The one way in which a status changes: the row of an id is hit, and the history gets a row that says so.\<close>

lemma advances_write:
  assumes "distinct (map tk_id (tickets_of db))" and "filter (\<lambda>x. tk_id x = i \<and> tk_status x = s) (tickets_of db) \<noteq> []"
    and "tickets_of db' = map (\<lambda>x. if tk_id x = i \<and> tk_status x = s then g x else x) (tickets_of db)"
    and "\<And>x. tk_id (g x) = tk_id x" and "\<And>x. tk_status (g x) = to"
    and "\<And>x. x \<in> set (tickets_of db) \<Longrightarrow> tk_id x = i \<Longrightarrow> tk_reopenedAt x \<noteq> None \<Longrightarrow> tk_reopenedAt (g x) \<noteq> None"
    and "dk_transitions db' = dk_transitions db @ new"
    and "new = [] \<and> to = s \<or> (\<exists>r. new = [r] \<and> tr_ticketId r = i \<and> tr_fromStatus r = s \<and> tr_toStatus r = to \<and> configured db r)"
    and "dk_moves db' = dk_moves db"
    and "\<And>c. c \<in> set (dk_csat db) \<Longrightarrow> cs_respondedAt c \<noteq> None \<Longrightarrow> c \<in> set (dk_csat db')"
  shows "advances db db'"
proof -
  let ?f = "\<lambda>x. if tk_id x = i \<and> tk_status x = s then g x else x"
  obtain h where h: "h \<in> set (tickets_of db)" "tk_id h = i" "tk_status h = s" using assms(2) by (auto simp: filter_empty_conv)
  have "carries new t (?f t)" if t: "t \<in> set (tickets_of db)" for t
  proof (cases "tk_id t = i")
    case True
    then have "t = h" using t h assms(1) by (metis distinct_map inj_onD)
    moreover have "status_path s (rows_of i new) to" using assms(8) by (auto simp: rows_of_def)
    ultimately show ?thesis using h assms(4,5,6) by (auto simp: carries_def)
  next
    case False
    then have "rows_of (tk_id t) new = []" using assms(8) by (auto simp: rows_of_def)
    then show ?thesis using False by (simp add: carries_def)
  qed
  moreover have "?f t \<in> set (tickets_of db')" if "t \<in> set (tickets_of db)" for t
    unfolding assms(3) set_map using that by (rule imageI)
  ultimately have c: "\<forall>t\<in>set (tickets_of db). \<exists>t'\<in>set (tickets_of db'). carries new t t'" by blast
  have m: "map tk_id (tickets_of db') = map tk_id (tickets_of db)" by (simp add: assms(3,4))
  have r: "\<forall>r\<in>set new. configured db r" using assms(8) by auto
  show ?thesis unfolding advances_def
    by (intro conjI exI [of _ new] assms(7,9) c m r ballI impI assms(10))
qed

section \<open>Every request advances\<close>

lemma updateTicket_advances:
  assumes "distinct (map tk_id (tickets_of db))"
  shows "advances db (fst (updateTicket elapsed sched uuid now (\<lambda>d. d) context i action db))"
proof (cases "\<exists>t nst until db'. findTicket db i = Some t \<and> check_update now context action db t = Inr (nst, until) \<and>
    write_update elapsed sched uuid now context i action t nst until db = Inr db' \<and>
    fst (updateTicket elapsed sched uuid now (\<lambda>d. d) context i action db) = db'")
  case True
  then obtain t nst until db' where u: "findTicket db i = Some t" "check_update now context action db t = Inr (nst, until)"
    "write_update elapsed sched uuid now context i action t nst until db = Inr db'"
    "fst (updateTicket elapsed sched uuid now (\<lambda>d. d) context i action db) = db'" by blast
  note w = write_update_Inr [OF u(3)]
  note t = findTicket_SomeD [OF u(1)]
  let ?new = "if nst \<noteq> tk_status t then [history_row uuid now context i action (tk_status t) nst] else []"
  have "advances db db'"
  proof (rule advances_write [where i = i and s = "tk_status t" and g = "updated_row now action t nst until" and new = ?new])
    show "tickets_of db' = map (\<lambda>x. if tk_id x = i \<and> tk_status x = tk_status t then updated_row now action t nst until x else x) (tickets_of db)"
      using w(1) by (simp add: update_hits_def)
    show "?new = [] \<and> nst = tk_status t \<or> (\<exists>r. ?new = [r] \<and> tr_ticketId r = i \<and> tr_fromStatus r = tk_status t \<and> tr_toStatus r = nst \<and> configured db r)"
      using check_update_Inr(2) [OF u(2)] by (auto simp: history_row_def configured_def)
    fix x assume x: "x \<in> set (tickets_of db)" "tk_id x = i" "tk_reopenedAt x \<noteq> None"
    then have "x = t" using t assms by (metis distinct_map inj_onD)
    then show "tk_reopenedAt (updated_row now action t nst until x) \<noteq> None" using x(3) by (simp add: updated_row_def)
  next
    show "dk_moves db' = dk_moves db" using u(3) by (rule write_update_moves)
  qed (use assms t w(3,5) in \<open>auto simp: filter_empty_conv\<close>)
  then show ?thesis by (simp add: u(4))
next
  case False
  then have "fst (updateTicket elapsed sched uuid now (\<lambda>d. d) context i action db) = db"
    by (auto simp: updateTicket_def split: option.splits sum.splits prod.splits)
  then show ?thesis by simp
qed

lemma resolve_configured:
  "resolveTicketStatus (dk_moves db) s a = Inr to \<Longrightarrow> \<exists>m\<in>set (dk_moves db). st_fromStatus m = s \<and> st_action m = a \<and> st_toStatus m = to"
  by (auto simp: resolveTicketStatus_def findTicketTransition_def split: option.splits dest!: first_row_SomeD)

lemma reporter_message_advances:
  assumes "distinct (map tk_id (tickets_of db))" and "write_reporter_message elapsed sched uuid now context i body s unpend db = Inr (db', row)"
    and "\<And>to. unpend = Some to \<Longrightarrow> resolveTicketStatus (dk_moves db) s ''unpend'' = Inr to"
  shows "advances db db'"
proof (cases "\<exists>to. unpend = Some to \<and> filter (\<lambda>x. tk_id x = i \<and> tk_status x = s) (tickets_of db) \<noteq> []")
  case True
  then obtain to y ys where to: "unpend = Some to" and y: "filter (\<lambda>x. tk_id x = i \<and> tk_status x = s) (tickets_of db) = y # ys"
    by (auto simp: neq_Nil_conv)
  let ?r = "\<lparr>tr_id = uuid Did_transition, tr_ticketId = i, tr_fromStatus = s, tr_toStatus = to, tr_action = ''unpend'',
    tr_actorType = Actor_agent, tr_actorId = Some (cx_userId context), tr_createdAt = now\<rparr>"
  have w: "tickets_of db' = map (\<lambda>x. if tk_id x = i \<and> tk_status x = s then unpended_row to x else x) (tickets_of db)"
    "dk_transitions db' = dk_transitions db @ [?r]" "dk_moves db' = dk_moves db" "dk_csat db' = dk_csat db"
    using assms(2) by (auto simp: write_reporter_message_def to sql_update_def y Let_def move_watches_keeps)
  show ?thesis
    by (rule advances_write [OF assms(1) _ w(1) _ _ _ w(2) _ w(3)])
      (use resolve_configured [OF assms(3) [OF to]] y w(4) in \<open>auto simp: unpended_row_def configured_def\<close>)
next
  case False
  then have "tickets_of db' = map (\<lambda>t. t) (tickets_of db)" "dk_transitions db' = dk_transitions db" "dk_moves db' = dk_moves db"
    "dk_csat db' = dk_csat db"
    using assms(2) by (auto simp: write_reporter_message_def sql_update_def Let_def split: option.splits)
  then show ?thesis by (intro advances_same [where f = "\<lambda>t. t"]) simp_all
qed

lemma addMyTicketMessage_advances:
  assumes "distinct (map tk_id (tickets_of db))"
  shows "advances db (fst (addMyTicketMessage elapsed sched uuid now (\<lambda>d. d) context i body db))"
proof (cases "\<exists>t unpend db' row. findTicket_of db i (cx_userId context) = Some t \<and>
    (\<forall>to. unpend = Some to \<longrightarrow> resolveTicketStatus (dk_moves db) (tk_status t) ''unpend'' = Inr to) \<and>
    write_reporter_message elapsed sched uuid now context i body (tk_status t) unpend db = Inr (db', row) \<and>
    fst (addMyTicketMessage elapsed sched uuid now (\<lambda>d. d) context i body db) = db'")
  case True
  then show ?thesis using reporter_message_advances [OF assms] by metis
next
  case False
  have "fst (addMyTicketMessage elapsed sched uuid now (\<lambda>d. d) context i body db) = db"
  proof (rule ccontr)
    assume ne: "fst (addMyTicketMessage elapsed sched uuid now (\<lambda>d. d) context i body db) \<noteq> db"
    then obtain t where t: "findTicket_of db i (cx_userId context) = Some t"
      by (auto simp: addMyTicketMessage_def split: sum.splits option.splits)
    obtain unpend where u: "(if state_type_of db (tk_status t) = Some ST_pending
        then map_sum Conflict Some (resolveTicketStatus (dk_moves db) (tk_status t) ''unpend'') else Inr None) = Inr unpend"
      using ne t by (auto simp: addMyTicketMessage_def split: sum.splits option.splits if_splits)
    then have "\<forall>to. unpend = Some to \<longrightarrow> resolveTicketStatus (dk_moves db) (tk_status t) ''unpend'' = Inr to"
      by (cases "resolveTicketStatus (dk_moves db) (tk_status t) ''unpend''") (auto split: if_splits)
    with False ne t u show False
      by (cases "write_reporter_message elapsed sched uuid now context i body (tk_status t) unpend db")
        (auto simp: addMyTicketMessage_def split: sum.splits)
  qed
  then show ?thesis by simp
qed

lemma pending_step_advances:
  assumes "distinct (map tk_id (tickets_of db))" and "pending_step elapsed sched uuid now (\<lambda>_ d. d) t r db = (db', res)"
  shows "advances db db'"
proof (cases "tk_pendingFollowups t < pr_followupsBeforeResolution r")
  case True
  let ?u = "next_slot now (case tk_pendingUntil t of None \<Rightarrow> now | Some u \<Rightarrow> u) (pr_followupFrequencyMinutes r)"
  let ?f = "\<lambda>x. if tk_id x = tk_id t \<and> tk_status x = tk_status t \<and> tk_pendingFollowups x = tk_pendingFollowups t then followed_up ?u x else x"
  have "tickets_of db' = map ?f (tickets_of db) \<and> dk_transitions db' = dk_transitions db \<and> dk_moves db' = dk_moves db \<and> dk_csat db' = dk_csat db"
  proof (cases "filter (\<lambda>x. tk_id x = tk_id t \<and> tk_status x = tk_status t \<and> tk_pendingFollowups x = tk_pendingFollowups t) (tickets_of db)")
    case Nil
    then have "map ?f (tickets_of db) = tickets_of db" by (intro map_idI) (auto simp: filter_empty_conv)
    then show ?thesis using assms(2) True by (simp add: pending_step_def follow_up_pending_def sql_update_def Nil Let_def)
  next
    case (Cons y ys)
    then show ?thesis using assms(2) True by (auto simp: pending_step_def follow_up_pending_def sql_update_def Let_def)
  qed
  then show ?thesis by (intro advances_same [where f = ?f]) (auto simp: followed_up_def)
next
  case False
  show ?thesis
  proof (cases "\<exists>to. resolveTicketStatus (dk_moves db) (tk_status t) ''resolve'' = Inr to \<and>
      filter (\<lambda>x. tk_id x = tk_id t \<and> tk_status x = tk_status t) (tickets_of db) \<noteq> [] \<and> res \<notin> range Inl")
    case True
    then obtain to y ys where to: "resolveTicketStatus (dk_moves db) (tk_status t) ''resolve'' = Inr to"
      and y: "filter (\<lambda>x. tk_id x = tk_id t \<and> tk_status x = tk_status t) (tickets_of db) = y # ys"
      by (auto simp: neq_Nil_conv)
    let ?r = "\<lparr>tr_id = uuid t Did_transition, tr_ticketId = tk_id t, tr_fromStatus = tk_status t, tr_toStatus = to, tr_action = ''resolve'',
      tr_actorType = Actor_agent, tr_actorId = Some ''pending-sweep'', tr_createdAt = now\<rparr>"
    have w: "tickets_of db' = map (\<lambda>x. if tk_id x = tk_id t \<and> tk_status x = tk_status t
          then auto_resolved now to (tk_pendingFollowups t) x else x) (tickets_of db)"
      "dk_transitions db' = dk_transitions db @ [?r]" "dk_moves db' = dk_moves db" "dk_csat db' = dk_csat db"
      using assms(2) True False
      by (auto simp: pending_step_def to resolve_pending_def sql_update_def y Let_def move_watches_keeps split: sum.splits)
    show ?thesis
      by (rule advances_write [OF assms(1) _ w(1) _ _ _ w(2) _ w(3)])
        (use resolve_configured [OF to] y w(4) in \<open>auto simp: auto_resolved_def configured_def\<close>)
  next
    case none: False
    have "db' = db"
    proof (cases "resolveTicketStatus (dk_moves db) (tk_status t) ''resolve''")
      case (Inr to)
      then show ?thesis using assms(2) False none
        by (cases "filter (\<lambda>x. tk_id x = tk_id t \<and> tk_status x = tk_status t) (tickets_of db)")
          (auto simp: pending_step_def resolve_pending_def sql_update_def Let_def split: sum.splits prod.splits)
    qed (use assms(2) False in \<open>simp add: pending_step_def\<close>)
    then show ?thesis by simp
  qed
qed

lemma advances_ids: "advances db db' \<Longrightarrow> map tk_id (tickets_of db') = map tk_id (tickets_of db)"
  by (simp add: advances_def)

lemma sweep_due_advances:
  assumes "distinct (map tk_id (tickets_of db))" and "sweep_due elapsed sched uuid now (\<lambda>_ d. d) l k db = (db', res)"
  shows "advances db db'"
  using assms
proof (induction l arbitrary: k db)
  case (Cons p l)
  obtain t r where p: "p = (t, r)" by (cases p)
  obtain db1 res1 where s: "pending_step elapsed sched uuid now (\<lambda>_ d. d) t r db = (db1, res1)"
    by (cases "pending_step elapsed sched uuid now (\<lambda>_ d. d) t r db")
  have a: "advances db db1" by (rule pending_step_advances [OF Cons.prems(1) s])
  show ?case
  proof (cases res1)
    case (Inl e)
    then show ?thesis using Cons.prems(2) a by (simp add: p s)
  next
    case (Inr b)
    then have "advances db1 db'" using Cons advances_ids [OF a] by (auto simp: p s)
    with a show ?thesis by (rule advances_trans)
  qed
qed simp

text \<open>The operations that touch neither the status of a ticket nor the answers that were given.\<close>

lemma quiet_advances:
  assumes "dk_moves db' = dk_moves db" and "tickets_of db' = tickets_of db" and "dk_transitions db' = dk_transitions db"
    and "dk_csat db' = dk_csat db"
  shows "advances db db'"
  by (rule advances_same [where f = "\<lambda>t. t"]) (simp_all add: assms)

lemma staff_message_advances: "addTicketMessage uuid now context i body vis db = Inr (db', row) \<Longrightarrow> advances db db'"
  by (rule quiet_advances) (auto simp: addTicketMessage_def Let_def split: option.splits)

lemma csat_advances: "submitTicketCsat now context token rating remark db = Inr db' \<Longrightarrow> advances db db'"
  by (rule advances_same [where f = "\<lambda>t. t"])
    (auto simp: submitTicketCsat_def sql_update_def tickets_of_def split: list.splits)

lemma link_advances: "linkTickets uuid now context a b kind db = Inr (db', row) \<Longrightarrow> advances db db'"
  by (rule quiet_advances) (auto simp: linkTickets_def Let_def split: if_splits prod.splits bool.splits)

lemma unlink_advances: "unlinkTickets context i db = Inr (db', b) \<Longrightarrow> advances db db'"
  by (rule quiet_advances) (auto simp: unlinkTickets_def)

lemma merge_advances:
  assumes "mergeTickets uuid now (\<lambda>d. d) context a b db = Inr db'"
  shows "advances db db'"
  by (rule advances_same [where f = "merged_row a b"])
    (use assms in \<open>auto simp: mergeTickets_def merged_row_def Let_def split: option.splits if_splits\<close>)

lemma unmerge_advances:
  assumes "unmergeTicket now context a db = Inr db'"
  shows "advances db db'"
proof -
  obtain m where m: "open_merge db a = Some m" using assms by (auto simp: unmergeTicket_def split: option.splits)
  let ?f = "\<lambda>t. if tk_id t = a \<and> tk_mergedIntoId t = Some (mg_targetTicketId m) then t\<lparr>tk_mergedIntoId := None\<rparr> else t"
  show ?thesis
    by (rule advances_same [where f = ?f])
      (use assms in \<open>auto simp: unmergeTicket_def m sql_update_def Let_def split: list.splits\<close>)
qed

lemma time_advances: "addTicketTimeEntry now context i minutes note db = Inr (db', row) \<Longrightarrow> advances db db'"
  by (rule quiet_advances) (auto simp: addTicketTimeEntry_def Let_def split: option.splits if_splits)

lemma heartbeat_advances: "heartbeatTicketPresence now context i db = Inr (db', seen) \<Longrightarrow> advances db db'"
  by (rule quiet_advances) (auto simp: heartbeatTicketPresence_def Let_def split: option.splits prod.splits list.splits)

lemma presence_advances: "listTicketPresence now context i db = Inr (db', rows) \<Longrightarrow> advances db db'"
  by (rule quiet_advances) (auto simp: listTicketPresence_def Let_def split: option.splits)

lemma fields_advances: "setTicketDynamicFields date_parse context i vs db = Inr (db', r) \<Longrightarrow> advances db db'"
  by (rule quiet_advances) (auto simp: setTicketDynamicFields_def tickets_of_def split: option.splits sum.splits)

lemma outcome_advances:
  "(\<And>db'. r = Inr db' \<Longrightarrow> advances db db') \<Longrightarrow> advances db (fst (outcome db r))"
  by (cases r) (simp_all add: outcome_def)

lemma map_sum_fst_Inr: "map_sum id fst r = Inr d \<longleftrightarrow> (\<exists>x. r = Inr (d, x))"
  by (cases r) auto

lemmas request_advances = staff_message_advances csat_advances link_advances unlink_advances merge_advances unmerge_advances
  time_advances heartbeat_advances presence_advances fields_advances

lemma serve_advances:
  assumes "distinct (map tk_id (tickets_of db))"
  shows "advances db (fst (serve elapsed sched date_parse q db))"
proof (cases "sq_request q")
  case (Rq_update i action)
  then show ?thesis using updateTicket_advances [OF assms] by (simp add: serve_def)
next
  case (Rq_reporter_message i body)
  then show ?thesis using addMyTicketMessage_advances [OF assms] by (simp add: serve_def)
next
  case (Rq_sweep_pending limit)
  let ?s = "sweepPending elapsed sched (\<lambda>t. sq_uuid q (tk_id t)) (\<lambda>_ d. d) (sq_now q) limit db"
  have "advances db (fst ?s)"
    using sweep_due_advances [OF assms, of elapsed sched "\<lambda>t. sq_uuid q (tk_id t)" "sq_now q"] unfolding sweepPending_def
    by (metis prod.collapse)
  then show ?thesis using Rq_sweep_pending by (simp add: serve_def)
qed (auto simp: serve_def Let_def map_sum_fst_Inr intro!: outcome_advances intro: request_advances)

lemma serve_all_advances:
  "distinct (map tk_id (tickets_of db)) \<Longrightarrow> advances db (fst (serve_all elapsed sched date_parse qs db))"
proof (induction qs arbitrary: db)
  case (Cons q qs)
  obtain db1 done1 where s: "serve elapsed sched date_parse q db = (db1, done1)" by (cases "serve elapsed sched date_parse q db")
  have a: "advances db db1" using serve_advances [OF Cons.prems, of elapsed sched date_parse q] by (simp add: s)
  then have "advances db1 (fst (serve_all elapsed sched date_parse qs db1))"
    using Cons advances_ids [OF a] by simp
  with a show ?case by (auto simp: s split: prod.splits dest: advances_trans)
qed simp

section \<open>Properties of histories\<close>

text \<open>
  C14. The history explains the statuses: whatever requests are served and however often the sweep runs, the rows added to the
  history are configured status changes, and those of a ticket lead step by step from the status it had to the status it has.
\<close>

theorem history_explains_status:
  assumes "distinct (map tk_id (tickets_of db))" and "serve_all elapsed sched date_parse qs db = (db', dones)"
  shows "\<exists>new. dk_transitions db' = dk_transitions db @ new \<and> (\<forall>r\<in>set new. configured db r) \<and>
    (\<forall>t\<in>set (tickets_of db). \<exists>t'\<in>set (tickets_of db'). tk_id t' = tk_id t \<and>
      status_path (tk_status t) (rows_of (tk_id t) new) (tk_status t'))"
proof -
  have "advances db db'" using serve_all_advances [OF assms(1), of elapsed sched date_parse qs] by (simp add: assms(2))
  then show ?thesis unfolding advances_def carries_def by blast
qed

text \<open>
  An answer to the satisfaction survey is final: once given, its row stays as it is, whatever is served afterwards.
\<close>

theorem csat_answer_final:
  assumes "distinct (map tk_id (tickets_of db))" and "c \<in> set (dk_csat db)" and "cs_respondedAt c \<noteq> None"
  shows "c \<in> set (dk_csat (fst (serve_all elapsed sched date_parse qs db)))"
  using serve_all_advances [OF assms(1), of elapsed sched date_parse qs] assms(2,3) by (simp add: advances_def)

lemma serve_all_Cons:
  "serve elapsed sched date_parse q db = (db1, done1) \<Longrightarrow>
     snd (serve_all elapsed sched date_parse (q # qs) db) = done1 # snd (serve_all elapsed sched date_parse qs db1)"
  by (simp split: prod.splits)

text \<open>The requests that reopened a ticket.\<close>

definition reopened :: "string \<Rightarrow> served \<times> bool \<Rightarrow> bool" where
  "reopened i = (\<lambda>(q, ok). ok \<and> sq_request q = Rq_update i Act_reopen)"

lemma reopen_done:
  assumes "serve elapsed sched date_parse q db = (db', True)" and "sq_request q = Rq_update i Act_reopen"
    and "distinct (map tk_id (tickets_of db))"
  shows "\<exists>t. findTicket db i = Some t \<and> tk_reopenedAt t = None" "\<exists>t'\<in>set (tickets_of db'). tk_id t' = i \<and> tk_reopenedAt t' \<noteq> None"
proof -
  let ?u = "updateTicket elapsed sched (sq_uuid q []) (sq_now q) (\<lambda>d. d) (sq_context q) i Act_reopen db"
  have "fst ?u = db'" "\<not> isl (snd ?u)" using assms(1,2) by (cases ?u; simp add: serve_def)+
  then obtain t' ev where r: "?u = (db', Inr (t', ev))" by (cases ?u; cases "snd ?u") auto
  have d: "distinct (map tk_id (tickets_of ((\<lambda>d. d) db)))" using assms(3) by simp
  obtain t nst until x where t: "findTicket db i = Some t" "check_update (sq_now q) (sq_context q) Act_reopen db t = Inr (nst, until)"
    "findTicket db i = Some x" "t' = updated_row (sq_now q) Act_reopen t nst until x"
    using updateTicket_write [OF r d] by metis
  show "\<exists>t. findTicket db i = Some t \<and> tk_reopenedAt t = None"
    using t(1) check_update_Inr(4) [OF t(2)] by (simp add: reopen_refused_def)
  have "findTicket db' i = Some t'" using r by (rule updateTicket_Inr)
  then show "\<exists>t'\<in>set (tickets_of db'). tk_id t' = i \<and> tk_reopenedAt t' \<noteq> None"
    using t(4) findTicket_SomeD by (fastforce simp: updated_row_def)
qed

lemma reopened_never_again:
  assumes "distinct (map tk_id (tickets_of db))" and "t \<in> set (tickets_of db)" and "tk_id t = i" and "tk_reopenedAt t \<noteq> None"
  shows "filter (reopened i) (zip qs (snd (serve_all elapsed sched date_parse qs db))) = []"
  using assms
proof (induction qs arbitrary: db t)
  case (Cons q qs)
  obtain db1 done1 where s: "serve elapsed sched date_parse q db = (db1, done1)" by (cases "serve elapsed sched date_parse q db")
  have a: "advances db db1" using serve_advances [OF Cons.prems(1), of elapsed sched date_parse q] by (simp add: s)
  then obtain t1 where t1: "t1 \<in> set (tickets_of db1)" "tk_id t1 = i" "tk_reopenedAt t1 \<noteq> None"
    using Cons.prems(2,3,4) unfolding advances_def carries_def by blast
  have "\<not> reopened i (q, done1)"
  proof
    assume "reopened i (q, done1)"
    then have r: "sq_request q = Rq_update i Act_reopen" and "serve elapsed sched date_parse q db = (db1, True)"
      using s by (simp_all add: reopened_def)
    then obtain x where x: "findTicket db i = Some x" "tk_reopenedAt x = None" using reopen_done(1) [OF _ r Cons.prems(1)] by blast
    then have "x = t" using findTicket_SomeD [OF x(1)] Cons.prems(1,2,3) by (metis distinct_map inj_onD)
    with x(2) Cons.prems(4) show False by simp
  qed
  moreover have "distinct (map tk_id (tickets_of db1))" using Cons.prems(1) advances_ids [OF a] by simp
  ultimately show ?case using Cons.IH [OF _ t1] by (simp del: serve_all.simps add: serve_all_Cons [OF s])
qed simp

text \<open>
  A ticket is reopened at most once: in any sequence of requests, at most one that asks to reopen it succeeds.
\<close>

theorem reopened_at_most_once:
  assumes "distinct (map tk_id (tickets_of db))"
  shows "length (filter (reopened i) (zip qs (snd (serve_all elapsed sched date_parse qs db)))) \<le> 1"
  using assms
proof (induction qs arbitrary: db)
  case (Cons q qs)
  obtain db1 done1 where s: "serve elapsed sched date_parse q db = (db1, done1)" by (cases "serve elapsed sched date_parse q db")
  have "advances db db1" using serve_advances [OF Cons.prems, of elapsed sched date_parse q] by (simp add: s)
  then have d: "distinct (map tk_id (tickets_of db1))" using Cons.prems advances_ids by simp
  show ?case
  proof (cases "reopened i (q, done1)")
    case True
    then have r: "sq_request q = Rq_update i Act_reopen" and "serve elapsed sched date_parse q db = (db1, True)"
      using s by (simp_all add: reopened_def)
    then obtain t' where t': "t' \<in> set (tickets_of db1)" "tk_id t' = i" "tk_reopenedAt t' \<noteq> None"
      using reopen_done(2) [OF _ r Cons.prems] by blast
    show ?thesis using reopened_never_again [OF d t'] True by (simp del: serve_all.simps add: serve_all_Cons [OF s])
  next
    case False
    then show ?thesis using Cons.IH [OF d] by (simp del: serve_all.simps add: serve_all_Cons [OF s])
  qed
qed simp

section \<open>Witnesses\<close>

definition sample_served :: "ms \<Rightarrow> desk_request \<Rightarrow> served" where
  "sample_served now rq = \<lparr>sq_now = now,
     sq_context = \<lparr>cx_userId = ''u1'', cx_capabilities = [Cap_ticket_reclassify, Cap_ticket_read_own, Cap_ticket_close, Cap_ticket_reopen]\<rparr>,
     sq_uuid = sample_did, sq_request = rq\<rparr>"

text \<open>A ticket is pended, reminded twice, resolved by the sweep, closed and reopened.\<close>

definition sample_requests :: "served list" where
  "sample_requests = [sample_served 0 (Rq_update ''t1'' (Act_pend ''info'' None)), sample_served 3600000 (Rq_sweep_pending 10),
     sample_served 7200000 (Rq_sweep_pending 10), sample_served 10800000 (Rq_sweep_pending 10),
     sample_served 10900000 (Rq_update ''t1'' Act_close), sample_served 11000000 (Rq_update ''t1'' Act_reopen),
     sample_served 11100000 (Rq_update ''t1'' Act_reopen)]"

definition sample_run :: "desk_db \<times> bool list" where
  "sample_run = serve_all (\<lambda>_ _ _. Inr 0) alone (\<lambda>_. None) sample_requests sample_desk"

theorem history_explains_status_witness:
  "map tr_action (dk_transitions (fst sample_run)) = [''pend'', ''resolve'', ''close'', ''reopen''] \<and>
   (\<exists>t'\<in>set (tickets_of (fst sample_run)). tk_id t' = ''t1'' \<and>
      status_path ''open'' (rows_of ''t1'' (dk_transitions (fst sample_run))) (tk_status t'))"
proof -
  have "map tr_action (dk_transitions (fst sample_run)) = [''pend'', ''resolve'', ''close'', ''reopen'']" by code_simp
  moreover obtain new where "dk_transitions (fst sample_run) = dk_transitions sample_desk @ new"
    "\<forall>t\<in>set (tickets_of sample_desk). \<exists>t'\<in>set (tickets_of (fst sample_run)). tk_id t' = tk_id t \<and>
      status_path (tk_status t) (rows_of (tk_id t) new) (tk_status t')"
    using history_explains_status [OF sample_desk_ids, of "\<lambda>_ _ _. Inr 0" alone "\<lambda>_. None" sample_requests "fst sample_run" "snd sample_run"]
    by (auto simp: sample_run_def)
  moreover have "dk_transitions sample_desk = []" by (simp add: sample_desk_def)
  moreover have "sample_ticket \<in> set (tickets_of sample_desk)" "tk_id sample_ticket = ''t1''" "tk_status sample_ticket = ''open''"
    by (simp_all add: sample_desk_def tickets_of_def sample_ticket_def)
  ultimately show ?thesis by (metis append_Nil)
qed

definition answered :: csat_row where
  "answered = \<lparr>cs_id = ''c1'', cs_ticketId = ''t1'', cs_token = ''k1'', cs_rating = Some 5, cs_comment = None, cs_respondedAt = Some 1\<rparr>"

theorem csat_answer_final_witness:
  "answered \<in> set (dk_csat (fst (serve_all (\<lambda>_ _ _. Inr 0) alone (\<lambda>_. None)
     (sample_served 5 (Rq_csat ''k1'' 1 None) # sample_requests) (sample_desk\<lparr>dk_csat := [answered]\<rparr>))))"
  by (rule csat_answer_final) (use sample_desk_ids in \<open>simp_all add: answered_def\<close>)

theorem reopened_at_most_once_witness:
  "snd sample_run = [True, True, True, True, True, True, False] \<and>
   length (filter (reopened ''t1'') (zip sample_requests (snd sample_run))) \<le> 1"
proof -
  have "snd sample_run = [True, True, True, True, True, True, False]" by code_simp
  moreover have "length (filter (reopened ''t1'') (zip sample_requests (snd sample_run))) \<le> 1"
    unfolding sample_run_def by (rule reopened_at_most_once [OF sample_desk_ids])
  ultimately show ?thesis ..
qed

end
