(* ===== verification/Gateway.thy ===== *)
theory Gateway
  imports DeskHistory Environments
begin

text \<open>
  The gateway between the server and its agents, \<open>server/grpc.ts\<close> with \<open>server/grpc-core.ts\<close>: registered workers, the runs that
  are assigned to them and their leases, the transcript, the ledger of tool calls, and the start of a run
  (\<open>server/routers/shared.ts\<close>).

  A stream is a number; what is written to it is the list of messages that an operation returns. A generation (a fresh
  \<open>Symbol\<close>) is a number too. Reading JSON, running a tool and the context of a ticket are arguments, and so is the credential
  check, which compares hashes.
\<close>

section \<open>The tables\<close>

record agent_run =
  ag_id :: string
  ag_ticketId :: string
  ag_startedById :: "string option"
  ag_status :: run_status
  ag_model :: "string option"
  ag_outcome :: "string option"
  ag_workerId :: "string option"
  ag_acceptedAt :: "ms option"
  ag_leaseExpiresAt :: "ms option"
  ag_environment :: resolved_run_environment
  ag_promptTokens :: "int option"
  ag_completionTokens :: "int option"
  ag_startedAt :: ms
  ag_endedAt :: "ms option"

record agent_step =
  as_id :: string
  as_runId :: string
  as_ordinal :: int
  as_kind :: step_kind
  as_reasoning :: "string option"
  as_toolName :: "string option"
  as_toolInput :: jsval
  as_toolOutput :: jsval
  as_error :: "string option"
  as_evidence :: "string option"
  as_notice :: string
  as_evidenceTone :: evidence_tone

datatype call_status = Call_in_progress | Call_succeeded | Call_failed

record tool_call =
  tc_runId :: string
  tc_callId :: string
  tc_status :: call_status
  tc_result :: jsval
  tc_error :: "string option"
  tc_finishedAt :: "ms option"

record gateway_db =
  gw_desk :: desk_db
  gw_env :: environment_db
  gw_runs :: "agent_run list"
  gw_steps :: "agent_step list"
  gw_calls :: "tool_call list"

section \<open>The memory of the gateway\<close>

record agent_connection =
  ac_stream :: nat
  ac_model :: string
  ac_generation :: nat

record gateway =
  ga_agents :: "(string \<times> agent_connection) list"
  ga_agentOrder :: "string list"
  ga_nextAgent :: nat
  ga_runAgents :: "(string \<times> string) list"

record run_input =
  ri_runId :: string
  ri_ticketId :: string
  ri_title :: string
  ri_body :: string
  ri_reporterId :: string
  ri_deviceId :: "string option"
  ri_contextJson :: "string option"
  ri_recordType :: "record_type option"
  ri_impact :: "impact option"
  ri_urgency :: "urgency option"
  ri_priority :: "priority option"
  ri_origin :: "string option"
  ri_environmentKey :: "string option"

record reporter_context =
  rc_name :: string
  rc_jobTitle :: string
  rc_department :: string
  rc_manager :: string

datatype out_message =
    Msg_start_run run_input reporter_context
  | Msg_cancel_run string string
  | Msg_terminal_ack string int
  | Msg_tool_ok string string jsval
  | Msg_tool_error string string string
  | Msg_heartbeat ms

type_synonym outputs = "(nat \<times> out_message) list"

datatype gateway_error =
    Not_connected
  | Run_not_running string
  | Write_failed
  | Run_unassigned string string
  | Lease_lost string
  | Invalid_kind
  | Invalid_status string
  | Invalid_resolution string
  | Run_missing string
  | Ticket_missing string
  | Ticket_changed string
  | Desk_failed desk_error
  | Worker_id_required
  | Hello_required
  | Authentication_failed
  | Tool_failed string bool \<comment> \<open>the message, and whether it is a refusal\<close>

definition OUTBOX_LIMIT :: nat where "OUTBOX_LIMIT = 100"
definition HEARTBEAT_MS :: int where "HEARTBEAT_MS = 10000"
definition STALE_MS :: int where "STALE_MS = 30000"
definition RUN_LEASE_MS :: int where "RUN_LEASE_MS = 45000"

definition leaseDeadline :: "ms \<Rightarrow> int \<Rightarrow> ms" where
  "leaseDeadline now leaseMs = now + leaseMs"

section \<open>Workers\<close>

definition hasWorker :: "gateway \<Rightarrow> bool" where
  "hasWorker g \<longleftrightarrow> ga_agents g \<noteq> []"

definition agent_of :: "gateway \<Rightarrow> string \<Rightarrow> agent_connection option" where
  "agent_of g w = map_of (ga_agents g) w"

definition register_agent :: "bool \<Rightarrow> nat \<Rightarrow> nat \<Rightarrow> string \<Rightarrow> string \<Rightarrow> gateway \<Rightarrow> gateway_error + gateway" where
  "register_agent credential_ok stream generation workerId model g =
     (let workerId = js_trim workerId
      in if workerId = [] then Inl Worker_id_required
         else if \<not> credential_ok then Inl Authentication_failed
         else Inr (g\<lparr>ga_agents := AList.update workerId
             \<lparr>ac_stream = stream, ac_model = model, ac_generation = generation\<rparr> (ga_agents g),
           ga_agentOrder := (if workerId \<in> set (ga_agentOrder g) then ga_agentOrder g else ga_agentOrder g @ [workerId])\<rparr>))"

definition removeAgent :: "string \<Rightarrow> nat option \<Rightarrow> gateway \<Rightarrow> gateway" where
  "removeAgent workerId generation g =
     (if workerId = [] \<or> map_option ac_generation (agent_of g workerId) \<noteq> generation then g
      else g\<lparr>ga_agents := AList.delete workerId (ga_agents g), ga_agentOrder := filter (\<lambda>i. i \<noteq> workerId) (ga_agentOrder g)\<rparr>)"

text \<open>Round robin over the workers that are connected.\<close>

definition selectAgent :: "gateway \<Rightarrow> gateway \<times> (string \<times> agent_connection) option" where
  "selectAgent g =
     (let order = filter (\<lambda>i. agent_of g i \<noteq> None) (ga_agentOrder g)
      in if order = [] then (g\<lparr>ga_agentOrder := order\<rparr>, None)
         else let workerId = order ! (ga_nextAgent g mod length order)
              in (g\<lparr>ga_agentOrder := order, ga_nextAgent := ga_nextAgent g + 1\<rparr>,
                  map_option (\<lambda>c. (workerId, c)) (agent_of g workerId)))"

section \<open>Starting and cancelling a run\<close>

definition set_runs :: "(agent_run \<Rightarrow> bool) \<Rightarrow> (agent_run \<Rightarrow> agent_run) \<Rightarrow> gateway_db \<Rightarrow> gateway_db \<times> agent_run list" where
  "set_runs P f db = (case sql_update P f (gw_runs db) of (rows, hit) \<Rightarrow> (db\<lparr>gw_runs := rows\<rparr>, hit))"

text \<open>What the worker is told of the reporter: the newest identity of the directory, and the name of the manager.\<close>

record person_row =
  pe_id :: string
  pe_name :: string
  pe_jobTitle :: "string option"
  pe_managerId :: "string option"

record directory_identity_row =
  di_userId :: string
  di_department :: "string option"
  di_updatedAt :: ms

definition readReporterContext :: "person_row list \<Rightarrow> directory_identity_row list \<Rightarrow> string \<Rightarrow> reporter_context" where
  "readReporterContext people identities reporterId =
     (let person = first_row (\<lambda>p. pe_id p = reporterId) people;
          newest = js_sort (\<lambda>a b. di_updatedAt b - di_updatedAt a) (filter (\<lambda>d. di_userId d = reporterId) identities);
          manager = Option.bind (Option.bind person pe_managerId) (\<lambda>m. first_row (\<lambda>p. pe_id p = m) people)
      in case person of
           None \<Rightarrow> \<lparr>rc_name = [], rc_jobTitle = [], rc_department = [], rc_manager = []\<rparr>
         | Some p \<Rightarrow> \<lparr>rc_name = pe_name p, rc_jobTitle = preserveUndefined (pe_jobTitle p) [],
             rc_department = (case newest of [] \<Rightarrow> [] | d # _ \<Rightarrow> preserveUndefined (di_department d) []),
             rc_manager = (case manager of None \<Rightarrow> [] | Some m \<Rightarrow> pe_name m)\<rparr>)"

text \<open>The defaults that the message to the worker fills in.\<close>

definition start_message :: "(string \<Rightarrow> string option \<Rightarrow> string) \<Rightarrow> run_input \<Rightarrow> run_input" where
  "start_message context i = i\<lparr>ri_deviceId := Some (preserveUndefined (ri_deviceId i) []),
     ri_contextJson := Some (preserveUndefined (ri_contextJson i) (context (ri_ticketId i) (ri_deviceId i))),
     ri_recordType := Some (preserveUndefined (ri_recordType i) RT_incident),
     ri_impact := Some (preserveUndefined (ri_impact i) L_medium), ri_urgency := Some (preserveUndefined (ri_urgency i) L_medium),
     ri_priority := Some (preserveUndefined (ri_priority i) P3), ri_origin := Some (preserveUndefined (ri_origin i) ''portal''),
     ri_environmentKey := Some (preserveUndefined (ri_environmentKey i) [])\<rparr>"

definition fail_run :: "string \<Rightarrow> ms \<Rightarrow> agent_run \<Rightarrow> agent_run" where
  "fail_run reason now r = r\<lparr>ag_status := Run_failed, ag_outcome := Some reason, ag_endedAt := Some now\<rparr>"

definition startRun ::
  "(nat \<Rightarrow> bool) \<Rightarrow> (string \<Rightarrow> reporter_context) \<Rightarrow> (string \<Rightarrow> string option \<Rightarrow> string) \<Rightarrow> ms \<Rightarrow> run_input \<Rightarrow> gateway \<Rightarrow> gateway_db \<Rightarrow>
     gateway \<times> gateway_db \<times> outputs \<times> gateway_error option" where
  "startRun writes reporter context now input g db =
     (case selectAgent g of
        (g1, None) \<Rightarrow> (g1, db, [], Some Not_connected)
      | (g1, Some (workerId, conn)) \<Rightarrow>
          (case set_runs (\<lambda>r. ag_id r = ri_runId input \<and> ag_status r = Run_running)
              (\<lambda>r. r\<lparr>ag_model := (if ac_model conn = [] then None else Some (ac_model conn)), ag_workerId := Some workerId,
                 ag_leaseExpiresAt := Some (leaseDeadline now RUN_LEASE_MS)\<rparr>) db of
             (_, []) \<Rightarrow> (g1, db, [], Some (Run_not_running (ri_runId input)))
           | (db1, _ # _) \<Rightarrow>
               if writes (ac_stream conn)
               then (g1\<lparr>ga_runAgents := AList.update (ri_runId input) workerId (ga_runAgents g1)\<rparr>, db1,
                     [(ac_stream conn, Msg_start_run (start_message context input) (reporter (ri_reporterId input)))], None)
               else (g1\<lparr>ga_runAgents := AList.delete (ri_runId input) (ga_runAgents g1)\<rparr>,
                     fst (set_runs (\<lambda>r. ag_id r = ri_runId input \<and> ag_status r = Run_running)
                       (fail_run ''agent dispatch failed'' now) db1), [], Some Write_failed)))"

definition set_desk :: "desk_db \<Rightarrow> gateway_db \<Rightarrow> gateway_db" where
  "set_desk d db = db\<lparr>gw_desk := d\<rparr>"

definition run_of :: "gateway_db \<Rightarrow> string \<Rightarrow> agent_run option" where
  "run_of db runId = first_row (\<lambda>r. ag_id r = runId) (gw_runs db)"

text \<open>The tables that \<open>Environments\<close> reads, with the runs and the tickets as they are.\<close>

definition env_of :: "gateway_db \<Rightarrow> environment_db" where
  "env_of db = (gw_env db)\<lparr>ed_runs := map (\<lambda>r. \<lparr>rn_id = ag_id r, rn_ticketId = ag_ticketId r,
       rn_environmentId = re_environmentId (ag_environment r)\<rparr>) (gw_runs db), ed_tickets := tickets_of (gw_desk db)\<rparr>"

text \<open>A status change that an agent makes: the update guarded by the status that was read, the history, the stopwatches.\<close>

definition agent_transition :: "(desk_id \<Rightarrow> string) \<Rightarrow> ms \<Rightarrow> string \<Rightarrow> ticket_status \<Rightarrow> ticket_status \<Rightarrow> string \<Rightarrow> string \<Rightarrow> transition_row" where
  "agent_transition uuid now ticketId from to action actor = \<lparr>tr_id = uuid Did_transition, tr_ticketId = ticketId,
     tr_fromStatus = from, tr_toStatus = to, tr_action = action, tr_actorType = Actor_agent, tr_actorId = Some actor, tr_createdAt = now\<rparr>"

definition move_ticket ::
  "elapsed_fn \<Rightarrow> schedule \<Rightarrow> (desk_id \<Rightarrow> string) \<Rightarrow> ms \<Rightarrow> string \<Rightarrow> ticket_status \<Rightarrow> ticket_status \<Rightarrow> string \<Rightarrow> string \<Rightarrow>
     (ticket \<Rightarrow> ticket) \<Rightarrow> desk_db \<Rightarrow> desk_error + (desk_db \<times> bool)" where
  "move_ticket elapsed sched uuid now ticketId from to action actor f d =
     (case sql_update (\<lambda>t. tk_id t = ticketId \<and> tk_status t = from) (\<lambda>t. (f t)\<lparr>tk_status := to\<rparr>) (tickets_of d) of
        (_, []) \<Rightarrow> Inr (d, False)
      | (ts, _ # _) \<Rightarrow>
          let d1 = set_tickets ts d
          in bind_result (move_watches elapsed sched ticketId to now
               (d1\<lparr>dk_transitions := dk_transitions d1 @ [agent_transition uuid now ticketId from to action actor]\<rparr>)) (\<lambda>d2. Inr (d2, True)))"

definition handing_over :: "ticket \<Rightarrow> ticket" where
  "handing_over t = t\<lparr>tk_progressMarker := Some PM_handing_to_person\<rparr>"

text \<open>The transaction of \<open>cancelRun\<close>: \<open>None\<close> where no running run was hit.\<close>

definition cancel_transaction ::
  "elapsed_fn \<Rightarrow> schedule \<Rightarrow> (desk_id \<Rightarrow> string) \<Rightarrow> ms \<Rightarrow> string \<Rightarrow> string \<Rightarrow> ms option \<Rightarrow> gateway_db \<Rightarrow> gateway_error + gateway_db option" where
  "cancel_transaction elapsed sched uuid now runId reason expiredBefore db =
     (let active = Option.bind (run_of db runId) (\<lambda>r. map_option tk_status (findTicket (gw_desk db) (ag_ticketId r)));
          expired = (\<lambda>r. case expiredBefore of None \<Rightarrow> True
             | Some b \<Rightarrow> (case ag_leaseExpiresAt r of None \<Rightarrow> False | Some l \<Rightarrow> l < b))
      in case set_runs (\<lambda>r. ag_id r = runId \<and> ag_status r = Run_running \<and> expired r)
             (\<lambda>r. (fail_run reason now r)\<lparr>ag_leaseExpiresAt := None\<rparr>) db of
           (_, []) \<Rightarrow> Inr None
         | (db1, run # _) \<Rightarrow>
             (case active of
                None \<Rightarrow> Inl (Ticket_missing runId)
              | Some status \<Rightarrow>
                  (case resolveTicketStatus (dk_moves (gw_desk db1)) status ''fail'' of
                     Inl message \<Rightarrow> Inl (Desk_failed (Conflict message))
                   | Inr next1 \<Rightarrow>
                       (case move_ticket elapsed sched uuid now (ag_ticketId run) status next1 ''fail'' runId handing_over (gw_desk db1) of
                          Inl e \<Rightarrow> Inl (Desk_failed e)
                        | Inr (d, _) \<Rightarrow> Inr (Some (set_desk d db1))))))"

definition cancelRun ::
  "elapsed_fn \<Rightarrow> schedule \<Rightarrow> (desk_id \<Rightarrow> string) \<Rightarrow> ms \<Rightarrow> string \<Rightarrow> string \<Rightarrow> ms option \<Rightarrow> gateway \<Rightarrow> gateway_db \<Rightarrow>
     gateway \<times> gateway_db \<times> outputs \<times> gateway_error option" where
  "cancelRun elapsed sched uuid now runId reason expiredBefore g db =
     (case cancel_transaction elapsed sched uuid now runId reason expiredBefore db of
        Inl e \<Rightarrow> (g, db, [], Some e)
      | Inr None \<Rightarrow> (g, db, [], None)
      | Inr (Some db1) \<Rightarrow>
          (g\<lparr>ga_runAgents := AList.delete runId (ga_runAgents g)\<rparr>, db1,
           (case Option.bind (map_of (ga_runAgents g) runId) (agent_of g) of
              None \<Rightarrow> [] | Some conn \<Rightarrow> [(ac_stream conn, Msg_cancel_run runId reason)]), None))"

text \<open>\<open>expireRunLeases\<close>: an exception of one run is logged and the next one is tried.\<close>

definition expired_runs :: "ms \<Rightarrow> gateway_db \<Rightarrow> string list" where
  "expired_runs now db = map ag_id (filter (\<lambda>r. ag_status r = Run_running \<and>
     (case ag_leaseExpiresAt r of None \<Rightarrow> False | Some l \<Rightarrow> l < now)) (gw_runs db))"

definition expireRunLeases ::
  "elapsed_fn \<Rightarrow> schedule \<Rightarrow> (string \<Rightarrow> desk_id \<Rightarrow> string) \<Rightarrow> ms \<Rightarrow> gateway \<Rightarrow> gateway_db \<Rightarrow> gateway \<times> gateway_db \<times> outputs" where
  "expireRunLeases elapsed sched uuid now g db =
     fold (\<lambda>i (g, db, outs).
       (case cancelRun elapsed sched (uuid i) now i ''agent run lease expired'' (Some now) g db of
          (g', db', outs', _) \<Rightarrow> (g', db', outs @ outs'))) (expired_runs now db) (g, db, [])"

section \<open>The updates of a run\<close>

definition renewRunLease :: "ms \<Rightarrow> string \<Rightarrow> string \<Rightarrow> bool \<Rightarrow> gateway_db \<Rightarrow> gateway_error + gateway_db" where
  "renewRunLease now runId workerId accepted db =
     (case set_runs (\<lambda>r. ag_id r = runId \<and> ag_status r = Run_running \<and> ag_workerId r = Some workerId)
         (\<lambda>r. r\<lparr>ag_leaseExpiresAt := Some (leaseDeadline now RUN_LEASE_MS),
            ag_acceptedAt := (if accepted then Some now else ag_acceptedAt r)\<rparr>) db of
        (_, []) \<Rightarrow> Inl (Lease_lost runId)
      | (db1, _ # _) \<Rightarrow> Inr db1)"

record run_update =
  ru_runId :: string
  ru_ordinal :: int
  ru_kind :: "int option" \<comment> \<open>\<open>None\<close> where \<open>Number\<close> gives no integer\<close>
  ru_reasoning :: string
  ru_toolName :: string
  ru_toolInput :: jsval
  ru_toolOutput :: jsval
  ru_error :: string
  ru_evidence :: string
  ru_notice :: string
  ru_tone :: "evidence_tone option"
  ru_status :: string
  ru_outcome :: string
  ru_resolutionCode :: string
  ru_model :: string
  ru_promptTokens :: int
  ru_completionTokens :: int

definition text_or_null :: "string \<Rightarrow> string option" where
  "text_or_null s = (if s = [] then None else Some s)"

definition step_kinds :: "step_kind list" where
  "step_kinds = [Step_observation, Step_think, Step_tool_call, Step_observation, Step_decision, Step_terminal]"

definition step_key :: "agent_step \<Rightarrow> string \<times> int" where
  "step_key s = (as_runId s, as_ordinal s)"

definition step_of_update :: "string \<Rightarrow> int \<Rightarrow> run_update \<Rightarrow> agent_step" where
  "step_of_update stepId kind u = \<lparr>as_id = stepId, as_runId = ru_runId u, as_ordinal = ru_ordinal u, as_kind = step_kinds ! nat kind,
     as_reasoning = text_or_null (ru_reasoning u), as_toolName = text_or_null (ru_toolName u), as_toolInput = ru_toolInput u,
     as_toolOutput = ru_toolOutput u, as_error = text_or_null (ru_error u), as_evidence = text_or_null (ru_evidence u),
     as_notice = ru_notice u, as_evidenceTone = (case ru_tone u of None \<Rightarrow> Tone_neutral | Some t \<Rightarrow> t)\<rparr>"

definition status_named :: "string \<Rightarrow> run_status option" where
  "status_named s = find (\<lambda>r. run_status_key r = s) RUN_STATUSES"

definition code_named :: "string \<Rightarrow> resolution_code option" where
  "code_named s = find (\<lambda>c. resolution_code_key c = s) RESOLUTION_CODES"

definition terminal_action :: "run_status \<Rightarrow> string" where
  "terminal_action s = (case s of Run_failed \<Rightarrow> ''fail'' | Run_exhausted \<Rightarrow> ''exhaust'' | Run_resolved \<Rightarrow> ''resolve'' | _ \<Rightarrow> ''escalate'')"

definition finish_run :: "run_update \<Rightarrow> run_status \<Rightarrow> ms \<Rightarrow> agent_run \<Rightarrow> agent_run" where
  "finish_run u status now r = r\<lparr>ag_status := status, ag_outcome := text_or_null (ru_outcome u),
     ag_promptTokens := Some (ru_promptTokens u), ag_completionTokens := Some (ru_completionTokens u),
     ag_model := (if ru_model u = [] then ag_model r else Some (ru_model u)), ag_leaseExpiresAt := None, ag_endedAt := Some now\<rparr>"

text \<open>The columns of the ticket besides its status; \<open>undefined\<close> leaves a column alone.\<close>

definition finished_ticket :: "run_update \<Rightarrow> run_status \<Rightarrow> resolution_code option \<Rightarrow> ms \<Rightarrow> ticket \<Rightarrow> ticket" where
  "finished_ticket u status code now t = t\<lparr>tk_resolution := text_or_null (ru_outcome u),
     tk_resolutionCode := (if status = Run_resolved then code else tk_resolutionCode t),
     tk_resolvedAt := (if status = Run_resolved then Some now else tk_resolvedAt t),
     tk_progressMarker := (if status = Run_resolved then None else Some PM_handing_to_person)\<rparr>"

definition terminal_transaction ::
  "elapsed_fn \<Rightarrow> schedule \<Rightarrow> (desk_id \<Rightarrow> string) \<Rightarrow> ms \<Rightarrow> run_update \<Rightarrow> run_status \<Rightarrow> resolution_code option \<Rightarrow> gateway_db \<Rightarrow>
     gateway_error + gateway_db" where
  "terminal_transaction elapsed sched uuid now u status code db =
     (case run_of db (ru_runId u) of
        None \<Rightarrow> Inl (Run_missing (ru_runId u))
      | Some run \<Rightarrow>
     (case set_runs (\<lambda>r. ag_id r = ru_runId u \<and> ag_status r = Run_running) (finish_run u status now) db of
        (_, []) \<Rightarrow> Inr db
      | (db1, _ # _) \<Rightarrow>
     (case findTicket (gw_desk db1) (ag_ticketId run) of
        None \<Rightarrow> Inl (Ticket_missing (ag_ticketId run))
      | Some t \<Rightarrow>
     (case resolveTicketStatus (dk_moves (gw_desk db1)) (tk_status t) (terminal_action status) of
        Inl message \<Rightarrow> Inl (Desk_failed (Conflict message))
      | Inr to \<Rightarrow>
     (case move_ticket elapsed sched uuid now (ag_ticketId run) (tk_status t) to (terminal_action status) (ru_runId u)
         (finished_ticket u status code now) (gw_desk db1) of
        Inl e \<Rightarrow> Inl (Desk_failed e)
      | Inr (_, False) \<Rightarrow> Inl (Ticket_changed (ag_ticketId run))
      | Inr (d, True) \<Rightarrow> Inr (set_desk d db1))))))"

text \<open>
  \<open>persistRunUpdate\<close>: the database, the memory and the messages it leaves, an exception, and the run it hands to
  \<open>onRunTerminal\<close>. The lease, the step and the terminal update are written one after the other, so an exception
  does not take back what came before it.
\<close>

definition terminal_update ::
  "elapsed_fn \<Rightarrow> schedule \<Rightarrow> (desk_id \<Rightarrow> string) \<Rightarrow> ms \<Rightarrow> nat \<Rightarrow> run_update \<Rightarrow> gateway \<Rightarrow> gateway_db \<Rightarrow>
     gateway \<times> gateway_db \<times> outputs \<times> gateway_error option \<times> (string \<times> run_status) option" where
  "terminal_update elapsed sched uuid now stream u g db =
     (if ru_status u = [] then (g, db, [], None, None)
      else case status_named (ru_status u) of
        None \<Rightarrow> (g, db, [], Some (Invalid_status (ru_status u)), None)
      | Some status \<Rightarrow>
          if status = Run_resolved \<and> code_named (ru_resolutionCode u) = None
          then (g, db, [], Some (Invalid_resolution (ru_resolutionCode u)), None)
          else (case terminal_transaction elapsed sched uuid now u status (code_named (ru_resolutionCode u)) db of
            Inl e \<Rightarrow> (g, db, [], Some e, None)
          | Inr db1 \<Rightarrow> (g\<lparr>ga_runAgents := AList.delete (ru_runId u) (ga_runAgents g)\<rparr>, db1,
              [(stream, Msg_terminal_ack (ru_runId u) (ru_ordinal u))], None, Some (ru_runId u, status))))"

definition persistRunUpdate ::
  "elapsed_fn \<Rightarrow> schedule \<Rightarrow> (desk_id \<Rightarrow> string) \<Rightarrow> ms \<Rightarrow> nat \<Rightarrow> string \<Rightarrow> run_update \<Rightarrow> gateway \<Rightarrow> gateway_db \<Rightarrow>
     gateway \<times> gateway_db \<times> outputs \<times> gateway_error option \<times> (string \<times> run_status) option" where
  "persistRunUpdate elapsed sched uuid now stream workerId u g db =
     (if map_of (ga_runAgents g) (ru_runId u) \<noteq> Some workerId
      then if ru_status u \<noteq> [] \<and>
              (case run_of db (ru_runId u) of None \<Rightarrow> False | Some r \<Rightarrow> ag_workerId r = Some workerId \<and> ag_status r \<noteq> Run_running)
           then (g, db, [(stream, Msg_terminal_ack (ru_runId u) (ru_ordinal u))], None, None)
           else (g, db, [], Some (Run_unassigned (ru_runId u) workerId), None)
      else case renewRunLease now (ru_runId u) workerId False db of
        Inl e \<Rightarrow> (g, db, [], Some e, None)
      | Inr db1 \<Rightarrow>
          (case ru_kind u of
             None \<Rightarrow> (g, db1, [], Some Invalid_kind, None)
           | Some kind \<Rightarrow>
               if kind < 1 \<or> 5 < kind then (g, db1, [], Some Invalid_kind, None)
               else let db2 = db1\<lparr>gw_steps := fst (sql_insert_new step_key (step_of_update (uuid Did_row) kind u) (gw_steps db1))\<rparr>
                    in terminal_update elapsed sched uuid now stream u g db2))"

section \<open>Tool calls\<close>

record tool_request =
  tq_runId :: string
  tq_callId :: string
  tq_toolName :: string
  tq_inputJson :: string
  tq_sourceStepOrdinal :: "int option"

definition call_key :: "tool_call \<Rightarrow> string \<times> string" where
  "call_key c = (tc_runId c, tc_callId c)"

definition new_call :: "string \<times> string \<Rightarrow> tool_call" where
  "new_call k = \<lparr>tc_runId = fst k, tc_callId = snd k, tc_status = Call_in_progress, tc_result = JNull, tc_error = None, tc_finishedAt = None\<rparr>"

definition replayToolResult :: "tool_call \<Rightarrow> out_message" where
  "replayToolResult c =
     (if tc_status c = Call_succeeded then Msg_tool_ok (tc_runId c) (tc_callId c) (tc_result c)
      else Msg_tool_error (tc_runId c) (tc_callId c)
        (if tc_status c = Call_in_progress then ''tool call is already in progress''
         else (case tc_error c of Some (x # xs) \<Rightarrow> x # xs | _ \<Rightarrow> ''tool call failed'')))"

definition resolveStepId :: "gateway_db \<Rightarrow> tool_request \<Rightarrow> gateway_error + string" where
  "resolveStepId db q =
     (case tq_sourceStepOrdinal q of
        None \<Rightarrow> Inl (Tool_failed ''tool request source_step_ordinal is required'' False)
      | Some n \<Rightarrow>
          if n < 1 then Inl (Tool_failed ''tool request source_step_ordinal is required'' False)
          else (case first_row (\<lambda>s. as_runId s = tq_runId q \<and> as_ordinal s = n \<and> as_kind s = Step_tool_call \<and>
                    as_toolName s = Some (tq_toolName q)) (gw_steps db) of
                  None \<Rightarrow> Inl (Tool_failed ''source step not found'' False)
                | Some s \<Rightarrow> Inr (as_id s)))"

text \<open>The checks before the ledger: the lease is renewed on the way.\<close>

definition device_mismatch :: "jsval \<Rightarrow> ticket option \<Rightarrow> bool" where
  "device_mismatch input t =
     (case Option.bind t tk_deviceId of
        None \<Rightarrow> True
      | Some d \<Rightarrow> d = [] \<or> (case input of JObj ob \<Rightarrow> prop_of ob ''device_id'' \<noteq> JStr d | _ \<Rightarrow> True))"

definition admit_request ::
  "(string \<Rightarrow> jsval option) \<Rightarrow> ms \<Rightarrow> string \<Rightarrow> tool_request \<Rightarrow> gateway \<Rightarrow> gateway_db \<Rightarrow>
     gateway_db \<times> (gateway_error + agent_run \<times> jsval \<times> string)" where
  "admit_request json now workerId q g db =
     (if tq_callId q = [] then (db, Inl (Tool_failed ''tool request call_id is required'' False))
      else if map_of (ga_runAgents g) (tq_runId q) \<noteq> Some workerId then (db, Inl (Run_unassigned (tq_runId q) workerId))
      else case renewRunLease now (tq_runId q) workerId False db of
        Inl e \<Rightarrow> (db, Inl e)
      | Inr db1 \<Rightarrow>
     (case run_of db1 (tq_runId q) of
        None \<Rightarrow> (db1, Inl (Run_missing (tq_runId q)))
      | Some run \<Rightarrow>
          if ag_status run \<noteq> Run_running then (db1, Inl (Tool_failed (''run is '' @ run_status_key (ag_status run)) False))
          else (case json (tq_inputJson q) of
             None \<Rightarrow> (db1, Inl (Tool_failed ''invalid JSON'' False))
           | Some input \<Rightarrow>
               if prefix ''device_'' (tq_toolName q) \<and> device_mismatch input (findTicket (gw_desk db1) (ag_ticketId run))
               then (db1, Inl (Tool_failed ''device tool must target the ticket device'' False))
               else (db1, map_sum id (\<lambda>s. (run, input, s)) (resolveStepId db1 q)))))"

text \<open>The first tool call of a run moves its ticket on, where such a status change is configured.\<close>

definition first_tool ::
  "elapsed_fn \<Rightarrow> schedule \<Rightarrow> (desk_id \<Rightarrow> string) \<Rightarrow> ms \<Rightarrow> agent_run \<Rightarrow> gateway_db \<Rightarrow> gateway_error + gateway_db" where
  "first_tool elapsed sched uuid now run db =
     (case findTicket (gw_desk db) (ag_ticketId run) of
        None \<Rightarrow> Inl (Ticket_missing (ag_ticketId run))
      | Some t \<Rightarrow>
          (case findTicketTransition (dk_moves (gw_desk db)) (tk_status t) ''firstTool'' of
             None \<Rightarrow> Inr db
           | Some to \<Rightarrow>
               (case move_ticket elapsed sched uuid now (ag_ticketId run) (tk_status t) to ''firstTool'' (ag_id run) (\<lambda>t. t) (gw_desk db) of
                  Inl e \<Rightarrow> Inl (Desk_failed e) | Inr (d, _) \<Rightarrow> Inr (set_desk d db))))"

definition settle_call :: "string \<times> string \<Rightarrow> (tool_call \<Rightarrow> tool_call) \<Rightarrow> gateway_db \<Rightarrow> gateway_db" where
  "settle_call k f db = db\<lparr>gw_calls := fst (sql_update (\<lambda>c. call_key c = k \<and> tc_status c = Call_in_progress) f (gw_calls db))\<rparr>"

text \<open>An answer of the tool: an exception, or a value; a value with \<open>ok: false\<close> is a structured failure.\<close>

definition structured_failure :: "jsval \<Rightarrow> bool" where
  "structured_failure v = (case v of JObj ob \<Rightarrow> own ob ''ok'' \<and> prop_of ob ''ok'' = JBool False | _ \<Rightarrow> False)"

text \<open>The message of an exception; a stream that cannot be written to has a message of its own, left out here.\<close>

fun error_text :: "gateway_error \<Rightarrow> string" where
  "error_text Not_connected = ''Axel is not connected''"
| "error_text (Run_not_running i) = ''run not found or not running: '' @ i"
| "error_text Write_failed = []"
| "error_text (Run_unassigned i w) = ''run '' @ i @ '' is not assigned to worker '' @ w"
| "error_text (Lease_lost i) = ''run '' @ i @ '' lease cannot be renewed''"
| "error_text Invalid_kind = ''invalid run update kind''"
| "error_text (Invalid_status s) = ''invalid terminal run status: '' @ s"
| "error_text (Invalid_resolution s) = ''invalid resolution code: '' @ s"
| "error_text (Run_missing i) = ''run not found: '' @ i"
| "error_text (Ticket_missing i) = ''ticket not found: '' @ i"
| "error_text (Ticket_changed i) = ''ticket changed during terminal update: '' @ i"
| "error_text (Desk_failed (Conflict m)) = m"
| "error_text (Desk_failed e) = []"
| "error_text Worker_id_required = ''agent worker_id is required''"
| "error_text Hello_required = ''agent must send hello before messages''"
| "error_text Authentication_failed = ''agent authentication failed''"
| "error_text (Tool_failed m _) = m"

definition refuse_call ::
  "ms \<Rightarrow> nat \<Rightarrow> tool_request \<Rightarrow> string option \<Rightarrow> gateway_error \<Rightarrow> gateway_db \<Rightarrow> gateway_db \<times> outputs" where
  "refuse_call now stream q stepId e db =
     (let db1 = (if tq_runId q \<noteq> [] \<and> tq_callId q \<noteq> []
            then settle_call (tq_runId q, tq_callId q)
              (\<lambda>c. c\<lparr>tc_status := Call_failed, tc_error := Some (error_text e), tc_finishedAt := Some now\<rparr>) db
            else db);
          db2 = (case (e, stepId) of
              (Tool_failed message True, Some s) \<Rightarrow>
                db1\<lparr>gw_steps := fst (sql_update (\<lambda>x. as_id x = s) (\<lambda>x. x\<lparr>as_error := Some message\<rparr>) (gw_steps db1))\<rparr>
            | _ \<Rightarrow> db1)
      in (db2, [(stream, Msg_tool_error (tq_runId q) (tq_callId q)
           (''tool execution failed (call '' @ (if tq_callId q = [] then ''unknown'' else tq_callId q) @ '')''))]))"

text \<open>\<open>tool\<close> stands for \<open>executeTool\<close>; the last component says whether it was called.\<close>

definition handleToolRequest ::
  "elapsed_fn \<Rightarrow> schedule \<Rightarrow> (desk_id \<Rightarrow> string) \<Rightarrow> (string \<Rightarrow> jsval option) \<Rightarrow> (jsval \<Rightarrow> string) \<Rightarrow>
     (string \<Rightarrow> jsval \<Rightarrow> agent_run \<Rightarrow> run_environment \<Rightarrow> gateway_error + jsval) \<Rightarrow> ms \<Rightarrow> nat \<Rightarrow> string \<Rightarrow> tool_request \<Rightarrow>
     gateway \<Rightarrow> gateway_db \<Rightarrow> gateway_db \<times> outputs \<times> bool" where
  "handleToolRequest elapsed sched uuid json stringify tool now stream workerId request g db =
     (let q = request\<lparr>tq_callId := js_trim (tq_callId request)\<rparr> in
      case admit_request json now workerId q g db of
        (db1, Inl e) \<Rightarrow> (case refuse_call now stream q None e db1 of (db2, outs) \<Rightarrow> (db2, outs, False))
      | (db1, Inr (run, input, stepId)) \<Rightarrow>
     (case sql_insert_new call_key (new_call (tq_runId q, tq_callId q)) (gw_calls db1) of
        (_, False) \<Rightarrow>
          (case first_row (\<lambda>c. call_key c = (tq_runId q, tq_callId q)) (gw_calls db1) of
             None \<Rightarrow> (case refuse_call now stream q (Some stepId) (Tool_failed ''tool call ledger conflict without row'' False) db1 of
               (db2, outs) \<Rightarrow> (db2, outs, False))
           | Some c \<Rightarrow> (db1, [(stream, replayToolResult c)], False))
      | (calls, True) \<Rightarrow>
     (case first_tool elapsed sched uuid now run (db1\<lparr>gw_calls := calls\<rparr>) of
        Inl e \<Rightarrow> (case refuse_call now stream q (Some stepId) e (db1\<lparr>gw_calls := calls\<rparr>) of (db2, outs) \<Rightarrow> (db2, outs, False))
      | Inr db2 \<Rightarrow>
     (case tool (tq_toolName q) input run (loadRunEnvironment (env_of db2) (tq_runId q)) of
        Inl e \<Rightarrow> (case refuse_call now stream q (Some stepId) e db2 of (db3, outs) \<Rightarrow> (db3, outs, True))
      | Inr v \<Rightarrow>
          let failed = structured_failure v
          in (settle_call (tq_runId q, tq_callId q)
                (\<lambda>c. c\<lparr>tc_status := (if failed then Call_failed else Call_succeeded), tc_result := (if failed then JNull else v),
                   tc_error := (if failed then Some (stringify v) else None), tc_finishedAt := Some now\<rparr>) db2,
              [(stream, if failed then Msg_tool_error (tq_runId q) (tq_callId q) (stringify v) else Msg_tool_ok (tq_runId q) (tq_callId q) v)],
              True)))))"

section \<open>Restarting and starting\<close>

text \<open>The runs and tickets of \<open>reconcileOrphans\<close>.\<close>

definition orphaned :: "ms \<Rightarrow> agent_run \<Rightarrow> bool" where
  "orphaned now r \<longleftrightarrow> ag_status r = Run_running \<and> (case ag_leaseExpiresAt r of None \<Rightarrow> True | Some l \<Rightarrow> l < now)"

definition orphaned_ticket :: "status_transition list \<Rightarrow> string list \<Rightarrow> ticket \<Rightarrow> ticket" where
  "orphaned_ticket moves ids t =
     (case findTicketTransition moves (tk_status t) ''fail'' of
        None \<Rightarrow> t
      | Some to \<Rightarrow> if tk_id t \<in> set ids
          then t\<lparr>tk_status := to, tk_resolution := Some ''gateway restarted during run'', tk_progressMarker := Some PM_handing_to_person\<rparr>
          else t)"

definition reconcileOrphans :: "ms \<Rightarrow> gateway_db \<Rightarrow> gateway_db" where
  "reconcileOrphans now db =
     (case set_runs (orphaned now) (\<lambda>r. (fail_run ''gateway restarted during run'' now r)\<lparr>ag_leaseExpiresAt := None\<rparr>) db of
        (db1, []) \<Rightarrow> db1
      | (db1, hit) \<Rightarrow> set_desk (set_tickets (map (orphaned_ticket (dk_moves (gw_desk db1)) (map ag_ticketId hit)) (tickets_of (gw_desk db1)))
          (gw_desk db1)) db1)"

datatype start_outcome = Started agent_run | Left_to_human

definition latest_run :: "gateway_db \<Rightarrow> string \<Rightarrow> agent_run option" where
  "latest_run db ticketId =
     (case js_sort (\<lambda>a b. ag_startedAt b - ag_startedAt a) (filter (\<lambda>r. ag_ticketId r = ticketId) (gw_runs db)) of
        [] \<Rightarrow> None | r # _ \<Rightarrow> Some r)"

definition new_run :: "string \<Rightarrow> string option \<Rightarrow> ms \<Rightarrow> string \<Rightarrow> resolved_run_environment \<Rightarrow> agent_run" where
  "new_run runId startedBy now ticketId environment = \<lparr>ag_id = runId, ag_ticketId = ticketId, ag_startedById = startedBy,
     ag_status = Run_running, ag_model = None, ag_outcome = None, ag_workerId = None, ag_acceptedAt = None, ag_leaseExpiresAt = None,
     ag_environment = environment, ag_promptTokens = None, ag_completionTokens = None, ag_startedAt = now, ag_endedAt = None\<rparr>"

text \<open>The checks of \<open>startTicketRun\<close>; the status the ticket goes to and the environment of the run.\<close>

definition check_start :: "gateway \<Rightarrow> gateway_db \<Rightarrow> ticket \<Rightarrow> gateway_error + ticket_status \<times> resolved_run_environment" where
  "check_start g db t =
     (let conflict = (\<lambda>m. Inl (Desk_failed (Conflict m)))
      in case map_option ap_status (latest_approval (gw_desk db) (tk_id t)) of
           Some Approval_rejected \<Rightarrow> conflict ''This request was not approved''
         | Some Approval_waiting \<Rightarrow> conflict ''This request is waiting for approval''
         | _ \<Rightarrow>
             if \<exists>r\<in>set (gw_runs db). ag_ticketId r = tk_id t \<and> ag_status r = Run_running then conflict ''Ticket already has a running run''
             else if \<not> hasWorker g then Inl (Desk_failed (Unavailable ''Axel is not connected''))
             else if (case latest_run db (tk_id t) of None \<Rightarrow> False
                 | Some r \<Rightarrow> \<not> canRerun (dk_moves (gw_desk db)) (tk_status t) (Some (ag_status r)))
             then conflict ''Only failed or exhausted runs can be rerun''
             else case resolveTicketStatus (dk_moves (gw_desk db)) (tk_status t) ''startRun'' of
               Inl message \<Rightarrow> conflict message
             | Inr nextStatus \<Rightarrow>
                 (case resolveRunEnvironment (env_of db) (tk_id t) (tk_serviceId t) of
                    Inl e \<Rightarrow> Inl (Desk_failed Internal_error) | Inr environment \<Rightarrow> Inr (nextStatus, environment)))"

text \<open>The transaction that records the start, and the one that takes it back when the worker could not be reached.\<close>

definition start_transaction ::
  "elapsed_fn \<Rightarrow> schedule \<Rightarrow> (desk_id \<Rightarrow> string) \<Rightarrow> ms \<Rightarrow> ticket \<Rightarrow> ticket_status \<Rightarrow> agent_run \<Rightarrow> gateway_db \<Rightarrow> gateway_error + gateway_db" where
  "start_transaction elapsed sched uuid now t nextStatus run db =
     (case move_ticket elapsed sched uuid now (tk_id t) (tk_status t) nextStatus ''startRun'' (ag_id run)
         (\<lambda>x. x\<lparr>tk_progressMarker := Some PM_gathering_evidence\<rparr>) (gw_desk db) of
        Inl e \<Rightarrow> Inl (Desk_failed e)
      | Inr (_, False) \<Rightarrow> Inl (Desk_failed (Conflict ''Ticket changed while run was starting''))
      | Inr (d, True) \<Rightarrow> Inr (set_desk d (db\<lparr>gw_runs := gw_runs db @ [run]\<rparr>)))"

definition undo_start ::
  "elapsed_fn \<Rightarrow> schedule \<Rightarrow> string \<Rightarrow> ms \<Rightarrow> ticket \<Rightarrow> ticket_status \<Rightarrow> string \<Rightarrow> gateway_db \<Rightarrow> gateway_error + gateway_db" where
  "undo_start elapsed sched transitionId now t nextStatus runId db =
     (let db1 = fst (set_runs (\<lambda>r. ag_id r = runId \<and> ag_status r = Run_running) (fail_run ''agent dispatch failed'' now) db);
          ts = map (\<lambda>x. if tk_id x = tk_id t \<and> tk_status x = nextStatus
             then x\<lparr>tk_status := tk_status t, tk_progressMarker := tk_progressMarker t\<rparr> else x) (tickets_of (gw_desk db1));
          d1 = set_tickets ts (gw_desk db1);
          d2 = d1\<lparr>dk_transitions := filter (\<lambda>r. tr_id r \<noteq> transitionId) (dk_transitions d1)\<rparr>
      in case move_watches elapsed sched (tk_id t) (tk_status t) now d2 of
           Inl e \<Rightarrow> Inl (Desk_failed e) | Inr d3 \<Rightarrow> Inr (set_desk d3 db1))"

definition start_input :: "string \<Rightarrow> string \<Rightarrow> string \<Rightarrow> resolved_run_environment \<Rightarrow> ticket \<Rightarrow> run_input" where
  "start_input runId origin context environment t = \<lparr>ri_runId = runId, ri_ticketId = tk_id t, ri_title = tk_title t, ri_body = tk_body t,
     ri_reporterId = tk_reporterId t, ri_deviceId = tk_deviceId t, ri_contextJson = Some context,
     ri_recordType = Some (tk_recordType t), ri_impact = Some (tk_impact t), ri_urgency = Some (tk_urgency t),
     ri_priority = Some (tk_priority t), ri_origin = Some origin, ri_environmentKey = re_environmentKey environment\<rparr>"

text \<open>\<open>meanwhile\<close> is what others commit while the gateway tries to reach the worker.\<close>

definition startTicketRun ::
  "elapsed_fn \<Rightarrow> schedule \<Rightarrow> (desk_id \<Rightarrow> string) \<Rightarrow> (nat \<Rightarrow> bool) \<Rightarrow> (string \<Rightarrow> reporter_context) \<Rightarrow>
     (string \<Rightarrow> string option \<Rightarrow> string) \<Rightarrow> ms \<Rightarrow> (gateway_db \<Rightarrow> gateway_db) \<Rightarrow> string \<Rightarrow> string option \<Rightarrow> ticket \<Rightarrow> gateway \<Rightarrow> gateway_db \<Rightarrow>
     gateway \<times> gateway_db \<times> outputs \<times> (gateway_error + start_outcome)" where
  "startTicketRun elapsed sched uuid writes reporter context now meanwhile origin startedBy t g db =
     (if tk_route t = Some Route_human_triage \<or>
         routesToHuman (map fi_firing (filter (\<lambda>f. fi_ticketId f = tk_id t) (cd_firings (dk_core (gw_desk db)))))
      then (g, set_desk (add_audit [\<lparr>au_ticketId = tk_id t, au_fieldName = ''dispatch'', au_oldValue = JStr ''agent'',
             au_newValue = JStr ''human'', au_actorId = ''rule:settlement''\<rparr>] (gw_desk db)) db, [], Inr Left_to_human)
      else case check_start g db t of
        Inl e \<Rightarrow> (g, db, [], Inl e)
      | Inr (nextStatus, environment) \<Rightarrow>
     (case start_transaction elapsed sched uuid now t nextStatus (new_run (uuid Did_row) startedBy now (tk_id t) environment) db of
        Inl e \<Rightarrow> (g, db, [], Inl e)
      | Inr db1 \<Rightarrow>
     (case startRun writes reporter context now
         (start_input (uuid Did_row) origin (context (tk_id t) (tk_deviceId t)) environment t) g db1 of
        (g2, db2, outs, None) \<Rightarrow>
          (g2, db2, outs, case run_of db2 (uuid Did_row) of None \<Rightarrow> Inl (Desk_failed Internal_error) | Some r \<Rightarrow> Inr (Started r))
      | (g2, db2, outs, Some e) \<Rightarrow>
          (case undo_start elapsed sched (uuid Did_transition) now t nextStatus (uuid Did_row) (meanwhile db2) of
             Inl e' \<Rightarrow> (g2, meanwhile db2, outs, Inl e')
           | Inr db3 \<Rightarrow> (g2, db3, outs, Inl (Desk_failed (Unavailable (error_text e))))))))"

end
