(* ===== verification/GatewayRuns.thy ===== *)
theory GatewayRuns
  imports Gateway
begin

text \<open>
  What the gateway guarantees of its runs and tool calls. The operations of \<open>Gateway\<close> are the rules of a step relation,
  with every time, message and answer left open, and everything else that happens on the desk is one more rule; what holds
  of its traces is proved by rule induction.
\<close>

section \<open>The steps of the gateway\<close>

type_synonym gateway_state = "gateway \<times> gateway_db"

text \<open>The label is the tool call that a step executes, if it does.\<close>

inductive gateway_step :: "gateway_state \<Rightarrow> (string \<times> string) option \<Rightarrow> gateway_state \<Rightarrow> bool" where
  step_register: "register_agent ok stream generation w model g = Inr g' \<Longrightarrow> gateway_step (g, db) None (g', db)"
| step_remove: "gateway_step (g, db) None (removeAgent w generation g, db)"
| step_start: "startTicketRun elapsed sched uuid writes reporter context now (\<lambda>d. d) origin startedBy t g db = (g', db', outs, res) \<Longrightarrow>
    uuid Did_row \<notin> ag_id ` set (gw_runs db) \<Longrightarrow> gateway_step (g, db) None (g', db')"
| step_cancel: "cancelRun elapsed sched uuid now i reason before g db = (g', db', outs, e) \<Longrightarrow> gateway_step (g, db) None (g', db')"
| step_accept: "renewRunLease now i w True db = Inr db' \<Longrightarrow> gateway_step (g, db) None (g, db')"
| step_update: "persistRunUpdate elapsed sched uuid now stream w u g db = (g', db', outs, e, fin) \<Longrightarrow>
    gateway_step (g, db) None (g', db')"
| step_tool: "handleToolRequest elapsed sched uuid json stringify tool now stream w q g db = (db', outs, executed) \<Longrightarrow>
    gateway_step (g, db) (if executed then Some (tq_runId q, js_trim (tq_callId q)) else None) (g, db')"
| step_restart: "gateway_step (g, db) None (g', reconcileOrphans now db)"
| step_desk: "gateway_step (g, db) None (g, set_desk d db)"

text \<open>A trace and the tool calls it executes, in order.\<close>

inductive gateway_trace :: "gateway_state \<Rightarrow> (string \<times> string) list \<Rightarrow> gateway_state \<Rightarrow> bool" where
  trace_done: "gateway_trace s [] s"
| trace_more: "gateway_step s l s1 \<Longrightarrow> gateway_trace s1 ks s2 \<Longrightarrow> gateway_trace s ((case l of None \<Rightarrow> ks | Some k \<Rightarrow> k # ks)) s2"

section \<open>The frames of the operations\<close>

lemma set_runs_eq: "set_runs P f db = (db\<lparr>gw_runs := map (\<lambda>r. if P r then f r else r) (gw_runs db)\<rparr>, map f (filter P (gw_runs db)))"
  by (simp add: set_runs_def sql_update_def)

lemma set_desk_simps [simp]:
  "gw_runs (set_desk d db) = gw_runs db" "gw_calls (set_desk d db) = gw_calls db" "gw_steps (set_desk d db) = gw_steps db"
  "gw_env (set_desk d db) = gw_env db" "gw_desk (set_desk d db) = d"
  by (simp_all add: set_desk_def)

text \<open>What may become of the runs: a row that is not running stays, ids stay, and a row that is added has a new id.\<close>

definition runs_kept :: "agent_run list \<Rightarrow> agent_run list \<Rightarrow> bool" where
  "runs_kept rs rs' \<longleftrightarrow> (\<forall>r\<in>set rs. ag_status r \<noteq> Run_running \<longrightarrow> r \<in> set rs')"

definition running_tickets :: "agent_run list \<Rightarrow> string list" where
  "running_tickets rs = map ag_ticketId (filter (\<lambda>r. ag_status r = Run_running) rs)"

lemma runs_kept_refl [simp]: "runs_kept rs rs"
  by (simp add: runs_kept_def)

lemma runs_kept_trans: "runs_kept a b \<Longrightarrow> runs_kept b c \<Longrightarrow> runs_kept a c"
  by (simp add: runs_kept_def)

lemma runs_kept_map:
  "(\<And>r. r \<in> set rs \<Longrightarrow> P r \<Longrightarrow> ag_status r = Run_running) \<Longrightarrow> runs_kept rs (map (\<lambda>r. if P r then f r else r) rs)"
  by (force simp: runs_kept_def)

lemma runs_kept_append: "runs_kept rs rs' \<Longrightarrow> runs_kept rs (rs' @ xs)"
  by (auto simp: runs_kept_def)

text \<open>An update that starts no run.\<close>

definition starts_none :: "agent_run list \<Rightarrow> agent_run list \<Rightarrow> bool" where
  "starts_none rs rs' \<longleftrightarrow> list_all2 (\<lambda>r r'. ag_ticketId r' = ag_ticketId r \<and> ag_id r' = ag_id r \<and>
     (ag_status r' = Run_running \<longrightarrow> ag_status r = Run_running)) rs rs'"

lemma starts_none_refl [simp]: "starts_none rs rs"
  by (simp add: starts_none_def list_all2_refl)

lemma starts_none_trans: "starts_none a b \<Longrightarrow> starts_none b c \<Longrightarrow> starts_none a c"
  unfolding starts_none_def by (auto simp: list_all2_conv_all_nth)

lemma starts_none_map:
  "(\<And>r. r \<in> set rs \<Longrightarrow> P r \<Longrightarrow> ag_ticketId (f r) = ag_ticketId r \<and> ag_id (f r) = ag_id r \<and>
     (ag_status (f r) = Run_running \<longrightarrow> ag_status r = Run_running)) \<Longrightarrow>
   starts_none rs (map (\<lambda>r. if P r then f r else r) rs)"
  unfolding starts_none_def by (simp add: list_all2_conv_all_nth)

lemma starts_none_sub: "starts_none rs rs' \<Longrightarrow> set (running_tickets rs') \<subseteq> set (running_tickets rs)"
  unfolding starts_none_def running_tickets_def by (induction rule: list_all2_induct) auto

lemma starts_none_running: "starts_none rs rs' \<Longrightarrow> distinct (running_tickets rs) \<Longrightarrow> distinct (running_tickets rs')"
  unfolding starts_none_def
proof (induction rule: list_all2_induct)
  case (Cons r rs r' rs')
  then have "set (running_tickets rs') \<subseteq> set (running_tickets rs)" using starts_none_sub unfolding starts_none_def by blast
  with Cons show ?case by (auto simp: running_tickets_def split: if_splits)
qed simp

lemma starts_none_ids: "starts_none rs rs' \<Longrightarrow> map ag_id rs' = map ag_id rs"
  unfolding starts_none_def by (induction rule: list_all2_induct) auto

definition call_keys :: "gateway_db \<Rightarrow> (string \<times> string) set" where
  "call_keys db = call_key ` set (gw_calls db)"

text \<open>The two together, and the ledger of tool calls, which loses no row.\<close>

definition calm :: "gateway_db \<Rightarrow> gateway_db \<Rightarrow> bool" where
  "calm db db' \<longleftrightarrow> runs_kept (gw_runs db) (gw_runs db') \<and> starts_none (gw_runs db) (gw_runs db') \<and> call_keys db \<subseteq> call_keys db'"

lemma calm_refl [simp]: "calm db db"
  by (simp add: calm_def)

lemma calm_trans: "calm a b \<Longrightarrow> calm b c \<Longrightarrow> calm a c"
  unfolding calm_def using runs_kept_trans starts_none_trans by blast

lemma calm_same: "gw_runs db' = gw_runs db \<Longrightarrow> gw_calls db' = gw_calls db \<Longrightarrow> calm db db'"
  by (simp add: calm_def call_keys_def)

lemma calm_set_desk [simp]: "calm db (set_desk d db)" "calm db (set_desk d db') \<longleftrightarrow> calm db db'"
  by (simp_all add: calm_def call_keys_def)

lemma calm_set_runs:
  assumes "\<And>r. r \<in> set (gw_runs db) \<Longrightarrow> P r \<Longrightarrow> ag_status r = Run_running \<and> ag_ticketId (f r) = ag_ticketId r \<and> ag_id (f r) = ag_id r"
  shows "calm db (fst (set_runs P f db))"
  using assms by (auto simp: calm_def set_runs_eq call_keys_def intro!: runs_kept_map starts_none_map)

lemma calm_settle [simp]: "(\<And>c. call_key (f c) = call_key c) \<Longrightarrow> calm db (settle_call k f db)"
  by (auto simp: calm_def settle_call_def call_keys_def sql_update_def image_iff Bex_def) metis

section \<open>The operations in the frame\<close>

lemma set_runs_calm:
  assumes "set_runs P f db = (db', hit)"
    and "\<And>r. P r \<Longrightarrow> ag_status r = Run_running \<and> ag_ticketId (f r) = ag_ticketId r \<and> ag_id (f r) = ag_id r"
  shows "calm db db'"
  using calm_set_runs [of db P f] assms by force

lemma renew_calm: "renewRunLease now i w a db = Inr db' \<Longrightarrow> calm db db'"
  unfolding renewRunLease_def by (auto split: prod.splits list.splits elim!: set_runs_calm)

lemma cancel_transaction_calm:
  assumes "cancel_transaction elapsed sched uuid now i reason before db = Inr (Some db')"
  shows "calm db db'"
proof -
  define P where "P r \<longleftrightarrow> ag_id r = i \<and> ag_status r = Run_running \<and> (case before of None \<Rightarrow> True
    | Some b \<Rightarrow> (case ag_leaseExpiresAt r of None \<Rightarrow> False | Some l \<Rightarrow> l < b))" for r :: agent_run
  obtain db1 hit where hit: "set_runs P (\<lambda>r. (fail_run reason now r)\<lparr>ag_leaseExpiresAt := None\<rparr>) db = (db1, hit)" by fastforce
  have "calm db db1" using hit by (rule set_runs_calm) (simp add: P_def fail_run_def)
  then show ?thesis using assms hit unfolding cancel_transaction_def P_def [abs_def]
    by (auto simp: Let_def split: list.splits sum.splits prod.splits option.split_asm)
qed

lemma cancelRun_calm: "cancelRun elapsed sched uuid now i reason before g db = (g', db', outs, e) \<Longrightarrow> calm db db'"
  unfolding cancelRun_def by (auto split: sum.splits option.splits dest: cancel_transaction_calm)

lemma terminal_transaction_calm: "terminal_transaction elapsed sched uuid now u status code db = Inr db' \<Longrightarrow> calm db db'"
  unfolding terminal_transaction_def
  by (auto simp: Let_def finish_run_def split: prod.splits list.splits option.splits sum.splits bool.splits elim!: set_runs_calm)

lemma terminal_update_calm: "terminal_update elapsed sched uuid now stream u g db = (g', db', outs, e, fin) \<Longrightarrow> calm db db'"
  unfolding terminal_update_def
  by (auto split: if_splits sum.splits option.splits dest: terminal_transaction_calm)

lemma persistRunUpdate_calm:
  assumes "persistRunUpdate elapsed sched uuid now stream w u g db = (g', db', outs, e, fin)"
  shows "calm db db'"
proof (cases "map_of (ga_runAgents g) (ru_runId u) = Some w")
  case False
  then show ?thesis using assms by (auto simp: persistRunUpdate_def split: if_splits)
next
  case True
  show ?thesis
  proof (cases "renewRunLease now (ru_runId u) w False db")
    case (Inl e) then show ?thesis using assms True by (simp add: persistRunUpdate_def)
  next
    case (Inr db1)
    have steps: "calm db1 (db1\<lparr>gw_steps := x\<rparr>)" for x by (rule calm_same) simp_all
    from Inr assms True have "calm db1 db'"
      by (auto simp: persistRunUpdate_def Let_def split: option.splits if_splits
          dest!: terminal_update_calm intro: calm_trans [OF steps])
    with renew_calm [OF Inr] show ?thesis by (rule calm_trans)
  qed
qed

lemma calm_reconcile: "calm db (reconcileOrphans now db)"
  unfolding reconcileOrphans_def
  by (auto simp: fail_run_def orphaned_def split: prod.splits list.splits elim!: set_runs_calm)

lemma startRun_calm: "startRun writes reporter context now input g db = (g', db', outs, e) \<Longrightarrow> calm db db'"
  unfolding startRun_def
  by (auto simp: fail_run_def split: prod.splits option.splits list.splits if_splits
      elim!: set_runs_calm intro!: calm_trans [OF _ calm_set_runs])

lemma undo_start_calm: "undo_start elapsed sched tid now t nextStatus i db = Inr db' \<Longrightarrow> calm db db'"
  unfolding undo_start_def
  by (auto simp: Let_def fail_run_def split: sum.splits intro!: calm_set_runs)

lemma admit_calm: "admit_request json now w q g db = (db', r) \<Longrightarrow> calm db db'"
  unfolding admit_request_def by (auto split: if_splits sum.splits option.splits dest: renew_calm)

lemma refuse_calm: "refuse_call now stream q stepId e db = (db', outs) \<Longrightarrow> calm db db'"
proof -
  have settle: "calm db (settle_call k (\<lambda>c. c\<lparr>tc_status := Call_failed, tc_error := m, tc_finishedAt := n\<rparr>) db)" for k m n
    by (rule calm_settle) (simp add: call_key_def)
  have steps: "calm db d \<Longrightarrow> calm db (d\<lparr>gw_steps := x\<rparr>)" for d x by (simp add: calm_def call_keys_def)
  show "refuse_call now stream q stepId e db = (db', outs) \<Longrightarrow> calm db db'"
    unfolding refuse_call_def
    by (auto simp: Let_def settle steps split: gateway_error.splits option.splits bool.splits if_splits)
qed

lemma first_tool_desk: "first_tool elapsed sched uuid now run db = Inr db' \<Longrightarrow> \<exists>d. db' = set_desk d db"
  unfolding first_tool_def
  by (auto split: option.splits sum.splits prod.splits) (metis gateway_db.surjective set_desk_def gateway_db.update_convs(1))

lemma insert_call:
  assumes "sql_insert_new call_key (new_call k) (gw_calls db) = (calls, True)"
  shows "k \<notin> call_keys db" "calm db (db\<lparr>gw_calls := calls\<rparr>)" "k \<in> call_keys (db\<lparr>gw_calls := calls\<rparr>)"
  using assms by (auto simp: sql_insert_new_def calm_def call_keys_def call_key_def new_call_def split: if_splits)

lemma calm_keys: "calm a b \<Longrightarrow> k \<in> call_keys a \<Longrightarrow> k \<in> call_keys b"
  by (auto simp: calm_def)

lemma handle_frame:
  assumes "handleToolRequest elapsed sched uuid json stringify tool now stream w q g db = (db', outs, executed)"
  shows "calm db db'" and "executed \<Longrightarrow> (tq_runId q, js_trim (tq_callId q)) \<notin> call_keys db \<and> (tq_runId q, js_trim (tq_callId q)) \<in> call_keys db'"
proof -
  define p where "p = q\<lparr>tq_callId := js_trim (tq_callId q)\<rparr>"
  define k where "k = (tq_runId p, tq_callId p)"
  have key: "(tq_runId q, js_trim (tq_callId q)) = k" by (simp add: k_def p_def)
  note h = assms [unfolded handleToolRequest_def Let_def, folded p_def, folded k_def]
  obtain db1 r where adm: "admit_request json now w p g db = (db1, r)" by fastforce
  have c1: "calm db db1" using adm by (rule admit_calm)
  have "calm db db' \<and> (executed \<longrightarrow> k \<notin> call_keys db \<and> k \<in> call_keys db')"
  proof (cases r)
    case (Inl e)
    then show ?thesis using h adm c1 by (auto split: prod.splits dest!: refuse_calm intro: calm_trans)
  next
    case (Inr a)
    obtain run input stepId where a: "a = (run, input, stepId)" by (cases a) auto
    obtain calls won where ins: "sql_insert_new call_key (new_call k) (gw_calls db1) = (calls, won)" by fastforce
    show ?thesis
    proof (cases won)
      case False
      then show ?thesis using h adm Inr a ins c1
        by (auto split: option.splits prod.splits dest!: refuse_calm intro: calm_trans)
    next
      case True
      have "sql_insert_new call_key (new_call k) (gw_calls db1) = (calls, True)" using ins True by simp
      note new = insert_call [OF this]
      define db2 where "db2 = db1\<lparr>gw_calls := calls\<rparr>"
      have fresh: "k \<notin> call_keys db" using new(1) c1 calm_keys by blast
      have c2: "calm db db2" and k2: "k \<in> call_keys db2" using new(2,3) c1 unfolding db2_def by (auto intro: calm_trans)
      have step: "calm db2 d \<Longrightarrow> calm db d \<and> k \<in> call_keys d" for d using c2 k2 calm_trans calm_keys by blast
      show ?thesis
      proof (cases "first_tool elapsed sched uuid now run db2")
        case (Inl e)
        then show ?thesis using h adm Inr a ins True step fresh
          by (auto simp flip: db2_def split: prod.splits dest!: refuse_calm)
      next
        case (Inr db3)
        obtain d where d: "db3 = set_desk d db2" using first_tool_desk [OF Inr] by blast
        have c3: "calm db2 db3" by (simp add: d)
        show ?thesis using h adm \<open>r = Inr a\<close> a ins True Inr step fresh
          by (auto simp flip: db2_def simp: call_key_def Let_def split: sum.splits prod.splits
              dest!: refuse_calm intro!: step calm_trans [OF c3] calm_settle)
      qed
    qed
  qed
  then show "calm db db'" and "executed \<Longrightarrow> (tq_runId q, js_trim (tq_callId q)) \<notin> call_keys db \<and> (tq_runId q, js_trim (tq_callId q)) \<in> call_keys db'"
    unfolding key by auto
qed

text \<open>The start of a run adds one run, of a ticket that has no running one.\<close>

lemma check_start_Inr: "check_start g db t = Inr r \<Longrightarrow> tk_id t \<notin> set (running_tickets (gw_runs db))"
  unfolding check_start_def running_tickets_def
  by (auto simp: Let_def split: option.splits if_splits sum.splits approval_status.splits)

lemma start_transaction_Inr:
  "start_transaction elapsed sched uuid now t st run db = Inr db' \<Longrightarrow> \<exists>d. db' = set_desk d (db\<lparr>gw_runs := gw_runs db @ [run]\<rparr>)"
  unfolding start_transaction_def by (auto split: sum.splits prod.splits bool.splits)

definition started :: "agent_run \<Rightarrow> gateway_db \<Rightarrow> gateway_db \<Rightarrow> bool" where
  "started r db db' \<longleftrightarrow> ag_ticketId r \<notin> set (running_tickets (gw_runs db)) \<and> calm (db\<lparr>gw_runs := gw_runs db @ [r]\<rparr>) db'"

lemma start_frame:
  assumes "startTicketRun elapsed sched uuid writes reporter context now (\<lambda>d. d) origin startedBy t g db = (g', db', outs, res)"
  shows "calm db db' \<or> (\<exists>r. ag_id r = uuid Did_row \<and> started r db db')"
proof (cases "tk_route t = Some Route_human_triage \<or>
    routesToHuman (map fi_firing (filter (\<lambda>f. fi_ticketId f = tk_id t) (cd_firings (dk_core (gw_desk db)))))")
  case True
  then show ?thesis using assms by (auto simp: startTicketRun_def)
next
  case False
  note s = assms [unfolded startTicketRun_def if_not_P [OF False]]
  show ?thesis
  proof (cases "check_start g db t")
    case (Inl e) then show ?thesis using s by simp
  next
    case (Inr a)
    obtain st environment where a: "a = (st, environment)" by fastforce
    define run where "run = new_run (uuid Did_row) startedBy now (tk_id t) environment"
    have run: "ag_id run = uuid Did_row" "ag_ticketId run = tk_id t" by (simp_all add: run_def new_run_def)
    note none = check_start_Inr [OF Inr]
    show ?thesis
    proof (cases "start_transaction elapsed sched uuid now t st run db")
      case (Inl e) then show ?thesis using s \<open>check_start g db t = Inr a\<close> by (simp add: a run_def)
    next
      case (Inr db1)
      obtain d where d: "db1 = set_desk d (db\<lparr>gw_runs := gw_runs db @ [run]\<rparr>)" using start_transaction_Inr [OF Inr] by blast
      have started: "calm db1 d' \<Longrightarrow> started run db d'" for d'
        using none run unfolding started_def d by (auto simp: calm_def call_keys_def)
      obtain g2 db2 outs2 e where sr: "startRun writes reporter context now
          (start_input (uuid Did_row) origin (context (tk_id t) (tk_deviceId t)) environment t) g db1 = (g2, db2, outs2, e)"
        by (metis prod_cases4)
      have c2: "calm db1 db2" using sr by (rule startRun_calm)
      have "calm db1 db'"
        using s \<open>check_start g db t = Inr a\<close> Inr sr c2 unfolding a run_def
        by (auto split: option.splits sum.splits dest!: undo_start_calm intro: calm_trans)
      then show ?thesis using started run by blast
    qed
  qed
qed

lemma started_running:
  assumes "started r db db'" and "distinct (running_tickets (gw_runs db))"
  shows "distinct (running_tickets (gw_runs db'))" "runs_kept (gw_runs db) (gw_runs db')" "call_keys db \<subseteq> call_keys db'"
proof -
  have "distinct (running_tickets (gw_runs db @ [r]))" using assms unfolding started_def by (simp add: running_tickets_def)
  then show "distinct (running_tickets (gw_runs db'))"
    using assms(1) starts_none_running unfolding started_def calm_def by fastforce
  show "runs_kept (gw_runs db) (gw_runs db')" using assms(1) unfolding started_def calm_def
    by (auto intro: runs_kept_trans [OF runs_kept_append [OF runs_kept_refl]])
  show "call_keys db \<subseteq> call_keys db'" using assms(1) unfolding started_def calm_def by (auto simp: call_keys_def)
qed

section \<open>Traces\<close>

definition run_ids :: "gateway_db \<Rightarrow> string list" where
  "run_ids db = map ag_id (gw_runs db)"

lemma calm_ids: "calm db db' \<Longrightarrow> run_ids db' = run_ids db"
  unfolding calm_def run_ids_def by (blast dest: starts_none_ids)

definition one_running :: "gateway_db \<Rightarrow> bool" where
  "one_running db \<longleftrightarrow> distinct (running_tickets (gw_runs db)) \<and> distinct (run_ids db)"

lemma calm_one: "calm db db' \<Longrightarrow> one_running db \<Longrightarrow> one_running db'"
  unfolding one_running_def using calm_ids starts_none_running by (auto simp: calm_def)

inductive_cases gateway_stepE: "gateway_step (g, db) l (g', db')"

lemma step_frame:
  assumes "gateway_step s l s'" and "one_running (snd s)"
  shows "one_running (snd s') \<and> runs_kept (gw_runs (snd s)) (gw_runs (snd s')) \<and> call_keys (snd s) \<subseteq> call_keys (snd s') \<and>
    (\<forall>k. l = Some k \<longrightarrow> k \<notin> call_keys (snd s) \<and> k \<in> call_keys (snd s'))"
proof -
  have calm: "calm (snd s) d \<Longrightarrow> one_running d \<and> runs_kept (gw_runs (snd s)) (gw_runs d) \<and> call_keys (snd s) \<subseteq> call_keys d" for d
    using assms(2) calm_one by (auto simp: calm_def)
  show ?thesis using assms(1) calm
  proof cases
    case (step_start elapsed sched uuid writes reporter ctx now origin startedBy t g db g' db' outs res)
    consider "calm db db'" | r where "ag_id r = uuid Did_row" "started r db db'" using start_frame [OF step_start(4)] by blast
    then show ?thesis
    proof cases
      case 1 then show ?thesis using calm step_start by simp
    next
      case 2
      have "run_ids db' = run_ids db @ [ag_id r]" using 2(2) calm_ids unfolding started_def by (auto simp: run_ids_def)
      then have "distinct (run_ids db')" using assms(2) step_start 2(1) by (auto simp: one_running_def run_ids_def)
      then show ?thesis using started_running [OF 2(2)] assms(2) step_start unfolding one_running_def by auto
    qed
  next
    case (step_tool elapsed sched uuid json stringify tool now stream w q g db db' outs executed)
    show ?thesis using calm handle_frame [OF step_tool(4)] step_tool by (auto split: if_splits)
  qed (auto dest!: cancelRun_calm renew_calm persistRunUpdate_calm simp: calm_reconcile)
qed

lemma trace_frame:
  assumes "gateway_trace s ks s'"
  shows "one_running (snd s) \<Longrightarrow> one_running (snd s') \<and> runs_kept (gw_runs (snd s)) (gw_runs (snd s')) \<and>
    call_keys (snd s) \<subseteq> call_keys (snd s') \<and> distinct ks \<and> set ks \<inter> call_keys (snd s) = {} \<and> set ks \<subseteq> call_keys (snd s')"
  using assms
proof (induction rule: gateway_trace.induct)
  case (trace_done s) then show ?case by simp
next
  case (trace_more s l s1 ks s2)
  note st = step_frame [OF trace_more(1,4)]
  then have "one_running (snd s1)" by simp
  note tr = trace_more(3) [OF this]
  show ?case using st tr runs_kept_trans by (cases l) auto
qed


text \<open>
  C4. However often a worker repeats a tool call, after a lost answer, a reconnection or a restart of the gateway, the tool
  runs at most once for one call of one run, and never for a call that was in the ledger before.
\<close>

theorem gateway_calls_once:
  assumes "gateway_trace (g, db) ks (g', db')" and "one_running db"
  shows "distinct ks \<and> (\<forall>c\<in>set (gw_calls db). call_key c \<notin> set ks) \<and> set ks \<subseteq> call_key ` set (gw_calls db')"
  using trace_frame [OF assms(1)] assms(2) by (auto simp: call_keys_def)

section \<open>A sample gateway\<close>

text \<open>The status changes that the first migration ships.\<close>

definition shipped_moves :: "status_transition list" where
  "shipped_moves = map (\<lambda>(from, action, to). \<lparr>st_fromStatus = from, st_action = action, st_toStatus = to\<rparr>)
    [(''open'', ''startRun'', ''routing''), (''open'', ''reclassify'', ''open''), (''open'', ''assign'', ''open''),
     (''open'', ''add_detail'', ''open''), (''open'', ''pend'', ''pending''), (''routing'', ''firstTool'', ''resolving''),
     (''routing'', ''reclassify'', ''routing''), (''routing'', ''assign'', ''routing''), (''routing'', ''add_detail'', ''routing''),
     (''routing'', ''pend'', ''pending''), (''resolving'', ''resolve'', ''resolved''), (''resolving'', ''reclassify'', ''resolving''),
     (''resolving'', ''assign'', ''resolving''), (''resolving'', ''add_detail'', ''resolving''), (''resolving'', ''escalate'', ''escalated''),
     (''resolving'', ''fail'', ''escalated''), (''resolving'', ''exhaust'', ''escalated''), (''resolving'', ''pend'', ''pending''),
     (''pending'', ''unpend'', ''open''), (''pending'', ''add_detail'', ''pending''), (''pending'', ''resolve'', ''resolved''),
     (''resolved'', ''close'', ''closed''), (''resolved'', ''escalate'', ''escalated''), (''resolved'', ''reclassify'', ''resolved''),
     (''resolved'', ''assign'', ''resolved''), (''escalated'', ''startRun'', ''routing''), (''escalated'', ''close'', ''closed''),
     (''escalated'', ''escalate'', ''escalated''), (''escalated'', ''reclassify'', ''escalated''), (''escalated'', ''assign'', ''escalated''),
     (''closed'', ''reopen'', ''open'')]"

definition sample_gateway_db :: gateway_db where
  "sample_gateway_db = \<lparr>gw_desk = (set_tickets [sample_ticket\<lparr>tk_deviceId := Some ''d1''\<rparr>] sample_desk)\<lparr>dk_moves := shipped_moves\<rparr>,
     gw_env = sample_environment_db, gw_runs = [], gw_steps = [], gw_calls = []\<rparr>"

definition sample_gateway :: gateway where
  "sample_gateway = \<lparr>ga_agents = [(''w1'', \<lparr>ac_stream = 1, ac_model = ''m'', ac_generation = 1\<rparr>)], ga_agentOrder = [''w1''],
     ga_nextAgent = 0, ga_runAgents = []\<rparr>"

definition sample_start :: "gateway \<times> gateway_db \<times> outputs \<times> (gateway_error + start_outcome)" where
  "sample_start = startTicketRun (\<lambda>_ _ _. Inr 0) alone (sample_did ''1'') (\<lambda>_. True)
     (readReporterContext [] []) (\<lambda>_ _. ''{}'') 1000 (\<lambda>d. d) ''portal'' None
     (sample_ticket\<lparr>tk_deviceId := Some ''d1''\<rparr>) sample_gateway sample_gateway_db"

definition sample_run_update :: run_update where
  "sample_run_update = \<lparr>ru_runId = ''1r'', ru_ordinal = 1, ru_kind = Some 2, ru_reasoning = [], ru_toolName = ''kubectl'',
     ru_toolInput = JNull, ru_toolOutput = JNull, ru_error = [], ru_evidence = [], ru_notice = [], ru_tone = None, ru_status = [],
     ru_outcome = [], ru_resolutionCode = [], ru_model = [], ru_promptTokens = 0, ru_completionTokens = 0\<rparr>"

definition sample_persist ::
  "run_update \<Rightarrow> gateway \<times> gateway_db \<Rightarrow> gateway \<times> gateway_db \<times> outputs \<times> gateway_error option \<times> (string \<times> run_status) option" where
  "sample_persist u = (\<lambda>(g, db). persistRunUpdate (\<lambda>_ _ _. Inr 0) alone (sample_did ''2'') 2000 1 ''w1'' u g db)"

definition sample_request :: tool_request where
  "sample_request = \<lparr>tq_runId = ''1r'', tq_callId = ''c1 '', tq_toolName = ''kubectl'', tq_inputJson = ''{}'', tq_sourceStepOrdinal = Some 1\<rparr>"

definition sample_tool :: "string \<Rightarrow> tool_request \<Rightarrow> gateway \<times> gateway_db \<Rightarrow> gateway_db \<times> outputs \<times> bool" where
  "sample_tool w q = (\<lambda>(g, db). handleToolRequest (\<lambda>_ _ _. Inr 0) alone (sample_did ''3'') (\<lambda>_. Some (JObj [])) (\<lambda>_. ''{}'') (\<lambda>_ _ _ _. Inr (JStr ''pods''))
     3000 1 w q g db)"

definition sample_started :: "gateway \<times> gateway_db" where
  "sample_started = (case sample_start of (g, db, _) \<Rightarrow> (g, db))"

definition sample_stepped :: "gateway \<times> gateway_db" where
  "sample_stepped = (case sample_persist sample_run_update sample_started of (g, db, _) \<Rightarrow> (g, db))"

definition sample_called :: "gateway \<times> gateway_db" where
  "sample_called = (case sample_stepped of (g, db) \<Rightarrow> (g, fst (sample_tool ''w1'' sample_request (g, db))))"

definition sample_recalled :: "gateway \<times> gateway_db" where
  "sample_recalled = (case sample_called of (g, db) \<Rightarrow> (g, fst (sample_tool ''w1'' sample_request (g, db))))"

lemma sample_calls:
  "(case sample_tool ''w1'' sample_request sample_stepped of (_, _, executed) \<Rightarrow> executed)"
  "(case sample_tool ''w1'' sample_request sample_called of (_, outs, executed) \<Rightarrow>
     outs = [(1, Msg_tool_ok ''1r'' ''c1'' (JStr ''pods''))] \<and> \<not> executed)"
  by code_simp+

lemma sample_trace: "gateway_trace (sample_gateway, sample_gateway_db) [(''1r'', ''c1'')] sample_recalled"
proof -
  obtain g1 db1 outs1 res where st: "sample_start = (g1, db1, outs1, res)" by (cases sample_start) auto
  have s1: "gateway_step (sample_gateway, sample_gateway_db) None sample_started"
    unfolding sample_started_def st prod.case
    by (rule gateway_step.step_start [OF st [unfolded sample_start_def]]) (simp add: sample_gateway_db_def)
  have g1: "sample_started = (g1, db1)" by (simp add: sample_started_def st)
  obtain g2 db2 outs2 e fin where up: "sample_persist sample_run_update (g1, db1) = (g2, db2, outs2, e, fin)" by (metis prod.collapse)
  have g2: "sample_stepped = (g2, db2)" by (simp add: sample_stepped_def g1 up)
  have s2: "gateway_step sample_started None sample_stepped"
    unfolding g1 g2 by (rule gateway_step.step_update [OF up [unfolded sample_persist_def prod.case]])
  have tool: "sample_tool w q (g, db) = (db', outs, executed) \<Longrightarrow>
      gateway_step (g, db) (if executed then Some (tq_runId q, js_trim (tq_callId q)) else None) (g, db')" for w q g db db' outs executed
    unfolding sample_tool_def prod.case by (rule gateway_step.step_tool)
  obtain db3 outs3 where c3: "sample_tool ''w1'' sample_request (g2, db2) = (db3, outs3, True)"
    using sample_calls(1) unfolding g2 by (auto split: prod.splits)
  have g3: "sample_called = (g2, db3)" by (simp add: sample_called_def g2 c3)
  obtain db4 outs4 where c4: "sample_tool ''w1'' sample_request (g2, db3) = (db4, outs4, False)"
    using sample_calls(2) unfolding g3 by (auto split: prod.splits)
  have g4: "sample_recalled = (g2, db4)" by (simp add: sample_recalled_def g3 c4)
  have key: "(tq_runId sample_request, js_trim (tq_callId sample_request)) = (''1r'', ''c1'')" by code_simp
  have s3: "gateway_step sample_stepped (Some (''1r'', ''c1'')) sample_called" using tool [OF c3] key by (simp add: g2 g3)
  have s4: "gateway_step sample_called None sample_recalled" using tool [OF c4] by (simp add: g3 g4)
  show ?thesis
    using trace_more [OF s1 trace_more [OF s2 trace_more [OF s3 trace_more [OF s4 trace_done]]]] by simp
qed

lemma sample_one_running: "one_running sample_gateway_db"
  by (simp add: one_running_def sample_gateway_db_def running_tickets_def run_ids_def)


theorem gateway_calls_once_witness:
  "distinct [(''1r'', ''c1'')] \<and> (''1r'', ''c1'') \<in> call_key ` set (gw_calls (snd sample_recalled))"
  using gateway_calls_once [of sample_gateway sample_gateway_db _ "fst sample_recalled" "snd sample_recalled", unfolded prod.collapse,
      OF sample_trace sample_one_running] by simp

end
