(* ===== verification/GatewayLimits.thy ===== *)
theory GatewayLimits
  imports GatewayRuns
begin

text \<open>
  The gateway's operations one by one: what a worker that was not given a run can do, how a terminal update is repeated, how
  workers take turns, which device a tool may touch, and the runs that can never end.
\<close>

section \<open>Finding a run\<close>

lemma run_of_set_runs:
  "(\<And>r. ag_id (f r) = ag_id r) \<Longrightarrow> run_of (fst (set_runs P f db)) i = map_option (\<lambda>r. if P r then f r else r) (run_of db i)"
  unfolding run_of_def set_runs_eq by (simp add: first_row_map)

lemma run_of_set_desk [simp]: "run_of (set_desk d db) i = run_of db i"
  by (simp add: run_of_def)

lemma run_of_SomeD: "run_of db i = Some r \<Longrightarrow> r \<in> set (gw_runs db) \<and> ag_id r = i"
  unfolding run_of_def by (rule first_row_SomeD)

lemma run_of_unique:
  assumes "distinct (run_ids db)" and "r \<in> set (gw_runs db)"
  shows "run_of db (ag_id r) = Some r"
proof -
  obtain r' where r': "run_of db (ag_id r) = Some r'"
    using assms(2) by (cases "run_of db (ag_id r)") (auto simp: run_of_def first_row_None_iff)
  then have "r' = r" using run_of_SomeD [OF r'] assms unfolding run_ids_def distinct_map inj_on_def by blast
  with r' show ?thesis by simp
qed

text \<open>A transaction that hits the run it names.\<close>

lemma set_runs_hits:
  assumes "set_runs P f db = (db', hit)" and "run_of db i = Some r" and "P r"
  shows "hit \<noteq> []"
proof -
  have "r \<in> set (filter P (gw_runs db))" using run_of_SomeD [OF assms(2)] assms(3) by simp
  then have "filter P (gw_runs db) \<noteq> []" by (metis list.set(1) emptyE)
  then show ?thesis using assms(1) by (auto simp: set_runs_eq simp del: filter_empty_conv)
qed

section \<open>Runs that cannot end\<close>

lemma shipped_dead_ends:
  "list_all (\<lambda>status. list_all (\<lambda>action. isl (resolveTicketStatus shipped_moves status action))
     [''fail'', ''exhaust'', ''resolve'', ''escalate'']) [''routing'', ''open'']"
  by code_simp

lemma shipped_cannot_end:
  assumes "status \<in> {''routing'', ''open''}" and "action \<in> {''fail'', ''exhaust'', ''resolve'', ''escalate''}"
  shows "\<exists>m. resolveTicketStatus shipped_moves status action = Inl m"
  using assms shipped_dead_ends unfolding isl_def [abs_def] by auto

lemma terminal_action_cases: "terminal_action s \<in> {''fail'', ''exhaust'', ''resolve'', ''escalate''}"
  by (cases s) (simp_all add: terminal_action_def)

lemma stuck_cancel:
  assumes "dk_moves (gw_desk db) = shipped_moves" and "run_of db i = Some r" and "findTicket (gw_desk db) (ag_ticketId r) = Some t"
    and "tk_status t \<in> {''routing'', ''open''}"
  shows "cancel_transaction elapsed sched uuid now i reason before db \<in> range Inl \<union> {Inr None}"
  using assms shipped_cannot_end [OF assms(4), of "''fail''"]
  unfolding cancel_transaction_def Let_def
  by (auto simp: set_runs_eq split: list.splits option.splits sum.splits)

lemma stuck_terminal:
  assumes "dk_moves (gw_desk db) = shipped_moves" and "run_of db (ru_runId u) = Some r" and "ag_status r = Run_running"
    and "findTicket (gw_desk db) (ag_ticketId r) = Some t" and "tk_status t \<in> {''routing'', ''open''}"
  shows "terminal_transaction elapsed sched uuid now u status code db \<in> range Inl"
proof -
  obtain m where m: "resolveTicketStatus shipped_moves (tk_status t) (terminal_action status) = Inl m"
    using shipped_cannot_end [OF assms(5) terminal_action_cases] by blast
  obtain db1 hit where h: "set_runs (\<lambda>r. ag_id r = ru_runId u \<and> ag_status r = Run_running) (finish_run u status now) db = (db1, hit)"
    by fastforce
  have "hit \<noteq> []" using set_runs_hits [OF h assms(2)] assms(2,3) run_of_SomeD by blast
  moreover have "gw_desk db1 = gw_desk db" using h by (auto simp: set_runs_eq)
  ultimately show ?thesis using assms h m unfolding terminal_transaction_def by (auto split: list.splits)
qed

text \<open>
  C30. With the status changes that the first migration ships, a run whose ticket is being routed (its worker has not called a
  tool yet), or has been put back to open, can end in no way: its lease expires and the cancellation throws, every terminal
  update of its worker throws, and no other run of the ticket can be started. The run stays as it is, until the gateway restarts.
\<close>

theorem routing_run_cannot_end:
  assumes "dk_moves (gw_desk db) = shipped_moves" and "run_of db i = Some r" and "ag_status r = Run_running"
    and "findTicket (gw_desk db) (ag_ticketId r) = Some t" and "tk_status t \<in> {''routing'', ''open''}"
  shows "fst (snd (cancelRun elapsed sched uuid now i reason before g db)) = db \<and>
    (ru_runId u = i \<longrightarrow> fst (snd (terminal_update elapsed sched uuid now stream u g db)) = db) \<and>
    isl (check_start g db t)"
proof (intro conjI impI)
  show "fst (snd (cancelRun elapsed sched uuid now i reason before g db)) = db"
    using stuck_cancel [OF assms(1,2,4,5), of elapsed sched uuid now reason before] by (auto simp: cancelRun_def)
  show "fst (snd (terminal_update elapsed sched uuid now stream u g db)) = db" if "ru_runId u = i"
  proof -
    have "terminal_transaction elapsed sched uuid now u status code db \<noteq> Inr d" for status code d
      using stuck_terminal [OF assms(1) _ assms(3-5), of u elapsed sched uuid now status code] assms(2) that by auto
    then show ?thesis unfolding terminal_update_def by (auto split: option.splits sum.splits)
  qed
  have "tk_id t \<in> set (running_tickets (gw_runs db))"
    using findTicket_SomeD [OF assms(4)] run_of_SomeD [OF assms(2)] assms(3) by (auto simp: running_tickets_def)
  then show "isl (check_start g db t)" using check_start_Inr by (cases "check_start g db t") auto
qed

lemma terminal_update_committed:
  assumes "terminal_update elapsed sched uuid now stream u g db = (g', db', outs, None, fin)" and "ru_status u \<noteq> []"
    and "run_of db (ru_runId u) = Some r" and "ag_status r = Run_running"
  obtains status where "status_named (ru_status u) = Some status" "fin = Some (ru_runId u, status)"
    "g' = g\<lparr>ga_runAgents := AList.delete (ru_runId u) (ga_runAgents g)\<rparr>" "run_of db' (ru_runId u) = Some (finish_run u status now r)"
proof -
  obtain status where st: "status_named (ru_status u) = Some status" using assms(1,2)
    by (cases "status_named (ru_status u)") (simp_all add: terminal_update_def)
  then obtain tt: "terminal_transaction elapsed sched uuid now u status (code_named (ru_resolutionCode u)) db = Inr db'"
    and fin: "fin = Some (ru_runId u, status)" and g': "g' = g\<lparr>ga_runAgents := AList.delete (ru_runId u) (ga_runAgents g)\<rparr>"
    using assms(1,2) by (auto simp: terminal_update_def split: if_splits sum.splits)
  obtain db1 hit where h: "set_runs (\<lambda>r. ag_id r = ru_runId u \<and> ag_status r = Run_running) (finish_run u status now) db = (db1, hit)"
    by fastforce
  have "hit \<noteq> []" using set_runs_hits [OF h assms(3)] assms(3,4) run_of_SomeD by blast
  then obtain d where "db' = set_desk d db1" using tt h assms(3) unfolding terminal_transaction_def
    by (auto split: list.splits option.splits sum.splits prod.splits bool.splits)
  moreover have "run_of db1 (ru_runId u) = Some (finish_run u status now r)"
    using run_of_set_runs [of "finish_run u status now" "\<lambda>r. ag_id r = ru_runId u \<and> ag_status r = Run_running" db "ru_runId u"]
      h assms(3,4) run_of_SomeD [OF assms(3)] by (simp add: finish_run_def)
  ultimately show ?thesis using that st fin g' by simp
qed

text \<open>
  The check of a terminal status accepts every status of a run, \<open>running\<close> too. An update that reports it escalates the
  ticket and is acknowledged, but the run keeps running, without a lease, so it never expires, and its worker has lost it.
\<close>

theorem running_update_strands:
  assumes "terminal_update elapsed sched uuid now stream u g db = (g', db', outs, None, fin)"
    and "ru_status u = run_status_key Run_running" and "run_of db (ru_runId u) = Some r" and "ag_status r = Run_running"
    and "distinct (run_ids db)"
  shows "(\<exists>r'. run_of db' (ru_runId u) = Some r' \<and> ag_status r' = Run_running) \<and>
    (\<forall>later. ru_runId u \<notin> set (expired_runs later db')) \<and> map_of (ga_runAgents g') (ru_runId u) = None"
proof -
  have ne: "ru_status u \<noteq> []" using assms(2) by simp
  have "status_named (run_status_key Run_running) = Some Run_running" by code_simp
  then obtain r': "run_of db' (ru_runId u) = Some (finish_run u Run_running now r)"
    and g': "g' = g\<lparr>ga_runAgents := AList.delete (ru_runId u) (ga_runAgents g)\<rparr>"
    using terminal_update_committed [OF assms(1) ne assms(3,4)] assms(2) by (metis option.inject)
  have "run_ids db' = run_ids db" using terminal_update_calm [OF assms(1)] by (rule calm_ids)
  then have unique: "x \<in> set (gw_runs db') \<Longrightarrow> ag_id x = ru_runId u \<Longrightarrow> x = finish_run u Run_running now r" for x
    using run_of_unique [of db' x] assms(5) r' by auto
  then have "ru_runId u \<notin> set (expired_runs later db')" for later
    by (auto simp: expired_runs_def finish_run_def split: option.splits dest!: unique)
  with r' g' show ?thesis by (simp add: finish_run_def AList.delete_conv')
qed

section \<open>Who may write, and how often\<close>

lemma renew_run:
  assumes "renewRunLease now i w a db = Inr db'"
  shows "\<exists>r\<in>set (gw_runs db). ag_id r = i \<and> ag_status r = Run_running \<and> ag_workerId r = Some w"
    and "run_of db i = Some r \<Longrightarrow> distinct (run_ids db) \<Longrightarrow> ag_status r = Run_running \<and> ag_workerId r = Some w \<and>
      run_of db' i = Some (r\<lparr>ag_leaseExpiresAt := Some (leaseDeadline now RUN_LEASE_MS), ag_acceptedAt := (if a then Some now else ag_acceptedAt r)\<rparr>)"
proof -
  define P where "P r \<longleftrightarrow> ag_id r = i \<and> ag_status r = Run_running \<and> ag_workerId r = Some w" for r :: agent_run
  define f where "f r = r\<lparr>ag_leaseExpiresAt := Some (leaseDeadline now RUN_LEASE_MS),
    ag_acceptedAt := (if a then Some now else ag_acceptedAt r)\<rparr>" for r :: agent_run
  have s: "db' = fst (set_runs P f db)" and ne: "filter P (gw_runs db) \<noteq> []"
    using assms unfolding renewRunLease_def P_def [abs_def] f_def [abs_def] by (auto simp: set_runs_eq split: list.splits)
  then obtain x where x: "x \<in> set (gw_runs db)" "P x" by (auto simp: filter_empty_conv)
  then show "\<exists>r\<in>set (gw_runs db). ag_id r = i \<and> ag_status r = Run_running \<and> ag_workerId r = Some w" by (auto simp: P_def)
  assume r: "run_of db i = Some r" and d: "distinct (run_ids db)"
  have "x = r" using run_of_unique [OF d x(1)] x(2) r by (simp add: P_def)
  then have P: "P r" using x by simp
  have "run_of db' i = Some (f r)" unfolding s using run_of_set_runs [of f P db i] r P by (simp add: f_def)
  then show "ag_status r = Run_running \<and> ag_workerId r = Some w \<and>
      run_of db' i = Some (r\<lparr>ag_leaseExpiresAt := Some (leaseDeadline now RUN_LEASE_MS), ag_acceptedAt := (if a then Some now else ag_acceptedAt r)\<rparr>)"
    using P by (simp add: P_def f_def)
qed

lemma distinct_runs_found: "r \<in> set (gw_runs db) \<Longrightarrow> \<exists>r'. run_of db (ag_id r) = Some r'"
  by (cases "run_of db (ag_id r)") (auto simp: run_of_def first_row_None_iff)

text \<open>What an accepted update leaves behind.\<close>

lemma accepted_update:
  assumes "persistRunUpdate elapsed sched uuid now stream w u g db = (g', db', outs, None, Some (i, status))"
    and "distinct (run_ids db)"
  obtains r where "i = ru_runId u" "run_of db' i = Some r" "ag_status r = status" "ag_workerId r = Some w"
    "g' = g\<lparr>ga_runAgents := AList.delete i (ga_runAgents g)\<rparr>" "ru_status u \<noteq> []"
proof -
  have mine: "map_of (ga_runAgents g) (ru_runId u) = Some w" using assms(1) by (auto simp: persistRunUpdate_def split: if_splits)
  obtain db1 where db1: "renewRunLease now (ru_runId u) w False db = Inr db1"
    using assms(1) mine by (cases "renewRunLease now (ru_runId u) w False db") (auto simp: persistRunUpdate_def)
  obtain kind where kind: "ru_kind u = Some kind" "\<not> (kind < 1 \<or> 5 < kind)"
    using assms(1) mine db1 by (auto simp: persistRunUpdate_def split: option.splits if_splits)
  define db2 where "db2 = db1\<lparr>gw_steps := fst (sql_insert_new step_key (step_of_update (uuid Did_row) kind u) (gw_steps db1))\<rparr>"
  have tu: "terminal_update elapsed sched uuid now stream u g db2 = (g', db', outs, None, Some (i, status))"
    using assms(1) mine db1 kind by (simp add: persistRunUpdate_def db2_def)
  then have ne: "ru_status u \<noteq> []" by (auto simp: terminal_update_def)
  obtain x r where x: "run_of db (ru_runId u) = Some x" using renew_run(1) [OF db1] distinct_runs_found by fastforce
  note r1 = renew_run(2) [OF db1 x assms(2)]
  then have r2: "run_of db2 (ru_runId u) = Some (x\<lparr>ag_leaseExpiresAt := Some (leaseDeadline now RUN_LEASE_MS)\<rparr>)"
    by (simp add: db2_def run_of_def)
  have run: "ag_status (x\<lparr>ag_leaseExpiresAt := l\<rparr>) = Run_running" for l using r1 by simp
  obtain st where st: "Some (i, status) = Some (ru_runId u, st)" "g' = g\<lparr>ga_runAgents := AList.delete (ru_runId u) (ga_runAgents g)\<rparr>"
    "run_of db' (ru_runId u) = Some (finish_run u st now (x\<lparr>ag_leaseExpiresAt := Some (leaseDeadline now RUN_LEASE_MS)\<rparr>))"
    using terminal_update_committed [OF tu ne r2 run] by metis
  have w: "ag_workerId x = Some w" using r1 by simp
  show ?thesis
    by (rule that [of "finish_run u st now (x\<lparr>ag_leaseExpiresAt := Some (leaseDeadline now RUN_LEASE_MS)\<rparr>)", OF _ _ _ _ _ ne])
      (use st w in \<open>simp_all add: finish_run_def\<close>)
qed

text \<open>
  A terminal update that has been committed can be sent again, as a worker does that lost the acknowledgement: the second
  time nothing is written, and the worker gets the acknowledgement for the same step.
\<close>

theorem terminal_update_replay:
  assumes "persistRunUpdate elapsed sched uuid now stream w u g db = (g', db', outs, None, Some (i, status))"
    and "distinct (run_ids db)" and "status \<noteq> Run_running"
  shows "persistRunUpdate elapsed' sched' uuid' later stream' w u g' db' =
    (g', db', [(stream', Msg_terminal_ack (ru_runId u) (ru_ordinal u))], None, None)"
proof -
  obtain r where r: "i = ru_runId u" "run_of db' i = Some r" "ag_status r = status" "ag_workerId r = Some w"
    "g' = g\<lparr>ga_runAgents := AList.delete i (ga_runAgents g)\<rparr>" "ru_status u \<noteq> []"
    using accepted_update [OF assms(1,2)] by blast
  have "map_of (ga_runAgents g') (ru_runId u) = None" using r(1,5) by (simp add: AList.delete_conv')
  then show ?thesis using r assms(3) by (simp add: persistRunUpdate_def)
qed

lemma map_sum_Inr: "map_sum f h x = Inr y \<longleftrightarrow> (\<exists>z. x = Inr z \<and> h z = y)"
  by (cases x) auto

lemma refused_call:
  assumes "admit_request json now w (q\<lparr>tq_callId := js_trim (tq_callId q)\<rparr>) g db = (db1, Inl e)"
  shows "handleToolRequest elapsed sched uuid json stringify tool now stream w q g db =
    (case refuse_call now stream (q\<lparr>tq_callId := js_trim (tq_callId q)\<rparr>) None e db1 of (db2, outs) \<Rightarrow> (db2, outs, False))"
  by (simp add: handleToolRequest_def Let_def assms)


text \<open>
  A device tool that is executed names the device of the run's own ticket, whatever the worker sends.
\<close>

theorem device_tools_on_target:
  assumes "handleToolRequest elapsed sched uuid json stringify tool now stream w q g db = (db', outs, True)"
    and "prefix ''device_'' (tq_toolName q)"
  shows "\<exists>run t d ob. map_of (ga_runAgents g) (tq_runId q) = Some w \<and> run \<in> set (gw_runs db) \<and> ag_id run = tq_runId q \<and>
    findTicket (gw_desk db) (ag_ticketId run) = Some t \<and> tk_deviceId t = Some d \<and> json (tq_inputJson q) = Some (JObj ob) \<and>
    prop_of ob ''device_id'' = JStr d"
proof -
  let ?q = "q\<lparr>tq_callId := js_trim (tq_callId q)\<rparr>"
  obtain db1 run input stepId where adm: "admit_request json now w ?q g db = (db1, Inr (run, input, stepId))"
  proof (cases "admit_request json now w ?q g db")
    case (Pair a b)
    then show ?thesis using that assms(1) refused_call by (cases b) (auto split: prod.splits)
  qed
  then have mine: "map_of (ga_runAgents g) (tq_runId q) = Some w" by (auto simp: admit_request_def split: if_splits)
  obtain db2 where db2: "renewRunLease now (tq_runId q) w False db = Inr db2"
    using adm mine by (cases "renewRunLease now (tq_runId q) w False db") (auto simp: admit_request_def split: if_splits)
  have run: "run_of db2 (tq_runId q) = Some run" and input: "json (tq_inputJson q) = Some input"
    and target: "\<not> device_mismatch input (findTicket (gw_desk db2) (ag_ticketId run))"
    using adm mine db2 assms(2) by (auto simp: admit_request_def map_sum_Inr split: if_splits option.splits)
  have desk: "gw_desk db2 = gw_desk db" using db2 by (auto simp: renewRunLease_def set_runs_eq split: list.splits)
  obtain t where t: "findTicket (gw_desk db) (ag_ticketId run) = Some t" using target desk
    by (cases "findTicket (gw_desk db) (ag_ticketId run)") (auto simp: device_mismatch_def)
  obtain d ob where d: "tk_deviceId t = Some d" "input = JObj ob" "prop_of ob ''device_id'' = JStr d"
    using target desk t by (auto simp: device_mismatch_def split: option.splits jsval.splits)
  have "(tq_runId q, ag_ticketId run) \<in> (\<lambda>r. (ag_id r, ag_ticketId r)) ` set (gw_runs db2)" using run_of_SomeD [OF run] by force
  moreover have "map (\<lambda>r. (ag_id r, ag_ticketId r)) (gw_runs db2) = map (\<lambda>r. (ag_id r, ag_ticketId r)) (gw_runs db)"
    using db2 by (auto simp: renewRunLease_def set_runs_eq split: list.splits)
  ultimately have "(tq_runId q, ag_ticketId run) \<in> (\<lambda>r. (ag_id r, ag_ticketId r)) ` set (gw_runs db)"
    unfolding list.set_map [symmetric] by simp
  then obtain run' where "run' \<in> set (gw_runs db)" "ag_id run' = tq_runId q" "ag_ticketId run' = ag_ticketId run" by auto
  then show ?thesis using mine t d input by metis
qed

section \<open>Taking turns\<close>

text \<open>The workers of the next \<open>n\<close> runs, while nobody connects or leaves.\<close>

fun select_many :: "nat \<Rightarrow> gateway \<Rightarrow> string list" where
  "select_many 0 g = []"
| "select_many (Suc n) g = (case selectAgent g of (g', None) \<Rightarrow> [] | (g', Some (w, _)) \<Rightarrow> w # select_many n g')"

lemma select_many_nth:
  assumes "\<forall>w\<in>set (ga_agentOrder g). agent_of g w \<noteq> None" and "ga_agentOrder g \<noteq> []"
  shows "select_many n g = map (\<lambda>k. ga_agentOrder g ! ((ga_nextAgent g + k) mod length (ga_agentOrder g))) [0..<n]"
  using assms
proof (induction n arbitrary: g)
  case (Suc n)
  let ?o = "ga_agentOrder g"
  let ?g = "g\<lparr>ga_agentOrder := ?o, ga_nextAgent := ga_nextAgent g + 1\<rparr>"
  have o: "filter (\<lambda>i. agent_of g i \<noteq> None) ?o = ?o" using Suc.prems(1) by (simp add: filter_id_conv)
  have "?o ! (ga_nextAgent g mod length ?o) \<in> set ?o" using Suc.prems(2) by simp
  then obtain c where c: "agent_of g (?o ! (ga_nextAgent g mod length ?o)) = Some c" using Suc.prems(1) by blast
  have "selectAgent g = (?g, Some (?o ! (ga_nextAgent g mod length ?o), c))"
    unfolding selectAgent_def Let_def o using Suc.prems(2) c by simp
  moreover have "select_many n ?g = map (\<lambda>k. ?o ! ((ga_nextAgent g + 1 + k) mod length ?o)) [0..<n]"
    using Suc.IH [of ?g] Suc.prems by (simp add: agent_of_def)
  ultimately show ?case by (simp add: map_upt_Suc del: upt_Suc)
qed simp

text \<open>
  C34. Runs are spread evenly: while nobody connects or leaves, the next runs, as many as there are connected workers, go to
  every worker once, wherever the turn stands.
\<close>

theorem selectAgent_round_robin:
  assumes "\<forall>w\<in>set (ga_agentOrder g). agent_of g w \<noteq> None"
  shows "mset (select_many (length (ga_agentOrder g)) g) = mset (ga_agentOrder g)"
proof (cases "ga_agentOrder g = []")
  case False
  have "select_many (length (ga_agentOrder g)) g = rotate (ga_nextAgent g) (ga_agentOrder g)"
    unfolding select_many_nth [OF assms False] by (rule nth_equalityI) (simp_all add: nth_rotate)
  moreover have "mset (rotate n xs) = mset xs" for n and xs :: "string list"
    by (metis rotate_drop_take mset_append add.commute append_take_drop_id)
  ultimately show ?thesis by simp
qed simp

section \<open>What a restart and a failed start leave behind\<close>

text \<open>
  When a gateway restarts it fails the runs that nobody holds and moves their tickets to the status after a failure, but
  leaves no trace of that in the history of the ticket, and the stopwatches are left as they were in the old status.
\<close>

theorem reconcileOrphans_silent:
  assumes "r \<in> set (gw_runs db)" and "orphaned now r" and "findTicket (gw_desk db) (ag_ticketId r) = Some t"
    and "findTicketTransition (dk_moves (gw_desk db)) (tk_status t) ''fail'' = Some to"
  shows "map_option tk_status (findTicket (gw_desk (reconcileOrphans now db)) (tk_id t)) = Some to \<and>
    dk_transitions (gw_desk (reconcileOrphans now db)) = dk_transitions (gw_desk db) \<and>
    sd_watches (cd_sla (dk_core (gw_desk (reconcileOrphans now db)))) = sd_watches (cd_sla (dk_core (gw_desk db)))"
proof -
  let ?f = "\<lambda>r. (fail_run ''gateway restarted during run'' now r)\<lparr>ag_leaseExpiresAt := None\<rparr>"
  define hit where "hit = map ?f (filter (orphaned now) (gw_runs db))"
  define rows where "rows = map (\<lambda>r. if orphaned now r then ?f r else r) (gw_runs db)"
  have sr: "set_runs (orphaned now) ?f db = (db\<lparr>gw_runs := rows\<rparr>, hit)" by (simp add: set_runs_eq hit_def rows_def)
  have "?f r \<in> set hit" using assms(1,2) by (simp add: hit_def)
  moreover have "ag_ticketId (?f r) = ag_ticketId r" by (simp add: fail_run_def)
  ultimately have hit: "hit \<noteq> []" "ag_ticketId r \<in> set (map ag_ticketId hit)" by (auto intro: rev_image_eqI)
  have rec: "reconcileOrphans now db = set_desk (set_tickets (map (orphaned_ticket (dk_moves (gw_desk db)) (map ag_ticketId hit))
      (tickets_of (gw_desk db))) (gw_desk db)) (db\<lparr>gw_runs := rows\<rparr>)"
    unfolding reconcileOrphans_def sr using hit(1) by (cases hit) simp_all
  have "findTicket (gw_desk (reconcileOrphans now db)) (tk_id t) =
      map_option (orphaned_ticket (dk_moves (gw_desk db)) (map ag_ticketId hit)) (findTicket (gw_desk db) (tk_id t))"
    unfolding findTicket_def rec
    by (simp, rule first_row_map) (auto simp: orphaned_ticket_def split: option.splits)
  then have "map_option tk_status (findTicket (gw_desk (reconcileOrphans now db)) (tk_id t)) = Some to"
    using findTicket_SomeD [OF assms(3)] assms(3,4) hit(2) by (simp add: orphaned_ticket_def)
  then show ?thesis by (simp add: rec set_tickets_def)
qed

text \<open>
  When the worker could not be reached, the start of the run is taken back; the ticket keeps a status that somebody else
  gave it in the meantime, but its stopwatches are moved as if it were back in the status before the start.
\<close>

theorem undo_start_wrong_watches:
  assumes "undo_start elapsed sched transitionId now t nextStatus runId db = Inr db'"
    and "\<forall>x\<in>set (tickets_of (gw_desk db)). tk_id x = tk_id t \<longrightarrow> tk_status x \<noteq> nextStatus"
  shows "tickets_of (gw_desk db') = tickets_of (gw_desk db) \<and>
    transitionTicketStopwatches elapsed sched (tk_id t) (tk_status t) now (cd_sla (dk_core (gw_desk db))) =
      Inr (cd_sla (dk_core (gw_desk db')))"
proof -
  have same: "map (\<lambda>x. if tk_id x = tk_id t \<and> tk_status x = nextStatus
      then x\<lparr>tk_status := tk_status t, tk_progressMarker := tk_progressMarker t\<rparr> else x) (tickets_of (gw_desk db)) = tickets_of (gw_desk db)"
    by (rule map_idI) (use assms(2) in auto)
  obtain d where d: "move_watches elapsed sched (tk_id t) (tk_status t) now
      ((set_tickets (tickets_of (gw_desk db)) (gw_desk db))\<lparr>dk_transitions := filter (\<lambda>r. tr_id r \<noteq> transitionId) (dk_transitions (gw_desk db))\<rparr>) = Inr d"
    "gw_desk db' = d"
    using assms(1) same by (auto simp: undo_start_def Let_def set_runs_eq split: sum.splits)
  have "tickets_of d = tickets_of (gw_desk db)" using move_watches_keeps(1) [OF d(1)] by simp
  moreover have "set_tickets (tickets_of (gw_desk db)) (gw_desk db) = gw_desk db" by (simp add: set_tickets_def tickets_of_def)
  moreover have "move_watches elapsed sched i to n x = Inr y \<Longrightarrow>
      transitionTicketStopwatches elapsed sched i to n (cd_sla (dk_core x)) = Inr (cd_sla (dk_core y))" for i to n x y
    by (auto simp: move_watches_def split: sum.splits)
  ultimately show ?thesis using d by fastforce
qed

section \<open>Witnesses\<close>

text \<open>The run of the sample, whose worker has not called a tool.\<close>

definition routing_run :: agent_run where
  "routing_run = the (run_of (snd sample_started) ''1r'')"

lemma sample_started_run: "run_of (snd sample_started) ''1r'' = Some routing_run"
proof -
  have "run_of (snd sample_started) ''1r'' \<noteq> None" by code_simp
  then show ?thesis by (auto simp: routing_run_def)
qed

definition routed_ticket :: ticket where
  "routed_ticket = sample_ticket\<lparr>tk_deviceId := Some ''d1'', tk_status := ''routing'', tk_progressMarker := Some PM_gathering_evidence\<rparr>"

lemma sample_started_facts:
  "ag_status routing_run = Run_running" "findTicket (gw_desk (snd sample_started)) (ag_ticketId routing_run) = Some routed_ticket"
  "dk_moves (gw_desk (snd sample_started)) = shipped_moves" "tk_status routed_ticket = ''routing''"
  by code_simp+

theorem routing_run_cannot_end_witness:
  "fst (snd (cancelRun (\<lambda>_ _ _. Inr 0) alone (sample_did ''4'') 99999 ''1r'' ''agent run lease expired'' (Some 99999) sample_gateway
     (snd sample_started))) = snd sample_started \<and> isl (check_start sample_gateway (snd sample_started) routed_ticket)"
  using routing_run_cannot_end [OF sample_started_facts(3) sample_started_run sample_started_facts(1,2),
      of "\<lambda>_ _ _. Inr 0" alone "sample_did ''4''" 99999 "''agent run lease expired''" "Some 99999" sample_gateway]
    sample_started_facts(4) by simp

definition sample_last_update :: "run_status \<Rightarrow> run_update" where
  "sample_last_update s = sample_run_update\<lparr>ru_ordinal := 2, ru_kind := Some 5, ru_status := run_status_key s, ru_resolutionCode := ''fixed''\<rparr>"

theorem terminal_update_replay_witness:
  "\<exists>g' db' outs. sample_persist (sample_last_update Run_escalated) sample_called = (g', db', outs, None, Some (''1r'', Run_escalated)) \<and>
     sample_persist (sample_last_update Run_escalated) (g', db') = (g', db', [(1, Msg_terminal_ack ''1r'' 2)], None, None)"
proof -
  let ?p = "sample_persist (sample_last_update Run_escalated) sample_called"
  have "snd (snd (snd ?p)) = (None, Some (''1r'', Run_escalated))" by code_simp
  then obtain g' db' outs where p: "?p = (g', db', outs, None, Some (''1r'', Run_escalated))" by (metis prod.collapse)
  have ids: "distinct (run_ids (snd sample_called))" by code_simp
  have "ru_runId (sample_last_update Run_escalated) = ''1r''" "ru_ordinal (sample_last_update Run_escalated) = 2" by code_simp+
  moreover have "persistRunUpdate (\<lambda>_ _ _. Inr 0) alone (sample_did ''2'') 2000 1 ''w1'' (sample_last_update Run_escalated) (fst sample_called)
      (snd sample_called) = (g', db', outs, None, Some (''1r'', Run_escalated))"
    using p by (simp add: sample_persist_def case_prod_beta)
  ultimately show ?thesis using terminal_update_replay [OF _ ids] p by (auto simp: sample_persist_def split: prod.splits)
qed

theorem running_update_strands_witness:
  "\<exists>g' db' outs fin. terminal_update (\<lambda>_ _ _. Inr 0) alone (sample_did ''2'') 2000 1 (sample_last_update Run_running) (fst sample_called)
     (snd sample_called) = (g', db', outs, None, fin) \<and> ''1r'' \<notin> set (expired_runs 999999 db') \<and> map_of (ga_runAgents g') ''1r'' = None"
proof -
  let ?u = "sample_last_update Run_running"
  let ?p = "terminal_update (\<lambda>_ _ _. Inr 0) alone (sample_did ''2'') 2000 1 ?u (fst sample_called) (snd sample_called)"
  have "fst (snd (snd (snd ?p))) = None" by code_simp
  then obtain g' db' outs fin where p: "?p = (g', db', outs, None, fin)" by (metis prod.collapse)
  have u: "ru_status ?u = run_status_key Run_running" "ru_runId ?u = ''1r''" by code_simp+
  have "map_option ag_status (run_of (snd sample_called) (ru_runId ?u)) = Some Run_running" by code_simp
  then obtain r where r: "run_of (snd sample_called) (ru_runId ?u) = Some r" "ag_status r = Run_running" by auto
  have "distinct (run_ids (snd sample_called))" by code_simp
  from running_update_strands [OF p u(1) r this] p u(2) show ?thesis by auto
qed

definition open_call :: tool_call where
  "open_call = new_call (''1r'', ''c1'')"


definition logs_stepped :: "gateway \<times> gateway_db" where
  "logs_stepped = (case sample_persist (sample_run_update\<lparr>ru_toolName := ''device_logs'', ru_ordinal := 7\<rparr>) sample_called of (g, db, _) \<Rightarrow> (g, db))"

definition logs_request :: tool_request where
  "logs_request = sample_request\<lparr>tq_toolName := ''device_logs'', tq_callId := ''c7'', tq_sourceStepOrdinal := Some 7\<rparr>"

definition logs_call :: "gateway_db \<times> outputs \<times> bool" where
  "logs_call = handleToolRequest (\<lambda>_ _ _. Inr 0) alone (sample_did ''3'') (\<lambda>_. Some (JObj [(''device_id'', JStr ''d1'')])) (\<lambda>_. ''{}'')
     (\<lambda>_ _ _ _. Inr (JStr ''logs'')) 3000 1 ''w1'' logs_request (fst logs_stepped) (snd logs_stepped)"

theorem device_tools_on_target_witness:
  "\<exists>run t. run \<in> set (gw_runs (snd logs_stepped)) \<and> ag_id run = tq_runId logs_request \<and>
     findTicket (gw_desk (snd logs_stepped)) (ag_ticketId run) = Some t \<and> tk_deviceId t = Some ''d1''"
proof -
  have "snd (snd logs_call)" by code_simp
  then obtain db' outs where h: "logs_call = (db', outs, True)" by (metis prod.collapse)
  have "prefix ''device_'' (tq_toolName logs_request)" by code_simp
  from device_tools_on_target [OF h [unfolded logs_call_def] this] show ?thesis by (fastforce simp: prop_of_def)
qed

theorem selectAgent_round_robin_witness: "mset (select_many (length (ga_agentOrder sample_gateway)) sample_gateway) = {#''w1''#}"
proof -
  have "\<forall>w\<in>set (ga_agentOrder sample_gateway). agent_of sample_gateway w \<noteq> None" by (simp add: sample_gateway_def agent_of_def)
  from selectAgent_round_robin [OF this] show ?thesis by (simp add: sample_gateway_def)
qed

theorem reconcileOrphans_silent_witness:
  "map_option tk_status (findTicket (gw_desk (reconcileOrphans 999999 (snd sample_called))) ''t1'') = Some ''escalated'' \<and>
   dk_transitions (gw_desk (reconcileOrphans 999999 (snd sample_called))) = dk_transitions (gw_desk (snd sample_called))"
proof -
  have "map_option (\<lambda>t. (tk_id t, tk_status t)) (Option.bind (run_of (snd sample_called) ''1r'')
      (\<lambda>r. if orphaned 999999 r then findTicket (gw_desk (snd sample_called)) (ag_ticketId r) else None)) = Some (''t1'', ''resolving'')" by code_simp
  then obtain r t where r: "run_of (snd sample_called) ''1r'' = Some r" "orphaned 999999 r"
    "findTicket (gw_desk (snd sample_called)) (ag_ticketId r) = Some t" "tk_id t = ''t1''" "tk_status t = ''resolving''"
    by (auto split: bind_splits if_splits)
  have "findTicketTransition (dk_moves (gw_desk (snd sample_called))) ''resolving'' ''fail'' = Some ''escalated''" by code_simp
  then have "findTicketTransition (dk_moves (gw_desk (snd sample_called))) (tk_status t) ''fail'' = Some ''escalated''" using r(5) by simp
  from reconcileOrphans_silent [OF conjunct1 [OF run_of_SomeD [OF r(1)]] r(2,3) this] r(4) show ?thesis by simp
qed

definition moved_on :: gateway_db where
  "moved_on = set_desk (set_tickets (map (\<lambda>t. t\<lparr>tk_status := ''pending''\<rparr>) (tickets_of (gw_desk (snd sample_started)))) (gw_desk (snd sample_started)))
     (snd sample_started)"

theorem undo_start_wrong_watches_witness:
  "\<exists>db'. undo_start (\<lambda>_ _ _. Inr 0) alone ''1t'' 2000 sample_ticket ''routing'' ''1r'' moved_on = Inr db' \<and>
     tickets_of (gw_desk db') = tickets_of (gw_desk moved_on)"
proof -
  let ?u = "undo_start (\<lambda>_ _ _. Inr 0) alone ''1t'' 2000 sample_ticket ''routing'' ''1r'' moved_on"
  have "\<not> isl ?u" by code_simp
  then obtain db' where u: "?u = Inr db'" by (cases ?u) auto
  have "list_all (\<lambda>x. tk_status x \<noteq> ''routing'') (tickets_of (gw_desk moved_on))" by code_simp
  then have "\<forall>x\<in>set (tickets_of (gw_desk moved_on)). tk_id x = tk_id sample_ticket \<longrightarrow> tk_status x \<noteq> ''routing''"
    by (simp add: list_all_iff)
  from undo_start_wrong_watches [OF u this] u show ?thesis by blast
qed

end
