(* ===== verification/Devices.thy ===== *)
theory Devices
  imports GatewayLimits
begin

text \<open>
  The devices of the gateway, the other half of \<open>server/grpc.ts\<close>: enrolment and credentials (\<open>server/device-auth.ts\<close>),
  the commands sent to a device with their sequence numbers and the outbox that is replayed to a device that comes back,
  the handlers of \<open>server/routers/devices.ts\<close>, and the commands that the agent proposes and a person decides
  (\<open>server/tools/device-proposal.ts\<close>, \<open>server/routers/device-proposals.ts\<close>).

  Random values (identifiers, credentials, claim codes), the hash function and the clock are arguments. The input of a
  tool is taken after the check of its schema. What an inventory report writes is in tables of its own, not modelled here.
\<close>

section \<open>The tables\<close>

record machine =
  mc_id :: string
  mc_ownerId :: "string option"
  mc_hostname :: string
  mc_username :: "string option"
  mc_platform :: "string option"
  mc_release :: "string option"
  mc_agentVersion :: "string option"
  mc_credentialHash :: "string option"
  mc_credentialRotatedAt :: "ms option"
  mc_revokedAt :: "ms option"
  mc_executionEnabled :: bool
  mc_claimCodeHash :: "string option"
  mc_claimCodeExpiresAt :: "ms option"
  mc_online :: bool
  mc_lastSeenAt :: ms
  mc_enrolledAt :: "ms option"

record enrolment_token =
  et_id :: string
  et_tokenHash :: string
  et_createdBy :: "string option"
  et_expiresAt :: ms
  et_usedAt :: "ms option"
  et_usedByDeviceId :: "string option"

text \<open>The tools of a device, with their inputs.\<close>

datatype device_tool =
    Tool_read_state "string list" "string option" "string option" \<comment> \<open>facets, target, window\<close>
  | Tool_run_action string "(string \<times> string) list"
  | Tool_run_command "string list" string \<comment> \<open>the argument vector and the proposal\<close>
  | Tool_computer_use string "int option"

record command_row =
  dc_id :: string
  dc_deviceId :: string
  dc_runId :: "string option"
  dc_stepId :: "string option"
  dc_proposalId :: "string option"
  dc_sequence :: nat
  dc_tool :: device_tool
  dc_status :: command_status
  dc_output :: jsval
  dc_error :: "string option"
  dc_createdAt :: ms
  dc_dispatchedAt :: "ms option"
  dc_completedAt :: "ms option"

record device_proposal =
  dp_id :: string
  dp_deviceId :: string
  dp_ticketId :: string
  dp_runId :: "string option"
  dp_stepId :: "string option"
  dp_command :: "string list"
  dp_digest :: string
  dp_requestedById :: "string option"
  dp_reason :: string
  dp_status :: device_proposal_status
  dp_approvedById :: "string option"
  dp_decidedAt :: "ms option"
  dp_decisionNote :: "string option"
  dp_expiresAt :: ms
  dp_dispatchedCommandId :: "string option"
  dp_createdAt :: ms

record device_db =
  dd_machines :: "machine list"
  dd_tokens :: "enrolment_token list"
  dd_commands :: "command_row list"
  dd_proposals :: "device_proposal list"
  dd_initiators :: "(string \<times> string option) list" \<comment> \<open>run, \<open>startedById\<close>\<close>

section \<open>The memory\<close>

record device_command =
  cm_id :: string
  cm_sequence :: nat
  cm_action :: string
  cm_parameters :: "(string \<times> string) list"
  cm_computerUse :: bool
  cm_objective :: string
  cm_timeoutSeconds :: int

record device_connection =
  dn_stream :: nat
  dn_lastSeen :: ms
  dn_generation :: nat

record device_memory =
  dm_devices :: "(string \<times> device_connection) list"
  dm_sequences :: "(string \<times> nat) list"
  dm_outboxes :: "(string \<times> device_command list) list"
  dm_pending :: "string list"

datatype device_message =
    Dev_command device_command
  | Dev_enrollment bool string string \<comment> \<open>claimed, credential, claim code\<close>
  | Dev_heartbeat ms
  | Dev_end
  | Dev_destroy string

type_synonym device_outputs = "(nat \<times> device_message) list"

section \<open>Secrets\<close>

definition validDeviceSecret :: "(string \<Rightarrow> string) \<Rightarrow> string \<Rightarrow> string option \<Rightarrow> bool" where
  "validDeviceSecret hash secret kept = (case kept of None \<Rightarrow> False | Some h \<Rightarrow> secret \<noteq> [] \<and> h \<noteq> [] \<and> hash secret = h)"

definition validAgentCredential :: "(string \<Rightarrow> string) \<Rightarrow> string \<Rightarrow> string option \<Rightarrow> bool" where
  "validAgentCredential hash presented expected =
     (case expected of None \<Rightarrow> False | Some e \<Rightarrow> e \<noteq> [] \<and> presented \<noteq> [] \<and> hash presented = hash e)"

definition CLAIM_ALPHABET :: string where
  "CLAIM_ALPHABET = ''ABCDEFGHJKLMNPQRSTUVWXYZ23456789''"

text \<open>The ten bytes are random.\<close>

definition issueDeviceClaimCode :: "nat list \<Rightarrow> string" where
  "issueDeviceClaimCode bytes =
     (let code = map (\<lambda>b. CLAIM_ALPHABET ! (b mod length CLAIM_ALPHABET)) bytes in take 6 code @ ''-'' @ drop 6 code)"

text \<open>
  \<open>toUpperCase\<close> and the removal of everything but letters and digits, character by character; of the characters beyond
  ASCII only the sharp s has an upper case that is kept.
\<close>

definition claim_char :: "char \<Rightarrow> string" where
  "claim_char c =
     (let n = of_char c :: nat
      in if 97 \<le> n \<and> n \<le> 122 then [char_of (n - 32)]
         else if 65 \<le> n \<and> n \<le> 90 \<or> 48 \<le> n \<and> n \<le> 57 then [c]
         else if n = 223 then ''SS'' else [])"

definition normaliseClaimCode :: "string \<Rightarrow> string" where
  "normaliseClaimCode value = concat (map claim_char (js_trim value))"

text \<open>The pattern of a random UUID (version 4), in any case.\<close>

definition hex_char :: "char \<Rightarrow> bool" where
  "hex_char c \<longleftrightarrow> c \<in> set ''0123456789abcdefABCDEF''"

definition valid_device_id :: "string \<Rightarrow> bool" where
  "valid_device_id s \<longleftrightarrow> length s = 36 \<and>
     (\<forall>k\<in>set [0..<36]. if k \<in> {8, 13, 18, 23} then s ! k = CHR ''-''
        else if k = 14 then s ! k = CHR ''4''
        else if k = 19 then s ! k \<in> set ''89abAB'' else hex_char (s ! k))"

section \<open>Commands\<close>

text \<open>\<open>JSON.stringify\<close> of a list of strings.\<close>

definition json_char :: "char \<Rightarrow> string" where
  "json_char c =
     (let n = of_char c :: nat
      in if c = CHR 0x22 then [CHR 0x5C, CHR 0x22] else if c = CHR 0x5C then [CHR 0x5C, CHR 0x5C]
         else if n = 8 then [CHR 0x5C, CHR ''b''] else if n = 9 then [CHR 0x5C, CHR ''t''] else if n = 10 then [CHR 0x5C, CHR ''n'']
         else if n = 12 then [CHR 0x5C, CHR ''f''] else if n = 13 then [CHR 0x5C, CHR ''r'']
         else if n < 32 then [CHR 0x5C] @ ''u00'' @ [''0123456789abcdef'' ! (n div 16), ''0123456789abcdef'' ! (n mod 16)]
         else [c])"

definition json_string :: "string \<Rightarrow> string" where
  "json_string s = [CHR 0x22] @ concat (map json_char s) @ [CHR 0x22]"

definition json_strings :: "string list \<Rightarrow> string" where
  "json_strings xs = ''['' @ js_join '','' (map json_string xs) @ '']''"

definition ACTION_TIMEOUT_SECONDS :: "(string \<times> int) list" where
  "ACTION_TIMEOUT_SECONDS =
     [(''clear_temp_files'', 120), (''refresh_certificate_store'', 60), (''clear_outlook_cache'', 60), (''clear_teams_cache'', 60),
      (''clear_print_queue'', 60), (''gui_invoke_control'', 60), (''gui_set_control_value'', 60), (''gui_toggle_control'', 60),
      (''gui_select_item'', 60), (''gui_expand_control'', 60)]"

definition deviceActionTimeoutSeconds :: "string \<Rightarrow> int" where
  "deviceActionTimeoutSeconds action = preserveUndefined (map_of ACTION_TIMEOUT_SECONDS action) 30"

definition FACET_TIMEOUT_SECONDS :: "(string \<times> int) list" where
  "FACET_TIMEOUT_SECONDS = [(''storage'', 120), (''app_cache'', 60), (''certificates'', 60), (''printing'', 60), (''screen'', 90)]"

definition deviceReadTimeoutSeconds :: "string list \<Rightarrow> int" where
  "deviceReadTimeoutSeconds facets = fold (\<lambda>f worst. max worst (preserveUndefined (map_of FACET_TIMEOUT_SECONDS f) 30)) facets 30"

text \<open>Action, parameters, computer use, objective and timeout of a tool; an exception for an approved command without arguments.\<close>

definition given :: "string \<Rightarrow> string option \<Rightarrow> (string \<times> string) list" where
  "given k v = (case v of None \<Rightarrow> [] | Some x \<Rightarrow> [(k, x)])"

fun command_plan :: "device_tool \<Rightarrow> string + string \<times> (string \<times> string) list \<times> bool \<times> string \<times> int" where
  "command_plan (Tool_read_state facets target window) =
     Inr (''read_state'', [(''facets'', json_strings facets)] @ given ''target'' target @ given ''window'' window, False, [],
       deviceReadTimeoutSeconds facets)"
| "command_plan (Tool_run_action action parameters) = Inr (action, parameters, False, [], deviceActionTimeoutSeconds action)"
| "command_plan (Tool_run_command approved proposalId) =
     (if approved = [] then Inl ''an approved argument vector is required''
      else if proposalId = [] then Inl ''a proposal reference is required''
      else Inr (''run_command'', [(''command'', json_strings approved), (''proposal_id'', proposalId)], False, [], 120))"
| "command_plan (Tool_computer_use objective timeout) = Inr (''computer_use'', [], True, objective, preserveUndefined timeout 120)"

definition loadSequence :: "device_db \<Rightarrow> string \<Rightarrow> nat" where
  "loadSequence db deviceId = fold max (map dc_sequence (filter (\<lambda>c. dc_deviceId c = deviceId) (dd_commands db))) 0"

definition outbox_of :: "device_memory \<Rightarrow> string \<Rightarrow> device_command list" where
  "outbox_of mem deviceId = preserveUndefined (map_of (dm_outboxes mem) deviceId) []"

definition removeFromOutbox :: "string \<Rightarrow> string \<Rightarrow> device_memory \<Rightarrow> device_memory" where
  "removeFromOutbox deviceId commandId mem =
     (case map_of (dm_outboxes mem) deviceId of
        None \<Rightarrow> mem
      | Some outbox \<Rightarrow>
          let remaining = filter (\<lambda>c. cm_id c \<noteq> commandId) outbox
          in mem\<lparr>dm_outboxes := (if remaining = [] then AList.delete deviceId (dm_outboxes mem)
               else AList.update deviceId remaining (dm_outboxes mem))\<rparr>)"

definition set_commands :: "(command_row \<Rightarrow> bool) \<Rightarrow> (command_row \<Rightarrow> command_row) \<Rightarrow> device_db \<Rightarrow> device_db \<times> command_row list" where
  "set_commands P f db = (case sql_update P f (dd_commands db) of (rows, hit) \<Rightarrow> (db\<lparr>dd_commands := rows\<rparr>, hit))"

definition unsettled :: "command_row \<Rightarrow> bool" where
  "unsettled c \<longleftrightarrow> dc_status c \<in> {Cmd_pending, Cmd_dispatched}"

definition mark_dispatched :: "ms \<Rightarrow> string \<Rightarrow> device_db \<Rightarrow> device_db" where
  "mark_dispatched now commandId db = fst (set_commands (\<lambda>c. dc_id c = commandId \<and> dc_status c = Cmd_pending)
     (\<lambda>c. c\<lparr>dc_status := Cmd_dispatched, dc_dispatchedAt := Some now\<rparr>) db)"

text \<open>The command is numbered, recorded and put into the outbox, one at a time for a device.\<close>

definition command_key :: "command_row \<Rightarrow> string \<times> nat" where
  "command_key c = (dc_deviceId c, dc_sequence c)"

definition enqueue_command ::
  "string \<Rightarrow> ms \<Rightarrow> string \<Rightarrow> string \<Rightarrow> string option \<Rightarrow> string option \<Rightarrow> device_tool \<Rightarrow>
     string \<times> (string \<times> string) list \<times> bool \<times> string \<times> int \<Rightarrow> device_memory \<Rightarrow> device_db \<Rightarrow>
     device_memory \<times> device_db \<times> (string + device_command)" where
  "enqueue_command uuid now deviceId runId stepId proposalId tool plan mem db =
     (case plan of (action, parameters, computerUse, objective, timeoutSeconds) \<Rightarrow>
      let next1 = preserveUndefined (map_of (dm_sequences mem) deviceId) (loadSequence db deviceId) + 1;
          mem1 = mem\<lparr>dm_sequences := AList.update deviceId next1 (dm_sequences mem)\<rparr>;
          value = \<lparr>cm_id = uuid, cm_sequence = next1, cm_action = action, cm_parameters = parameters, cm_computerUse = computerUse,
            cm_objective = objective, cm_timeoutSeconds = timeoutSeconds\<rparr>;
          row = \<lparr>dc_id = uuid, dc_deviceId = deviceId, dc_runId = text_or_null runId,
            dc_stepId = Option.bind stepId text_or_null, dc_proposalId = Option.bind proposalId text_or_null, dc_sequence = next1,
            dc_tool = tool, dc_status = Cmd_pending, dc_output = JNull, dc_error = None, dc_createdAt = now, dc_dispatchedAt = None,
            dc_completedAt = None\<rparr>
      in if command_key row \<in> command_key ` set (dd_commands db) \<or> deviceId \<notin> mc_id ` set (dd_machines db)
         then (mem1\<lparr>dm_sequences := AList.delete deviceId (dm_sequences mem1)\<rparr>, db, Inl ''insert failed'')
         else let outbox = outbox_of mem1 deviceId @ [value]
              in (mem1\<lparr>dm_outboxes := AList.update deviceId (if OUTBOX_LIMIT < length outbox then tl outbox else outbox) (dm_outboxes mem1)\<rparr>,
                  db\<lparr>dd_commands := dd_commands db @ [row]\<rparr>, Inr value))"

text \<open>\<open>dispatchDeviceTool\<close> up to the wait for the answer: the command that it waits for, or an exception.\<close>

definition dispatchDeviceTool ::
  "string \<Rightarrow> (nat \<Rightarrow> bool) \<Rightarrow> ms \<Rightarrow> string \<Rightarrow> string \<Rightarrow> string option \<Rightarrow> string option \<Rightarrow> device_tool \<Rightarrow> device_memory \<Rightarrow> device_db \<Rightarrow>
     device_memory \<times> device_db \<times> device_outputs \<times> (string + string)" where
  "dispatchDeviceTool uuid writes now runId deviceId stepId proposalId tool mem db =
     (if deviceId = [] then (mem, db, [], Inl ''device_id is required'')
      else case command_plan tool of
        Inl e \<Rightarrow> (mem, db, [], Inl e)
      | Inr plan \<Rightarrow>
     (case enqueue_command uuid now deviceId runId stepId proposalId tool plan mem db of
        (mem1, db1, Inl e) \<Rightarrow> (mem1, db1, [], Inl e)
      | (mem1, db1, Inr command) \<Rightarrow>
          let mem2 = mem1\<lparr>dm_pending := dm_pending mem1 @ [cm_id command]\<rparr>
          in case map_of (dm_devices mem2) deviceId of
               None \<Rightarrow> (mem2, db1, [], Inr (cm_id command))
             | Some conn \<Rightarrow>
                 if writes (dn_stream conn)
                 then (mem2, mark_dispatched now (cm_id command) db1, [(dn_stream conn, Dev_command command)], Inr (cm_id command))
                 else ((removeFromOutbox deviceId (cm_id command) mem2)\<lparr>dm_pending := filter (\<lambda>i. i \<noteq> cm_id command) (dm_pending mem2)\<rparr>,
                       fst (set_commands (\<lambda>c. dc_id c = cm_id command)
                         (\<lambda>c. c\<lparr>dc_status := Cmd_failed, dc_error := Some ''device dispatch failed'', dc_completedAt := Some now\<rparr>) db1),
                       [], Inl ''device dispatch failed'')))"

text \<open>The timer of a command that nobody answered.\<close>

definition timeout_command :: "ms \<Rightarrow> string \<Rightarrow> string \<Rightarrow> device_memory \<Rightarrow> device_db \<Rightarrow> device_memory \<times> device_db" where
  "timeout_command now deviceId commandId mem db =
     (if commandId \<notin> set (dm_pending mem) then (mem, db)
      else ((removeFromOutbox deviceId commandId mem)\<lparr>dm_pending := filter (\<lambda>i. i \<noteq> commandId) (dm_pending mem)\<rparr>,
            fst (set_commands (\<lambda>c. dc_id c = commandId \<and> unsettled c)
              (\<lambda>c. c\<lparr>dc_status := Cmd_timed_out, dc_error := Some ''device command timed out'', dc_completedAt := Some now\<rparr>) db)))"

record command_result =
  cr_commandId :: string
  cr_ok :: bool
  cr_status :: string
  cr_outputJson :: string
  cr_error :: string

definition TERMINAL_COMMAND_STATUSES :: "command_status list" where
  "TERMINAL_COMMAND_STATUSES = [Cmd_succeeded, Cmd_failed, Cmd_timed_out, Cmd_indeterminate]"

definition reported_status :: "command_result \<Rightarrow> command_status" where
  "reported_status r =
     (case find (\<lambda>s. command_status_key s = cr_status r) TERMINAL_COMMAND_STATUSES of
        Some s \<Rightarrow> s | None \<Rightarrow> if cr_ok r then Cmd_succeeded else Cmd_failed)"

definition reported_output :: "(string \<Rightarrow> jsval option) \<Rightarrow> command_result \<Rightarrow> jsval" where
  "reported_output json r =
     (if cr_outputJson r = [] then JNull else case json (cr_outputJson r) of None \<Rightarrow> JStr (cr_outputJson r) | Some v \<Rightarrow> v)"

text \<open>The last component settles the promise of \<open>dispatchDeviceTool\<close>.\<close>

definition completeCommand ::
  "(string \<Rightarrow> jsval option) \<Rightarrow> ms \<Rightarrow> string \<Rightarrow> command_result \<Rightarrow> device_memory \<Rightarrow> device_db \<Rightarrow>
     device_memory \<times> device_db \<times> (string + jsval) option" where
  "completeCommand json now deviceId r mem db =
     (case set_commands (\<lambda>c. dc_id c = cr_commandId r \<and> dc_deviceId c = deviceId \<and> unsettled c)
         (\<lambda>c. c\<lparr>dc_status := reported_status r, dc_output := reported_output json r, dc_error := text_or_null (cr_error r),
            dc_completedAt := Some now\<rparr>) db of
        (_, []) \<Rightarrow> (mem, db, None)
      | (db1, _ # _) \<Rightarrow>
          let mem1 = removeFromOutbox deviceId (cr_commandId r) mem
          in if cr_commandId r \<in> set (dm_pending mem1)
             then (mem1\<lparr>dm_pending := filter (\<lambda>i. i \<noteq> cr_commandId r) (dm_pending mem1)\<rparr>, db1,
                   Some (if cr_ok r then Inr (reported_output json r)
                     else Inl (if cr_error r = [] then ''device command failed'' else cr_error r)))
             else (mem1, db1, None))"

text \<open>The commands of \<open>reconcileOrphans\<close>.\<close>

definition reconcile_commands :: "ms \<Rightarrow> device_db \<Rightarrow> device_db" where
  "reconcile_commands now db = fst (set_commands (\<lambda>c. unsettled c \<and> dc_createdAt c < now - RUN_LEASE_MS)
     (\<lambda>c. c\<lparr>dc_status := Cmd_timed_out, dc_error := Some ''gateway restarted before dispatch'', dc_completedAt := Some now\<rparr>) db)"

section \<open>Connections\<close>

record hello =
  he_deviceId :: string
  he_credential :: string
  he_enrolmentToken :: string
  he_hostname :: string
  he_username :: string
  he_platform :: string
  he_release :: string
  he_agentVersion :: string
  he_lastSeenSequence :: nat

definition CLAIM_CODE_TTL_MS :: int where "CLAIM_CODE_TTL_MS = 24 * 60 * 60000"

definition find_machine :: "device_db \<Rightarrow> string \<Rightarrow> machine option" where
  "find_machine db deviceId = first_row (\<lambda>d. mc_id d = deviceId) (dd_machines db)"

definition set_machines :: "(machine \<Rightarrow> bool) \<Rightarrow> (machine \<Rightarrow> machine) \<Rightarrow> device_db \<Rightarrow> device_db \<times> machine list" where
  "set_machines P f db = (case sql_update P f (dd_machines db) of (rows, hit) \<Rightarrow> (db\<lparr>dd_machines := rows\<rparr>, hit))"

text \<open>The columns that every hello writes.\<close>

definition hello_details :: "ms \<Rightarrow> hello \<Rightarrow> machine \<Rightarrow> machine" where
  "hello_details now h d = d\<lparr>mc_hostname := take 255 (he_hostname h), mc_username := Some (take 255 (he_username h)),
     mc_platform := Some (take 64 (he_platform h)), mc_release := Some (take 255 (he_release h)),
     mc_agentVersion := Some (take 64 (he_agentVersion h)), mc_online := True, mc_lastSeenAt := now\<rparr>"

definition blank_machine :: "string \<Rightarrow> machine" where
  "blank_machine i = \<lparr>mc_id = i, mc_ownerId = None, mc_hostname = [], mc_username = None, mc_platform = None, mc_release = None,
     mc_agentVersion = None, mc_credentialHash = None, mc_credentialRotatedAt = None, mc_revokedAt = None, mc_executionEnabled = False,
     mc_claimCodeHash = None, mc_claimCodeExpiresAt = None, mc_online = False, mc_lastSeenAt = 0, mc_enrolledAt = None\<rparr>"

text \<open>Spending an enrolment token: the token and the row of the device in one transaction, \<open>None\<close> where no token was hit.\<close>

definition enrolled_machine :: "(string \<Rightarrow> string) \<Rightarrow> string \<Rightarrow> ms \<Rightarrow> hello \<Rightarrow> machine \<Rightarrow> machine" where
  "enrolled_machine hash credential now h d = (hello_details now h d)\<lparr>mc_credentialHash := Some (hash credential),
     mc_credentialRotatedAt := Some now, mc_enrolledAt := Some now, mc_revokedAt := None\<rparr>"

definition token_usable :: "(string \<Rightarrow> string) \<Rightarrow> ms \<Rightarrow> string \<Rightarrow> enrolment_token \<Rightarrow> bool" where
  "token_usable hash now token t \<longleftrightarrow> et_tokenHash t = hash token \<and> et_usedAt t = None \<and> now < et_expiresAt t"

definition enrol_device :: "(string \<Rightarrow> string) \<Rightarrow> string \<Rightarrow> ms \<Rightarrow> hello \<Rightarrow> device_db \<Rightarrow> device_db option" where
  "enrol_device hash credential now h db =
     (case sql_update (token_usable hash now (he_enrolmentToken h))
         (\<lambda>t. t\<lparr>et_usedAt := Some now, et_usedByDeviceId := Some (he_deviceId h)\<rparr>) (dd_tokens db) of
        (_, []) \<Rightarrow> None
      | (tokens, _ # _) \<Rightarrow>
          let machines = (if he_deviceId h \<in> mc_id ` set (dd_machines db)
            then map (\<lambda>d. if mc_id d = he_deviceId h then enrolled_machine hash credential now h d else d) (dd_machines db)
            else dd_machines db @ [enrolled_machine hash credential now h (blank_machine (he_deviceId h))])
          in Some (db\<lparr>dd_tokens := tokens, dd_machines := machines\<rparr>))"

definition owned :: "machine \<Rightarrow> bool" where
  "owned d \<longleftrightarrow> (case mc_ownerId d of None \<Rightarrow> False | Some u \<Rightarrow> u \<noteq> [])"

definition claim_code_usable :: "ms \<Rightarrow> machine \<Rightarrow> bool" where
  "claim_code_usable now d \<longleftrightarrow> mc_claimCodeHash d \<noteq> None \<and> (case mc_claimCodeExpiresAt d of None \<Rightarrow> False | Some t \<Rightarrow> now < t)"

definition store_claim_code :: "(string \<Rightarrow> string) \<Rightarrow> string \<Rightarrow> ms \<Rightarrow> string \<Rightarrow> device_db \<Rightarrow> device_db \<times> string" where
  "store_claim_code hash code now deviceId db =
     (case set_machines (\<lambda>d. mc_id d = deviceId \<and> mc_ownerId d = None \<and> mc_revokedAt d = None)
         (\<lambda>d. d\<lparr>mc_claimCodeHash := Some (hash (normaliseClaimCode code)), mc_claimCodeExpiresAt := Some (now + CLAIM_CODE_TTL_MS)\<rparr>) db of
        (_, []) \<Rightarrow> (db, []) | (db1, _ # _) \<Rightarrow> (db1, code))"

text \<open>The part after the credential: the sequence, the second look at the row, the claim code, the replay.\<close>

definition replay_commands :: "nat \<Rightarrow> device_command list \<Rightarrow> device_command list" where
  "replay_commands lastSeen outbox = filter (\<lambda>c. lastSeen < cm_sequence c) outbox"

definition admit_device ::
  "(string \<Rightarrow> string) \<Rightarrow> string \<Rightarrow> string \<Rightarrow> ms \<Rightarrow> nat \<Rightarrow> nat \<Rightarrow> hello \<Rightarrow> device_memory \<Rightarrow> device_db \<Rightarrow>
     device_memory \<times> device_db \<times> device_outputs \<times> string option" where
  "admit_device hash issued code now stream generation h mem db =
     (let i = he_deviceId h;
          mem1 = (if i \<in> fst ` set (dm_sequences mem) then mem
            else mem\<lparr>dm_sequences := AList.update i (loadSequence db i) (dm_sequences mem)\<rparr>)
      in case find_machine db i of
           None \<Rightarrow> (mem1, db, [], Some ''revoked before replay'')
         | Some d \<Rightarrow>
             if mc_revokedAt d \<noteq> None then (mem1, db, [], Some ''revoked before replay'')
             else case (if \<not> owned d \<and> (he_enrolmentToken h \<noteq> [] \<or> \<not> claim_code_usable now d)
                 then store_claim_code hash code now i db else (db, [])) of
               (db1, issuedClaimCode) \<Rightarrow>
                 let ended = (case map_of (dm_devices mem1) i of None \<Rightarrow> [] | Some old \<Rightarrow> [(dn_stream old, Dev_end)]);
                     replay = replay_commands (he_lastSeenSequence h) (outbox_of mem1 i)
                 in (mem1\<lparr>dm_devices := AList.update i \<lparr>dn_stream = stream, dn_lastSeen = now, dn_generation = generation\<rparr> (dm_devices mem1)\<rparr>,
                     fold (mark_dispatched now) (map cm_id replay) db1,
                     ended @ [(stream, Dev_enrollment (mc_ownerId d \<noteq> None) issued issuedClaimCode)] @
                       map (\<lambda>c. (stream, Dev_command c)) replay, None))"

definition registerDevice ::
  "(string \<Rightarrow> string) \<Rightarrow> string \<Rightarrow> string \<Rightarrow> ms \<Rightarrow> nat \<Rightarrow> nat \<Rightarrow> hello \<Rightarrow> device_memory \<Rightarrow> device_db \<Rightarrow>
     device_memory \<times> device_db \<times> device_outputs \<times> string option" where
  "registerDevice hash credential code now stream generation h mem db =
     (if \<not> valid_device_id (he_deviceId h) then (mem, db, [], Some ''invalid device id'')
      else if he_enrolmentToken h \<noteq> []
      then (case enrol_device hash credential now h db of
              None \<Rightarrow> (mem, db, [], Some ''invalid enrolment'')
            | Some db1 \<Rightarrow> admit_device hash credential code now stream generation h mem db1)
      else (case find_machine db (he_deviceId h) of
              None \<Rightarrow> (mem, db, [], Some ''invalid credential'')
            | Some d \<Rightarrow>
                if mc_revokedAt d \<noteq> None \<or> \<not> validDeviceSecret hash (he_credential h) (mc_credentialHash d)
                then (mem, db, [], Some ''invalid credential'')
                else admit_device hash [] code now stream generation h mem
                  (fst (set_machines (\<lambda>d. mc_id d = he_deviceId h) (hello_details now h) db))))"

definition rotateDeviceCredential ::
  "(string \<Rightarrow> string) \<Rightarrow> string \<Rightarrow> ms \<Rightarrow> string \<Rightarrow> device_memory \<Rightarrow> device_db \<Rightarrow> device_db \<times> device_outputs \<times> bool" where
  "rotateDeviceCredential hash credential now deviceId mem db =
     (case map_of (dm_devices mem) deviceId of
        None \<Rightarrow> (db, [], False)
      | Some conn \<Rightarrow>
          (case set_machines (\<lambda>d. mc_id d = deviceId \<and> mc_revokedAt d = None)
              (\<lambda>d. d\<lparr>mc_credentialHash := Some (hash credential), mc_credentialRotatedAt := Some now\<rparr>) db of
             (_, []) \<Rightarrow> (db, [], False)
           | (db1, d # _) \<Rightarrow> (db1, [(dn_stream conn, Dev_enrollment (mc_ownerId d \<noteq> None) credential [])], True)))"

definition revokeDevice :: "ms \<Rightarrow> string \<Rightarrow> device_memory \<Rightarrow> device_db \<Rightarrow> device_memory \<times> device_db \<times> device_outputs \<times> ms option" where
  "revokeDevice now deviceId mem db =
     (case set_machines (\<lambda>d. mc_id d = deviceId) (\<lambda>d. d\<lparr>mc_revokedAt := Some now, mc_online := False\<rparr>) db of
        (_, []) \<Rightarrow> (mem, db, [], None)
      | (db1, _ # _) \<Rightarrow>
          (mem\<lparr>dm_outboxes := AList.delete deviceId (dm_outboxes mem), dm_sequences := AList.delete deviceId (dm_sequences mem),
             dm_devices := AList.delete deviceId (dm_devices mem)\<rparr>, db1,
           (case map_of (dm_devices mem) deviceId of None \<Rightarrow> [] | Some conn \<Rightarrow> [(dn_stream conn, Dev_destroy ''revoked'')]), Some now))"

definition disconnectDevice :: "ms \<Rightarrow> string \<Rightarrow> nat option \<Rightarrow> device_memory \<Rightarrow> device_db \<Rightarrow> device_memory \<times> device_db" where
  "disconnectDevice now deviceId generation mem db =
     (if deviceId = [] \<or> map_option dn_generation (map_of (dm_devices mem) deviceId) \<noteq> generation then (mem, db)
      else (mem\<lparr>dm_devices := AList.delete deviceId (dm_devices mem)\<rparr>,
            fst (set_machines (\<lambda>d. mc_id d = deviceId) (\<lambda>d. d\<lparr>mc_online := False, mc_lastSeenAt := now\<rparr>) db)))"

text \<open>A message of a device after its hello, which is dropped when the connection has been replaced.\<close>

datatype device_inbound = In_heartbeat | In_result command_result | In_inventory

definition on_device_message ::
  "(string \<Rightarrow> jsval option) \<Rightarrow> ms \<Rightarrow> string \<Rightarrow> nat \<Rightarrow> device_inbound \<Rightarrow> device_memory \<Rightarrow> device_db \<Rightarrow>
     device_memory \<times> device_db \<times> (string + jsval) option" where
  "on_device_message json now deviceId generation message mem db =
     (case map_of (dm_devices mem) deviceId of
        None \<Rightarrow> (mem, db, None)
      | Some conn \<Rightarrow>
          if dn_generation conn \<noteq> generation \<or> deviceId = [] then (mem, db, None)
          else (case message of
             In_heartbeat \<Rightarrow> (mem\<lparr>dm_devices := AList.update deviceId (conn\<lparr>dn_lastSeen := now\<rparr>) (dm_devices mem)\<rparr>,
               fst (set_machines (\<lambda>d. mc_id d = deviceId) (\<lambda>d. d\<lparr>mc_lastSeenAt := now\<rparr>) db), None)
           | In_result r \<Rightarrow> completeCommand json now deviceId r mem db
           | In_inventory \<Rightarrow> (mem, db, None)))"

text \<open>The devices of one sweep: a connection that is stale is ended, the others are greeted.\<close>

definition sweep_device :: "ms \<Rightarrow> string \<times> device_connection \<Rightarrow> device_memory \<times> device_db \<times> device_outputs \<Rightarrow>
    device_memory \<times> device_db \<times> device_outputs" where
  "sweep_device now entry s =
     (case entry of (deviceId, conn) \<Rightarrow> case s of (mem, db, outs) \<Rightarrow>
        if STALE_MS < now - dn_lastSeen conn
        then (case disconnectDevice now deviceId (Some (dn_generation conn)) mem db of (mem1, db1) \<Rightarrow> (mem1, db1, outs @ [(dn_stream conn, Dev_end)]))
        else (mem, db, outs @ [(dn_stream conn, Dev_heartbeat now)]))"

definition sweep_devices :: "ms \<Rightarrow> device_memory \<Rightarrow> device_db \<Rightarrow> device_memory \<times> device_db \<times> device_outputs" where
  "sweep_devices now mem db = fold (sweep_device now) (dm_devices mem) (mem, db, [])"

section \<open>The handlers of the router\<close>

definition createDeviceEnrolmentToken :: "(string \<Rightarrow> string) \<Rightarrow> string \<Rightarrow> string \<Rightarrow> ms \<Rightarrow> string \<Rightarrow> device_db \<Rightarrow> device_db \<times> string \<times> ms" where
  "createDeviceEnrolmentToken hash uuid token now userId db =
     (db\<lparr>dd_tokens := dd_tokens db @ [\<lparr>et_id = uuid, et_tokenHash = hash token, et_createdBy = Some userId,
        et_expiresAt = now + 10 * 60000, et_usedAt = None, et_usedByDeviceId = None\<rparr>]\<rparr>, token, now + 10 * 60000)"

definition claimDevice :: "(string \<Rightarrow> string) \<Rightarrow> ms \<Rightarrow> string \<Rightarrow> string \<Rightarrow> device_db \<Rightarrow> desk_error + device_db \<times> machine" where
  "claimDevice hash now userId input db =
     (let code = normaliseClaimCode input
      in if code = [] then Inl Not_found
         else case set_machines (\<lambda>d. mc_claimCodeHash d = Some (hash code) \<and> mc_ownerId d = None \<and> mc_revokedAt d = None \<and>
                 (case mc_claimCodeExpiresAt d of None \<Rightarrow> False | Some t \<Rightarrow> now < t))
               (\<lambda>d. d\<lparr>mc_ownerId := Some userId, mc_claimCodeHash := None, mc_claimCodeExpiresAt := None\<rparr>) db of
             (_, []) \<Rightarrow> Inl Not_found
           | (db1, d # _) \<Rightarrow> Inr (db1, d))"

definition releaseMyDevice :: "string \<Rightarrow> string \<Rightarrow> device_db \<Rightarrow> desk_error + device_db \<times> machine" where
  "releaseMyDevice userId deviceId db =
     (case set_machines (\<lambda>d. mc_id d = deviceId \<and> mc_ownerId d = Some userId) (\<lambda>d. d\<lparr>mc_ownerId := None\<rparr>) db of
        (_, []) \<Rightarrow> Inl Not_found | (db1, d # _) \<Rightarrow> Inr (db1, d))"

definition listMyDevices :: "string \<Rightarrow> device_db \<Rightarrow> machine list" where
  "listMyDevices userId db = js_sort (\<lambda>a b. mc_lastSeenAt b - mc_lastSeenAt a) (filter (\<lambda>d. mc_ownerId d = Some userId) (dd_machines db))"

definition credential_status :: "machine \<Rightarrow> string" where
  "credential_status d = (if mc_revokedAt d \<noteq> None then ''revoked'' else
     (case mc_credentialHash d of Some (_ # _) \<Rightarrow> ''active'' | _ \<Rightarrow> ''missing''))"

definition last_command :: "device_db \<Rightarrow> string \<Rightarrow> command_row option" where
  "last_command db deviceId =
     (case js_sort (\<lambda>a b. dc_createdAt b - dc_createdAt a) (filter (\<lambda>c. dc_deviceId c = deviceId) (dd_commands db)) of [] \<Rightarrow> None | c # _ \<Rightarrow> Some c)"

definition listDevices :: "device_db \<Rightarrow> (machine \<times> string \<times> command_row option) list" where
  "listDevices db = map (\<lambda>d. (d, credential_status d, last_command db (mc_id d)))
     (js_sort (\<lambda>a b. mc_lastSeenAt b - mc_lastSeenAt a) (dd_machines db))"

definition listDeviceCommands :: "string \<Rightarrow> nat \<Rightarrow> device_db \<Rightarrow> command_row list" where
  "listDeviceCommands deviceId limit db =
     take limit (js_sort (\<lambda>a b. int (dc_sequence b) - int (dc_sequence a)) (filter (\<lambda>c. dc_deviceId c = deviceId) (dd_commands db)))"

section \<open>Proposed commands\<close>

definition PROPOSAL_TTL_MS :: int where "PROPOSAL_TTL_MS = 24 * 60 * 60 * 1000"

definition commandDigest :: "(string \<Rightarrow> string) \<Rightarrow> string list \<Rightarrow> string" where
  "commandDigest hash command = hash (json_strings command)"

text \<open>The schema of a proposal.\<close>

definition proposal_ok :: "string \<Rightarrow> string list \<Rightarrow> string \<Rightarrow> bool" where
  "proposal_ok deviceId command reason \<longleftrightarrow> deviceId \<noteq> [] \<and> command \<noteq> [] \<and> length command \<le> 32 \<and>
     (\<forall>p\<in>set command. p \<noteq> [] \<and> length p \<le> 1024 \<and> (\<forall>c\<in>set p. of_char c \<notin> {0, 10, 13::nat})) \<and>
     20 \<le> length reason \<and> length reason \<le> 2000"

definition proposeDeviceCommand ::
  "(string \<Rightarrow> string) \<Rightarrow> string \<Rightarrow> ms \<Rightarrow> string \<Rightarrow> string list \<Rightarrow> string \<Rightarrow> string \<Rightarrow> string \<Rightarrow> string \<Rightarrow> device_db \<Rightarrow> string + device_db" where
  "proposeDeviceCommand hash uuid now deviceId command reason ticketId runId stepId db =
     (case find_machine db deviceId of
        None \<Rightarrow> Inl (''Unknown device '' @ deviceId)
      | Some d \<Rightarrow>
          if \<not> mc_executionEnabled d then Inl (''Device '' @ deviceId @ '' does not allow proposed commands. General execution is off unless an operator turns it on.'')
          else Inr (db\<lparr>dd_proposals := dd_proposals db @ [\<lparr>dp_id = uuid, dp_deviceId = deviceId, dp_ticketId = ticketId,
            dp_runId = text_or_null runId, dp_stepId = text_or_null stepId, dp_command = command, dp_digest = commandDigest hash command,
            dp_requestedById = (if runId = [] then None else preserveUndefined (map_of (dd_initiators db) runId) None),
            dp_reason = reason, dp_status = DP_proposed, dp_approvedById = None, dp_decidedAt = None, dp_decisionNote = None,
            dp_expiresAt = now + PROPOSAL_TTL_MS, dp_dispatchedCommandId = None, dp_createdAt = now\<rparr>]\<rparr>))"

definition set_proposals :: "(device_proposal \<Rightarrow> bool) \<Rightarrow> (device_proposal \<Rightarrow> device_proposal) \<Rightarrow> device_db \<Rightarrow> device_db \<times> device_proposal list" where
  "set_proposals P f db = (case sql_update P f (dd_proposals db) of (rows, hit) \<Rightarrow> (db\<lparr>dd_proposals := rows\<rparr>, hit))"

definition expireStaleProposals :: "ms \<Rightarrow> device_db \<Rightarrow> device_db" where
  "expireStaleProposals now db =
     fst (set_proposals (\<lambda>p. dp_status p \<in> {DP_proposed, DP_approved} \<and> dp_expiresAt p < now) (\<lambda>p. p\<lparr>dp_status := DP_expired\<rparr>) db)"

definition assertProposalDispatchable :: "(string \<Rightarrow> string) \<Rightarrow> ms \<Rightarrow> bool \<Rightarrow> device_proposal \<Rightarrow> string + unit" where
  "assertProposalDispatchable hash now executionEnabled p =
     (if dp_status p = DP_dispatched \<or> (case dp_dispatchedCommandId p of None \<Rightarrow> False | Some i \<Rightarrow> i \<noteq> [])
      then Inl ''This proposal has already run. An approval authorises one execution.''
      else if dp_status p = DP_rejected then Inl ''This proposal was rejected.''
      else if dp_status p = DP_expired then Inl ''This proposal expired before it was decided.''
      else if dp_status p \<noteq> DP_approved \<or> (case dp_approvedById p of None \<Rightarrow> True | Some u \<Rightarrow> u = []) then Inl ''This proposal has not been approved.''
      else if dp_expiresAt p \<le> now then Inl ''This proposal expired before it was dispatched.''
      else if \<not> executionEnabled then Inl ''This device no longer allows proposed commands.''
      else if dp_command p = [] then Inl ''This proposal does not carry an argument vector.''
      else if commandDigest hash (dp_command p) \<noteq> dp_digest p
      then Inl ''The command changed after it was approved. The approval no longer applies.''
      else Inr ())"

definition consumeProposal :: "string \<Rightarrow> device_db \<Rightarrow> device_db \<times> bool" where
  "consumeProposal i db =
     (case set_proposals (\<lambda>p. dp_id p = i \<and> dp_status p = DP_approved) (\<lambda>p. p\<lparr>dp_status := DP_dispatched\<rparr>) db of
        (db1, hit) \<Rightarrow> (db1, hit \<noteq> []))"

datatype decide_result =
    Decided device_proposal \<comment> \<open>rejected\<close>
  | Dispatched device_proposal
  | Decide_conflict string
  | Decide_forbidden string
  | Decide_error string

definition decide_row :: "bool \<Rightarrow> string \<Rightarrow> string option \<Rightarrow> ms \<Rightarrow> device_proposal \<Rightarrow> device_proposal" where
  "decide_row approve userId note now p = p\<lparr>dp_status := (if approve then DP_approved else DP_rejected), dp_approvedById := Some userId,
     dp_decisionNote := (case note of None \<Rightarrow> dp_decisionNote p | Some n \<Rightarrow> Some n), dp_decidedAt := Some now\<rparr>"

text \<open>
  \<open>decideDeviceProposal\<close>; \<open>meanwhile\<close> is what others commit between the decision and what follows. The dispatch of an
  approved command is not waited for, and its failure is only logged.
\<close>

definition decideDeviceProposal ::
  "(string \<Rightarrow> string) \<Rightarrow> string \<Rightarrow> (nat \<Rightarrow> bool) \<Rightarrow> ms \<Rightarrow> (device_db \<Rightarrow> device_db) \<Rightarrow> string \<Rightarrow> string \<Rightarrow> bool \<Rightarrow> string option \<Rightarrow>
     device_memory \<Rightarrow> device_db \<Rightarrow> device_memory \<times> device_db \<times> device_outputs \<times> decide_result" where
  "decideDeviceProposal hash uuid writes now meanwhile userId proposalId approve note mem db0 =
     (let db = expireStaleProposals now db0
      in case set_proposals (\<lambda>p. dp_id p = proposalId \<and> dp_status p = DP_proposed)
             (decide_row approve userId note now) db of
           (_, []) \<Rightarrow> (mem, db, [], Decide_conflict ''Proposal is missing, already decided, or expired'')
         | (db1, decided # _) \<Rightarrow>
             let db2 = meanwhile db1
             in if dp_requestedById decided = Some userId \<and> userId \<noteq> []
                then (mem, fst (set_proposals (\<lambda>p. dp_id p = proposalId)
                        (\<lambda>p. p\<lparr>dp_status := DP_proposed, dp_approvedById := None, dp_decidedAt := None\<rparr>) db2), [],
                      Decide_forbidden ''You started the run that proposed this command; someone else must decide it'')
                else if \<not> approve then (mem, db2, [], Decided decided)
                else case assertProposalDispatchable hash now
                       (case find_machine db2 (dp_deviceId decided) of None \<Rightarrow> False | Some d \<Rightarrow> mc_executionEnabled d) decided of
                  Inl e \<Rightarrow> (mem, db2, [], Decide_error e)
                | Inr _ \<Rightarrow>
                    (case consumeProposal proposalId db2 of
                       (db3, False) \<Rightarrow> (mem, db3, [], Decide_conflict ''Proposal was already dispatched'')
                     | (db3, True) \<Rightarrow>
                         (case dispatchDeviceTool uuid writes now [] (dp_deviceId decided) None (Some proposalId)
                             (Tool_run_command (dp_command decided) proposalId) mem db3 of
                            (mem4, db4, outs, _) \<Rightarrow> (mem4, db4, outs, Dispatched (decided\<lparr>dp_status := DP_dispatched\<rparr>)))))"

definition listDeviceProposals :: "ms \<Rightarrow> device_db \<Rightarrow> device_db \<times> (device_proposal \<times> string option) list" where
  "listDeviceProposals now db =
     (let db1 = expireStaleProposals now db
      in (db1, map (\<lambda>p. (p, map_option mc_hostname (find_machine db1 (dp_deviceId p)))) 
       (take 200 (js_sort (\<lambda>a b. dp_createdAt b - dp_createdAt a) (dd_proposals db1)))))"

end
