(* ===== verification/DeviceSafety.thy ===== *)
theory DeviceSafety
  imports Devices
begin

text \<open>
  What the gateway guarantees of its devices. The operations of \<open>Devices\<close> are the rules of a step relation, with every
  time, identifier and answer left open; the numbering of commands, the bound of the outbox, the finality of an outcome
  and the authorisation of proposed commands are invariants, proved by rule induction.
\<close>

section \<open>The steps\<close>

type_synonym device_state = "device_memory \<times> device_db"

definition blank_memory :: device_memory where
  "blank_memory = \<lparr>dm_devices = [], dm_sequences = [], dm_outboxes = [], dm_pending = []\<rparr>"

text \<open>
  The tools that a run can reach do not include the approved command, which only a decision dispatches. What the other
  routers do to a device (an operator allows execution, a ticket is bound to it) leaves its id.
\<close>

definition run_tool :: "device_tool \<Rightarrow> bool" where
  "run_tool t \<longleftrightarrow> (case t of Tool_run_command _ _ \<Rightarrow> False | _ \<Rightarrow> True)"

inductive device_step :: "(string \<Rightarrow> string) \<Rightarrow> device_state \<Rightarrow> device_state \<Rightarrow> bool" for hash where
  ds_dispatch: "dispatchDeviceTool uuid writes now runId deviceId stepId None tool mem db = (mem', db', outs, r) \<Longrightarrow>
    uuid \<notin> dc_id ` set (dd_commands db) \<Longrightarrow> run_tool tool \<Longrightarrow> device_step hash (mem, db) (mem', db')"
| ds_timeout: "device_step hash (mem, db) (timeout_command now deviceId commandId mem db)"
| ds_register: "registerDevice hash credential code now stream generation h mem db = (mem', db', outs, e) \<Longrightarrow>
    device_step hash (mem, db) (mem', db')"
| ds_message: "on_device_message json now deviceId generation m mem db = (mem', db', r) \<Longrightarrow> device_step hash (mem, db) (mem', db')"
| ds_rotate: "rotateDeviceCredential hash credential now deviceId mem db = (db', outs, ok) \<Longrightarrow> device_step hash (mem, db) (mem, db')"
| ds_revoke: "revokeDevice now deviceId mem db = (mem', db', outs, r) \<Longrightarrow> device_step hash (mem, db) (mem', db')"
| ds_disconnect: "device_step hash (mem, db) (disconnectDevice now deviceId generation mem db)"
| ds_restart: "device_step hash (mem, db) (blank_memory, reconcile_commands now db)"
| ds_token: "device_step hash (mem, db) (mem, fst (createDeviceEnrolmentToken hash uuid token now userId db))"
| ds_claim: "claimDevice hash now userId input db = Inr (db', d) \<Longrightarrow> device_step hash (mem, db) (mem, db')"
| ds_release: "releaseMyDevice userId deviceId db = Inr (db', d) \<Longrightarrow> device_step hash (mem, db) (mem, db')"
| ds_machines: "map mc_id machines = map mc_id (dd_machines db) \<Longrightarrow> device_step hash (mem, db) (mem, db\<lparr>dd_machines := machines\<rparr>)"
| ds_propose: "proposeDeviceCommand hash uuid now deviceId command reason ticketId runId stepId db = Inr db' \<Longrightarrow>
    uuid \<notin> dp_id ` set (dd_proposals db) \<Longrightarrow> uuid \<noteq> [] \<Longrightarrow> device_step hash (mem, db) (mem, db')"
| ds_expire: "device_step hash (mem, db) (mem, expireStaleProposals now db)"
| ds_decide: "decideDeviceProposal hash uuid writes now (\<lambda>d. d) userId proposalId approve note mem db = (mem', db', outs, r) \<Longrightarrow>
    uuid \<notin> dc_id ` set (dd_commands db) \<Longrightarrow> userId \<noteq> [] \<Longrightarrow> device_step hash (mem, db) (mem', db')"

definition device_trace :: "(string \<Rightarrow> string) \<Rightarrow> device_state \<Rightarrow> device_state \<Rightarrow> bool" where
  "device_trace hash = (device_step hash)\<^sup>*\<^sup>*"

section \<open>Frames\<close>

lemma set_commands_eq: "set_commands P f db = (db\<lparr>dd_commands := map (\<lambda>c. if P c then f c else c) (dd_commands db)\<rparr>,
    map f (filter P (dd_commands db)))"
  by (simp add: set_commands_def sql_update_def)

lemma set_machines_eq: "set_machines P f db = (db\<lparr>dd_machines := map (\<lambda>d. if P d then f d else d) (dd_machines db)\<rparr>,
    map f (filter P (dd_machines db)))"
  by (simp add: set_machines_def sql_update_def)

lemma set_proposals_eq: "set_proposals P f db = (db\<lparr>dd_proposals := map (\<lambda>p. if P p then f p else p) (dd_proposals db)\<rparr>,
    map f (filter P (dd_proposals db)))"
  by (simp add: set_proposals_def sql_update_def)

text \<open>What an update may do to the commands: it keeps what identifies a row, and a settled row altogether.\<close>

definition same_command :: "command_row \<Rightarrow> command_row \<Rightarrow> bool" where
  "same_command c c' \<longleftrightarrow> dc_id c' = dc_id c \<and> dc_deviceId c' = dc_deviceId c \<and> dc_sequence c' = dc_sequence c \<and>
     dc_tool c' = dc_tool c \<and> dc_proposalId c' = dc_proposalId c \<and> (\<not> unsettled c \<longrightarrow> c' = c)"

definition commands_kept :: "command_row list \<Rightarrow> command_row list \<Rightarrow> bool" where
  "commands_kept cs cs' \<longleftrightarrow> list_all2 same_command cs cs'"

lemma same_command_refl [simp]: "same_command c c"
  by (simp add: same_command_def)

lemma same_command_trans: "same_command a b \<Longrightarrow> same_command b c \<Longrightarrow> same_command a c"
  by (auto simp: same_command_def)

lemma commands_kept_refl [simp]: "commands_kept cs cs"
  by (simp add: commands_kept_def list_all2_refl)

lemma commands_kept_trans: "commands_kept a b \<Longrightarrow> commands_kept b c \<Longrightarrow> commands_kept a c"
  unfolding commands_kept_def by (rule list_all2_trans [OF same_command_trans])

lemma commands_kept_map:
  "(\<And>c. c \<in> set cs \<Longrightarrow> P c \<Longrightarrow> same_command c (f c)) \<Longrightarrow> commands_kept cs (map (\<lambda>c. if P c then f c else c) cs)"
  by (simp add: commands_kept_def list_all2_conv_all_nth)

lemma commands_kept_keys:
  assumes "commands_kept cs cs'"
  shows "map dc_id cs' = map dc_id cs" "map command_key cs' = map command_key cs" "map dc_tool cs' = map dc_tool cs"
    "map dc_proposalId cs' = map dc_proposalId cs"
  using assms unfolding commands_kept_def
  by (induction rule: list_all2_induct) (auto simp: same_command_def command_key_def)

lemma commands_kept_settled: "commands_kept cs cs' \<Longrightarrow> c \<in> set cs \<Longrightarrow> \<not> unsettled c \<Longrightarrow> c \<in> set cs'"
  unfolding commands_kept_def by (induction rule: list_all2_induct) (auto simp: same_command_def)

section \<open>The numbering\<close>

text \<open>A command of an outbox has its row.\<close>

definition has_row :: "device_db \<Rightarrow> string \<Rightarrow> device_command \<Rightarrow> bool" where
  "has_row db i m \<longleftrightarrow> (cm_id m, i, cm_sequence m) \<in> (\<lambda>c. (dc_id c, dc_deviceId c, dc_sequence c)) ` set (dd_commands db)"

definition outbox_ok :: "device_db \<Rightarrow> string \<Rightarrow> device_command list \<Rightarrow> bool" where
  "outbox_ok db i box \<longleftrightarrow> sorted_wrt (<) (map cm_sequence box) \<and> length box \<le> OUTBOX_LIMIT \<and> (\<forall>m\<in>set box. has_row db i m)"

definition numbered :: "device_state \<Rightarrow> bool" where
  "numbered s \<longleftrightarrow> distinct (map dc_id (dd_commands (snd s))) \<and> distinct (map command_key (dd_commands (snd s))) \<and>
     (\<forall>i n. map_of (dm_sequences (fst s)) i = Some n \<longrightarrow> (\<forall>c\<in>set (dd_commands (snd s)). dc_deviceId c = i \<longrightarrow> dc_sequence c \<le> n)) \<and>
     (\<forall>i. outbox_ok (snd s) i (outbox_of (fst s) i))"

lemma kept_has_row: "commands_kept (dd_commands db) (dd_commands db') \<Longrightarrow> has_row db i m \<Longrightarrow> has_row db' i m"
proof -
  assume "commands_kept (dd_commands db) (dd_commands db')" and h: "has_row db i m"
  then have "map (\<lambda>c. (dc_id c, dc_deviceId c, dc_sequence c)) (dd_commands db') = map (\<lambda>c. (dc_id c, dc_deviceId c, dc_sequence c)) (dd_commands db)"
    unfolding commands_kept_def by - (induction rule: list_all2_induct, auto simp: same_command_def)
  then show ?thesis using h unfolding has_row_def list.set_map [symmetric] by simp
qed

lemma outbox_ok_filter: "outbox_ok db i box \<Longrightarrow> outbox_ok db i (filter P box)"
  unfolding outbox_ok_def by (auto simp: sorted_wrt_map sorted_wrt_filter intro: le_trans [OF length_filter_le])

text \<open>A step that adds no command, and only takes away from the outboxes.\<close>

definition quieter :: "device_state \<Rightarrow> device_state \<Rightarrow> bool" where
  "quieter s s' \<longleftrightarrow> commands_kept (dd_commands (snd s)) (dd_commands (snd s')) \<and>
     (\<forall>i. \<exists>P. outbox_of (fst s') i = filter P (outbox_of (fst s) i)) \<and>
     (\<forall>i n. map_of (dm_sequences (fst s')) i = Some n \<longrightarrow> map_of (dm_sequences (fst s)) i = Some n \<or> n = loadSequence (snd s) i)"

lemma loadSequence_bound: "c \<in> set (dd_commands db) \<Longrightarrow> dc_deviceId c = i \<Longrightarrow> dc_sequence c \<le> loadSequence db i"
proof -
  assume c: "c \<in> set (dd_commands db)" "dc_deviceId c = i"
  have fold_max: "fold max xs a = Max (insert a (set xs))" for xs :: "nat list" and a
    by (metis Max.set_eq_fold list.set(2))
  have "dc_sequence c \<in> insert 0 (set (map dc_sequence (filter (\<lambda>c. dc_deviceId c = i) (dd_commands db))))" using c by auto
  then show ?thesis unfolding loadSequence_def fold_max by (intro Max_ge) simp_all
qed

lemma kept_sequences:
  assumes "commands_kept cs cs'" and "c' \<in> set cs'"
  shows "\<exists>c\<in>set cs. dc_deviceId c = dc_deviceId c' \<and> dc_sequence c = dc_sequence c'"
proof -
  have "command_key c' \<in> set (map command_key cs)" using commands_kept_keys(2) [OF assms(1)] assms(2) by (metis image_eqI list.set_map)
  then show ?thesis by (auto simp: command_key_def)
qed

lemma quieter_numbered:
  assumes "quieter s s'" and "numbered s"
  shows "numbered s'"
proof -
  have kept: "commands_kept (dd_commands (snd s)) (dd_commands (snd s'))" using assms(1) by (simp add: quieter_def)
  have "outbox_ok (snd s') i (outbox_of (fst s') i)" for i
  proof -
    obtain P where P: "outbox_of (fst s') i = filter P (outbox_of (fst s) i)" using assms(1) unfolding quieter_def by blast
    have "outbox_ok (snd s) i (filter P (outbox_of (fst s) i))" using assms(2) outbox_ok_filter unfolding numbered_def by blast
    then show ?thesis unfolding P outbox_ok_def using kept_has_row [OF kept] by blast
  qed
  moreover have "dc_sequence c \<le> n"
    if n: "map_of (dm_sequences (fst s')) (dc_deviceId c) = Some n" and c: "c \<in> set (dd_commands (snd s'))" for c n
  proof -
    obtain c0 where c0: "c0 \<in> set (dd_commands (snd s))" "dc_deviceId c0 = dc_deviceId c" "dc_sequence c0 = dc_sequence c"
      using kept_sequences [OF kept c] by blast
    have "map_of (dm_sequences (fst s)) (dc_deviceId c) = Some n \<or> n = loadSequence (snd s) (dc_deviceId c)"
      using assms(1) n unfolding quieter_def by blast
    then show ?thesis using assms(2) c0 loadSequence_bound [OF c0(1,2)] unfolding numbered_def by metis
  qed
  ultimately show ?thesis using assms(2) commands_kept_keys(1,2) [OF kept] unfolding numbered_def by simp
qed

section \<open>The operations in the frame\<close>

lemma filter_some [simp, intro]: "\<exists>P. xs = filter P xs" "\<exists>P. [] = filter P xs"
  by (auto intro: exI [of _ "\<lambda>_. True"] exI [of _ "\<lambda>_. False"])

lemma quieter_refl [simp]: "quieter s s"
  unfolding quieter_def by simp

lemma outbox_of_remove: "outbox_of (removeFromOutbox i k mem) j = filter (\<lambda>c. j = i \<longrightarrow> cm_id c \<noteq> k) (outbox_of mem j)"
  by (cases "map_of (dm_outboxes mem) i")
    (auto simp: removeFromOutbox_def outbox_of_def preserveUndefined_def Let_def AList.delete_conv' AList.update_conv')

lemma remove_sequences [simp]: "dm_sequences (removeFromOutbox i k mem) = dm_sequences mem"
  by (simp add: removeFromOutbox_def Let_def split: option.splits)

lemma outbox_of_pending [simp]: "outbox_of (mem\<lparr>dm_pending := x\<rparr>) i = outbox_of mem i" "outbox_of (mem\<lparr>dm_devices := y\<rparr>) i = outbox_of mem i"
  "outbox_of (mem\<lparr>dm_sequences := z\<rparr>) i = outbox_of mem i"
  by (simp_all add: outbox_of_def)

text \<open>An update of unsettled commands.\<close>

definition settling :: "(command_row \<Rightarrow> command_row) \<Rightarrow> bool" where
  "settling f \<longleftrightarrow> (\<forall>c. dc_id (f c) = dc_id c \<and> dc_deviceId (f c) = dc_deviceId c \<and> dc_sequence (f c) = dc_sequence c \<and>
     dc_tool (f c) = dc_tool c \<and> dc_proposalId (f c) = dc_proposalId c)"

lemma kept_set_commands:
  assumes "\<And>c. c \<in> set (dd_commands db) \<Longrightarrow> P c \<Longrightarrow> unsettled c" and "settling f"
  shows "commands_kept (dd_commands db) (dd_commands (fst (set_commands P f db)))"
  using assms unfolding set_commands_eq settling_def by (auto simp: same_command_def intro!: commands_kept_map)

lemma kept_mark: "commands_kept (dd_commands db) (dd_commands (mark_dispatched now k db))"
  unfolding mark_dispatched_def by (rule kept_set_commands) (auto simp: unsettled_def settling_def)

lemma kept_marks: "commands_kept (dd_commands db) (dd_commands (fold (mark_dispatched now) ks db))"
  by (induction ks arbitrary: db) (auto intro: commands_kept_trans [OF kept_mark])

lemma quieter_commands:
  assumes "commands_kept (dd_commands db) (dd_commands db')"
    and "\<And>i. \<exists>P. outbox_of mem' i = filter P (outbox_of mem i)" and "dm_sequences mem' = dm_sequences mem"
  shows "quieter (mem, db) (mem', db')"
  using assms by (simp add: quieter_def)

lemma quieter_db: "commands_kept (dd_commands db) (dd_commands db') \<Longrightarrow> quieter (mem, db) (mem, db')"
  by (rule quieter_commands) (auto intro: exI [of _ "\<lambda>_. True"])

lemma quieter_timeout: "quieter (mem, db) (timeout_command now i k mem db)"
  unfolding timeout_command_def
  by (auto intro!: quieter_commands kept_set_commands simp: settling_def outbox_of_remove)

lemma quieter_complete:
  assumes "completeCommand json now i r mem db = (mem', db', res)"
  shows "quieter (mem, db) (mem', db')"
proof -
  define P where "P c \<longleftrightarrow> dc_id c = cr_commandId r \<and> dc_deviceId c = i \<and> unsettled c" for c
  define f where "f c = c\<lparr>dc_status := reported_status r, dc_output := reported_output json r, dc_error := text_or_null (cr_error r),
            dc_completedAt := Some now\<rparr>" for c :: command_row
  obtain db1 hit where sc: "set_commands P f db = (db1, hit)" by fastforce
  have kept: "commands_kept (dd_commands db) (dd_commands db1)"
    using kept_set_commands [of db P f] sc by (simp add: P_def f_def settling_def)
  show ?thesis
  proof (cases hit)
    case Nil
    then show ?thesis using assms sc unfolding completeCommand_def P_def [abs_def] f_def [abs_def] by simp
  next
    case (Cons a list)
    then have db': "db' = db1" and mem': "\<exists>x. mem' = (removeFromOutbox i (cr_commandId r) mem)\<lparr>dm_pending := x\<rparr>"
      using assms sc unfolding completeCommand_def P_def [abs_def] f_def [abs_def]
      by (auto simp: Let_def split: if_splits) (metis device_memory.surjective device_memory.update_convs(4))
    then show ?thesis using kept by (auto intro!: quieter_commands simp: outbox_of_remove)
  qed
qed

lemma quieter_message: "on_device_message json now i n m mem db = (mem', db', r) \<Longrightarrow> quieter (mem, db) (mem', db')"
  unfolding on_device_message_def
  by (auto split: option.splits if_splits device_inbound.splits elim: quieter_complete)
    (auto intro!: quieter_commands simp: set_machines_eq)

lemma quieter_admit:
  assumes "admit_device hash issued code now stream n h mem db = (mem', db', outs, e)"
  shows "quieter (mem, db) (mem', db')"
proof -
  let ?i = "he_deviceId h"
  define mem1 where "mem1 = (if ?i \<in> fst ` set (dm_sequences mem) then mem
    else mem\<lparr>dm_sequences := AList.update ?i (loadSequence db ?i) (dm_sequences mem)\<rparr>)"
  have store: "dd_commands (fst (store_claim_code hash code now j d)) = dd_commands d" for j d
    by (auto simp: store_claim_code_def set_machines_eq split: list.splits)
  have same: "commands_kept (dd_commands db) (dd_commands db')" and box: "outbox_of mem' j = outbox_of mem j"
    and seq: "dm_sequences mem' = dm_sequences mem1" for j
    using assms store [of ?i db] kept_marks [of "fst (store_claim_code hash code now ?i db)"] kept_marks [of db]
    unfolding admit_device_def Let_def mem1_def [symmetric]
    by (auto split: option.splits if_splits prod.splits) (auto simp: mem1_def)
  have "map_of (dm_sequences mem') j = Some k \<Longrightarrow> map_of (dm_sequences mem) j = Some k \<or> k = loadSequence db j" for j k
    unfolding seq mem1_def by (auto simp: AList.update_conv' split: if_splits)
  then show ?thesis unfolding quieter_def using same box by (auto intro: exI [of _ "\<lambda>_. True"])
qed

lemma quieter_register:
  assumes "registerDevice hash credential code now stream n h mem db = (mem', db', outs, e)"
  shows "quieter (mem, db) (mem', db')"
proof -
  have same: "quieter (mem, d) s \<Longrightarrow> dd_commands d = dd_commands db \<Longrightarrow> quieter (mem, db) s" for d s
    unfolding quieter_def loadSequence_def by simp
  have enrol: "enrol_device hash credential now h db = Some d \<Longrightarrow> dd_commands d = dd_commands db" for d
    by (auto simp: enrol_device_def split: list.splits prod.splits)
  show ?thesis using assms unfolding registerDevice_def
    by (auto split: if_splits option.splits dest!: quieter_admit enrol intro: same simp: set_machines_eq)
qed

lemma quieter_revoke: "revokeDevice now i mem db = (mem', db', outs, r) \<Longrightarrow> quieter (mem, db) (mem', db')"
  unfolding revokeDevice_def quieter_def
  by (auto simp: set_machines_eq outbox_of_def preserveUndefined_def AList.delete_conv' split: list.splits if_splits
      intro: exI [of _ "\<lambda>_. True"] exI [of _ "\<lambda>_. False"])

lemma quieter_disconnect: "quieter (mem, db) (disconnectDevice now i n mem db)"
  unfolding disconnectDevice_def by (auto intro!: quieter_commands exI [of _ "\<lambda>_. True"] simp: set_machines_eq)

lemma quieter_restart: "quieter (mem, db) (blank_memory, reconcile_commands now db)"
  unfolding quieter_def reconcile_commands_def
  by (auto intro!: kept_set_commands simp: settling_def blank_memory_def outbox_of_def preserveUndefined_def intro: exI [of _ "\<lambda>_. False"])

section \<open>Dispatching\<close>

text \<open>A step that adds one command.\<close>

definition adds :: "command_row \<Rightarrow> device_state \<Rightarrow> device_state \<Rightarrow> bool" where
  "adds row s s' \<longleftrightarrow> numbered s' \<and> dd_commands (snd s') = dd_commands (snd s) @ [row] \<and> unsettled row"

lemma sorted_tl: "sorted_wrt P xs \<Longrightarrow> sorted_wrt P (tl xs)"
  by (cases xs) auto

lemma enqueue_numbered:
  assumes "enqueue_command uuid now i runId stepId pid tool plan mem db = (mem1, db1, Inr m)" and "numbered (mem, db)"
    and "uuid \<notin> dc_id ` set (dd_commands db)"
  shows "\<exists>row. adds row (mem, db) (mem1, db1) \<and> dc_tool row = tool \<and> dc_proposalId row = Option.bind pid text_or_null \<and> cm_id m = dc_id row \<and>
    dc_id row = uuid" and "dd_proposals db1 = dd_proposals db" and "dd_machines db1 = dd_machines db"
proof -
  obtain action parameters computerUse objective timeoutSeconds where plan: "plan = (action, parameters, computerUse, objective, timeoutSeconds)"
    by (cases plan) auto
  define k where "k = preserveUndefined (map_of (dm_sequences mem) i) (loadSequence db i) + 1"
  define row where "row = \<lparr>dc_id = uuid, dc_deviceId = i, dc_runId = text_or_null runId,
            dc_stepId = Option.bind stepId text_or_null, dc_proposalId = Option.bind pid text_or_null, dc_sequence = k,
            dc_tool = tool, dc_status = Cmd_pending, dc_output = JNull, dc_error = None, dc_createdAt = now, dc_dispatchedAt = None,
            dc_completedAt = None\<rparr>"
  define box where "box = outbox_of mem i @ [m]"
  have new: "command_key row \<notin> command_key ` set (dd_commands db)"
    and m: "cm_id m = uuid" "cm_sequence m = k"
    and mem1: "mem1 = mem\<lparr>dm_sequences := AList.update i k (dm_sequences mem),
       dm_outboxes := AList.update i (if OUTBOX_LIMIT < length box then tl box else box) (dm_outboxes mem)\<rparr>"
    and db1: "db1 = db\<lparr>dd_commands := dd_commands db @ [row]\<rparr>"
    using assms(1) unfolding enqueue_command_def plan k_def row_def box_def by (auto simp: Let_def split: if_splits)
  have low: "dc_sequence c < k" if "c \<in> set (dd_commands db)" "dc_deviceId c = i" for c
    using assms(2) that loadSequence_bound [OF that] unfolding numbered_def k_def preserveUndefined_def
    by (auto split: option.splits simp: less_Suc_eq_le)
  have ok: "outbox_ok db i (outbox_of mem i)" using assms(2) by (simp add: numbered_def)
  then have below: "cm_sequence c < k" if "c \<in> set (outbox_of mem i)" for c
    using that low unfolding outbox_ok_def has_row_def by fastforce
  have rows: "has_row db j c \<Longrightarrow> has_row db1 j c" for j c by (auto simp: has_row_def db1)
  have "has_row db1 i m" using m by (simp add: has_row_def db1 row_def)
  then have all: "c \<in> set box \<Longrightarrow> has_row db1 i c" for c using ok rows unfolding box_def outbox_ok_def by auto
  have sorted: "sorted_wrt (<) (map cm_sequence box)" using ok below m unfolding box_def outbox_ok_def by (auto simp: sorted_wrt_append)
  have box1: "outbox_ok db1 i (if OUTBOX_LIMIT < length box then tl box else box)"
  proof -
    have "c \<in> set (tl box) \<Longrightarrow> c \<in> set box" for c by (cases box) auto
    then show ?thesis using sorted all ok sorted_tl [OF sorted] unfolding outbox_ok_def by (auto simp: map_tl) (simp_all add: box_def)
  qed
  have out: "outbox_of mem1 j = (if j = i then if OUTBOX_LIMIT < length box then tl box else box else outbox_of mem j)" for j
    by (simp add: mem1 outbox_of_def AList.update_conv' preserveUndefined_def)
  have boxes: "outbox_ok db1 j (outbox_of mem1 j)" for j
    using box1 assms(2) rows unfolding out numbered_def outbox_ok_def by auto
  have seqs: "map_of (dm_sequences mem1) j = Some x \<Longrightarrow> c \<in> set (dd_commands db1) \<Longrightarrow> dc_deviceId c = j \<Longrightarrow> dc_sequence c \<le> x" for j x c
  proof -
    have row: "dc_deviceId row = i" "dc_sequence row = k" by (simp_all add: row_def)
    show "map_of (dm_sequences mem1) j = Some x \<Longrightarrow> c \<in> set (dd_commands db1) \<Longrightarrow> dc_deviceId c = j \<Longrightarrow> dc_sequence c \<le> x"
      using low assms(2) row unfolding mem1 db1 numbered_def by (auto simp: AList.update_conv' split: if_splits intro: less_imp_le)
  qed
  have "numbered (mem1, db1)"
    using boxes seqs assms(2,3) new unfolding numbered_def by (auto simp: db1 row_def)
  then have "adds row (mem, db) (mem1, db1)" by (simp add: adds_def db1 row_def unsettled_def)
  then show "\<exists>row. adds row (mem, db) (mem1, db1) \<and> dc_tool row = tool \<and> dc_proposalId row = Option.bind pid text_or_null \<and> cm_id m = dc_id row \<and>
    dc_id row = uuid"
    using m by (intro exI [of _ row]) (simp add: row_def)
  show "dd_proposals db1 = dd_proposals db" "dd_machines db1 = dd_machines db" by (simp_all add: db1)
qed

lemma enqueue_failed:
  "enqueue_command uuid now i runId stepId pid tool plan mem db = (mem1, db1, Inl e) \<Longrightarrow> quieter (mem, db) (mem1, db1) \<and> db1 = db"
  unfolding enqueue_command_def quieter_def
  by (auto simp: Let_def AList.delete_conv' AList.update_conv' split: prod.splits if_splits)

text \<open>A dispatch refuses, or records one command and then only settles it.\<close>

lemma dispatch_frame:
  assumes "dispatchDeviceTool uuid writes now runId i stepId pid tool mem db = (mem', db', outs, r)" and "numbered (mem, db)"
    and "uuid \<notin> dc_id ` set (dd_commands db)"
  shows "dd_proposals db' = dd_proposals db \<and> (quieter (mem, db) (mem', db') \<or>
    (\<exists>mem1 db1 row. adds row (mem, db) (mem1, db1) \<and> dc_tool row = tool \<and> dc_proposalId row = Option.bind pid text_or_null \<and>
      quieter (mem1, db1) (mem', db')))"
proof (cases "i = [] \<or> isl (command_plan tool)")
  case True
  then have "mem' = mem \<and> db' = db" using assms(1) by (auto simp: dispatchDeviceTool_def split: sum.splits if_splits)
  then show ?thesis by simp
next
  case False
  then obtain plan where plan: "command_plan tool = Inr plan" by (cases "command_plan tool") auto
  obtain mem1 db1 q where enq: "enqueue_command uuid now i runId stepId pid tool plan mem db = (mem1, db1, q)" by (metis prod_cases3)
  show ?thesis
  proof (cases q)
    case (Inl e)
    then show ?thesis using assms(1) False plan enq enqueue_failed [OF enq [unfolded Inl]] by (auto simp: dispatchDeviceTool_def)
  next
    case (Inr m)
    obtain row where row: "adds row (mem, db) (mem1, db1)" "dc_tool row = tool" "dc_proposalId row = Option.bind pid text_or_null"
      "cm_id m = dc_id row" "dc_id row = uuid"
      using enqueue_numbered(1) [OF enq [unfolded Inr] assms(2,3)] by blast
    have p1: "dd_proposals db1 = dd_proposals db" using enqueue_numbered(2) [OF enq [unfolded Inr] assms(2,3)] .
    define mem2 where "mem2 = mem1\<lparr>dm_pending := dm_pending mem1 @ [cm_id m]\<rparr>"
    define fail where "fail c = c\<lparr>dc_status := Cmd_failed, dc_error := Some ''device dispatch failed'', dc_completedAt := Some now\<rparr>" for c :: command_row
    have only: "c \<in> set (dd_commands db1) \<Longrightarrow> dc_id c = cm_id m \<Longrightarrow> unsettled c" for c
      using row assms(3) unfolding adds_def by auto
    have fails: "quieter (mem1, db1) ((removeFromOutbox i (cm_id m) mem2)\<lparr>dm_pending := x\<rparr>, fst (set_commands (\<lambda>c. dc_id c = cm_id m) fail db1))" for x
      using only by (intro quieter_commands kept_set_commands) (auto simp: mem2_def outbox_of_remove settling_def fail_def)
    have marks: "quieter (mem1, db1) (mem2, mark_dispatched now (cm_id m) db1)"
      by (rule quieter_commands [OF kept_mark]) (simp_all add: mem2_def)
    have plain: "quieter (mem1, db1) (mem2, db1)" by (rule quieter_commands) (simp_all add: mem2_def)
    have props: "dd_proposals (fst (set_commands P f d)) = dd_proposals d" for P f d by (simp add: set_commands_eq)
    have "dd_proposals db' = dd_proposals db1 \<and> quieter (mem1, db1) (mem', db')"
      using assms(1) False plan enq Inr fails marks plain unfolding dispatchDeviceTool_def
      by (auto simp: Let_def props mark_dispatched_def simp flip: mem2_def fail_def split: option.splits if_splits)
    then show ?thesis using p1 row by auto
  qed
qed

section \<open>Proposed commands\<close>

text \<open>The proposal that authorises a command.\<close>

definition authorises :: "(string \<Rightarrow> string) \<Rightarrow> string list \<Rightarrow> string \<Rightarrow> device_proposal \<Rightarrow> bool" where
  "authorises hash argv pid p \<longleftrightarrow> dp_id p = pid \<and> dp_status p = DP_dispatched \<and> dp_command p = argv \<and> dp_digest p = commandDigest hash argv \<and>
     (\<exists>u. dp_approvedById p = Some u \<and> u \<noteq> [] \<and> dp_requestedById p \<noteq> Some u)"

definition proposal_called :: "device_tool \<Rightarrow> string option" where
  "proposal_called t = (case t of Tool_run_command _ pid \<Rightarrow> Some pid | _ \<Rightarrow> None)"

definition called_proposals :: "command_row list \<Rightarrow> string list" where
  "called_proposals cs = List.map_filter (\<lambda>c. proposal_called (dc_tool c)) cs"

definition sanctioned :: "(string \<Rightarrow> string) \<Rightarrow> device_db \<Rightarrow> bool" where
  "sanctioned hash db \<longleftrightarrow> distinct (map dp_id (dd_proposals db)) \<and> distinct (called_proposals (dd_commands db)) \<and>
     (\<forall>c\<in>set (dd_commands db). \<forall>argv pid. dc_tool c = Tool_run_command argv pid \<longrightarrow> (\<exists>p\<in>set (dd_proposals db). authorises hash argv pid p))"

lemma called_tools: "called_proposals cs = List.map_filter proposal_called (map dc_tool cs)"
  by (simp add: called_proposals_def List.map_filter_def filter_map o_def)

lemma run_tool_iff: "run_tool t \<longleftrightarrow> proposal_called t = None"
  by (cases t) (simp_all add: run_tool_def proposal_called_def)

lemma sanctioned_kept:
  assumes "map dc_tool (dd_commands db') = map dc_tool (dd_commands db)" and "map dp_id (dd_proposals db') = map dp_id (dd_proposals db)"
    and "\<And>p. p \<in> set (dd_proposals db) \<Longrightarrow> dp_status p = DP_dispatched \<Longrightarrow> p \<in> set (dd_proposals db')" and "sanctioned hash db"
  shows "sanctioned hash db'"
proof -
  have "dc_tool ` set (dd_commands db') = dc_tool ` set (dd_commands db)" by (metis assms(1) list.set_map)
  then have tools: "\<exists>c0\<in>set (dd_commands db). dc_tool c0 = dc_tool c" if "c \<in> set (dd_commands db')" for c using that by (metis imageE imageI)
  have "authorises hash argv pid p \<Longrightarrow> dp_status p = DP_dispatched" for argv pid p by (simp add: authorises_def)
  then show ?thesis using assms tools unfolding sanctioned_def called_tools by (metis (no_types, lifting))
qed

lemma sanctioned_proposals:
  "sanctioned hash db \<Longrightarrow> dd_commands db' = dd_commands db \<Longrightarrow> dd_proposals db' = dd_proposals db \<Longrightarrow> sanctioned hash db'"
  by (simp add: sanctioned_def)

lemma sanctioned_quieter:
  assumes "quieter s s'" and "dd_proposals (snd s') = dd_proposals (snd s)" and "sanctioned hash (snd s)"
  shows "sanctioned hash (snd s')"
  using assms commands_kept_keys(3) unfolding quieter_def by (intro sanctioned_kept [OF _ _ _ assms(3)]) auto

lemma sanctioned_update:
  assumes "\<And>p. P p \<Longrightarrow> dp_status p \<noteq> DP_dispatched" and "\<And>p. dp_id (f p) = dp_id p" and "sanctioned hash db"
  shows "sanctioned hash (fst (set_proposals P f db))"
  by (rule sanctioned_kept [OF _ _ _ assms(3)]) (use assms(1,2) in \<open>auto simp: set_proposals_eq image_iff intro: rev_bexI\<close>)

lemma sanctioned_expire: "sanctioned hash db \<Longrightarrow> sanctioned hash (expireStaleProposals now db)"
  unfolding expireStaleProposals_def by (rule sanctioned_update) auto

lemma sanctioned_propose:
  assumes "proposeDeviceCommand hash uuid now i command reason ticketId runId stepId db = Inr db'" and "uuid \<notin> dp_id ` set (dd_proposals db)"
    and "sanctioned hash db"
  shows "sanctioned hash db' \<and> dd_commands db' = dd_commands db"
  using assms unfolding proposeDeviceCommand_def sanctioned_def by (fastforce split: option.splits if_splits)

lemma sanctioned_plain_add:
  assumes "adds row s s'" and "run_tool (dc_tool row)" and "dd_proposals (snd s') = dd_proposals (snd s)" and "sanctioned hash (snd s)"
  shows "sanctioned hash (snd s')"
  using assms unfolding sanctioned_def adds_def by (auto simp: called_tools run_tool_iff List.map_filter_def) (auto simp: proposal_called_def)

lemma sanctioned_approved_add:
  assumes "adds row s s'" and "dc_tool row = Tool_run_command argv pid" and "dd_proposals (snd s') = dd_proposals (snd s)"
    and "sanctioned hash (snd s)" and "p \<in> set (dd_proposals (snd s))" and "authorises hash argv pid p"
    and "pid \<notin> set (called_proposals (dd_commands (snd s)))"
  shows "sanctioned hash (snd s')"
  using assms unfolding sanctioned_def adds_def by (auto simp: called_tools proposal_called_def List.map_filter_def)

lemma called_dispatched:
  assumes "sanctioned hash db" and "pid \<in> set (called_proposals (dd_commands db))"
  shows "\<exists>p\<in>set (dd_proposals db). dp_id p = pid \<and> dp_status p = DP_dispatched"
proof -
  obtain c where c: "c \<in> set (dd_commands db)" "proposal_called (dc_tool c) = Some pid"
    using assms(2) by (auto simp: called_proposals_def List.map_filter_def)
  then obtain argv where "dc_tool c = Tool_run_command argv pid" by (cases "dc_tool c") (simp_all add: proposal_called_def)
  then show ?thesis using assms(1) c unfolding sanctioned_def authorises_def by meson
qed

text \<open>The row that a decision hits.\<close>

lemma unique_proposal:
  "distinct (map dp_id (dd_proposals db)) \<Longrightarrow> p \<in> set (dd_proposals db) \<Longrightarrow> q \<in> set (dd_proposals db) \<Longrightarrow> dp_id p = dp_id q \<Longrightarrow> p = q"
  by (metis distinct_map inj_onD)

lemma numbered_commands: "dd_commands d' = dd_commands d \<Longrightarrow> numbered (m, d') \<longleftrightarrow> numbered (m, d)"
  by (simp add: numbered_def outbox_ok_def has_row_def)

lemma decided_row:
  assumes "set_proposals (\<lambda>p. dp_id p = pid \<and> dp_status p = DP_proposed) (decide_row approve userId note now) db = (db1, decided # rest)"
    and "sanctioned hash db"
  shows "sanctioned hash db1" "decided \<in> set (dd_proposals db1)" "dp_id decided = pid" "dp_approvedById decided = Some userId"
    "dp_status decided = (if approve then DP_approved else DP_rejected)" "dd_commands db1 = dd_commands db" "dd_machines db1 = dd_machines db"
    "\<And>p. p \<in> set (dd_proposals db1) \<Longrightarrow> dp_id p = pid \<Longrightarrow> p = decided" "pid \<notin> set (called_proposals (dd_commands db))"
proof -
  have db1: "db1 = fst (set_proposals (\<lambda>p. dp_id p = pid \<and> dp_status p = DP_proposed) (decide_row approve userId note now) db)"
    using assms(1) by simp
  show s1: "sanctioned hash db1" unfolding db1 by (rule sanctioned_update [OF _ _ assms(2)]) (auto simp: decide_row_def)
  have "decided \<in> set (map (decide_row approve userId note now) (filter (\<lambda>p. dp_id p = pid \<and> dp_status p = DP_proposed) (dd_proposals db)))"
    using assms(1) by (simp add: set_proposals_eq del: set_map)
  then obtain p where p: "p \<in> set (dd_proposals db)" "dp_id p = pid" "dp_status p = DP_proposed" "decided = decide_row approve userId note now p" by auto
  show d: "dp_id decided = pid" "dp_approvedById decided = Some userId" "dp_status decided = (if approve then DP_approved else DP_rejected)"
    using p by (simp_all add: decide_row_def)
  show m: "decided \<in> set (dd_proposals db1)" using p unfolding db1 by (auto simp: set_proposals_eq image_iff intro!: bexI [of _ p])
  show "dd_commands db1 = dd_commands db" "dd_machines db1 = dd_machines db" unfolding db1 by (simp_all add: set_proposals_eq)
  show "\<And>p. p \<in> set (dd_proposals db1) \<Longrightarrow> dp_id p = pid \<Longrightarrow> p = decided"
    using unique_proposal [of db1] s1 m d(1) unfolding sanctioned_def by blast
  show "pid \<notin> set (called_proposals (dd_commands db))"
  proof
    assume "pid \<in> set (called_proposals (dd_commands db))"
    then obtain q where "q \<in> set (dd_proposals db)" "dp_id q = pid" "dp_status q = DP_dispatched" using called_dispatched [OF assms(2)] by blast
    then show False using unique_proposal [of db q p] assms(2) p unfolding sanctioned_def by simp
  qed
qed

lemma assert_ok:
  assumes "assertProposalDispatchable hash now enabled p = Inr u"
  shows "dp_status p = DP_approved" "now < dp_expiresAt p" "enabled" "dp_command p \<noteq> []" "dp_digest p = commandDigest hash (dp_command p)"
  using assms unfolding assertProposalDispatchable_def by (auto split: if_splits)

text \<open>The end of a decision: what is recorded, and the one command that an approval sends.\<close>

lemma decide_frame:
  assumes "decideDeviceProposal hash uuid writes now (\<lambda>d. d) userId pid approve note mem db = (mem', db', outs, r)"
    and "numbered (mem, db)" and "sanctioned hash db" and "uuid \<notin> dc_id ` set (dd_commands db)" and "userId \<noteq> []"
  shows "sanctioned hash db' \<and> (quieter (mem, db) (mem', db') \<or>
    (\<exists>mem1 db1 row. adds row (mem, db) (mem1, db1) \<and> quieter (mem1, db1) (mem', db')))"
proof -
  define db0 where "db0 = expireStaleProposals now db"
  have s0: "sanctioned hash db0" unfolding db0_def by (rule sanctioned_expire [OF assms(3)])
  have c0: "dd_commands db0 = dd_commands db" by (simp add: db0_def expireStaleProposals_def set_proposals_eq)
  have calm: "dd_commands d = dd_commands db \<Longrightarrow> quieter (mem, db) (mem, d)" for d by (rule quieter_db) simp
  note dec = assms(1) [unfolded decideDeviceProposal_def Let_def, folded db0_def]
  obtain db1 hit where hit: "set_proposals (\<lambda>p. dp_id p = pid \<and> dp_status p = DP_proposed) (decide_row approve userId note now) db0 = (db1, hit)"
    by fastforce
  show ?thesis
  proof (cases hit)
    case Nil
    then show ?thesis using dec hit s0 calm [OF c0] by simp
  next
    case (Cons decided rest)
    note row = decided_row [OF hit [unfolded Cons] s0]
    have c1: "dd_commands db1 = dd_commands db" using row(6) c0 by simp
    note dec1 = dec [unfolded hit Cons prod.case list.case]
    show ?thesis
    proof (cases "dp_requestedById decided = Some userId \<and> userId \<noteq> []")
      case True
      let ?g = "\<lambda>p. p\<lparr>dp_status := DP_proposed, dp_approvedById := None, dp_decidedAt := None\<rparr>"
      have db': "db' = fst (set_proposals (\<lambda>p. dp_id p = pid) ?g db1)" "mem' = mem" using dec1 True by auto
      have "sanctioned hash db'" unfolding db'
      proof (rule sanctioned_kept [OF _ _ _ row(1)])
        fix p assume "p \<in> set (dd_proposals db1)" "dp_status p = DP_dispatched"
        moreover from this have "dp_id p \<noteq> pid" using row(5,8) by (cases approve) auto
        ultimately show "p \<in> set (dd_proposals (fst (set_proposals (\<lambda>p. dp_id p = pid) ?g db1)))"
          by (auto simp: set_proposals_eq image_iff intro: rev_bexI)
      qed (simp_all add: set_proposals_eq)
      then show ?thesis using calm [of db'] db' c1 by (simp add: set_proposals_eq)
    next
      case False
      note dec2 = dec1 [unfolded if_not_P [OF False]]
      show ?thesis
      proof (cases approve)
        case False
        then show ?thesis using dec2 row(1) calm [OF c1] by auto
      next
        case True
        define enabled where "enabled = (case find_machine db1 (dp_deviceId decided) of None \<Rightarrow> False | Some d \<Rightarrow> mc_executionEnabled d)"
        note dec3 = dec2 [folded enabled_def]
        show ?thesis
        proof (cases "assertProposalDispatchable hash now enabled decided")
          case (Inl e)
          then show ?thesis using dec3 True row(1) calm [OF c1] by auto
        next
          case (Inr u)
          note ok = assert_ok [OF Inr]
          let ?f = "\<lambda>p. p\<lparr>dp_status := DP_dispatched\<rparr>"
          define db3 where "db3 = fst (set_proposals (\<lambda>p. dp_id p = pid \<and> dp_status p = DP_approved) ?f db1)"
          have con: "consumeProposal pid db1 = (db3, True)"
            using row(2,3) ok(1) by (auto simp: consumeProposal_def db3_def set_proposals_eq filter_empty_conv)
          obtain mem4 db4 outs4 res where d4: "dispatchDeviceTool uuid writes now [] (dp_deviceId decided) None (Some pid)
              (Tool_run_command (dp_command decided) pid) mem db3 = (mem4, db4, outs4, res)" by (metis prod_cases4)
          have fin: "mem' = mem4" "db' = db4" using dec3 True Inr con d4 by auto
          have s3: "sanctioned hash db3" unfolding db3_def by (rule sanctioned_update [OF _ _ row(1)]) auto
          have c3: "dd_commands db3 = dd_commands db" using c1 by (simp add: db3_def set_proposals_eq)
          have n3: "numbered (mem, db3)" by (rule quieter_numbered [OF calm [OF c3] assms(2)])
          have fresh: "uuid \<notin> dc_id ` set (dd_commands db3)" using assms(4) c3 by simp
          define p where "p = ?f decided"
          have p: "p \<in> set (dd_proposals db3)" using row(2,3) ok(1) unfolding db3_def p_def
            by (auto simp: set_proposals_eq image_iff intro!: bexI [of _ decided])
          have auth: "authorises hash (dp_command decided) pid p"
            using row(3,4) ok(5) False assms(5) by (auto simp: authorises_def p_def)
          have new: "pid \<notin> set (called_proposals (dd_commands db3))" using row(9) c3 c0 by simp
          note frame = dispatch_frame [OF d4 n3 fresh]
          from frame consider "quieter (mem, db3) (mem4, db4)" "dd_proposals db4 = dd_proposals db3"
            | m1 d1 x where "adds x (mem, db3) (m1, d1)" "dc_tool x = Tool_run_command (dp_command decided) pid" "quieter (m1, d1) (mem4, db4)"
              "dd_proposals db4 = dd_proposals db3" by blast
          then show ?thesis
          proof cases
            case 1
            have "quieter (mem, db) (mem4, db4)" using 1(1) c3 unfolding quieter_def loadSequence_def by simp
            then show ?thesis using sanctioned_quieter [OF 1(1)] 1(2) s3 fin by simp
          next
            case 2
            define d1' where "d1' = d1\<lparr>dd_proposals := dd_proposals db3\<rparr>"
            have n1: "numbered (m1, d1')" using 2(1) numbered_commands [of d1' d1 m1] unfolding adds_def d1'_def by simp
            have a1: "adds x (mem, db3) (m1, d1')" using 2(1) n1 unfolding adds_def d1'_def by simp
            have a0: "adds x (mem, db) (m1, d1')" using a1 c3 unfolding adds_def by simp
            have q1: "quieter (m1, d1') (mem4, db4)" using 2(3) unfolding quieter_def loadSequence_def d1'_def by simp
            have "sanctioned hash d1'" using sanctioned_approved_add [OF a1 2(2) _ _ _ auth] s3 p new by (simp add: d1'_def)
            then have "sanctioned hash db4" using sanctioned_quieter [OF q1] 2(4) by (simp add: d1'_def)
            then show ?thesis using a0 q1 fin by blast
          qed
        qed
      qed
    qed
  qed
qed

section \<open>Traces\<close>

definition device_inv :: "(string \<Rightarrow> string) \<Rightarrow> device_state \<Rightarrow> bool" where
  "device_inv hash s \<longleftrightarrow> numbered s \<and> sanctioned hash (snd s)"

definition outcomes_kept :: "device_db \<Rightarrow> device_db \<Rightarrow> bool" where
  "outcomes_kept db db' \<longleftrightarrow> (\<forall>c\<in>set (dd_commands db). \<not> unsettled c \<longrightarrow> c \<in> set (dd_commands db'))"

lemma outcomes_quieter: "quieter (mem, db) (mem', db') \<Longrightarrow> outcomes_kept db db'"
  unfolding quieter_def outcomes_kept_def using commands_kept_settled by auto

lemma outcomes_adds: "adds row (mem, db) (mem1, db1) \<Longrightarrow> quieter (mem1, db1) (mem', db') \<Longrightarrow> outcomes_kept db db'"
  unfolding adds_def quieter_def outcomes_kept_def using commands_kept_settled by fastforce

lemma device_inv_quieter:
  assumes "quieter (mem, db) (mem', db')" and "dd_proposals db' = dd_proposals db" and "device_inv hash (mem, db)"
  shows "device_inv hash (mem', db') \<and> outcomes_kept db db'"
  using assms quieter_numbered [OF assms(1)] sanctioned_quieter [OF assms(1), of hash] outcomes_quieter [OF assms(1)] by (simp add: device_inv_def)

lemma props_set [simp]: "dd_proposals (fst (set_commands P f db)) = dd_proposals db" "dd_proposals (fst (set_machines Q g db)) = dd_proposals db"
  by (simp_all add: set_commands_eq set_machines_eq)

lemma props_marks [simp]: "dd_proposals (fold (mark_dispatched now) ks db) = dd_proposals db"
  by (induction ks arbitrary: db) (simp_all add: mark_dispatched_def)

lemma props_register: "registerDevice hash credential code now stream n h mem db = (mem', db', outs, e) \<Longrightarrow> dd_proposals db' = dd_proposals db"
  unfolding registerDevice_def admit_device_def enrol_device_def store_claim_code_def
  by (auto simp: Let_def set_machines_eq split: if_splits option.splits prod.splits list.splits)

lemma props_message: "on_device_message json now i n m mem db = (mem', db', r) \<Longrightarrow> dd_proposals db' = dd_proposals db"
  unfolding on_device_message_def completeCommand_def
  by (auto simp: Let_def set_commands_eq set_machines_eq split: if_splits option.splits prod.splits list.splits device_inbound.splits)

text \<open>A dispatch outside of a decision.\<close>

lemma device_inv_dispatch:
  assumes "dispatchDeviceTool uuid writes now runId i stepId None tool mem db = (mem', db', outs, r)"
    and "uuid \<notin> dc_id ` set (dd_commands db)" and "run_tool tool" and "device_inv hash (mem, db)"
  shows "device_inv hash (mem', db') \<and> outcomes_kept db db'"
proof -
  have n: "numbered (mem, db)" "sanctioned hash db" using assms(4) by (simp_all add: device_inv_def)
  note frame = dispatch_frame [OF assms(1) n(1) assms(2)]
  then consider "quieter (mem, db) (mem', db')" "dd_proposals db' = dd_proposals db"
    | m1 d1 row where "adds row (mem, db) (m1, d1)" "dc_tool row = tool" "quieter (m1, d1) (mem', db')" "dd_proposals db' = dd_proposals db" by blast
  then show ?thesis
  proof cases
    case 1 then show ?thesis using device_inv_quieter assms(4) by blast
  next
    case 2
    define d where "d = d1\<lparr>dd_proposals := dd_proposals db\<rparr>"
    have q: "quieter (m1, d) (mem', db')" using 2(3) unfolding quieter_def loadSequence_def d_def by simp
    have a: "adds row (mem, db) (m1, d)" using 2(1) numbered_commands [of d d1 m1] unfolding adds_def d_def by simp
    have "sanctioned hash d" using sanctioned_plain_add [OF a _ _ ] n(2) assms(3) 2(2) by (simp add: d_def)
    moreover have "numbered (m1, d)" using a by (simp add: adds_def)
    ultimately have "device_inv hash (mem', db')" using device_inv_quieter [OF q] 2(4) by (simp add: device_inv_def d_def)
    then show ?thesis using outcomes_adds [OF a q] by simp
  qed
qed

lemma device_step_inv:
  assumes "device_step hash s s'" and "device_inv hash s"
  shows "device_inv hash s' \<and> outcomes_kept (snd s) (snd s')"
proof -
  have plain: "dd_commands d = dd_commands db \<Longrightarrow> dd_proposals d = dd_proposals db \<Longrightarrow> device_inv hash (mem, db) \<Longrightarrow>
      device_inv hash (mem, d) \<and> outcomes_kept db d" for d db and mem :: device_memory
    by (rule device_inv_quieter [OF quieter_db]) simp_all
  from assms show ?thesis
  proof (induction rule: device_step.induct)
    case ds_dispatch then show ?case using device_inv_dispatch by simp
  next
    case (ds_timeout mem db now deviceId commandId)
    obtain m d where md: "timeout_command now deviceId commandId mem db = (m, d)" by fastforce
    have "dd_proposals d = dd_proposals db" using md by (auto simp: timeout_command_def split: if_splits)
    then show ?case using device_inv_quieter [OF quieter_timeout [of mem db now deviceId commandId, unfolded md]] ds_timeout by (simp add: md)
  next
    case ds_register then show ?case using device_inv_quieter [OF quieter_register props_register] by simp
  next
    case ds_message then show ?case using device_inv_quieter [OF quieter_message props_message] by simp
  next
    case ds_rotate then show ?case using plain by (auto simp: rotateDeviceCredential_def set_machines_eq split: option.splits list.splits)
  next
    case (ds_revoke now deviceId mem db mem' db' outs r)
    have "dd_proposals db' = dd_proposals db" using ds_revoke(1) by (auto simp: revokeDevice_def set_machines_eq split: list.splits)
    then show ?case using device_inv_quieter [OF quieter_revoke [OF ds_revoke(1)]] ds_revoke by simp
  next
    case (ds_disconnect mem db now deviceId generation)
    obtain m d where md: "disconnectDevice now deviceId generation mem db = (m, d)" by fastforce
    have "dd_proposals d = dd_proposals db" using md by (auto simp: disconnectDevice_def split: if_splits)
    then show ?case using device_inv_quieter [OF quieter_disconnect [of mem db now deviceId generation, unfolded md]] ds_disconnect by (simp add: md)
  next
    case ds_restart then show ?case using device_inv_quieter [OF quieter_restart] by (simp add: reconcile_commands_def)
  next
    case ds_token then show ?case using plain by (simp add: createDeviceEnrolmentToken_def)
  next
    case ds_claim then show ?case using plain by (auto simp: claimDevice_def set_machines_eq Let_def split: if_splits list.splits)
  next
    case ds_release then show ?case using plain by (auto simp: releaseMyDevice_def set_machines_eq split: list.splits)
  next
    case ds_machines then show ?case using plain by simp
  next
    case (ds_propose uuid now deviceId command reason ticketId runId stepId db db' mem)
    note p = sanctioned_propose [OF ds_propose(1,2)]
    then show ?case using ds_propose(4) numbered_commands [of db' db mem] by (auto simp: device_inv_def outcomes_kept_def)
  next
    case (ds_expire mem db now)
    have c: "dd_commands (expireStaleProposals now db) = dd_commands db" by (simp add: expireStaleProposals_def set_proposals_eq)
    show ?case using ds_expire sanctioned_expire [of hash db now] numbered_commands [OF c, of mem] by (simp add: device_inv_def outcomes_kept_def c)
  next
    case (ds_decide uuid writes now userId proposalId approve remark mem db mem' db' outs r)
    have n: "numbered (mem, db)" "sanctioned hash db" using ds_decide(4) by (simp_all add: device_inv_def)
    note frame = decide_frame [OF ds_decide(1) n ds_decide(2,3)]
    then consider "quieter (mem, db) (mem', db')" | m1 d1 row where "adds row (mem, db) (m1, d1)" "quieter (m1, d1) (mem', db')" by blast
    then have "numbered (mem', db') \<and> outcomes_kept db db'"
    proof cases
      case 1 then show ?thesis using quieter_numbered n(1) outcomes_quieter by blast
    next
      case 2 then show ?thesis using quieter_numbered [OF 2(2)] outcomes_adds unfolding adds_def by simp
    qed
    then show ?case using frame by (simp add: device_inv_def)
  qed
qed

lemma device_trace_inv:
  assumes "device_trace hash s s'" and "device_inv hash s"
  shows "device_inv hash s' \<and> outcomes_kept (snd s) (snd s')"
  using assms unfolding device_trace_def
proof (induction rule: rtranclp_induct)
  case base then show ?case by (simp add: outcomes_kept_def)
next
  case (step y z)
  then show ?case using device_step_inv [OF step(2)] unfolding outcomes_kept_def by blast
qed

end
