(* ===== verification/DeviceFacts.thy ===== *)
theory DeviceFacts
  imports DeviceSafety
begin

text \<open>The promises to devices, their owners and those who approve commands, and where they are broken.\<close>

section \<open>Commands\<close>

text \<open>
  C35. Whatever devices, runs, operators and restarts do, the commands of a device have different sequence numbers, and its
  outbox is in the order of the numbers, holds recorded commands only, and never more than a hundred of them.
\<close>

theorem device_commands_numbered:
  assumes "device_trace hash (mem, db) (mem', db')" and "device_inv hash (mem, db)"
  shows "distinct (map command_key (dd_commands db')) \<and> sorted_wrt (<) (map cm_sequence (outbox_of mem' i)) \<and>
    length (outbox_of mem' i) \<le> OUTBOX_LIMIT \<and> (\<forall>m\<in>set (outbox_of mem' i). has_row db' i m)"
  using device_trace_inv [OF assms] by (simp add: device_inv_def numbered_def outbox_ok_def)

text \<open>
  C36. The outcome of a command is final: once it has succeeded, failed, timed out or become indeterminate, no later answer
  of the device, no timer and no restart changes its row.
\<close>

theorem settled_command_final:
  assumes "device_trace hash (mem, db) (mem', db')" and "device_inv hash (mem, db)"
    and "c \<in> set (dd_commands db)" and "dc_status c \<notin> {Cmd_pending, Cmd_dispatched}"
  shows "c \<in> set (dd_commands db')"
  using device_trace_inv [OF assms(1,2)] assms(3,4) by (simp add: outcomes_kept_def unsettled_def)


section \<open>Coming back\<close>

definition sent_commands :: "device_outputs \<Rightarrow> device_command list" where
  "sent_commands outs = List.map_filter (\<lambda>(s, m). case m of Dev_command c \<Rightarrow> Some c | _ \<Rightarrow> None) outs"

lemma sent_commands_simps [simp]:
  "sent_commands [] = []" "sent_commands (a @ b) = sent_commands a @ sent_commands b"
  "sent_commands ((s, Dev_command c) # outs) = c # sent_commands outs"
  "sent_commands ((s, Dev_enrollment x y z) # outs) = sent_commands outs" "sent_commands ((s, Dev_end) # outs) = sent_commands outs"
  by (simp_all add: sent_commands_def List.map_filter_def)

lemma sent_commands_map [simp]: "sent_commands (map (\<lambda>c. (s, Dev_command c)) cs) = cs"
  by (induction cs) simp_all

lemma admit_replays:
  assumes "admit_device hash issued code now stream n h mem db = (mem', db', outs, None)"
  shows "sent_commands outs = filter (\<lambda>c. he_lastSeenSequence h < cm_sequence c) (outbox_of mem (he_deviceId h))"
    and "outbox_of mem' (he_deviceId h) = outbox_of mem (he_deviceId h)"
  using assms unfolding admit_device_def replay_commands_def
  by (auto simp: Let_def split: option.splits if_splits prod.splits)


text \<open>
  Without an enrolment token nobody connects as a device that is unknown, revoked, or whose credential he does not have:
  nothing is written, nothing is sent, and the connection of the device stays.
\<close>

theorem registerDevice_refuses:
  assumes "he_enrolmentToken h = []"
    and "\<forall>d\<in>set (dd_machines db). mc_id d = he_deviceId h \<longrightarrow> mc_revokedAt d \<noteq> None \<or> mc_credentialHash d \<noteq> Some (hash (he_credential h))"
  shows "\<exists>reason. registerDevice hash credential code now stream n h mem db = (mem, db, [], Some reason)"
proof -
  have "mc_revokedAt d \<noteq> None \<or> \<not> validDeviceSecret hash (he_credential h) (mc_credentialHash d)"
    if "find_machine db (he_deviceId h) = Some d" for d
    using first_row_SomeD [OF that [unfolded find_machine_def]] assms(2) by (auto simp: validDeviceSecret_def split: option.splits)
  then show ?thesis using assms(1) unfolding registerDevice_def by (auto split: option.splits)
qed

section \<open>Whose device it is\<close>

definition enrollment_code :: "device_outputs \<Rightarrow> string" where
  "enrollment_code outs = (case List.map_filter (\<lambda>(s, m). case m of Dev_enrollment _ _ c \<Rightarrow> Some c | _ \<Rightarrow> None) outs of [] \<Rightarrow> [] | c # _ \<Rightarrow> c)"

lemma mark_machines [simp]: "dd_machines (fold (mark_dispatched now) ks db) = dd_machines db"
  by (induction ks arbitrary: db) (simp_all add: mark_dispatched_def set_commands_eq)

lemma enrollment_code_admit:
  "enrollment_code ((case x of None \<Rightarrow> [] | Some old \<Rightarrow> [(dn_stream old, Dev_end)]) @ [(s, Dev_enrollment a b c)] @ rest) = c"
  by (cases x) (simp_all add: enrollment_code_def List.map_filter_def)

lemma admit_code:
  assumes "admit_device hash issued code now stream n h mem db = (mem', db', outs, None)" and "enrollment_code outs \<noteq> []"
  shows "enrollment_code outs = code" and "\<exists>d\<in>set (dd_machines db'). mc_id d = he_deviceId h \<and> mc_ownerId d = None \<and> mc_revokedAt d = None \<and>
    mc_claimCodeHash d = Some (hash (normaliseClaimCode code)) \<and> mc_claimCodeExpiresAt d = Some (now + CLAIM_CODE_TTL_MS)"
proof -
  let ?i = "he_deviceId h"
  obtain d where d: "find_machine db ?i = Some d" using assms(1) by (auto simp: admit_device_def Let_def split: option.splits)
  have "\<not> mc_revokedAt d \<noteq> None" using assms(1) d by (auto simp: admit_device_def Let_def split: if_splits)
  note a = assms(1) [unfolded admit_device_def Let_def d option.case if_not_P [OF this]]
  obtain db1 c where s: "(if \<not> owned d \<and> (he_enrolmentToken h \<noteq> [] \<or> \<not> claim_code_usable now d)
      then store_claim_code hash code now ?i db else (db, [])) = (db1, c)" by fastforce
  have c: "enrollment_code outs = c" using a s enrollment_code_admit by auto
  then have st: "store_claim_code hash code now ?i db = (db1, c)" "c \<noteq> []" using s assms(2) by (auto split: if_splits)
  then show "enrollment_code outs = code" using c by (auto simp: store_claim_code_def set_machines_eq split: list.splits)
  have db': "dd_machines db' = dd_machines db1" using a s by auto
  have "filter (\<lambda>d. mc_id d = ?i \<and> mc_ownerId d = None \<and> mc_revokedAt d = None) (dd_machines db) \<noteq> []"
    using st by (auto simp: store_claim_code_def set_machines_eq simp del: filter_empty_conv split: list.splits)
  then obtain m where "m \<in> set (dd_machines db)" "mc_id m = ?i" "mc_ownerId m = None" "mc_revokedAt m = None"
    by (auto simp: filter_empty_conv)
  moreover from this have "m\<lparr>mc_claimCodeHash := Some (hash (normaliseClaimCode code)), mc_claimCodeExpiresAt := Some (now + CLAIM_CODE_TTL_MS)\<rparr> \<in>
      set (dd_machines db')"
    using st unfolding db' by (auto simp: store_claim_code_def set_machines_eq image_iff split: list.splits intro!: bexI [of _ m])
  ultimately show "\<exists>d\<in>set (dd_machines db'). mc_id d = ?i \<and> mc_ownerId d = None \<and> mc_revokedAt d = None \<and>
      mc_claimCodeHash d = Some (hash (normaliseClaimCode code)) \<and> mc_claimCodeExpiresAt d = Some (now + CLAIM_CODE_TTL_MS)"
    by (intro bexI) auto
qed


text \<open>Spaces and the case of letters do not matter.\<close>

lemma claim_char_space: "js_space c \<Longrightarrow> claim_char c = []"
  by (auto simp: js_space_def claim_char_def Let_def)

lemma concat_trim:
  assumes "\<And>c. js_space c \<Longrightarrow> f c = []"
  shows "concat (map f (js_trim s)) = concat (map f s)"
proof -
  have drop: "concat (map f (dropWhile js_space xs)) = concat (map f xs)" for xs by (induction xs) (simp_all add: assms)
  have take: "concat (map f (rev (dropWhile js_space (rev xs)))) = concat (map f xs)" for xs
    by (induction xs rule: rev_induct) (simp_all add: assms)
  show ?thesis unfolding js_trim_def by (simp add: take drop)
qed

lemma normaliseClaimCode_eq: "normaliseClaimCode s = concat (map claim_char s)"
  unfolding normaliseClaimCode_def by (rule concat_trim) (rule claim_char_space)

lemma alphabet_claim: "c \<in> set CLAIM_ALPHABET \<Longrightarrow> claim_char c = [c] \<and> claim_char (js_lower_char c) = [c]"
proof -
  have "list_all (\<lambda>c. claim_char c = [c] \<and> claim_char (js_lower_char c) = [c]) CLAIM_ALPHABET" by code_simp
  then show "c \<in> set CLAIM_ALPHABET \<Longrightarrow> claim_char c = [c] \<and> claim_char (js_lower_char c) = [c]" by (simp add: list_all_iff)
qed

lemma concat_alphabet:
  assumes "set xs \<subseteq> set CLAIM_ALPHABET"
  shows "concat (map claim_char xs) = xs" "concat (map claim_char (js_lower xs)) = xs"
  using assms by (induction xs) (auto simp: js_lower_def alphabet_claim)

text \<open>
  The code an employee reads off the screen may be typed in small letters, without the hyphen and with blanks around and
  inside it; it is normalised to the same ten characters as the code that was issued.
\<close>

theorem claim_code_spelling:
  assumes "code = issueDeviceClaimCode bytes"
  shows "length (normaliseClaimCode code) = length bytes \<and> normaliseClaimCode (js_lower code) = normaliseClaimCode code \<and>
    normaliseClaimCode (filter (\<lambda>c. c \<noteq> CHR ''-'') code) = normaliseClaimCode code \<and>
    normaliseClaimCode ('' '' @ take 3 code @ '' '' @ drop 3 code) = normaliseClaimCode code"
proof -
  define xs where "xs = map (\<lambda>b. CLAIM_ALPHABET ! (b mod length CLAIM_ALPHABET)) bytes"
  have len: "length CLAIM_ALPHABET = 32" by (simp add: CLAIM_ALPHABET_def)
  have xs: "set xs \<subseteq> set CLAIM_ALPHABET" unfolding xs_def using len by (auto intro!: nth_mem)
  have parts: "set (take 6 xs) \<subseteq> set CLAIM_ALPHABET" "set (drop 6 xs) \<subseteq> set CLAIM_ALPHABET"
    using xs set_take_subset set_drop_subset by fast+
  have code: "code = take 6 xs @ ''-'' @ drop 6 xs" using assms by (simp add: issueDeviceClaimCode_def xs_def Let_def)
  have dash: "claim_char CHR ''-'' = []" "claim_char (js_lower_char CHR ''-'') = []" "claim_char CHR '' '' = []" by code_simp+
  have norm: "normaliseClaimCode code = xs"
    unfolding normaliseClaimCode_eq code using concat_alphabet(1) [OF parts(1)] concat_alphabet(1) [OF parts(2)] dash by simp
  have lower: "normaliseClaimCode (js_lower code) = xs"
    unfolding normaliseClaimCode_eq code using concat_alphabet(2) [OF parts(1)] concat_alphabet(2) [OF parts(2)] dash
    by (simp add: js_lower_def)
  have nodash: "c \<in> set xs \<Longrightarrow> c \<noteq> CHR ''-''" for c using xs by (auto simp: CLAIM_ALPHABET_def)
  have "filter (\<lambda>c. c \<noteq> CHR ''-'') code = xs"
  proof -
    have "filter (\<lambda>c. c \<noteq> CHR ''-'') (take 6 xs) = take 6 xs" by (rule filter_True) (auto dest: in_set_takeD nodash)
    moreover have "filter (\<lambda>c. c \<noteq> CHR ''-'') (drop 6 xs) = drop 6 xs" by (rule filter_True) (auto dest: in_set_dropD nodash)
    ultimately show ?thesis unfolding code by simp
  qed
  then have plain: "normaliseClaimCode (filter (\<lambda>c. c \<noteq> CHR ''-'') code) = xs" using concat_alphabet(1) [OF xs] by (simp add: normaliseClaimCode_eq)
  have "concat (map claim_char ('' '' @ take 3 code @ '' '' @ drop 3 code)) = concat (map claim_char (take 3 code @ drop 3 code))"
    using dash by (simp del: append_take_drop_id)
  then have "normaliseClaimCode ('' '' @ take 3 code @ '' '' @ drop 3 code) = xs" using norm by (simp add: normaliseClaimCode_eq)
  then show ?thesis using norm lower plain by (simp add: xs_def)
qed

section \<open>The digest\<close>

lemma hex_inj: "a < 16 \<Longrightarrow> b < 16 \<Longrightarrow> ''0123456789abcdef'' ! a = ''0123456789abcdef'' ! b \<Longrightarrow> a = b"
  by (subst (asm) nth_eq_iff_index_eq) simp_all

lemma json_char_prefix: "json_char c @ x = json_char d @ y \<Longrightarrow> c = d \<and> x = y"
proof -
  have low: "n = m" if "n < 32" "m < 32" "n div 16 = m div 16" "n mod 16 = m mod 16" for n m :: nat
    using that by (metis div_mult_mod_eq)
  assume "json_char c @ x = json_char d @ y"
  then show ?thesis unfolding json_char_def Let_def
    by (auto split: if_splits dest!: hex_inj [rotated 2] dest: low) (metis of_char_eq_iff)+
qed

lemma json_char_hd: "json_char c \<noteq> [] \<and> hd (json_char c) \<noteq> CHR 0x22"
  by (simp add: json_char_def Let_def)

lemma json_chars_prefix:
  "concat (map json_char s) @ CHR 0x22 # x = concat (map json_char t) @ CHR 0x22 # y \<Longrightarrow> s = t \<and> x = y"
proof (induction s arbitrary: t)
  case Nil
  then show ?case using json_char_hd by (cases t) (auto, metis hd_append2 list.sel(1))
next
  case (Cons c s)
  show ?case
  proof (cases t)
    case Nil
    then show ?thesis using Cons.prems json_char_hd [of c] by (auto, metis hd_append2 list.sel(1))
  next
    case (Cons d u)
    have "json_char c @ (concat (map json_char s) @ CHR 0x22 # x) = json_char d @ (concat (map json_char u) @ CHR 0x22 # y)"
      using Cons.prems Cons by simp
    from json_char_prefix [OF this] Cons.IH [of u] Cons show ?thesis by blast
  qed
qed

lemma json_string_prefix: "json_string s @ x = json_string t @ y \<Longrightarrow> s = t \<and> x = y"
  using json_chars_prefix [of s x t y] by (simp add: json_string_def)

lemma json_items_inj:
  "js_join '','' (map json_string xs) @ '']'' = js_join '','' (map json_string ys) @ '']'' \<Longrightarrow> xs = ys"
proof (induction xs arbitrary: ys)
  case Nil
  then show ?case
  proof (cases ys)
    case (Cons b us)
    then show ?thesis using Nil by (cases us) (simp_all add: json_string_def)
  qed simp
next
  case (Cons a ts)
  obtain b us where ys: "ys = b # us" using Cons.prems by (cases ys; cases ts) (simp_all add: json_string_def)
  define rest where "rest vs = (if vs = [] then '']'' else '','' @ js_join '','' (map json_string vs) @ '']'')" for vs :: "string list"
  have join: "js_join '','' (map json_string (v # vs)) @ '']'' = json_string v @ rest vs" for v vs by (cases vs) (simp_all add: rest_def)
  have "json_string a @ rest ts = json_string b @ rest us" using Cons.prems unfolding ys join .
  from json_string_prefix [OF this] have eq: "a = b" "rest ts = rest us" by simp_all
  have "ts = us" using eq(2) Cons.IH [of us] by (cases ts; cases us) (simp_all add: rest_def)
  then show ?case using ys eq by simp
qed

text \<open>
  The text whose digest an approval is bound to determines the argument vector: two different vectors have different
  texts, however their arguments are split, quoted or escaped.
\<close>

theorem json_strings_inj:
  assumes "json_strings xs = json_strings ys"
  shows "xs = ys"
  using json_items_inj [of xs ys] assms by (simp add: json_strings_def)

section \<open>Decisions that go wrong\<close>

text \<open>
  An approval that cannot be carried out, because the device no longer allows commands when it is given, uses the
  proposal up: nothing was sent, the row stays approved, and every later decision, whatever it is and whoever makes it, is a
  conflict.
\<close>

theorem approval_lost:
  assumes "decideDeviceProposal hash uuid writes now (\<lambda>d. d) userId pid True note mem db = (mem', db', outs, Decide_error e)"
    and "distinct (map dp_id (dd_proposals db))"
  shows "mem' = mem \<and> outs = [] \<and> dd_commands db' = dd_commands db \<and>
    (\<exists>p\<in>set (dd_proposals db'). dp_id p = pid \<and> dp_status p = DP_approved) \<and>
    (\<exists>m. snd (snd (snd (decideDeviceProposal hash uuid2 writes2 later others user2 pid approve2 note2 mem2 db'))) = Decide_conflict m)"
proof -
  define db0 where "db0 = expireStaleProposals now db"
  have ids: "map dp_id (dd_proposals db0) = map dp_id (dd_proposals db)" by (simp add: db0_def expireStaleProposals_def set_proposals_eq)
  note dec = assms(1) [unfolded decideDeviceProposal_def Let_def, folded db0_def]
  obtain db1 hit where hit: "set_proposals (\<lambda>p. dp_id p = pid \<and> dp_status p = DP_proposed) (decide_row True userId note now) db0 = (db1, hit)"
    by fastforce
  obtain decided rest where Cons: "hit = decided # rest" using dec hit by (cases hit) auto
  have fin: "mem' = mem" "outs = []" "db' = db1"
    using dec unfolding hit Cons by (auto split: if_splits sum.splits prod.splits bool.splits)
  have db1: "dd_proposals db1 = map (\<lambda>p. if dp_id p = pid \<and> dp_status p = DP_proposed then decide_row True userId note now p else p) (dd_proposals db0)"
    "dd_commands db1 = dd_commands db0" using hit by (auto simp: set_proposals_eq)
  have "decided \<in> set (map (decide_row True userId note now) (filter (\<lambda>p. dp_id p = pid \<and> dp_status p = DP_proposed) (dd_proposals db0)))"
    using hit Cons by (simp add: set_proposals_eq del: set_map)
  then obtain p where p: "p \<in> set (dd_proposals db0)" "dp_id p = pid" "dp_status p = DP_proposed" by auto
  have d: "decide_row True userId note now p \<in> set (dd_proposals db1)" using p unfolding db1 by (auto simp: image_iff intro!: bexI [of _ p])
  have "map dp_id (dd_proposals db1) = map dp_id (dd_proposals db0)" unfolding db1 by (simp add: decide_row_def)
  then have dist: "distinct (map dp_id (dd_proposals db1))" using ids assms(2) by simp
  have approved: "dp_status q = DP_approved" if "q \<in> set (dd_proposals db1)" "dp_id q = pid" for q
    using unique_proposal [OF dist that(1) d] that(2) p(2) by (simp add: decide_row_def)
  define db2 where "db2 = expireStaleProposals later db1"
  have "filter (\<lambda>p. dp_id p = pid \<and> dp_status p = DP_proposed) (dd_proposals db2) = []"
    using approved by (auto simp: filter_empty_conv db2_def expireStaleProposals_def set_proposals_eq)
  then have none: "set_proposals (\<lambda>p. dp_id p = pid \<and> dp_status p = DP_proposed) f db2 = (db2\<lparr>dd_proposals :=
      map (\<lambda>p. if dp_id p = pid \<and> dp_status p = DP_proposed then f p else p) (dd_proposals db2)\<rparr>, [])" for f
    by (simp add: set_proposals_eq)
  have "snd (snd (snd (decideDeviceProposal hash uuid2 writes2 later others user2 pid approve2 note2 mem2 db1))) =
      Decide_conflict ''Proposal is missing, already decided, or expired''"
    unfolding decideDeviceProposal_def Let_def db2_def [symmetric] none by simp
  moreover have "dp_id (decide_row True userId note now p) = pid" "dp_status (decide_row True userId note now p) = DP_approved"
    using p(2) by (simp_all add: decide_row_def)
  ultimately show ?thesis using fin d db1(2) by (auto simp: db0_def expireStaleProposals_def set_proposals_eq)
qed

text \<open>
  Whoever started the run is refused as the one who decides, and the proposal is open again; but his note stays on it.
\<close>

theorem forbidden_note_stays:
  assumes "p \<in> set (dd_proposals db)" and "dp_id p = pid" and "dp_status p = DP_proposed" and "now \<le> dp_expiresAt p"
    and "distinct (map dp_id (dd_proposals db))" and "dp_requestedById p = Some userId" and "userId \<noteq> []"
  shows "\<exists>db' m. decideDeviceProposal hash uuid writes now (\<lambda>d. d) userId pid approve (Some text_of) mem db = (mem, db', [], Decide_forbidden m) \<and>
    p\<lparr>dp_approvedById := None, dp_decidedAt := None, dp_decisionNote := Some text_of\<rparr> \<in> set (dd_proposals db')"
proof -
  define db0 where "db0 = expireStaleProposals now db"
  let ?d = "decide_row approve userId (Some text_of) now"
  have p0: "p \<in> set (dd_proposals db0)"
    using assms(1,4) by (auto simp: db0_def expireStaleProposals_def set_proposals_eq image_iff intro!: bexI [of _ p])
  have "map dp_id (dd_proposals db0) = map dp_id (dd_proposals db)" by (simp add: db0_def expireStaleProposals_def set_proposals_eq)
  then have dist: "distinct (map dp_id (dd_proposals db0))" using assms(5) by simp
  let ?P = "\<lambda>p. dp_id p = pid \<and> dp_status p = DP_proposed"
  have only: "q \<in> set (dd_proposals db0) \<Longrightarrow> dp_id q = pid \<Longrightarrow> q = p" for q using unique_proposal [OF dist _ p0] assms(2) by simp
  then have "\<forall>q\<in>set (filter ?P (dd_proposals db0)). q = p" by auto
  moreover have "p \<in> set (filter ?P (dd_proposals db0))" using p0 assms(2,3) by simp
  ultimately obtain rest where rest: "filter ?P (dd_proposals db0) = p # rest"
    by (cases "filter ?P (dd_proposals db0)") auto
  define db1 where "db1 = db0\<lparr>dd_proposals := map (\<lambda>q. if ?P q then ?d q else q) (dd_proposals db0)\<rparr>"
  have hit: "set_proposals ?P ?d db0 = (db1, ?d p # map ?d rest)" by (simp add: set_proposals_eq rest db1_def)
  let ?g = "\<lambda>p. p\<lparr>dp_status := DP_proposed, dp_approvedById := None, dp_decidedAt := None\<rparr>"
  have "dp_requestedById (?d p) = Some userId" using assms(6) by (simp add: decide_row_def)
  then have dec: "decideDeviceProposal hash uuid writes now (\<lambda>d. d) userId pid approve (Some text_of) mem db =
      (mem, fst (set_proposals (\<lambda>p. dp_id p = pid) ?g db1), [],
       Decide_forbidden ''You started the run that proposed this command; someone else must decide it'')"
    unfolding decideDeviceProposal_def Let_def db0_def [symmetric] hit using assms(7) by simp
  have "?d p \<in> set (dd_proposals db1)" using p0 assms(2,3) by (auto simp: db1_def image_iff intro!: bexI [of _ p])
  moreover have "dp_id (?d p) = pid" using assms(2) by (simp add: decide_row_def)
  ultimately have "?g (?d p) \<in> set (dd_proposals (fst (set_proposals (\<lambda>p. dp_id p = pid) ?g db1)))"
    by (auto simp: set_proposals_eq image_iff intro!: bexI [of _ "?d p"])
  moreover have "?g (?d p) = p\<lparr>dp_approvedById := None, dp_decidedAt := None, dp_decisionNote := Some text_of\<rparr>"
    using assms(3) by (simp add: decide_row_def)
  ultimately show ?thesis using dec by auto
qed

text \<open>
  An enrolment token enrols one device: once it has been spent, every hello that brings it again is refused.
\<close>

theorem enrolment_token_once:
  assumes "enrol_device hash credential now h db = Some db1" and "now \<le> later" and "he_enrolmentToken h2 = he_enrolmentToken h"
    and "he_enrolmentToken h \<noteq> []"
  shows "\<exists>reason. registerDevice hash credential2 code later stream n h2 mem db1 = (mem, db1, [], Some reason)"
proof -
  have "filter (token_usable hash later (he_enrolmentToken h2)) (dd_tokens db1) = []"
    using assms(1-3) unfolding enrol_device_def sql_update_def
    by (auto simp: filter_empty_conv token_usable_def split: list.splits)
  then have "enrol_device hash credential2 later h2 db1 = None" by (simp add: enrol_device_def sql_update_def)
  then show ?thesis using assms(3,4) by (auto simp: registerDevice_def)
qed

section \<open>A sample device\<close>

abbreviation sample_hash :: "string \<Rightarrow> string" where
  "sample_hash \<equiv> (@) ''h''"

definition sample_device_id :: string where
  "sample_device_id = ''123e4567-e89b-42d3-a456-426614174000''"

definition sample_machine :: machine where
  "sample_machine = (blank_machine sample_device_id)\<lparr>mc_credentialHash := Some ''hsecret'', mc_executionEnabled := True\<rparr>"

definition sample_device_db :: device_db where
  "sample_device_db = \<lparr>dd_machines = [sample_machine], dd_tokens = [], dd_commands = [], dd_proposals = [], dd_initiators = [(''r1'', Some ''u1'')]\<rparr>"

definition sample_hello :: hello where
  "sample_hello = \<lparr>he_deviceId = sample_device_id, he_credential = ''secret'', he_enrolmentToken = [], he_hostname = ''laptop'', he_username = ''u'',
     he_platform = ''windows'', he_release = ''11'', he_agentVersion = ''1'', he_lastSeenSequence = 0\<rparr>"

definition sample_proposed :: device_db where
  "sample_proposed = (case proposeDeviceCommand sample_hash ''p1'' 0 sample_device_id [''ipconfig'', ''/all''] ''diagnose the connection'' ''t1'' ''r1'' ''s1''
     sample_device_db of Inl _ \<Rightarrow> sample_device_db | Inr db \<Rightarrow> db)"

definition sample_decision :: "string \<Rightarrow> device_db \<Rightarrow> device_memory \<times> device_db \<times> device_outputs \<times> decide_result" where
  "sample_decision user db = decideDeviceProposal sample_hash ''c1'' (\<lambda>_. True) 1000 (\<lambda>d. d) user ''p1'' True (Some ''fine'') blank_memory db"

definition sample_approved :: device_state where
  "sample_approved = (case sample_decision ''u2'' sample_proposed of (mem, db, _) \<Rightarrow> (mem, db))"

definition sample_register :: "device_state \<Rightarrow> device_memory \<times> device_db \<times> device_outputs \<times> string option" where
  "sample_register = (\<lambda>(mem, db). registerDevice sample_hash ''new'' (issueDeviceClaimCode [0, 1, 2, 3, 4, 5, 6, 7, 8, 9]) 2000 4 7 sample_hello mem db)"

definition sample_connected :: device_state where
  "sample_connected = (case sample_register sample_approved of (mem, db, _) \<Rightarrow> (mem, db))"

definition sample_result :: command_result where
  "sample_result = \<lparr>cr_commandId = ''c1'', cr_ok = True, cr_status = [], cr_outputJson = ''{}'', cr_error = []\<rparr>"

definition sample_answered :: device_state where
  "sample_answered = (case sample_connected of (mem, db) \<Rightarrow>
     (case on_device_message (\<lambda>_. Some JNull) 3000 sample_device_id 7 (In_result sample_result) mem db of (mem, db, _) \<Rightarrow> (mem, db)))"

lemma sample_device_inv: "device_inv sample_hash (blank_memory, sample_device_db)"
  by (simp add: device_inv_def numbered_def sanctioned_def sample_device_db_def blank_memory_def outbox_of_def preserveUndefined_def outbox_ok_def
      called_proposals_def List.map_filter_def OUTBOX_LIMIT_def)

lemma sample_device_trace: "device_trace sample_hash (blank_memory, sample_device_db) sample_connected"
  "device_trace sample_hash sample_connected sample_answered"
proof -
  have "\<not> isl (proposeDeviceCommand sample_hash ''p1'' 0 sample_device_id [''ipconfig'', ''/all''] ''diagnose the connection'' ''t1'' ''r1'' ''s1''
     sample_device_db)" by code_simp
  then have p: "proposeDeviceCommand sample_hash ''p1'' 0 sample_device_id [''ipconfig'', ''/all''] ''diagnose the connection'' ''t1'' ''r1'' ''s1''
     sample_device_db = Inr sample_proposed" unfolding sample_proposed_def by (auto split: sum.splits)
  have s1: "device_step sample_hash (blank_memory, sample_device_db) (blank_memory, sample_proposed)"
    by (rule ds_propose [OF p]) (simp_all add: sample_device_db_def)
  obtain m2 d2 o2 r2 where dec: "sample_decision ''u2'' sample_proposed = (m2, d2, o2, r2)" by (metis prod_cases4)
  have a: "sample_approved = (m2, d2)" by (simp add: sample_approved_def dec)
  have "dd_commands sample_proposed = []" by code_simp
  then have s2: "device_step sample_hash (blank_memory, sample_proposed) (m2, d2)"
    by (intro ds_decide [OF dec [unfolded sample_decision_def]]) simp_all
  obtain m3 d3 o3 e3 where reg: "sample_register (m2, d2) = (m3, d3, o3, e3)" by (metis prod_cases4)
  have c: "sample_connected = (m3, d3)" by (simp add: sample_connected_def a reg)
  have s3: "device_step sample_hash (m2, d2) (m3, d3)" by (rule ds_register [OF reg [unfolded sample_register_def prod.case]])
  show "device_trace sample_hash (blank_memory, sample_device_db) sample_connected"
    unfolding device_trace_def c using s1 s2 s3 by (meson converse_rtranclp_into_rtranclp rtranclp.rtrancl_refl)
  obtain m4 d4 r4 where msg: "on_device_message (\<lambda>_. Some JNull) 3000 sample_device_id 7 (In_result sample_result) m3 d3 = (m4, d4, r4)"
    by (metis prod_cases3)
  have "sample_answered = (m4, d4)" by (simp add: sample_answered_def c msg)
  then show "device_trace sample_hash sample_connected sample_answered"
    unfolding device_trace_def c using ds_message [OF msg] by auto
qed

lemma sample_connected_inv: "device_inv sample_hash sample_connected"
  using device_trace_inv [OF sample_device_trace(1) sample_device_inv] by simp

theorem device_commands_numbered_witness:
  "length (outbox_of (fst sample_connected) sample_device_id) \<le> OUTBOX_LIMIT \<and> map cm_sequence (outbox_of (fst sample_connected) sample_device_id) = [1]"
proof -
  have one: "map cm_sequence (outbox_of (fst sample_connected) sample_device_id) = [1]" by code_simp
  obtain m d where c: "sample_connected = (m, d)" by fastforce
  from device_commands_numbered [OF sample_device_trace(1) [unfolded c] sample_device_inv, of sample_device_id] one show ?thesis by (simp add: c)
qed


theorem settled_command_final_witness:
  "\<exists>c\<in>set (dd_commands (snd (timeout_command 99999 sample_device_id ''c1'' (fst sample_answered) (snd sample_answered)))). dc_status c = Cmd_succeeded"
proof -
  obtain m d where a: "sample_answered = (m, d)" by fastforce
  obtain m2 d2 where t: "timeout_command 99999 sample_device_id ''c1'' m d = (m2, d2)" by fastforce
  have "map dc_status (dd_commands (snd sample_answered)) = [Cmd_succeeded]" by code_simp
  then have "map dc_status (dd_commands d) = [Cmd_succeeded]" by (simp add: a)
  then obtain x where x: "x \<in> set (dd_commands d)" "dc_status x = Cmd_succeeded" by (auto simp: map_eq_Cons_conv)
  have "device_trace sample_hash (m, d) (m2, d2)"
    unfolding device_trace_def using ds_timeout [of sample_hash m d 99999 sample_device_id "''c1''"] t by auto
  moreover have "device_inv sample_hash (m, d)" using device_trace_inv [OF sample_device_trace(2) sample_connected_inv] a by simp
  ultimately have "x \<in> set (dd_commands d2)" using settled_command_final x by fastforce
  then show ?thesis unfolding a fst_conv snd_conv t using x(2) by blast
qed


theorem registerDevice_refuses_witness:
  "\<exists>reason. registerDevice sample_hash ''new'' ''ABC'' 0 1 1 (sample_hello\<lparr>he_credential := ''guess''\<rparr>) blank_memory sample_device_db =
     (blank_memory, sample_device_db, [], Some reason)"
  by (rule registerDevice_refuses) (simp_all add: sample_hello_def sample_device_db_def sample_machine_def)


theorem claim_code_spelling_witness: "normaliseClaimCode (js_lower (issueDeviceClaimCode [0, 8, 31])) = normaliseClaimCode (issueDeviceClaimCode [0, 8, 31])"
  using claim_code_spelling [OF refl, of "[0, 8, 31]"] by simp

theorem json_strings_inj_witness: "[''a,b''] = ([''a,b''] :: string list)"
  using json_strings_inj [of "[''a,b'']" "[''a,b'']"] by simp

theorem approval_lost_witness:
  "\<exists>db' e. sample_decision ''u2'' (sample_proposed\<lparr>dd_machines := [sample_machine\<lparr>mc_executionEnabled := False\<rparr>]\<rparr>) =
     (blank_memory, db', [], Decide_error e) \<and> (\<exists>p\<in>set (dd_proposals db'). dp_status p = DP_approved)"
proof -
  let ?db = "sample_proposed\<lparr>dd_machines := [sample_machine\<lparr>mc_executionEnabled := False\<rparr>]\<rparr>"
  have "(case snd (snd (snd (sample_decision ''u2'' ?db))) of Decide_error e \<Rightarrow> True | _ \<Rightarrow> False)" by code_simp
  then obtain mem' db' outs e where d: "sample_decision ''u2'' ?db = (mem', db', outs, Decide_error e)"
    by (cases "sample_decision ''u2'' ?db") (auto split: decide_result.splits)
  have "distinct (map dp_id (dd_proposals ?db))" by code_simp
  note lost = approval_lost [OF d [unfolded sample_decision_def] this]
  then have "mem' = blank_memory" "outs = []" "\<exists>p\<in>set (dd_proposals db'). dp_status p = DP_approved" by blast+
  then show ?thesis using d by blast
qed

theorem forbidden_note_stays_witness:
  "\<exists>db' m. sample_decision ''u1'' sample_proposed = (blank_memory, db', [], Decide_forbidden m) \<and> (\<exists>p\<in>set (dd_proposals db'). dp_decisionNote p = Some ''fine'')"
proof -
  have "map (\<lambda>p. (dp_id p, dp_status p, dp_expiresAt p, dp_requestedById p)) (dd_proposals sample_proposed) = [(''p1'', DP_proposed, 86400000, Some ''u1'')]"
    by code_simp
  then obtain p where p: "dd_proposals sample_proposed = [p]" "dp_id p = ''p1''" "dp_status p = DP_proposed" "dp_expiresAt p = 86400000"
    "dp_requestedById p = Some ''u1''" by auto
  have "\<exists>db' m. sample_decision ''u1'' sample_proposed = (blank_memory, db', [], Decide_forbidden m) \<and>
      p\<lparr>dp_approvedById := None, dp_decidedAt := None, dp_decisionNote := Some ''fine''\<rparr> \<in> set (dd_proposals db')"
    unfolding sample_decision_def by (rule forbidden_note_stays) (use p in simp_all)
  then obtain db' m where "sample_decision ''u1'' sample_proposed = (blank_memory, db', [], Decide_forbidden m)"
    "p\<lparr>dp_approvedById := None, dp_decidedAt := None, dp_decisionNote := Some ''fine''\<rparr> \<in> set (dd_proposals db')" by blast
  moreover have "dp_decisionNote (p\<lparr>dp_approvedById := None, dp_decidedAt := None, dp_decisionNote := Some ''fine''\<rparr>) = Some ''fine''" by simp
  ultimately show ?thesis by blast
qed

definition token_hello :: hello where
  "token_hello = sample_hello\<lparr>he_enrolmentToken := ''tok''\<rparr>"

definition token_db :: device_db where
  "token_db = fst (createDeviceEnrolmentToken sample_hash ''e1'' ''tok'' 0 ''admin'' sample_device_db)"

theorem enrolment_token_once_witness:
  "\<exists>db1. enrol_device sample_hash ''new'' 10 token_hello token_db = Some db1 \<and>
     (\<exists>reason. registerDevice sample_hash ''other'' ''ABC'' 20 1 1 token_hello blank_memory db1 = (blank_memory, db1, [], Some reason))"
proof -
  have "enrol_device sample_hash ''new'' 10 token_hello token_db \<noteq> None" by code_simp
  then obtain db1 where e: "enrol_device sample_hash ''new'' 10 token_hello token_db = Some db1" by blast
  have "he_enrolmentToken token_hello \<noteq> []" by code_simp
  from enrolment_token_once [OF e _ refl this, of 20] e show ?thesis by simp
qed

end
