(* ===== verification/Changes.thy ===== *)
theory Changes
  imports TicketCreation
begin

text \<open>
  Changes to the estate: the approval rule and the votes of the advisory board (\<open>server/changes.ts\<close>), the operations of the
  dashboard (\<open>server/routers/changes.ts\<close>) and the changes that an agent raises by itself (\<open>server/tools/change.ts\<close> and
  the sweep of \<open>server/tools/index.ts\<close>).

  The tables are those of \<open>db/schema/changes.ts\<close>, with their check constraints and unique keys; columns that no
  operation reads or writes are left out, and so are the identifiers of links and history rows, which nothing refers to.
  \<open>uuid\<close> supplies fresh identifiers.
\<close>

section \<open>The tables\<close>

datatype change_type = CT_standard | CT_normal | CT_emergency

datatype change_status =
    Cs_draft | Cs_submitted | Cs_pending_approval | Cs_approved | Cs_rejected | Cs_scheduled | Cs_in_progress
  | Cs_completed | Cs_failed | Cs_cancelled

datatype cab_approval_type = Cab_all | Cab_majority

datatype cab_vote = Cv_approve | Cv_reject | Cv_abstain

datatype change_link_type = Cl_related | Cl_implements | Cl_caused_by

record change_row =
  ch_id :: string
  ch_changeNumber :: string
  ch_title :: string
  ch_description :: "string option"
  ch_reasonForChange :: "string option"
  ch_changeType :: change_type
  ch_status :: change_status
  ch_implementationPlan :: "string option"
  ch_testPlan :: "string option"
  ch_rollbackPlan :: "string option"
  ch_requesterId :: "string option"
  ch_createdById :: "string option"
  ch_approvalAt :: "ms option"
  ch_workStartAt :: "ms option"
  ch_workEndAt :: "ms option"
  ch_cabRequired :: bool
  ch_cabApprovalType :: cab_approval_type
  ch_pirReview :: "string option"
  ch_pirWasSuccessful :: "bool option"
  ch_pirActualStartAt :: "ms option"
  ch_pirActualEndAt :: "ms option"
  ch_pirLessonsLearned :: "string option"
  ch_pirFollowUp :: "string option"
  ch_sourceRunId :: "string option"
  ch_sourceStepId :: "string option"
  ch_verificationDeadlineAt :: "ms option"
  ch_createdAt :: ms

record cab_member =
  cm_id :: string
  cm_changeId :: string
  cm_userId :: string
  cm_isRequired :: bool

record cab_vote_row =
  vo_id :: string
  vo_memberId :: string
  vo_vote :: cab_vote
  vo_comment :: "string option"
  vo_votedAt :: ms

record change_link =
  cl_changeId :: string
  cl_ticketId :: string
  cl_linkType :: change_link_type

datatype change_actor = By_human "string option" | By_agent "string option"

record change_transition =
  ct_changeId :: string
  ct_fromStatus :: change_status
  ct_toStatus :: change_status
  ct_actor :: change_actor
  ct_runId :: "string option"
  ct_stepId :: "string option"

record changes_db =
  cd_changes :: "change_row list"
  cd_members :: "cab_member list"
  cd_votes :: "cab_vote_row list"
  cd_links :: "change_link list"
  cd_transitions :: "change_transition list"
  cd_counters :: "((string \<times> string) \<times> int) list"
  cd_users :: "string list"
  cd_tickets :: "string list"

text \<open>An order constraint between two nullable timestamps, and the two the operations can violate.\<close>

definition in_order :: "ms option \<Rightarrow> ms option \<Rightarrow> bool" where
  "in_order a b = (case (a, b) of (Some x, Some y) \<Rightarrow> x \<le> y | _ \<Rightarrow> True)"

definition change_checks :: "change_row \<Rightarrow> bool" where
  "change_checks c \<longleftrightarrow> in_order (ch_workStartAt c) (ch_workEndAt c) \<and> in_order (ch_pirActualStartAt c) (ch_pirActualEndAt c)"

datatype change_error =
    Change_not_found
  | Change_conflict string
  | Change_bad_request string
  | Change_forbidden
  | Change_internal
  | Change_constraint
  | Change_thrown string

text \<open>An insert and an update of a change: the database refuses a row that breaks a constraint, and then changes nothing.\<close>

definition insert_change :: "change_row \<Rightarrow> changes_db \<Rightarrow> change_error + changes_db" where
  "insert_change c db =
     (if change_checks c \<and> (\<forall>x\<in>set (cd_changes db). ch_id x \<noteq> ch_id c \<and> ch_changeNumber x \<noteq> ch_changeNumber c)
      then Inr (db\<lparr>cd_changes := cd_changes db @ [c]\<rparr>) else Inl Change_constraint)"

definition update_changes ::
  "(change_row \<Rightarrow> bool) \<Rightarrow> (change_row \<Rightarrow> change_row) \<Rightarrow> changes_db \<Rightarrow> change_error + changes_db \<times> change_row list" where
  "update_changes p f db =
     (case sql_update p f (cd_changes db) of (rows, hit) \<Rightarrow>
        if \<forall>c\<in>set hit. change_checks c then Inr (db\<lparr>cd_changes := rows\<rparr>, hit) else Inl Change_constraint)"

definition add_transition :: "change_transition \<Rightarrow> changes_db \<Rightarrow> changes_db" where
  "add_transition t db = db\<lparr>cd_transitions := cd_transitions db @ [t]\<rparr>"

section \<open>Approval\<close>

text \<open>\<open>CabMemberVote\<close>, as \<open>getChange\<close> reads a member with the vote.\<close>

record member_vote =
  mv_id :: string
  mv_userId :: string
  mv_isRequired :: bool
  mv_vote :: "cab_vote option"
  mv_comment :: "string option"
  mv_votedAt :: "ms option"

definition changeApproval :: "change_type \<Rightarrow> member_vote list \<Rightarrow> bool \<Rightarrow> cab_approval_type \<Rightarrow> change_status" where
  "changeApproval changeType members cabRequired approvalType =
     (if changeType = CT_standard then Cs_approved
      else if \<not> cabRequired then Cs_approved
      else if \<exists>m\<in>set members. mv_vote m = Some Cv_reject then Cs_rejected
      else let required = filter mv_isRequired members
      in if required = [] then Cs_pending_approval
      else let approvals = length (filter (\<lambda>m. mv_vote m = Some Cv_approve) required)
      in case approvalType of
           Cab_majority \<Rightarrow> if 2 * approvals > length required then Cs_approved else Cs_pending_approval
         | Cab_all \<Rightarrow> if approvals = length required then Cs_approved else Cs_pending_approval)"

definition canChangeProceed :: "change_type \<Rightarrow> member_vote list \<Rightarrow> bool \<Rightarrow> cab_approval_type \<Rightarrow> bool" where
  "canChangeProceed changeType members cabRequired approvalType \<longleftrightarrow>
     changeApproval changeType members cabRequired approvalType = Cs_approved"

definition assertCabVoteAuthorized :: "bool \<Rightarrow> change_error + unit" where
  "assertCabVoteAuthorized canVote = (if canVote then Inr () else Inl (Change_thrown ''Not authorized to vote on this change''))"

text \<open>One vote for each member: a later vote replaces the vote and the comment and keeps the row.\<close>

definition upsert_vote :: "string \<Rightarrow> string \<Rightarrow> cab_vote \<Rightarrow> string option \<Rightarrow> ms \<Rightarrow> cab_vote_row list \<Rightarrow> cab_vote_row list" where
  "upsert_vote newId memberId vote comment now votes =
     (case sql_insert_new vo_memberId
         \<lparr>vo_id = newId, vo_memberId = memberId, vo_vote = vote, vo_comment = comment, vo_votedAt = now\<rparr> votes of
        (votes', True) \<Rightarrow> votes'
      | (_, False) \<Rightarrow> fst (sql_update (\<lambda>v. vo_memberId v = memberId)
          (\<lambda>v. v\<lparr>vo_vote := vote, vo_comment := (case comment of None \<Rightarrow> vo_comment v | Some c \<Rightarrow> Some c), vo_votedAt := now\<rparr>) votes))"

definition persistCabVote ::
  "string \<Rightarrow> ms \<Rightarrow> string \<Rightarrow> cab_vote \<Rightarrow> string option \<Rightarrow> bool \<Rightarrow> changes_db \<Rightarrow> change_error + changes_db" where
  "persistCabVote newId now memberId vote comment canVote db =
     bind_result (assertCabVoteAuthorized canVote) (\<lambda>_.
       if memberId \<in> cm_id ` set (cd_members db)
       then Inr (db\<lparr>cd_votes := upsert_vote newId memberId vote comment now (cd_votes db)\<rparr>) else Inl Change_constraint)"

record pir_update =
  pu_review :: "string option"
  pu_wasSuccessful :: "bool option"
  pu_actualStartAt :: "ms option"
  pu_actualEndAt :: "ms option"
  pu_lessonsLearned :: "string option"
  pu_followUp :: "string option"

text \<open>A column is written when the update names it.\<close>

definition or_keep :: "'a option \<Rightarrow> 'a option \<Rightarrow> 'a option" where
  "or_keep new old = (case new of None \<Rightarrow> old | Some x \<Rightarrow> Some x)"

definition write_pir :: "pir_update \<Rightarrow> change_row \<Rightarrow> change_row" where
  "write_pir u c = c\<lparr>ch_pirReview := or_keep (pu_review u) (ch_pirReview c),
     ch_pirWasSuccessful := or_keep (pu_wasSuccessful u) (ch_pirWasSuccessful c),
     ch_pirActualStartAt := or_keep (pu_actualStartAt u) (ch_pirActualStartAt c),
     ch_pirActualEndAt := or_keep (pu_actualEndAt u) (ch_pirActualEndAt c),
     ch_pirLessonsLearned := or_keep (pu_lessonsLearned u) (ch_pirLessonsLearned c),
     ch_pirFollowUp := or_keep (pu_followUp u) (ch_pirFollowUp c)\<rparr>"

definition persistPir :: "string \<Rightarrow> pir_update \<Rightarrow> changes_db \<Rightarrow> change_error + changes_db" where
  "persistPir changeId pir db =
     (if changeId = [] then Inl (Change_thrown ''changeId is required'')
      else case update_changes (\<lambda>c. ch_id c = changeId) (write_pir pir) db of
        Inl e \<Rightarrow> Inl e
      | Inr (_, []) \<Rightarrow> Inl (Change_thrown (''Change not found: '' @ changeId))
      | Inr (db', _) \<Rightarrow> Inr db')"

section \<open>The dashboard's operations\<close>

record change_detail =
  cx_change :: change_row
  cx_ticketIds :: "string list"
  cx_members :: "member_vote list"

definition member_with_vote :: "cab_vote_row list \<Rightarrow> cab_member \<Rightarrow> member_vote" where
  "member_with_vote votes m =
     (let v = first_row (\<lambda>v. vo_memberId v = cm_id m) votes
      in \<lparr>mv_id = cm_id m, mv_userId = cm_userId m, mv_isRequired = cm_isRequired m, mv_vote = map_option vo_vote v,
          mv_comment = Option.bind v vo_comment, mv_votedAt = map_option vo_votedAt v\<rparr>)"

definition members_of :: "changes_db \<Rightarrow> string \<Rightarrow> member_vote list" where
  "members_of db i = map (member_with_vote (cd_votes db)) (filter (\<lambda>m. cm_changeId m = i) (cd_members db))"

definition change_of :: "changes_db \<Rightarrow> string \<Rightarrow> change_row option" where
  "change_of db i = first_row (\<lambda>c. ch_id c = i) (cd_changes db)"

definition getChange :: "changes_db \<Rightarrow> string \<Rightarrow> change_detail option" where
  "getChange db i =
     (case change_of db i of
        None \<Rightarrow> None
      | Some c \<Rightarrow> Some \<lparr>cx_change = c, cx_ticketIds = map cl_ticketId (filter (\<lambda>l. cl_changeId l = i) (cd_links db)),
          cx_members = members_of db i\<rparr>)"

definition requireChange :: "changes_db \<Rightarrow> string \<Rightarrow> change_error + change_detail" where
  "requireChange db i = (case getChange db i of None \<Rightarrow> Inl Change_not_found | Some d \<Rightarrow> Inr d)"

definition listChanges :: "changes_db \<Rightarrow> change_row list" where
  "listChanges db = js_sort (\<lambda>a b. ch_createdAt b - ch_createdAt a) (cd_changes db)"

text \<open>\<open>[...new Set(ids)]\<close>.\<close>

definition each_once :: "string list \<Rightarrow> string list" where
  "each_once xs = rev (remdups (rev xs))"

record new_change =
  nc_title :: string
  nc_description :: "string option"
  nc_reasonForChange :: string
  nc_changeType :: change_type
  nc_testPlan :: string
  nc_rollbackPlan :: string
  nc_cabMemberIds :: "string list"
  nc_ticketIds :: "string list"

definition requested_change :: "string \<Rightarrow> string \<Rightarrow> string \<Rightarrow> ms \<Rightarrow> new_change \<Rightarrow> change_row" where
  "requested_change i number userId now n = \<lparr>ch_id = i, ch_changeNumber = number, ch_title = nc_title n,
     ch_description = nc_description n, ch_reasonForChange = Some (nc_reasonForChange n), ch_changeType = nc_changeType n,
     ch_status = Cs_pending_approval, ch_implementationPlan = None, ch_testPlan = Some (nc_testPlan n),
     ch_rollbackPlan = Some (nc_rollbackPlan n), ch_requesterId = Some userId, ch_createdById = Some userId,
     ch_approvalAt = None, ch_workStartAt = None, ch_workEndAt = None, ch_cabRequired = True, ch_cabApprovalType = Cab_all,
     ch_pirReview = None, ch_pirWasSuccessful = None, ch_pirActualStartAt = None, ch_pirActualEndAt = None,
     ch_pirLessonsLearned = None, ch_pirFollowUp = None, ch_sourceRunId = None, ch_sourceStepId = None,
     ch_verificationDeadlineAt = None, ch_createdAt = now\<rparr>"

definition change_number :: "ms \<Rightarrow> int \<Rightarrow> string" where
  "change_number now n = ''CHG-'' @ js_int_string (utc_year now) @ ''-'' @ pad_start 5 CHR ''0'' (js_int_string n)"

definition human_move :: "string \<Rightarrow> string \<Rightarrow> change_status \<Rightarrow> change_status \<Rightarrow> change_transition" where
  "human_move userId i from to = \<lparr>ct_changeId = i, ct_fromStatus = from, ct_toStatus = to, ct_actor = By_human (Some userId),
     ct_runId = None, ct_stepId = None\<rparr>"

definition board_members :: "(nat \<Rightarrow> string) \<Rightarrow> string \<Rightarrow> string list \<Rightarrow> cab_member list" where
  "board_members uuid i users = map (\<lambda>(k, u). \<lparr>cm_id = uuid (Suc k), cm_changeId = i, cm_userId = u, cm_isRequired = True\<rparr>)
     (enumerate 0 users)"

definition createChange :: "(nat \<Rightarrow> string) \<Rightarrow> ms \<Rightarrow> string \<Rightarrow> new_change \<Rightarrow> changes_db \<Rightarrow> change_error + changes_db \<times> change_detail" where
  "createChange uuid now userId n db =
     (case bump_counter (''CHG'', js_int_string (utc_year now)) (cd_counters db) of
        (counters, value) \<Rightarrow>
      bind_result (insert_change (requested_change (uuid 0) (change_number now value) userId now n) (db\<lparr>cd_counters := counters\<rparr>))
      (\<lambda>db1.
        let memberIds = each_once (nc_cabMemberIds n); ticketIds = each_once (nc_ticketIds n)
        in if set memberIds \<subseteq> set (cd_users db1) \<and> set ticketIds \<subseteq> set (cd_tickets db1)
           then let db2 = add_transition (human_move userId (uuid 0) Cs_draft Cs_pending_approval) db1;
                    db3 = db2\<lparr>cd_members := cd_members db2 @ board_members uuid (uuid 0) memberIds,
                      cd_links := cd_links db2 @ map (\<lambda>t. \<lparr>cl_changeId = uuid 0, cl_ticketId = t, cl_linkType = Cl_related\<rparr>) ticketIds\<rparr>
                in bind_result (requireChange db3 (uuid 0)) (\<lambda>d. Inr (db3, d))
           else Inl Change_constraint))"

text \<open>The two guards of an update: work without approval, and completion without a review.\<close>

definition starts_unapproved :: "change_detail \<Rightarrow> change_status option \<Rightarrow> bool" where
  "starts_unapproved current status \<longleftrightarrow>
     (let c = cx_change current
      in status = Some Cs_in_progress \<and> ch_changeType c \<noteq> CT_standard \<and>
         \<not> canChangeProceed (ch_changeType c) (cx_members current) (ch_cabRequired c) (ch_cabApprovalType c))"

definition completes_unreviewed :: "change_row \<Rightarrow> change_status option \<Rightarrow> pir_update \<Rightarrow> bool" where
  "completes_unreviewed c status pir \<longleftrightarrow>
     status = Some Cs_completed \<and> or_keep (pu_wasSuccessful pir) (ch_pirWasSuccessful c) \<noteq> Some True \<and>
     (case or_keep (pu_lessonsLearned pir) (ch_pirLessonsLearned c) of None \<Rightarrow> True | Some l \<Rightarrow> l = [])"

definition write_status :: "change_status option \<Rightarrow> pir_update \<Rightarrow> change_row \<Rightarrow> change_row" where
  "write_status status pir c = (write_pir pir c)\<lparr>ch_status := (case status of None \<Rightarrow> ch_status c | Some s \<Rightarrow> s)\<rparr>"

text \<open>The history row of an update, where the status it names differs from the one that was read.\<close>

definition status_moves :: "string \<Rightarrow> string \<Rightarrow> change_status \<Rightarrow> change_status option \<Rightarrow> change_transition list" where
  "status_moves userId i from status =
     (case status of None \<Rightarrow> [] | Some s \<Rightarrow> if s = from then [] else [human_move userId i from s])"

definition updateChange ::
  "string \<Rightarrow> string \<Rightarrow> change_status option \<Rightarrow> pir_update \<Rightarrow> changes_db \<Rightarrow> change_error + changes_db \<times> change_detail" where
  "updateChange userId i status pir db =
     bind_result (requireChange db i) (\<lambda>current.
       if starts_unapproved current status
       then Inl (Change_conflict ''This change requires CAB approval before work starts'')
       else if completes_unreviewed (cx_change current) status pir
       then Inl (Change_bad_request ''A completed change requires a post-implementation review'')
       else bind_result (update_changes (\<lambda>x. ch_id x = i) (write_status status pir) db) (\<lambda>(db1, row).
         if row = [] then Inl Change_not_found
         else let db2 = db1\<lparr>cd_transitions := cd_transitions db1 @ status_moves userId i (ch_status (cx_change current)) status\<rparr>
              in bind_result (requireChange db2 i) (\<lambda>d. Inr (db2, d))))"

text \<open>After a vote the change gets the status that its board now gives it.\<close>

definition board_decides :: "string \<Rightarrow> string \<Rightarrow> changes_db \<Rightarrow> change_error + changes_db" where
  "board_decides userId i db =
     bind_result (requireChange db i) (\<lambda>detail.
       let c = cx_change detail;
           nextStatus = changeApproval (ch_changeType c) (cx_members detail) (ch_cabRequired c) (ch_cabApprovalType c)
       in if nextStatus \<noteq> ch_status c
          then bind_result (update_changes (\<lambda>x. ch_id x = i) (\<lambda>x. x\<lparr>ch_status := nextStatus\<rparr>) db) (\<lambda>(db1, _).
            Inr (add_transition (human_move userId i (ch_status c) nextStatus) db1))
          else Inr db)"

definition voteOnChange ::
  "string \<Rightarrow> ms \<Rightarrow> string \<Rightarrow> string \<Rightarrow> cab_vote \<Rightarrow> string option \<Rightarrow> changes_db \<Rightarrow> change_error + changes_db \<times> change_detail" where
  "voteOnChange newId now userId i vote comment db =
     (case first_row (\<lambda>m. cm_changeId m = i \<and> cm_userId m = userId) (cd_members db) of
        None \<Rightarrow> Inl Change_forbidden
      | Some member \<Rightarrow>
          bind_result (board_decides userId i (db\<lparr>cd_votes := upsert_vote newId (cm_id member) vote comment now (cd_votes db)\<rparr>))
            (\<lambda>db'. bind_result (requireChange db' i) (\<lambda>d. Inr (db', d))))"

section \<open>The sweep of unverified changes\<close>

definition agent_move :: "string option \<Rightarrow> string option \<Rightarrow> string \<Rightarrow> change_status \<Rightarrow> change_status \<Rightarrow> change_transition" where
  "agent_move runId stepId i from to = \<lparr>ct_changeId = i, ct_fromStatus = from, ct_toStatus = to, ct_actor = By_agent runId,
     ct_runId = runId, ct_stepId = stepId\<rparr>"

definition unverified :: "ms \<Rightarrow> change_row \<Rightarrow> bool" where
  "unverified now c \<longleftrightarrow> ch_status c = Cs_in_progress \<and>
     (case ch_verificationDeadlineAt c of None \<Rightarrow> False | Some d \<Rightarrow> d \<le> now)"

definition expire_change :: "ms \<Rightarrow> change_row \<Rightarrow> change_row" where
  "expire_change now c = c\<lparr>ch_status := Cs_failed, ch_workEndAt := Some now, ch_pirWasSuccessful := Some False,
     ch_pirActualEndAt := Some now, ch_pirFollowUp := Some ''Post-change verification deadline expired.'',
     ch_verificationDeadlineAt := None\<rparr>"

definition sweepExpiredChangeVerifications :: "ms \<Rightarrow> changes_db \<Rightarrow> change_error + changes_db \<times> nat" where
  "sweepExpiredChangeVerifications now db =
     bind_result (update_changes (unverified now) (expire_change now) db) (\<lambda>(db1, expired).
       Inr (db1\<lparr>cd_transitions := cd_transitions db1 @
           map (\<lambda>c. agent_move (ch_sourceRunId c) None (ch_id c) Cs_in_progress Cs_failed) expired\<rparr>, length expired))"

section \<open>The changes an agent raises\<close>

text \<open>The transactions of \<open>patchImageWithChange\<close> before and after the patch.\<close>

record image_change =
  ic_namespace :: string
  ic_name :: string
  ic_containerIndex :: nat
  ic_image :: string
  ic_previousImage :: string
  ic_ticketId :: string
  ic_runId :: string
  ic_stepId :: string

text \<open>The first eight characters of the identifier in upper case.\<close>

definition js_upper_char :: "char \<Rightarrow> char" where
  "js_upper_char c = (let n = of_char c :: nat in if 97 \<le> n \<and> n \<le> 122 then char_of (n - 32) else c)"

definition automatic_change :: "string \<Rightarrow> ms \<Rightarrow> image_change \<Rightarrow> change_row" where
  "automatic_change i now x = \<lparr>ch_id = i, ch_changeNumber = ''CHG-AUTO-'' @ map js_upper_char (take 8 i),
     ch_title = ''Update '' @ ic_namespace x @ ''/'' @ ic_name x @ '' image'',
     ch_description = Some (''Axel requested '' @ ic_previousImage x @ '' -> '' @ ic_image x),
     ch_reasonForChange = Some (''Resolve ticket '' @ ic_ticketId x), ch_changeType = CT_standard, ch_status = Cs_in_progress,
     ch_implementationPlan = Some (''Replace container '' @ js_nat_string (ic_containerIndex x) @ '' image with '' @ ic_image x),
     ch_testPlan = Some ''Wait for rollout, then verify the deployment with cluster_read_deployment'',
     ch_rollbackPlan = Some (''Restore container '' @ js_nat_string (ic_containerIndex x) @ '' image to '' @ ic_previousImage x),
     ch_requesterId = None, ch_createdById = None, ch_approvalAt = Some now, ch_workStartAt = Some now, ch_workEndAt = None,
     ch_cabRequired = False, ch_cabApprovalType = Cab_all, ch_pirReview = None, ch_pirWasSuccessful = None,
     ch_pirActualStartAt = Some now, ch_pirActualEndAt = None, ch_pirLessonsLearned = None, ch_pirFollowUp = None,
     ch_sourceRunId = Some (ic_runId x), ch_sourceStepId = Some (ic_stepId x),
     ch_verificationDeadlineAt = Some (now + 5 * 60000), ch_createdAt = now\<rparr>"

definition begin_image_change :: "string \<Rightarrow> ms \<Rightarrow> image_change \<Rightarrow> changes_db \<Rightarrow> change_error + changes_db" where
  "begin_image_change i now x db =
     bind_result (insert_change (automatic_change i now x) db) (\<lambda>db1.
       if ic_ticketId x \<in> set (cd_tickets db1)
       then Inr ((add_transition (agent_move (Some (ic_runId x)) (Some (ic_stepId x)) i Cs_draft Cs_in_progress) db1)
         \<lparr>cd_links := cd_links db1 @ [\<lparr>cl_changeId = i, cl_ticketId = ic_ticketId x, cl_linkType = Cl_implements\<rparr>]\<rparr>)
       else Inl Change_constraint)"

definition failed_change :: "ms \<Rightarrow> string \<Rightarrow> change_row \<Rightarrow> change_row" where
  "failed_change failedAt message c = c\<lparr>ch_status := Cs_failed, ch_workEndAt := Some failedAt, ch_pirWasSuccessful := Some False,
     ch_pirActualEndAt := Some failedAt, ch_pirFollowUp := Some message\<rparr>"

definition fail_image_change :: "string \<Rightarrow> ms \<Rightarrow> string \<Rightarrow> image_change \<Rightarrow> changes_db \<Rightarrow> change_error + changes_db" where
  "fail_image_change i failedAt message x db =
     bind_result (update_changes (\<lambda>c. ch_id c = i) (failed_change failedAt message) db)
       (\<lambda>(db1, _). Inr (add_transition (agent_move (Some (ic_runId x)) (Some (ic_stepId x)) i Cs_in_progress Cs_failed) db1))"

definition verified_change :: "ms \<Rightarrow> string \<Rightarrow> change_row \<Rightarrow> change_row" where
  "verified_change completedAt review c = c\<lparr>ch_status := Cs_completed, ch_workEndAt := Some completedAt,
     ch_pirWasSuccessful := Some True, ch_pirActualEndAt := Some completedAt, ch_pirReview := Some review,
     ch_pirLessonsLearned := Some ''Explicit post-change verification succeeded.'', ch_verificationDeadlineAt := None\<rparr>"

text \<open>The transaction by which a read discharges the change (\<open>executeTool\<close>); its second part says whether it did.\<close>

definition complete_change :: "string \<Rightarrow> ms \<Rightarrow> string \<Rightarrow> string \<Rightarrow> string \<Rightarrow> changes_db \<Rightarrow> change_error + changes_db \<times> bool" where
  "complete_change i completedAt review runId stepId db =
     bind_result (update_changes (\<lambda>c. ch_id c = i \<and> ch_status c = Cs_in_progress) (verified_change completedAt review) db)
       (\<lambda>(db1, completed).
          if completed = [] then Inr (db1, False)
          else Inr (add_transition (agent_move (Some runId) (Some stepId) i Cs_in_progress Cs_completed) db1, True))"

end
