(* ===== verification/ChangeFacts.thy ===== *)
theory ChangeFacts
  imports Changes
begin

text \<open>
  What is promised of changes: the history of a change explains its status, work on a change waits for its board, the votes
  of a board are read in any order; and where the operations let a change pass its board.
\<close>

section \<open>Histories\<close>

datatype change_op =
    Do_create "nat \<Rightarrow> string" ms string new_change
  | Do_update string string "change_status option" pir_update
  | Do_vote string ms string string cab_vote "string option"
  | Do_image string ms image_change "(ms \<times> string) option" \<comment> \<open>with the time and the message of a patch that fails\<close>
  | Do_verify string ms string string string
  | Do_sweep ms

text \<open>An operation that fails leaves the database as it was.\<close>

definition kept :: "'d \<Rightarrow> 'e + 'd \<Rightarrow> 'd" where
  "kept db r = (case r of Inl _ \<Rightarrow> db | Inr db' \<Rightarrow> db')"

fun do_change :: "change_op \<Rightarrow> changes_db \<Rightarrow> changes_db" where
  "do_change (Do_create uuid now userId n) db = kept db (map_sum id fst (createChange uuid now userId n db))"
| "do_change (Do_update userId i status pir) db = kept db (map_sum id fst (updateChange userId i status pir db))"
| "do_change (Do_vote newId now userId i vote remark) db = kept db (map_sum id fst (voteOnChange newId now userId i vote remark db))"
| "do_change (Do_image i now x fails) db =
     (case begin_image_change i now x db of
        Inl _ \<Rightarrow> db
      | Inr db1 \<Rightarrow> (case fails of None \<Rightarrow> db1 | Some (failedAt, message) \<Rightarrow> kept db1 (fail_image_change i failedAt message x db1)))"
| "do_change (Do_verify i now review runId stepId) db = kept db (map_sum id fst (complete_change i now review runId stepId db))"
| "do_change (Do_sweep now) db = kept db (map_sum id fst (sweepExpiredChangeVerifications now db))"

definition do_changes :: "change_op list \<Rightarrow> changes_db \<Rightarrow> changes_db" where
  "do_changes ops db = fold do_change ops db"

fun change_path :: "change_status \<Rightarrow> change_transition list \<Rightarrow> change_status \<Rightarrow> bool" where
  "change_path s [] s' = (s = s')"
| "change_path s (t # ts) s' = (ct_fromStatus t = s \<and> change_path (ct_toStatus t) ts s')"

definition trail :: "string \<Rightarrow> change_transition list \<Rightarrow> change_transition list" where
  "trail i ts = filter (\<lambda>t. ct_changeId t = i) ts"

text \<open>Identifiers are keys, history rows refer to changes (both are constraints of the database), and every trail explains
  the status of its change.\<close>

definition tracked :: "changes_db \<Rightarrow> bool" where
  "tracked db \<longleftrightarrow> distinct (map ch_id (cd_changes db)) \<and> ct_changeId ` set (cd_transitions db) \<subseteq> ch_id ` set (cd_changes db) \<and>
     (\<forall>c\<in>set (cd_changes db). change_path Cs_draft (trail (ch_id c) (cd_transitions db)) (ch_status c))"

lemma change_path_append: "change_path a xs b \<Longrightarrow> change_path b ys c \<Longrightarrow> change_path a (xs @ ys) c"
  by (induction xs arbitrary: a) auto

lemma trail_simps [simp]:
  "trail i [] = []" "trail i (xs @ ys) = trail i xs @ trail i ys"
  "trail i (t # ts) = (if ct_changeId t = i then t # trail i ts else trail i ts)"
  by (simp_all add: trail_def)

lemma trail_none: "i \<notin> ct_changeId ` set ts \<Longrightarrow> trail i ts = []"
  by (auto simp: trail_def filter_empty_conv)

lemma trail_map_once:
  assumes "distinct (map g xs)" and "x \<in> set xs" and "\<And>y. ct_changeId (h y) = g y"
  shows "trail (g x) (map h xs) = [h x]"
  using assms
proof (induction xs)
  case (Cons y ys)
  show ?case
  proof (cases "x = y")
    case True
    have "g y \<notin> ct_changeId ` set (map h ys)" using Cons.prems by (auto simp: image_image)
    then show ?thesis using True Cons.prems(3) trail_none by simp
  next
    case False
    then have "x \<in> set ys" using Cons.prems by simp
    then have "g x \<in> g ` set ys" by simp
    then have "g y \<noteq> g x" using Cons.prems(1) by auto
    then show ?thesis using Cons False by simp
  qed
qed simp

lemma update_changes_Inr:
  "update_changes p f db = Inr (db1, hit) \<longleftrightarrow>
     db1 = db\<lparr>cd_changes := map (\<lambda>c. if p c then f c else c) (cd_changes db)\<rparr> \<and>
     hit = map f (filter p (cd_changes db)) \<and> (\<forall>c\<in>set hit. change_checks c)"
  by (auto simp: update_changes_def sql_update_def)

lemma tracked_update:
  assumes "tracked db" and "\<And>c. ch_id (f c) = ch_id c"
    and "cd_changes db' = map (\<lambda>c. if p c then f c else c) (cd_changes db)" and "cd_transitions db' = cd_transitions db @ new"
    and "\<And>c. c \<in> set (cd_changes db) \<Longrightarrow> p c \<Longrightarrow> change_path (ch_status c) (trail (ch_id c) new) (ch_status (f c))"
    and "\<And>c. c \<in> set (cd_changes db) \<Longrightarrow> \<not> p c \<Longrightarrow> trail (ch_id c) new = []"
    and "ct_changeId ` set new \<subseteq> ch_id ` set (cd_changes db)"
  shows "tracked db'"
proof -
  have ids: "map ch_id (cd_changes db') = map ch_id (cd_changes db)" using assms(2,3) by simp
  have idset: "ch_id ` set (cd_changes db') = ch_id ` set (cd_changes db)" using arg_cong [OF ids, of set] by simp
  have "change_path Cs_draft (trail (ch_id c') (cd_transitions db')) (ch_status c')" if c': "c' \<in> set (cd_changes db')" for c'
  proof -
    obtain c where c: "c \<in> set (cd_changes db)" "c' = (if p c then f c else c)" using c' assms(3) by auto
    have old: "change_path Cs_draft (trail (ch_id c) (cd_transitions db)) (ch_status c)" using assms(1) c(1) by (auto simp: tracked_def)
    show ?thesis using c assms(2,4) assms(5) [OF c(1)] assms(6) [OF c(1)] change_path_append [OF old] old by (cases "p c") auto
  qed
  then show ?thesis using assms(1,4,7) ids idset by (auto simp: tracked_def)
qed

lemma tracked_cong:
  "cd_changes db' = cd_changes db \<Longrightarrow> cd_transitions db' = cd_transitions db \<Longrightarrow> tracked db' = tracked db"
  by (simp add: tracked_def)

lemma tracked_insert:
  assumes "tracked db" and "insert_change c db = Inr db1" and "ch_id c = ct_changeId t" and "ct_fromStatus t = Cs_draft"
    and "ct_toStatus t = ch_status c" and "cd_changes db' = cd_changes db1" and "cd_transitions db' = cd_transitions db @ [t]"
  shows "tracked db'"
proof -
  have fresh: "ch_id c \<notin> ch_id ` set (cd_changes db)" and rows: "cd_changes db1 = cd_changes db @ [c]"
    using assms(2) by (auto simp: insert_change_def split: if_splits)
  have "trail (ch_id c) (cd_transitions db) = []" using assms(1) fresh by (intro trail_none) (auto simp: tracked_def)
  moreover have "ch_id x \<noteq> ch_id c" if "x \<in> set (cd_changes db)" for x using fresh that by (metis image_eqI)
  ultimately show ?thesis using assms fresh rows by (auto simp: tracked_def)
qed

lemma change_of_unique:
  assumes "distinct (map ch_id (cd_changes db))" and "change_of db i = Some c" and "x \<in> set (cd_changes db)" and "ch_id x = i"
  shows "x = c"
proof -
  have "c \<in> set (cd_changes db)" "ch_id c = i" using first_row_SomeD [of _ _ c] assms(2) by (auto simp: change_of_def)
  then show ?thesis using assms(1,3,4) by (auto simp: distinct_map dest: inj_onD)
qed

lemma requireChange_Inr:
  "requireChange db i = Inr d \<Longrightarrow> change_of db i = Some (cx_change d) \<and> cx_members d = members_of db i"
  by (auto simp: requireChange_def getChange_def split: option.splits)

lemma createChange_tracked:
  assumes "createChange uuid now userId n db = Inr (db', d)" and "tracked db"
  shows "tracked db'"
proof -
  obtain counters v where b: "bump_counter (''CHG'', js_int_string (utc_year now)) (cd_counters db) = (counters, v)" by fastforce
  obtain db1 where ins: "insert_change (requested_change (uuid 0) (change_number now v) userId now n) (db\<lparr>cd_counters := counters\<rparr>) = Inr db1"
    and eq: "cd_changes db' = cd_changes db1" "cd_transitions db' = cd_transitions db1 @ [human_move userId (uuid 0) Cs_draft Cs_pending_approval]"
    using assms(1) b by (auto simp: createChange_def Let_def add_transition_def split: if_splits)
  have t: "cd_transitions db1 = cd_transitions db" using ins by (auto simp: insert_change_def split: if_splits)
  show ?thesis
  proof (rule tracked_insert [OF _ ins])
    show "tracked (db\<lparr>cd_counters := counters\<rparr>)" using assms(2) by (simp add: tracked_def)
  qed (use eq t in \<open>auto simp: requested_change_def human_move_def\<close>)
qed

lemma write_keeps_id [simp]:
  "ch_id (write_status status pir c) = ch_id c" "ch_id (failed_change t m c) = ch_id c" "ch_id (verified_change t m c) = ch_id c"
  "ch_id (expire_change t c) = ch_id c"
  by (simp_all add: write_status_def write_pir_def failed_change_def verified_change_def expire_change_def)

lemma write_status_status [simp]:
  "ch_status (write_status status pir c) = (case status of None \<Rightarrow> ch_status c | Some s \<Rightarrow> s)"
  "ch_status (failed_change t m c) = Cs_failed" "ch_status (verified_change t m c) = Cs_completed"
  "ch_status (expire_change t c) = Cs_failed"
  by (simp_all add: write_status_def failed_change_def verified_change_def expire_change_def)

lemma updateChange_Inr:
  assumes "updateChange userId i status pir db = Inr (db', d)"
  obtains current where "requireChange db i = Inr current" and "\<not> starts_unapproved current status"
    and "\<not> completes_unreviewed (cx_change current) status pir"
    and "cd_changes db' = map (\<lambda>x. if ch_id x = i then write_status status pir x else x) (cd_changes db)"
    and "cd_transitions db' = cd_transitions db @ status_moves userId i (ch_status (cx_change current)) status"
    and "requireChange db' i = Inr d"
  using assms by (auto simp: updateChange_def update_changes_Inr Let_def split: if_splits)

lemma updateChange_tracked:
  assumes "updateChange userId i status pir db = Inr (db', d)" and "tracked db"
  shows "tracked db'"
proof (rule updateChange_Inr [OF assms(1)], goal_cases)
  case (1 current)
  note c = requireChange_Inr [OF 1(1), THEN conjunct1]
  let ?c = "cx_change current"
  have cin: "?c \<in> set (cd_changes db)" "ch_id ?c = i" using first_row_SomeD [of _ _ ?c] c by (auto simp: change_of_def)
  have same: "x = ?c" if "x \<in> set (cd_changes db)" "ch_id x = i" for x
    using change_of_unique [OF _ c that] assms(2) by (simp add: tracked_def)
  show ?case
    by (rule tracked_update [OF assms(2) _ 1(4,5)])
      (use cin in \<open>auto simp: human_move_def status_moves_def dest: same split: option.splits\<close>)
qed

lemma board_decides_Inr:
  assumes "board_decides userId i db = Inr db'"
  obtains c nextStatus where "change_of db i = Some c"
    and "nextStatus = changeApproval (ch_changeType c) (members_of db i) (ch_cabRequired c) (ch_cabApprovalType c)"
    and "cd_changes db' = map (\<lambda>x. if ch_id x = i \<and> nextStatus \<noteq> ch_status c then x\<lparr>ch_status := nextStatus\<rparr> else x) (cd_changes db)"
    and "cd_transitions db' = cd_transitions db @ (if nextStatus = ch_status c then [] else [human_move userId i (ch_status c) nextStatus])"
    and "cd_votes db' = cd_votes db" and "cd_members db' = cd_members db"
proof -
  obtain d where d: "requireChange db i = Inr d" using assms by (auto simp: board_decides_def)
  note r = requireChange_Inr [OF d]
  show thesis
    by (rule that [of "cx_change d", OF _ refl])
      (use assms r in \<open>auto simp: board_decides_def d update_changes_Inr add_transition_def Let_def split: if_splits\<close>)
qed

lemma voteOnChange_Inr:
  assumes "voteOnChange newId now userId i vote remark db = Inr (db', d)"
  obtains m where "m \<in> set (cd_members db)" and "cm_changeId m = i" and "cm_userId m = userId"
    and "board_decides userId i (db\<lparr>cd_votes := upsert_vote newId (cm_id m) vote remark now (cd_votes db)\<rparr>) = Inr db'"
    and "requireChange db' i = Inr d"
  using assms by (auto simp: voteOnChange_def split: option.splits dest: first_row_SomeD)

lemma voteOnChange_tracked:
  assumes "voteOnChange newId now userId i vote remark db = Inr (db', d)" and "tracked db"
  shows "tracked db'"
proof (rule voteOnChange_Inr [OF assms(1)], goal_cases)
  case (1 m)
  let ?db1 = "db\<lparr>cd_votes := upsert_vote newId (cm_id m) vote remark now (cd_votes db)\<rparr>"
  show ?case
  proof (rule board_decides_Inr [OF 1(4)], goal_cases)
    case b: (1 c s)
    have t: "tracked ?db1" using assms(2) by (simp add: tracked_def)
    have cin: "c \<in> set (cd_changes db)" "ch_id c = i" using first_row_SomeD [of _ _ c] b(1) by (auto simp: change_of_def)
    have same: "x = c" if "x \<in> set (cd_changes db)" "ch_id x = i" for x
      using change_of_unique [OF _ b(1)] that t by (simp add: tracked_def)
    show ?case
      by (rule tracked_update [OF t _ b(3,4)]) (use cin in \<open>auto simp: human_move_def dest: same\<close>)
  qed
qed

lemma begin_image_tracked:
  assumes "begin_image_change i now x db = Inr db'" and "tracked db"
  shows "tracked db'" and "change_of db' i = Some (automatic_change i now x)"
proof -
  obtain db1 where ins: "insert_change (automatic_change i now x) db = Inr db1"
    and eq: "cd_changes db' = cd_changes db1"
      "cd_transitions db' = cd_transitions db1 @ [agent_move (Some (ic_runId x)) (Some (ic_stepId x)) i Cs_draft Cs_in_progress]"
    using assms(1) by (auto simp: begin_image_change_def add_transition_def split: if_splits)
  have t: "cd_transitions db1 = cd_transitions db" using ins by (auto simp: insert_change_def split: if_splits)
  show "tracked db'"
    by (rule tracked_insert [OF assms(2) ins]) (use eq t in \<open>auto simp: automatic_change_def agent_move_def\<close>)
  have id: "ch_id (automatic_change i now x) = i" by (simp add: automatic_change_def)
  then have rows: "cd_changes db1 = cd_changes db @ [automatic_change i now x]" and fresh: "\<forall>c\<in>set (cd_changes db). ch_id c \<noteq> i"
    using ins by (auto simp: insert_change_def split: if_splits)
  have "first_row (\<lambda>c. ch_id c = i) (cd_changes db) = None" using fresh by (simp add: first_row_None_iff)
  then show "change_of db' i = Some (automatic_change i now x)"
    using id unfolding change_of_def eq rows first_row_append by (simp add: first_row_def)
qed

lemma fail_image_tracked:
  assumes "fail_image_change i failedAt message x db = Inr db'" and "tracked db"
    and "change_of db i = Some c" and "ch_status c = Cs_in_progress"
  shows "tracked db'"
proof -
  have cin: "c \<in> set (cd_changes db)" "ch_id c = i" using first_row_SomeD [of _ _ c] assms(3) by (auto simp: change_of_def)
  have same: "y = c" if "y \<in> set (cd_changes db)" "ch_id y = i" for y
    using change_of_unique [OF _ assms(3) that] assms(2) by (simp add: tracked_def)
  show ?thesis
    by (rule tracked_update [OF assms(2), where p = "\<lambda>c. ch_id c = i" and f = "failed_change failedAt message"
        and new = "[agent_move (Some (ic_runId x)) (Some (ic_stepId x)) i Cs_in_progress Cs_failed]"])
      (use assms(1,4) cin in \<open>auto dest: same simp: fail_image_change_def update_changes_Inr add_transition_def agent_move_def\<close>)
qed

lemma complete_change_Inr:
  assumes "complete_change i now review runId stepId db = Inr (db', b)"
  shows "db' = (let hit = filter (\<lambda>c. ch_id c = i \<and> ch_status c = Cs_in_progress) (cd_changes db) in
      db\<lparr>cd_changes := map (\<lambda>c. if ch_id c = i \<and> ch_status c = Cs_in_progress then verified_change now review c else c) (cd_changes db),
        cd_transitions := cd_transitions db @
          (if hit = [] then [] else [agent_move (Some runId) (Some stepId) i Cs_in_progress Cs_completed])\<rparr>)"
    and "b \<longleftrightarrow> (\<exists>c\<in>set (cd_changes db). ch_id c = i \<and> ch_status c = Cs_in_progress)"
  using assms by (auto simp: complete_change_def update_changes_Inr add_transition_def Let_def filter_empty_conv split: if_splits)

lemma complete_change_tracked:
  assumes "complete_change i now review runId stepId db = Inr (db', b)" and "tracked db"
  shows "tracked db'"
proof -
  let ?p = "\<lambda>c. ch_id c = i \<and> ch_status c = Cs_in_progress"
  note e = complete_change_Inr(1) [OF assms(1), unfolded Let_def]
  have same: "ch_status x = ch_status y" if "x \<in> set (cd_changes db)" "ch_id x = ch_id y" "y \<in> set (cd_changes db)" for x y
    using assms(2) that by (auto simp: tracked_def distinct_map dest: inj_onD)
  show ?thesis
    by (rule tracked_update [OF assms(2), where p = ?p and f = "verified_change now review"
        and new = "if filter ?p (cd_changes db) = [] then [] else [agent_move (Some runId) (Some stepId) i Cs_in_progress Cs_completed]"])
      (use e in \<open>auto simp: agent_move_def filter_empty_conv dest: same split: if_splits\<close>)
qed

lemma sweep_changes_tracked:
  assumes "sweepExpiredChangeVerifications now db = Inr (db', n)" and "tracked db"
  shows "tracked db'"
proof -
  let ?hit = "filter (unverified now) (cd_changes db)"
  let ?move = "\<lambda>c. agent_move (ch_sourceRunId c) None (ch_id c) Cs_in_progress Cs_failed"
  have rows: "cd_changes db' = map (\<lambda>c. if unverified now c then expire_change now c else c) (cd_changes db)"
    and ts: "cd_transitions db' = cd_transitions db @ map ?move ?hit"
    using assms(1) by (auto simp: sweepExpiredChangeVerifications_def update_changes_Inr expire_change_def)
  have d: "distinct (map ch_id ?hit)" using assms(2) by (simp add: tracked_def distinct_map_filter)
  have once: "trail (ch_id c) (map ?move ?hit) = [?move c]" if "c \<in> set (cd_changes db)" "unverified now c" for c
    by (rule trail_map_once [OF d, where h = ?move]) (use that in \<open>simp_all add: agent_move_def\<close>)
  have none: "trail (ch_id c) (map ?move ?hit) = []" if c: "c \<in> set (cd_changes db)" "\<not> unverified now c" for c
  proof (rule trail_none, rule notI)
    assume "ch_id c \<in> ct_changeId ` set (map ?move ?hit)"
    then obtain y where "y \<in> set (cd_changes db)" "unverified now y" "ch_id y = ch_id c" by (auto simp: agent_move_def)
    then show False using assms(2) c by (auto simp: tracked_def distinct_map dest: inj_onD)
  qed
  show ?thesis
    by (rule tracked_update [OF assms(2) _ rows ts])
      (use once none in \<open>auto simp: expire_change_def agent_move_def unverified_def\<close>)
qed

lemma kept_tracked: "tracked db \<Longrightarrow> (\<And>db' d. r = Inr (db', d) \<Longrightarrow> tracked db') \<Longrightarrow> tracked (kept db (map_sum id fst r))"
  by (cases r) (auto simp: kept_def)

lemma do_change_tracked: "tracked db \<Longrightarrow> tracked (do_change a db)"
proof (induction a db rule: do_change.induct)
  case (4 i now x fails db)
  then show ?case
    using begin_image_tracked [of i now x db] fail_image_tracked
    by (auto simp: kept_def automatic_change_def split: sum.splits option.splits)
qed (auto intro!: kept_tracked simp: createChange_tracked updateChange_tracked voteOnChange_tracked complete_change_tracked
      sweep_changes_tracked)

lemma do_changes_Cons: "do_changes (a # as) db = do_changes as (do_change a db)"
  by (simp add: do_changes_def)


section \<open>The board\<close>

definition board :: "changes_db \<Rightarrow> string \<Rightarrow> cab_member list" where
  "board db i = filter (\<lambda>m. cm_changeId m = i) (cd_members db)"

definition vote_of :: "changes_db \<Rightarrow> cab_member \<Rightarrow> cab_vote option" where
  "vote_of db m = map_option vo_vote (first_row (\<lambda>v. vo_memberId v = cm_id m) (cd_votes db))"

text \<open>What a board has to have said for work to begin.\<close>

definition board_approves :: "cab_approval_type \<Rightarrow> (cab_member \<Rightarrow> cab_vote option) \<Rightarrow> cab_member list \<Rightarrow> bool" where
  "board_approves how vote ms \<longleftrightarrow> (\<forall>m\<in>set ms. vote m \<noteq> Some Cv_reject) \<and> (\<exists>m\<in>set ms. cm_isRequired m) \<and>
     (case how of
        Cab_all \<Rightarrow> \<forall>m\<in>set ms. cm_isRequired m \<longrightarrow> vote m = Some Cv_approve
      | Cab_majority \<Rightarrow> length (filter (\<lambda>m. cm_isRequired m \<and> vote m \<noteq> Some Cv_approve) ms) <
          length (filter (\<lambda>m. cm_isRequired m \<and> vote m = Some Cv_approve) ms))"

lemma length_filter_all: "length (filter P xs) = length xs \<longleftrightarrow> (\<forall>x\<in>set xs. P x)"
  using length_filter_less [of _ xs P] by (metis filter_True nat_less_le)

lemma filter_split_length: "length (filter P (filter Q xs)) + length (filter (\<lambda>x. \<not> P x) (filter Q xs)) = length (filter Q xs)"
  by (rule sum_length_filter_compl)

lemma changeApproval_board:
  assumes "changeType \<noteq> CT_standard"
  shows "changeApproval changeType (map (member_with_vote votes) ms) True how = Cs_approved \<longleftrightarrow>
    board_approves how (\<lambda>m. map_option vo_vote (first_row (\<lambda>v. vo_memberId v = cm_id m) votes)) ms"
proof -
  let ?vote = "\<lambda>m. map_option vo_vote (first_row (\<lambda>v. vo_memberId v = cm_id m) votes)"
  let ?req = "filter cm_isRequired ms"
  let ?yes = "filter (\<lambda>m. ?vote m = Some Cv_approve) ?req"
  have v: "mv_vote (member_with_vote votes m) = ?vote m" "mv_isRequired (member_with_vote votes m) = cm_isRequired m" for m
    by (simp_all add: member_with_vote_def Let_def)
  have req: "filter mv_isRequired (map (member_with_vote votes) ms) = map (member_with_vote votes) ?req"
    by (simp add: filter_map o_def v)
  have n: "length (filter (\<lambda>m. mv_vote m = Some Cv_approve) (map (member_with_vote votes) ?req)) = length ?yes"
    by (simp add: filter_map o_def v)
  have parts: "length ?yes + length (filter (\<lambda>m. ?vote m \<noteq> Some Cv_approve) ?req) = length ?req"
    by (rule filter_split_length)
  have some: "?req = [] \<longleftrightarrow> \<not> (\<exists>m\<in>set ms. cm_isRequired m)" by (auto simp: filter_empty_conv)
  have yes: "filter (\<lambda>m. cm_isRequired m \<and> ?vote m = Some Cv_approve) ms = ?yes"
    and no: "filter (\<lambda>m. cm_isRequired m \<and> ?vote m \<noteq> Some Cv_approve) ms = filter (\<lambda>m. ?vote m \<noteq> Some Cv_approve) ?req"
    by (simp_all add: conj_commute)
  have every: "length ?yes = length ?req \<longleftrightarrow> (\<forall>m\<in>set ms. cm_isRequired m \<longrightarrow> ?vote m = Some Cv_approve)"
    unfolding length_filter_all by auto
  have rej: "(\<exists>m\<in>set (map (member_with_vote votes) ms). mv_vote m = Some Cv_reject) \<longleftrightarrow> (\<exists>m\<in>set ms. ?vote m = Some Cv_reject)"
    by (auto simp: v)
  show ?thesis
  proof (cases how)
    case Cab_all
    then show ?thesis unfolding changeApproval_def board_approves_def Let_def rej req n using assms some every by auto
  next
    case Cab_majority
    then show ?thesis unfolding changeApproval_def board_approves_def Let_def rej req n yes no using assms some parts by auto
  qed
qed

text \<open>
  C40. Work on a change that needs its board begins only when no member of the board has voted against it, at least one
  member is required, and the required members approve: each of them, or more of them than not, as the change has it.
\<close>

theorem work_waits_for_board:
  assumes "updateChange userId i (Some Cs_in_progress) pir db = Inr (db', d)" and "change_of db i = Some c"
    and "ch_changeType c \<noteq> CT_standard" and "ch_cabRequired c"
  shows "board_approves (ch_cabApprovalType c) (vote_of db) (board db i)"
proof (rule updateChange_Inr [OF assms(1)], goal_cases)
  case (1 current)
  have "cx_change current = c" "cx_members current = members_of db i" using requireChange_Inr [OF 1(1)] assms(2) by auto
  then have "changeApproval (ch_changeType c) (members_of db i) True (ch_cabApprovalType c) = Cs_approved"
    using 1(2) assms(3,4) by (simp add: starts_unapproved_def canChangeProceed_def Let_def)
  then show ?case
    using changeApproval_board [OF assms(3), of "cd_votes db" "board db i" "ch_cabApprovalType c"]
    by (simp add: members_of_def board_def vote_of_def [abs_def])
qed

text \<open>The order in which the members come does not matter, nor does a standard change or one without a board look at them.\<close>

lemma changeApproval_order:
  assumes "mset ms = mset ms'"
  shows "changeApproval changeType ms cabRequired how = changeApproval changeType ms' cabRequired how"
proof -
  have s: "set ms = set ms'" using assms by (metis set_mset_mset)
  have l: "length (filter P ms) = length (filter P ms')" for P using assms by (metis mset_filter size_mset)
  have e: "filter P ms = [] \<longleftrightarrow> filter P ms' = []" for P using l [of P] by (metis length_0_conv)
  show ?thesis unfolding changeApproval_def Let_def filter_filter s e [of mv_isRequired] l by simp
qed

lemma change_of_write:
  assumes "change_of db i = Some c" and "\<And>x. ch_id (f x) = ch_id x"
    and "cd_changes db' = map (\<lambda>x. if ch_id x = i then f x else x) (cd_changes db)"
  shows "change_of db' i = Some (f c)"
proof -
  have "find (\<lambda>c. ch_id c = i) (map (\<lambda>x. if ch_id x = i then f x else x) xs) = Some (f c)" if "find (\<lambda>c. ch_id c = i) xs = Some c" for xs
    using that assms(2) by (induction xs) (auto split: if_splits)
  then show ?thesis using assms(1,3) by (simp add: change_of_def first_row_def)
qed

lemma requireChange_total: "change_of db i = Some c \<Longrightarrow> \<exists>d. requireChange db i = Inr d \<and> cx_change d = c \<and> cx_members d = members_of db i"
  by (simp add: requireChange_def getChange_def)

text \<open>
  The guard on the board covers the start of work only: a manager can set a change to any other status, whatever the
  board has said. A change that the board rejected can be set to approved, and one that waits for it to completed, as soon as
  the update claims success.
\<close>

theorem updateChange_ignores_board:
  assumes "change_of db i = Some c" and "distinct (map ch_id (cd_changes db))" and "s \<noteq> Cs_in_progress"
    and "s = Cs_completed \<Longrightarrow> pu_wasSuccessful pir = Some True" and "change_checks (write_status (Some s) pir c)"
  shows "\<exists>db' d. updateChange userId i (Some s) pir db = Inr (db', d) \<and> ch_status (cx_change d) = s \<and> cd_votes db' = cd_votes db"
proof -
  let ?f = "write_status (Some s) pir"
  let ?db1 = "db\<lparr>cd_changes := map (\<lambda>x. if ch_id x = i then ?f x else x) (cd_changes db)\<rparr>"
  obtain cur where cur: "requireChange db i = Inr cur" "cx_change cur = c" using requireChange_total [OF assms(1)] by auto
  have cin: "c \<in> set (cd_changes db)" "ch_id c = i" using first_row_SomeD [of _ _ c] assms(1) by (auto simp: change_of_def)
  have only: "x = c" if "x \<in> set (cd_changes db)" "ch_id x = i" for x
    using change_of_unique [OF assms(2,1) that] .
  have u: "update_changes (\<lambda>x. ch_id x = i) ?f db = Inr (?db1, map ?f (filter (\<lambda>x. ch_id x = i) (cd_changes db)))"
    unfolding update_changes_Inr using assms(5) by (auto dest: only)
  have ne: "filter (\<lambda>x. ch_id x = i) (cd_changes db) \<noteq> []" using cin by (auto simp: filter_empty_conv)
  have guards: "\<not> starts_unapproved cur (Some s)" "\<not> completes_unreviewed (cx_change cur) (Some s) pir"
    using assms(3,4) by (auto simp: starts_unapproved_def completes_unreviewed_def or_keep_def Let_def)
  let ?db2 = "?db1\<lparr>cd_transitions := cd_transitions db @ status_moves userId i (ch_status c) (Some s)\<rparr>"
  have "change_of ?db2 i = Some (?f c)" by (rule change_of_write [OF assms(1), where f = ?f]) simp_all
  then obtain d where d: "requireChange ?db2 i = Inr d" "cx_change d = ?f c" using requireChange_total by blast
  have "updateChange userId i (Some s) pir db = Inr (?db2, d)"
    unfolding updateChange_def cur(1) bind_result.simps u using guards ne d cur(2) by simp
  then show ?thesis using d(2) by auto
qed

text \<open>
  A vote decides the status of its change whatever status the change has reached: after a vote on work that is under way
  or over, the change is approved, pending or rejected again.
\<close>

theorem vote_resets_status:
  assumes "voteOnChange newId now userId i vote remark db = Inr (db', d)"
  shows "ch_status (cx_change d) \<in> {Cs_approved, Cs_pending_approval, Cs_rejected}"
proof (rule voteOnChange_Inr [OF assms], goal_cases)
  case (1 m)
  show ?case
  proof (rule board_decides_Inr [OF 1(4)], goal_cases)
    case b: (1 c s)
    have s: "s \<in> {Cs_approved, Cs_pending_approval, Cs_rejected}"
      unfolding b(2) changeApproval_def Let_def by (auto split: cab_approval_type.split)
    have "change_of db' i = Some (c\<lparr>ch_status := s\<rparr>)"
    proof (cases "s = ch_status c")
      case True
      then show ?thesis using b(1,3) by (simp add: change_of_def)
    next
      case False
      then show ?thesis using change_of_write [OF b(1), where f = "\<lambda>x. x\<lparr>ch_status := s\<rparr>" and db' = db'] b(3) by simp
    qed
    then show ?case using requireChange_Inr [OF 1(5)] s by simp
  qed
qed

text \<open>
  A member has one vote: a later vote replaces the earlier one and nobody else's. The remark of the earlier vote stays
  where the later one comes without.
\<close>

theorem vote_replaces:
  assumes "distinct (map vo_memberId votes)"
  shows "distinct (map vo_memberId (upsert_vote newId m vote remark now votes)) \<and>
    (\<exists>v. first_row (\<lambda>v. vo_memberId v = m) (upsert_vote newId m vote remark now votes) = Some v \<and> vo_vote v = vote \<and> vo_votedAt v = now \<and>
       vo_comment v = (case remark of Some c \<Rightarrow> Some c
         | None \<Rightarrow> Option.bind (first_row (\<lambda>v. vo_memberId v = m) votes) vo_comment)) \<and>
    filter (\<lambda>v. vo_memberId v \<noteq> m) (upsert_vote newId m vote remark now votes) = filter (\<lambda>v. vo_memberId v \<noteq> m) votes"
proof (cases "m \<in> vo_memberId ` set votes")
  case False
  then have "first_row (\<lambda>v. vo_memberId v = m) votes = None" by (auto simp: first_row_None_iff)
  then show ?thesis using False assms
    by (auto simp: upsert_vote_def sql_insert_new_def first_row_append) (auto simp: first_row_def split: option.splits)
next
  case True
  let ?g = "\<lambda>v. v\<lparr>vo_vote := vote, vo_comment := (case remark of None \<Rightarrow> vo_comment v | Some c \<Rightarrow> Some c), vo_votedAt := now\<rparr>"
  have eq: "upsert_vote newId m vote remark now votes = map (\<lambda>v. if vo_memberId v = m then ?g v else v) votes"
    using True by (simp add: upsert_vote_def sql_insert_new_def sql_update_def)
  obtain v where v: "first_row (\<lambda>v. vo_memberId v = m) votes = Some v"
    using True first_row_None_iff [of "\<lambda>v. vo_memberId v = m" votes] by (cases "first_row (\<lambda>v. vo_memberId v = m) votes") auto
  have f: "find (\<lambda>v. vo_memberId v = m) (map (\<lambda>v. if vo_memberId v = m then ?g v else v) xs) = Some (?g v)"
    if "find (\<lambda>v. vo_memberId v = m) xs = Some v" for xs
    using that by (induction xs) (auto split: if_splits)
  have rest: "filter (\<lambda>v. vo_memberId v \<noteq> m) (map (\<lambda>v. if vo_memberId v = m then ?g v else v) xs) = filter (\<lambda>v. vo_memberId v \<noteq> m) xs" for xs
    by (induction xs) simp_all
  have ids: "map vo_memberId (map (\<lambda>v. if vo_memberId v = m then ?g v else v) votes) = map vo_memberId votes" by simp
  have "first_row (\<lambda>v. vo_memberId v = m) (map (\<lambda>v. if vo_memberId v = m then ?g v else v) votes) = Some (?g v)"
    using f v by (simp add: first_row_def)
  then show ?thesis unfolding eq rest ids using v assms by (cases remark) simp_all
qed

section \<open>Unverified changes\<close>

text \<open>A sweep that succeeds leaves no unverified change behind, and moves exactly those that were due.\<close>

lemma sweep_changes_done:
  assumes "sweepExpiredChangeVerifications now db = Inr (db', n)"
  shows "filter (unverified now) (cd_changes db') = []" and "n = length (filter (unverified now) (cd_changes db))"
    and "cd_changes db' = map (\<lambda>c. if unverified now c then expire_change now c else c) (cd_changes db)"
proof -
  have "\<not> unverified now (expire_change now c)" for c by (simp add: unverified_def expire_change_def)
  then show "filter (unverified now) (cd_changes db') = []" "n = length (filter (unverified now) (cd_changes db))"
    "cd_changes db' = map (\<lambda>c. if unverified now c then expire_change now c else c) (cd_changes db)"
    using assms by (auto simp: sweepExpiredChangeVerifications_def update_changes_Inr filter_empty_conv)
qed

text \<open>
  One change can keep the sweep from all the others: as long as an unverified change says that its work really began later
  than now, which a manager can write into it at any time, the sweep fails as a whole, and every unverified change stays in
  progress.
\<close>

theorem sweep_changes_blocked:
  assumes "change_of db i = Some c" and "distinct (map ch_id (cd_changes db))" and "unverified now c" and "now < began"
    and "in_order (Some began) (ch_pirActualEndAt c)" and "change_checks c"
  shows "\<exists>db' d. updateChange userId i None
      \<lparr>pu_review = None, pu_wasSuccessful = None, pu_actualStartAt = Some began, pu_actualEndAt = None, pu_lessonsLearned = None,
       pu_followUp = None\<rparr> db = Inr (db', d) \<and>
    sweepExpiredChangeVerifications now db' = Inl Change_constraint"
proof -
  let ?pir = "\<lparr>pu_review = None, pu_wasSuccessful = None, pu_actualStartAt = Some began, pu_actualEndAt = None,
    pu_lessonsLearned = None, pu_followUp = None\<rparr>"
  let ?f = "write_status None ?pir"
  let ?db1 = "db\<lparr>cd_changes := map (\<lambda>x. if ch_id x = i then ?f x else x) (cd_changes db)\<rparr>"
  obtain cur where cur: "requireChange db i = Inr cur" "cx_change cur = c" using requireChange_total [OF assms(1)] by auto
  have cin: "c \<in> set (cd_changes db)" "ch_id c = i" using first_row_SomeD [of _ _ c] assms(1) by (auto simp: change_of_def)
  have ok: "change_checks (?f c)"
    using assms(5,6) by (simp add: change_checks_def write_status_def write_pir_def or_keep_def)
  have u: "update_changes (\<lambda>x. ch_id x = i) ?f db = Inr (?db1, map ?f (filter (\<lambda>x. ch_id x = i) (cd_changes db)))"
    unfolding update_changes_Inr using ok by (auto dest: change_of_unique [OF assms(2,1)])
  have ne: "filter (\<lambda>x. ch_id x = i) (cd_changes db) \<noteq> []" using cin by (auto simp: filter_empty_conv)
  let ?db2 = "?db1\<lparr>cd_transitions := cd_transitions db\<rparr>"
  have "change_of ?db2 i = Some (?f c)" by (rule change_of_write [OF assms(1), where f = ?f]) simp_all
  then obtain d where d: "requireChange ?db2 i = Inr d" using requireChange_total by blast
  have up: "updateChange userId i None ?pir db = Inr (?db2, d)"
    unfolding updateChange_def cur(1) bind_result.simps u
    using ne d cur(2) by (simp add: starts_unapproved_def completes_unreviewed_def status_moves_def)
  have "?f c \<in> set (cd_changes ?db2)" "unverified now (?f c)"
    using cin assms(3) by (force simp: unverified_def write_status_def write_pir_def)+
  moreover have "\<not> change_checks (expire_change now (?f c))"
    using assms(4) by (simp add: change_checks_def in_order_def expire_change_def write_status_def write_pir_def or_keep_def)
  ultimately have "sweepExpiredChangeVerifications now ?db2 = Inl Change_constraint"
    unfolding sweepExpiredChangeVerifications_def update_changes_def sql_update_def by auto
  then show ?thesis using up by blast
qed

text \<open>
  A patch that fails after the sweep has failed its change is written down once more: the history then has the change
  fail from in progress twice, and no longer explains its status.
\<close>

theorem late_failure_breaks_trail:
  assumes "tracked db" and "begin_image_change i now x db = Inr db1" and "sweepExpiredChangeVerifications later db1 = Inr (db2, n)"
    and "now + 300000 \<le> later" and "fail_image_change i failedAt message x db2 = Inr db3"
  shows "\<not> tracked db3"
proof
  assume bad: "tracked db3"
  let ?c = "automatic_change i now x"
  have t1: "tracked db1" and c: "change_of db1 i = Some ?c" using begin_image_tracked [OF assms(2,1)] by auto
  have t2: "tracked db2" by (rule sweep_changes_tracked [OF assms(3) t1])
  have cin: "?c \<in> set (cd_changes db1)" "ch_id ?c = i" using first_row_SomeD [of _ _ ?c] c by (auto simp: change_of_def)
  have "unverified later ?c" using assms(4) by (simp add: unverified_def automatic_change_def)
  then have c2: "expire_change later ?c \<in> set (cd_changes db2)"
    using sweep_changes_done(3) [OF assms(3)] cin(1) by force
  have rows: "cd_changes db3 = map (\<lambda>c. if ch_id c = i then failed_change failedAt message c else c) (cd_changes db2)"
    and ts: "cd_transitions db3 = cd_transitions db2 @ [agent_move (Some (ic_runId x)) (Some (ic_stepId x)) i Cs_in_progress Cs_failed]"
    using assms(5) by (auto simp: fail_image_change_def update_changes_Inr add_transition_def)
  have "failed_change failedAt message (expire_change later ?c) \<in> set (cd_changes db3)" using rows c2 cin(2) by force
  then have "change_path Cs_draft (trail i (cd_transitions db3)) Cs_failed" using bad cin(2) by (force simp: tracked_def)
  moreover have "change_path Cs_draft (trail i (cd_transitions db2)) Cs_failed" using t2 c2 cin(2) by (force simp: tracked_def)
  moreover have "change_path s ts Cs_failed \<Longrightarrow> change_path s (ts @ [t]) b \<Longrightarrow> ct_fromStatus t = Cs_failed" for s ts t b
    by (induction ts arbitrary: s) auto
  ultimately show False using ts by (fastforce simp: agent_move_def)
qed


section \<open>Witnesses\<close>

text \<open>A normal change with a board of two, of whom both have approved it; and a change that an agent has in progress.\<close>

definition no_changes :: changes_db where
  "no_changes = \<lparr>cd_changes = [], cd_members = [], cd_votes = [], cd_links = [], cd_transitions = [], cd_counters = [],
     cd_users = [''u1'', ''u2''], cd_tickets = [''t1'']\<rparr>"

definition sample_new_change :: new_change where
  "sample_new_change = \<lparr>nc_title = ''Patch'', nc_description = None, nc_reasonForChange = ''CVE'', nc_changeType = CT_normal,
     nc_testPlan = ''smoke'', nc_rollbackPlan = ''revert'', nc_cabMemberIds = [''u1'', ''u2'', ''u1''], nc_ticketIds = [''t1'']\<rparr>"

definition no_pir :: pir_update where
  "no_pir = \<lparr>pu_review = None, pu_wasSuccessful = None, pu_actualStartAt = None, pu_actualEndAt = None, pu_lessonsLearned = None,
     pu_followUp = None\<rparr>"

definition sample_votes :: "change_op list" where
  "sample_votes = [Do_create (\<lambda>n. CHR ''c'' # replicate n CHR ''x'') 7 ''u0'' sample_new_change,
     Do_vote ''v1'' 8 ''u1'' ''c'' Cv_approve (Some ''fine''), Do_vote ''v2'' 9 ''u2'' ''c'' Cv_approve None]"

definition sample_board :: changes_db where
  "sample_board = do_changes sample_votes no_changes"

definition sample_image :: image_change where
  "sample_image = \<lparr>ic_namespace = ''demo'', ic_name = ''checkout'', ic_containerIndex = 0, ic_image = ''repo/checkout:v2'',
     ic_previousImage = ''repo/checkout:v1'', ic_ticketId = ''t1'', ic_runId = ''r1'', ic_stepId = ''s1''\<rparr>"

definition sample_patched :: changes_db where
  "sample_patched = do_changes [Do_image ''a'' 10 sample_image None] sample_board"

lemma no_changes_tracked: "tracked no_changes"
  by (simp add: tracked_def no_changes_def)

lemma sample_patched_status:
  "map (\<lambda>c. (ch_id c, ch_status c)) (cd_changes sample_patched) = [(''c'', Cs_approved), (''a'', Cs_in_progress)]"
  by code_simp


lemma sample_board_change:
  "map_option (\<lambda>c. (ch_changeType c, ch_cabRequired c, ch_cabApprovalType c)) (change_of sample_board ''c'') = Some (CT_normal, True, Cab_all)"
  "\<not> isl (updateChange ''u9'' ''c'' (Some Cs_in_progress) no_pir sample_board)"
  by code_simp+

lemma work_waits_for_board_witness:
  "(\<exists>db' d. updateChange ''u9'' ''c'' (Some Cs_in_progress) no_pir sample_board = Inr (db', d)) \<and>
   board_approves Cab_all (vote_of sample_board) (board sample_board ''c'')"
proof -
  obtain db' d where u: "updateChange ''u9'' ''c'' (Some Cs_in_progress) no_pir sample_board = Inr (db', d)"
    using sample_board_change(2) by (metis surj_pair sum.collapse(2))
  obtain c where c: "change_of sample_board ''c'' = Some c" "ch_changeType c = CT_normal" "ch_cabRequired c" "ch_cabApprovalType c = Cab_all"
    using sample_board_change(1) by auto
  show ?thesis using work_waits_for_board [OF u c(1)] c u by auto
qed

definition sample_rejected :: changes_db where
  "sample_rejected = do_changes [Do_vote ''v3'' 12 ''u2'' ''c'' Cv_reject None] sample_board"

lemma sample_rejected_change:
  "distinct (map ch_id (cd_changes sample_rejected))"
  "map_option (\<lambda>c. (ch_status c, change_checks (write_status (Some Cs_approved) no_pir c))) (change_of sample_rejected ''c'') =
     Some (Cs_rejected, True)"
  by code_simp+

lemma updateChange_ignores_board_witness:
  "\<exists>db' d. updateChange ''u9'' ''c'' (Some Cs_approved) no_pir sample_rejected = Inr (db', d) \<and> ch_status (cx_change d) = Cs_approved \<and>
     cd_votes db' = cd_votes sample_rejected"
proof -
  obtain c where c: "change_of sample_rejected ''c'' = Some c" "change_checks (write_status (Some Cs_approved) no_pir c)"
    using sample_rejected_change(2) by auto
  show ?thesis by (rule updateChange_ignores_board [OF c(1) sample_rejected_change(1) _ _ c(2)]) simp_all
qed

lemma sample_over: "\<not> isl (voteOnChange ''v9'' 20 ''u1'' ''c'' Cv_abstain None
    (do_changes [Do_update ''u9'' ''c'' (Some Cs_completed) (no_pir\<lparr>pu_wasSuccessful := Some True\<rparr>)] sample_board))"
  by code_simp

lemma vote_resets_status_witness:
  "\<exists>db' d. voteOnChange ''v9'' 20 ''u1'' ''c'' Cv_abstain None
      (do_changes [Do_update ''u9'' ''c'' (Some Cs_completed) (no_pir\<lparr>pu_wasSuccessful := Some True\<rparr>)] sample_board) = Inr (db', d) \<and>
    ch_status (cx_change d) \<noteq> Cs_completed"
proof -
  obtain db' d where v: "voteOnChange ''v9'' 20 ''u1'' ''c'' Cv_abstain None
      (do_changes [Do_update ''u9'' ''c'' (Some Cs_completed) (no_pir\<lparr>pu_wasSuccessful := Some True\<rparr>)] sample_board) = Inr (db', d)"
    using sample_over by (metis surj_pair sum.collapse(2))
  show ?thesis using v vote_resets_status [OF v] by auto
qed

lemma vote_replaces_witness:
  "map vo_vote (upsert_vote ''v4'' ''cx'' Cv_reject None 30 (cd_votes sample_board)) = [Cv_reject, Cv_approve] \<and>
   filter (\<lambda>v. vo_memberId v \<noteq> ''cx'') (upsert_vote ''v4'' ''cx'' Cv_reject None 30 (cd_votes sample_board)) =
     filter (\<lambda>v. vo_memberId v \<noteq> ''cx'') (cd_votes sample_board)"
proof
  show "map vo_vote (upsert_vote ''v4'' ''cx'' Cv_reject None 30 (cd_votes sample_board)) = [Cv_reject, Cv_approve]" by code_simp
  have "distinct (map vo_memberId (cd_votes sample_board))" by code_simp
  then show "filter (\<lambda>v. vo_memberId v \<noteq> ''cx'') (upsert_vote ''v4'' ''cx'' Cv_reject None 30 (cd_votes sample_board)) =
      filter (\<lambda>v. vo_memberId v \<noteq> ''cx'') (cd_votes sample_board)"
    using vote_replaces [of "cd_votes sample_board" "''v4''" "''cx''" Cv_reject None 30] by blast
qed

lemma sample_patched_change:
  "distinct (map ch_id (cd_changes sample_patched))"
  "map_option (\<lambda>c. (unverified 400000 c, in_order (Some 900000) (ch_pirActualEndAt c), change_checks c)) (change_of sample_patched ''a'') =
     Some (True, True, True)"
  by code_simp+

lemma sweep_changes_blocked_witness:
  "\<exists>db' d. updateChange ''u9'' ''a'' None (no_pir\<lparr>pu_actualStartAt := Some 900000\<rparr>) sample_patched = Inr (db', d) \<and>
    sweepExpiredChangeVerifications 400000 db' = Inl Change_constraint"
proof -
  obtain c where c: "change_of sample_patched ''a'' = Some c" "unverified 400000 c" "in_order (Some 900000) (ch_pirActualEndAt c)"
    "change_checks c" using sample_patched_change(2) by auto
  show ?thesis
    using sweep_changes_blocked [OF c(1) sample_patched_change(1) c(2) _ c(3,4), of "''u9''"] by (simp add: no_pir_def)
qed

lemma sample_late:
  "case begin_image_change ''a'' 10 sample_image sample_board of Inl _ \<Rightarrow> False | Inr db1 \<Rightarrow>
     (case sweepExpiredChangeVerifications 300010 db1 of Inl _ \<Rightarrow> False | Inr (db2, n) \<Rightarrow>
       \<not> isl (fail_image_change ''a'' 300011 ''refused'' sample_image db2))"
  by code_simp

lemma late_failure_breaks_trail_witness:
  "\<exists>db1 db2 db3 n. begin_image_change ''a'' 10 sample_image sample_board = Inr db1 \<and>
     sweepExpiredChangeVerifications 300010 db1 = Inr (db2, n) \<and>
     fail_image_change ''a'' 300011 ''refused'' sample_image db2 = Inr db3 \<and> \<not> tracked db3"
proof -
  obtain db1 where 1: "begin_image_change ''a'' 10 sample_image sample_board = Inr db1" using sample_late by (auto split: sum.splits)
  obtain db2 n where 2: "sweepExpiredChangeVerifications 300010 db1 = Inr (db2, n)" using sample_late 1 by (auto split: sum.splits)
  obtain db3 where 3: "fail_image_change ''a'' 300011 ''refused'' sample_image db2 = Inr db3"
    using sample_late 1 2 by (cases "fail_image_change ''a'' 300011 ''refused'' sample_image db2") auto
  have "tracked sample_board" by code_simp
  then show ?thesis using late_failure_breaks_trail [OF _ 1 2 _ 3] 1 2 3 by auto
qed

end
