(* ===== verification/AgentTools.thy ===== *)
theory AgentTools
  imports ChangeFacts Environments
begin

text \<open>
  The tools an agent may call: the registry and \<open>executeTool\<close> of \<open>server/tools/index.ts\<close>, the cluster tools of
  \<open>server/tools/cluster.ts\<close>, and \<open>patchImageWithChange\<close> of \<open>server/tools/change.ts\<close>.

  What leaves the server is a log of calls, and the answer of the cluster to a call may depend on all that was called
  before it. Reading the input (the schemas), serialising an output, and the tools that act on the server's own records or on
  a device are arguments.
\<close>

section \<open>The cluster\<close>

text \<open>A deployment as the API of the cluster describes it; every part of it may be missing.\<close>

record deployment =
  d_name :: "string option"
  d_containers :: "(string \<times> string option) list option"
  d_replicas :: "int option"
  d_readyReplicas :: "int option"
  d_updatedReplicas :: "int option"
  d_conditions :: "jsval list option"
  d_revision :: "string option"

record observation =
  ob_name :: string
  ob_containers :: "(string \<times> string option) list"
  ob_replicas :: int
  ob_readyReplicas :: int
  ob_updatedReplicas :: int
  ob_conditions :: "jsval list"
  ob_revision :: "string option"

definition with_default :: "'a option \<Rightarrow> 'a \<Rightarrow> 'a" where
  "with_default v d = (case v of None \<Rightarrow> d | Some x \<Rightarrow> x)"

definition deploymentObservation :: "deployment \<Rightarrow> observation" where
  "deploymentObservation d = \<lparr>ob_name = with_default (d_name d) [], ob_containers = with_default (d_containers d) [],
     ob_replicas = with_default (d_replicas d) 0, ob_readyReplicas = with_default (d_readyReplicas d) 0,
     ob_updatedReplicas = with_default (d_updatedReplicas d) 0, ob_conditions = with_default (d_conditions d) [], ob_revision = d_revision d\<rparr>"

record pod =
  p_name :: "string option"
  p_phase :: "string option"
  p_statuses :: "(jsval \<times> jsval \<times> int) list option" \<comment> \<open>state, last state, restarts\<close>
  p_conditions :: "(string \<times> string option \<times> string option \<times> string) list option" \<comment> \<open>type, reason, message, status\<close>

record pod_observation =
  po_name :: string
  po_phase :: "string option"
  po_statuses :: "(jsval \<times> jsval \<times> int) list"
  po_conditions :: "(string option \<times> string option \<times> string) list"

definition podObservation :: "pod \<Rightarrow> pod_observation" where
  "podObservation p = \<lparr>po_name = with_default (p_name p) [], po_phase = p_phase p, po_statuses = with_default (p_statuses p) [],
     po_conditions = map snd (filter (\<lambda>c. fst c = ''PodScheduled'') (with_default (p_conditions p) []))\<rparr>"

definition POD_PAGE_LIMIT :: nat where
  "POD_PAGE_LIMIT = 200"

definition ROLLOUT_CEILING_MS :: nat where
  "ROLLOUT_CEILING_MS = 180000"

text \<open>The calls that leave the server, each on a connection.\<close>

datatype outside_call =
    List_pods environment_connection string "string option" nat
  | Read_deployment environment_connection string string
  | Patch_deployment environment_connection string string nat string bool \<comment> \<open>the last says whether it is a dry run\<close>
  | Call_device string jsval
  | Call_other string

text \<open>The cluster answers with an error, pods or a deployment.\<close>

datatype kube_answer = Kube_error string | Kube_pods "pod list" | Kube_deployment deployment

type_synonym kube = "outside_call list \<Rightarrow> outside_call \<Rightarrow> kube_answer"

text \<open>A computation that calls the outside: it gets the log and gives the longer log.\<close>

type_synonym 'a outside = "outside_call list \<Rightarrow> outside_call list \<times> (string + 'a)"

definition give :: "'a \<Rightarrow> 'a outside" where
  "give x calls = (calls, Inr x)"

definition throw :: "string \<Rightarrow> 'a outside" where
  "throw e calls = (calls, Inl e)"

definition andThen :: "'a outside \<Rightarrow> ('a \<Rightarrow> 'b outside) \<Rightarrow> 'b outside" where
  "andThen m f calls = (case m calls of (calls1, Inl e) \<Rightarrow> (calls1, Inl e) | (calls1, Inr x) \<Rightarrow> f x calls1)"

definition ask_deployment :: "kube \<Rightarrow> outside_call \<Rightarrow> deployment outside" where
  "ask_deployment kube c calls = (calls @ [c],
     case kube calls c of Kube_error e \<Rightarrow> Inl e | Kube_pods _ \<Rightarrow> Inl ''unexpected answer'' | Kube_deployment d \<Rightarrow> Inr d)"

definition ask_pods :: "kube \<Rightarrow> outside_call \<Rightarrow> pod list outside" where
  "ask_pods kube c calls = (calls @ [c],
     case kube calls c of Kube_error e \<Rightarrow> Inl e | Kube_pods ps \<Rightarrow> Inr ps | Kube_deployment _ \<Rightarrow> Inl ''unexpected answer'')"

text \<open>\<open>String.split\<close> with a separator of one character.\<close>

fun js_split :: "char \<Rightarrow> string \<Rightarrow> string list" where
  "js_split c [] = [[]]"
| "js_split c (x # xs) =
     (if x = c then [] # js_split c xs
      else case js_split c xs of [] \<Rightarrow> [[x]] | y # ys \<Rightarrow> (x # y) # ys)"

definition managedNamespaces :: "string option \<Rightarrow> string list" where
  "managedNamespaces configured = filter (\<lambda>v. v \<noteq> []) (map js_trim (js_split CHR '','' (with_default configured [])))"

definition assertManagedNamespace :: "string option \<Rightarrow> string \<Rightarrow> unit outside" where
  "assertManagedNamespace configured namespace =
     (let allowed = managedNamespaces configured
      in if allowed = [] \<or> namespace \<in> set allowed then give ()
         else throw (''namespace '' @ namespace @ '' is not managed by this deployment; allowed: '' @ js_join '', '' allowed))"

definition defaultEnvironmentConnection :: environment_connection where
  "defaultEnvironmentConnection = \<lparr>ec_id = ''bootstrap'', ec_key = ''default'', ec_connectionType = ''default'',
     ec_contextName = None, ec_credentialEncrypted = None\<rparr>"

text \<open>\<open>configured\<close> is \<open>AXIOMA_K8S_NAMESPACES\<close>.\<close>

definition readPods ::
  "kube \<Rightarrow> string option \<Rightarrow> environment_connection \<Rightarrow> string \<Rightarrow> string option \<Rightarrow> pod_observation list outside" where
  "readPods kube configured connection namespace selector =
     andThen (assertManagedNamespace configured namespace) (\<lambda>_.
     andThen (ask_pods kube (List_pods connection namespace selector POD_PAGE_LIMIT)) (\<lambda>ps. give (map podObservation ps)))"

definition readDeployment ::
  "kube \<Rightarrow> string option \<Rightarrow> environment_connection \<Rightarrow> string \<Rightarrow> string \<Rightarrow> observation outside" where
  "readDeployment kube configured connection namespace name =
     andThen (assertManagedNamespace configured namespace) (\<lambda>_.
     andThen (ask_deployment kube (Read_deployment connection namespace name)) (\<lambda>d. give (deploymentObservation d)))"

definition rolled_out :: "observation \<Rightarrow> bool" where
  "rolled_out d \<longleftrightarrow> 0 < ob_replicas d \<and> ob_readyReplicas d = ob_replicas d"

text \<open>
  The polling loop: \<open>extra n\<close> is the time that reading takes in round \<open>n\<close> beyond the two seconds of the timer, and \<open>left\<close>
  the time to the deadline.
\<close>

function pollRounds ::
  "kube \<Rightarrow> string option \<Rightarrow> environment_connection \<Rightarrow> string \<Rightarrow> string \<Rightarrow> (nat \<Rightarrow> nat) \<Rightarrow> nat \<Rightarrow> nat \<Rightarrow> observation list \<Rightarrow>
     (observation list \<times> bool) outside" where
  "pollRounds kube configured connection namespace name extra n left seen calls =
     (case readDeployment kube configured connection namespace name calls of
        (calls1, Inl e) \<Rightarrow> (calls1, Inl e)
      | (calls1, Inr d) \<Rightarrow>
          if rolled_out d then (calls1, Inr (seen @ [d], False))
          else if 2000 + extra n < left
          then pollRounds kube configured connection namespace name extra (Suc n) (left - (2000 + extra n)) (seen @ [d]) calls1
          else (calls1, Inr (seen @ [d], True)))"
  by auto
termination
  by (relation "measure (\<lambda>(kube, configured, connection, namespace, name, extra, n, left, seen, calls). left)") auto

definition pollRollout ::
  "kube \<Rightarrow> string option \<Rightarrow> environment_connection \<Rightarrow> string \<Rightarrow> string \<Rightarrow> (nat \<Rightarrow> nat) \<Rightarrow> nat \<Rightarrow> (observation list \<times> bool) outside" where
  "pollRollout kube configured connection namespace name extra ceilingMs =
     pollRounds kube configured connection namespace name extra 0 ceilingMs []"

record patch_result =
  pr_dryRun :: observation
  pr_applied :: observation
  pr_rollout :: "observation list"
  pr_rolloutTimedOut :: bool

definition patchImage ::
  "kube \<Rightarrow> string option \<Rightarrow> environment_connection \<Rightarrow> string \<Rightarrow> string \<Rightarrow> nat \<Rightarrow> string \<Rightarrow> (nat \<Rightarrow> nat) \<Rightarrow> patch_result outside" where
  "patchImage kube configured connection namespace name index newImage extra =
     andThen (assertManagedNamespace configured namespace) (\<lambda>_.
     andThen (ask_deployment kube (Patch_deployment connection namespace name index newImage True)) (\<lambda>dryRun.
     andThen (ask_deployment kube (Patch_deployment connection namespace name index newImage False)) (\<lambda>applied.
     andThen (pollRollout kube configured connection namespace name extra ROLLOUT_CEILING_MS) (\<lambda>(rollout, timedOut).
       give \<lparr>pr_dryRun = deploymentObservation dryRun, pr_applied = deploymentObservation applied, pr_rollout = rollout,
         pr_rolloutTimedOut = timedOut\<rparr>))))"

section \<open>Changing an image\<close>

text \<open>\<open>String.lastIndexOf\<close> of a character, \<open>-1\<close> where it does not occur.\<close>

definition last_index :: "char \<Rightarrow> string \<Rightarrow> int" where
  "last_index c s = (if c \<in> set s then int (length s) - 1 - int (length (takeWhile (\<lambda>x. x \<noteq> c) (rev s))) else -1)"

definition imageName :: "string \<Rightarrow> string" where
  "imageName newImage =
     (let withoutDigest = takeWhile (\<lambda>c. c \<noteq> CHR ''@'') newImage;
          slash = last_index CHR ''/'' withoutDigest;
          colon = last_index CHR '':'' withoutDigest
      in if slash < colon then take (nat colon) withoutDigest else withoutDigest)"

definition assertStandardImageChange :: "string option \<Rightarrow> string \<Rightarrow> string + string" where
  "assertStandardImageChange previous new =
     (case non_empty previous of
        None \<Rightarrow> Inl ''Container index does not exist or has no current image''
      | Some p \<Rightarrow>
          if p = new then Inl ''Requested image is already deployed''
          else if imageName p \<noteq> imageName new
          then Inl ''Standard changes may update only the tag or digest of the existing image''
          else Inr p)"

text \<open>The image of a container, where the index names one.\<close>

definition container_image :: "observation \<Rightarrow> nat \<Rightarrow> string option" where
  "container_image d index = (if index < length (ob_containers d) then snd (ob_containers d ! index) else None)"

text \<open>
  The database is changed in transactions of its own; \<open>clock\<close> gives the times at which the first and the second begin. An
  exception of the database is thrown with its message.
\<close>

definition patchImageWithChange ::
  "kube \<Rightarrow> string option \<Rightarrow> environment_connection \<Rightarrow> (nat \<Rightarrow> nat) \<Rightarrow> string \<Rightarrow> (nat \<Rightarrow> ms) \<Rightarrow> string \<Rightarrow> string \<Rightarrow> string \<Rightarrow>
     string \<Rightarrow> string \<Rightarrow> nat \<Rightarrow> string \<Rightarrow> changes_db \<Rightarrow> outside_call list \<Rightarrow>
     changes_db \<times> outside_call list \<times> (string + string \<times> string \<times> patch_result)" where
  "patchImageWithChange kube configured connection extra changeId clock runId ticketId stepId namespace name index newImage db calls =
     (case readDeployment kube configured connection namespace name calls of
        (calls1, Inl e) \<Rightarrow> (db, calls1, Inl e)
      | (calls1, Inr before) \<Rightarrow>
     (case assertStandardImageChange (container_image before index) newImage of
        Inl e \<Rightarrow> (db, calls1, Inl e)
      | Inr previous \<Rightarrow>
     (let x = \<lparr>ic_namespace = namespace, ic_name = name, ic_containerIndex = index, ic_image = newImage,
            ic_previousImage = previous, ic_ticketId = ticketId, ic_runId = runId, ic_stepId = stepId\<rparr>
      in case begin_image_change changeId (clock 0) x db of
           Inl _ \<Rightarrow> (db, calls1, Inl ''database constraint'')
         | Inr db1 \<Rightarrow>
        (case patchImage kube configured connection namespace name index newImage extra calls1 of
           (calls2, Inr result) \<Rightarrow> (db1, calls2, Inr (changeId, previous, result))
         | (calls2, Inl e) \<Rightarrow>
             (case fail_image_change changeId (clock 1) e x db1 of
                Inl _ \<Rightarrow> (db1, calls2, Inl ''database constraint'')
              | Inr db2 \<Rightarrow> (db2, calls2, Inl e))))))"

section \<open>The registry\<close>

datatype tool_effect = Eff_read | Eff_write

datatype tool_target = Tgt_environment | Tgt_axioma

record tool_handler =
  th_effect :: tool_effect
  th_target :: tool_target
  th_verifiedBy :: "string option"

abbreviation handler :: "tool_effect \<Rightarrow> tool_target \<Rightarrow> string option \<Rightarrow> tool_handler" where
  "handler e t v \<equiv> \<lparr>th_effect = e, th_target = t, th_verifiedBy = v\<rparr>"

definition tools :: "(string \<times> tool_handler) list" where
  "tools = [
     (''knowledge_search'', handler Eff_read Tgt_axioma None),
     (''knowledge_fetch'', handler Eff_read Tgt_axioma None),
     (''ticket_read_messages'', handler Eff_read Tgt_axioma None),
     (''cluster_read_pods'', handler Eff_read Tgt_environment None),
     (''cluster_read_deployment'', handler Eff_read Tgt_environment None),
     (''cluster_patch_image'', handler Eff_write Tgt_environment (Some ''cluster_read_deployment'')),
     (''device_read_state'', handler Eff_read Tgt_environment None),
     (''device_run_action'', handler Eff_write Tgt_environment (Some ''device_read_state'')),
     (''device_computer_use'', handler Eff_write Tgt_environment (Some ''device_read_state'')),
     (''device_propose_command'', handler Eff_write Tgt_environment None),
     (''cmdb_record_observation'', handler Eff_write Tgt_axioma None),
     (''cmdb_impact'', handler Eff_read Tgt_axioma None)]"

definition writeVerifiedBy :: "string \<Rightarrow> string option" where
  "writeVerifiedBy read = map_option fst (find (\<lambda>h. th_verifiedBy (snd h) = Some read) tools)"

text \<open>What the schemas make of an input; of the others only \<open>environment\<close> is read here.\<close>

datatype tool_input =
    In_pods string "string option"
  | In_deployment string string
  | In_patch string string nat string
  | In_other jsval

type_synonym resolved_environment = "string \<times> environment_mode \<times> environment_connection"

record tool_context =
  tx_runId :: string
  tx_ticketId :: string
  tx_stepId :: string
  tx_environment :: "resolved_environment option"
  tx_linked :: "string set"

text \<open>A \<open>Tool_refused\<close> is the \<open>ToolRefusalError\<close> of the code.\<close>

datatype tool_error = Tool_refused string | Tool_error string

definition assertEnvironmentAllowed ::
  "string \<Rightarrow> tool_effect \<Rightarrow> tool_target \<Rightarrow> string option \<Rightarrow> resolved_environment \<Rightarrow> string set \<Rightarrow> tool_error + unit" where
  "assertEnvironmentAllowed name effect target requested resolved linked =
     (case resolved of (key, mode, connection) \<Rightarrow>
        let shadowed = mode = Mode_shadow \<and> effect = Eff_write \<and> target = Tgt_environment;
            verdict = (if shadowed then Inl (Tool_refused (''environment \"'' @ key @ ''\" is in shadow mode; refusing write tool \"'' @ name @ ''\"''))
                       else Inr ())
        in case requested of
             None \<Rightarrow> verdict
           | Some r \<Rightarrow>
               if linked \<noteq> {} \<and> r \<notin> linked then Inl (Tool_refused (''environment \"'' @ r @ ''\" is not linked to the ticket's service''))
               else if r \<noteq> key
               then Inl (Tool_refused (''run targets environment \"'' @ key @ ''\"; refusing to target \"'' @ r @ ''\"''))
               else verdict)"

definition sameChangeEnvironment :: "string option \<Rightarrow> string \<Rightarrow> bool" where
  "sameChangeEnvironment changeEnvironment readEnvironment \<longleftrightarrow> changeEnvironment = Some readEnvironment"

section \<open>executeTool\<close>

record tool_run =
  tr_run :: string
  tr_environmentKey :: "string option"

record tool_step =
  tp_id :: string
  tp_verifiesTool :: "string option"

record tools_db =
  td_changes :: changes_db
  td_runs :: "tool_run list"
  td_steps :: "tool_step list"
  td_tickets :: "ticket list"

datatype tool_output =
    Out_pods "pod_observation list"
  | Out_deployment observation
  | Out_patch string string patch_result
  | Out_value jsval

text \<open>What \<open>executeTool\<close> is given from outside: the schemas, the serialisation, the cluster and its configuration, the device
  dispatcher and the other tools, the clock and fresh identifiers.\<close>

record tool_world =
  wo_podsInput :: "jsval \<Rightarrow> string + (string \<times> string option) \<times> string option" \<comment> \<open>each with the \<open>environment\<close> the input names\<close>
  wo_deploymentInput :: "jsval \<Rightarrow> string + (string \<times> string) \<times> string option"
  wo_patchInput :: "jsval \<Rightarrow> string + (string \<times> string \<times> nat \<times> string) \<times> string option"
  wo_otherInput :: "string \<Rightarrow> jsval \<Rightarrow> string + jsval \<times> string option"
  wo_stringify :: "tool_output \<Rightarrow> string"
  wo_kube :: kube
  wo_namespaces :: "string option"
  wo_extra :: "nat \<Rightarrow> nat"
  wo_device :: "outside_call list \<Rightarrow> string \<Rightarrow> jsval \<Rightarrow> string + jsval"
  wo_other :: "outside_call list \<Rightarrow> string \<Rightarrow> jsval \<Rightarrow> string + jsval"
  wo_clock :: "nat \<Rightarrow> ms"
  wo_uuid :: string

definition parse_input :: "tool_world \<Rightarrow> string \<Rightarrow> jsval \<Rightarrow> string + tool_input \<times> string option" where
  "parse_input w name raw =
     (if name = ''cluster_read_pods'' then map_sum id (map_prod (\<lambda>(n, s). In_pods n s) id) (wo_podsInput w raw)
      else if name = ''cluster_read_deployment'' then map_sum id (map_prod (\<lambda>(n, d). In_deployment n d) id) (wo_deploymentInput w raw)
      else if name = ''cluster_patch_image'' then map_sum id (map_prod (\<lambda>(n, d, i, m). In_patch n d i m) id) (wo_patchInput w raw)
      else map_sum id (map_prod In_other id) (wo_otherInput w name raw))"

text \<open>The change a deployment read may verify: one that the run has in progress, with the environment of the run.\<close>

definition awaits_verification :: "string \<Rightarrow> change_row \<Rightarrow> bool" where
  "awaits_verification runId c \<longleftrightarrow> ch_sourceRunId c = Some runId \<and> ch_status c = Cs_in_progress \<and> ch_verificationDeadlineAt c \<noteq> None"

definition pending_change :: "tools_db \<Rightarrow> string \<Rightarrow> string \<Rightarrow> (change_row \<times> string option) option" where
  "pending_change db name runId =
     (if name = ''cluster_read_deployment''
      then (case first_row (awaits_verification runId) (cd_changes (td_changes db)) of
              None \<Rightarrow> None
            | Some c \<Rightarrow> (case first_row (\<lambda>r. tr_run r = runId) (td_runs db) of
                None \<Rightarrow> None | Some r \<Rightarrow> Some (c, tr_environmentKey r)))
      else None)"

definition starts_with :: "string \<Rightarrow> string \<Rightarrow> bool" where
  "starts_with p s \<longleftrightarrow> take (length p) s = p"

definition tool_marker :: "bool \<Rightarrow> string \<Rightarrow> progress_marker option" where
  "tool_marker verifies name =
     (if verifies then Some PM_verifying_fix
      else if name = ''cluster_patch_image'' \<or> starts_with ''device_run_'' name \<or> name = ''device_computer_use'' then Some PM_applying_fix
      else if starts_with ''cluster_read_'' name then Some PM_checking_service
      else if name = ''device_read_state'' then Some PM_checking_device
      else None)"

definition mark_progress :: "progress_marker option \<Rightarrow> string \<Rightarrow> tools_db \<Rightarrow> tools_db" where
  "mark_progress marker ticketId db =
     (case marker of
        None \<Rightarrow> db
      | Some m \<Rightarrow> db\<lparr>td_tickets := fst (sql_update (\<lambda>t. tk_id t = ticketId) (\<lambda>t. t\<lparr>tk_progressMarker := Some m\<rparr>) (td_tickets db))\<rparr>)"

definition lift_outside :: "('a \<Rightarrow> tool_output) \<Rightarrow> 'a outside \<Rightarrow> tools_db \<Rightarrow> outside_call list \<Rightarrow>
     tools_db \<times> outside_call list \<times> (tool_error + tool_output)" where
  "lift_outside f m db calls = (case m calls of (calls1, Inl e) \<Rightarrow> (db, calls1, Inl (Tool_error e)) | (calls1, Inr x) \<Rightarrow> (db, calls1, Inr (f x)))"

text \<open>\<open>handler.run\<close>. The device tools call the dispatcher, the tools on the server's own records are arguments.\<close>

definition run_handler ::
  "tool_world \<Rightarrow> string \<Rightarrow> tool_input \<Rightarrow> tool_context \<Rightarrow> environment_connection \<Rightarrow> tools_db \<Rightarrow> outside_call list \<Rightarrow>
     tools_db \<times> outside_call list \<times> (tool_error + tool_output)" where
  "run_handler w name input ctx connection db calls =
     (case input of
        In_pods namespace selector \<Rightarrow>
          lift_outside Out_pods (readPods (wo_kube w) (wo_namespaces w) connection namespace selector) db calls
      | In_deployment namespace dname \<Rightarrow>
          lift_outside Out_deployment (readDeployment (wo_kube w) (wo_namespaces w) connection namespace dname) db calls
      | In_patch namespace dname index newImage \<Rightarrow>
          (case patchImageWithChange (wo_kube w) (wo_namespaces w) connection (wo_extra w) (wo_uuid w) (wo_clock w)
              (tx_runId ctx) (tx_ticketId ctx) (tx_stepId ctx) namespace dname index newImage (td_changes db) calls of
             (cdb, calls1, Inl e) \<Rightarrow> (db\<lparr>td_changes := cdb\<rparr>, calls1, Inl (Tool_error e))
           | (cdb, calls1, Inr (changeId, previous, result)) \<Rightarrow>
               (db\<lparr>td_changes := cdb\<rparr>, calls1, Inr (Out_patch changeId previous result)))
      | In_other v \<Rightarrow>
          if starts_with ''device_'' name \<and> name \<noteq> ''device_propose_command''
          then (case wo_device w calls name v of
                  Inl e \<Rightarrow> (db, calls @ [Call_device name v], Inl (Tool_error e))
                | Inr y \<Rightarrow> (db, calls @ [Call_device name v], Inr (Out_value y)))
          else (case wo_other w calls name v of
                  Inl e \<Rightarrow> (db, calls @ [Call_other name], Inl (Tool_error e))
                | Inr y \<Rightarrow> (db, calls @ [Call_other name], Inr (Out_value y))))"

text \<open>The completion of a verified change.\<close>

definition discharge ::
  "tool_world \<Rightarrow> string \<Rightarrow> tool_context \<Rightarrow> string \<Rightarrow> tool_output \<Rightarrow> tools_db \<Rightarrow> tool_error + tools_db" where
  "discharge w name ctx changeId output db =
     (case complete_change changeId (wo_clock w 0) (wo_stringify w output) (tx_runId ctx) (tx_stepId ctx) (td_changes db) of
        Inl _ \<Rightarrow> Inl (Tool_error ''database constraint'')
      | Inr (_, False) \<Rightarrow> Inr db
      | Inr (cdb, True) \<Rightarrow> Inr (db\<lparr>td_changes := cdb,
          td_steps := fst (sql_update (\<lambda>s. tp_id s = tx_stepId ctx) (\<lambda>s. s\<lparr>tp_verifiesTool := writeVerifiedBy name\<rparr>) (td_steps db))\<rparr>))"

definition bootstrap_environment :: resolved_environment where
  "bootstrap_environment = (''default'', Mode_act, defaultEnvironmentConnection)"

definition executeTool ::
  "tool_world \<Rightarrow> string \<Rightarrow> jsval \<Rightarrow> tool_context \<Rightarrow> tools_db \<Rightarrow> outside_call list \<Rightarrow>
     tools_db \<times> outside_call list \<times> (tool_error + tool_output)" where
  "executeTool w name raw ctx db calls =
     (case map_of tools name of
        None \<Rightarrow> (db, calls, Inl (Tool_error (''Unknown tool '' @ name @ ''. Registered tools: '' @ js_join '', '' (map fst tools))))
      | Some h \<Rightarrow>
     (case parse_input w name raw of
        Inl e \<Rightarrow> (db, calls, Inl (Tool_error e))
      | Inr (input, requested) \<Rightarrow>
     (let resolved = with_default (tx_environment ctx) bootstrap_environment
      in case assertEnvironmentAllowed name (th_effect h) (th_target h) requested resolved (tx_linked ctx) of
           Inl e \<Rightarrow> (db, calls, Inl e)
         | Inr _ \<Rightarrow>
     (let pending = pending_change db name (tx_runId ctx)
      in if (case pending of None \<Rightarrow> False | Some (c, key) \<Rightarrow> \<not> sameChangeEnvironment key (fst resolved))
         then (db, calls, Inl (Tool_error (case pending of None \<Rightarrow> [] | Some (c, key) \<Rightarrow>
           ''cannot verify change \"'' @ ch_id c @ ''\" (environment \"'' @ with_default key ''unknown'' @
           ''\") with a read against \"'' @ fst resolved @ ''\"'')))
         else (case run_handler w name input ctx (snd (snd resolved))
             (mark_progress (tool_marker (pending \<noteq> None) name) (tx_ticketId ctx) db) calls of
                (db1, calls1, Inl e) \<Rightarrow> (db1, calls1, Inl e)
              | (db1, calls1, Inr output) \<Rightarrow>
                  (case pending of
                     None \<Rightarrow> (db1, calls1, Inr output)
                   | Some (c, _) \<Rightarrow>
                       (case discharge w name ctx (ch_id c) output db1 of
                          Inl e \<Rightarrow> (db1, calls1, Inl e)
                        | Inr db2 \<Rightarrow> (db2, calls1, Inr output))))))))"

end
