(* ===== verification/ToolSafety.thy ===== *)
theory ToolSafety
  imports AgentTools
begin

text \<open>
  What a tool call may do: in a shadow environment nothing but read, elsewhere nothing outside the environment and the
  namespaces of the run, no patch without a recorded change, and no completion of a change but by a read of the same
  environment. And what the verification of a change does not look at.
\<close>

section \<open>Logs\<close>

text \<open>A computation extends the log by calls that satisfy a predicate.\<close>

definition only_calls :: "(outside_call \<Rightarrow> bool) \<Rightarrow> 'a outside \<Rightarrow> bool" where
  "only_calls P m \<longleftrightarrow> (\<forall>calls. \<exists>new. fst (m calls) = calls @ new \<and> (\<forall>c\<in>set new. P c))"

lemma only_calls_D:
  "only_calls P m \<Longrightarrow> m calls = (calls', r) \<Longrightarrow> \<exists>new. calls' = calls @ new \<and> (\<forall>c\<in>set new. P c)"
  unfolding only_calls_def by (metis fst_conv)

lemma only_calls_give [simp]: "only_calls P (give x)" "only_calls P (throw e)"
  by (simp_all add: only_calls_def give_def throw_def)

lemma only_calls_andThen:
  assumes "only_calls P m" and "\<And>x calls calls'. m calls = (calls', Inr x) \<Longrightarrow> only_calls P (f x)"
  shows "only_calls P (andThen m f)"
  unfolding only_calls_def
proof
  fix calls
  obtain calls1 r where m: "m calls = (calls1, r)" by fastforce
  obtain new where new: "calls1 = calls @ new" "\<forall>c\<in>set new. P c" using only_calls_D [OF assms(1) m] by blast
  show "\<exists>new. fst (andThen m f calls) = calls @ new \<and> (\<forall>c\<in>set new. P c)"
  proof (cases r)
    case (Inl e)
    then show ?thesis using m new by (auto simp: andThen_def)
  next
    case (Inr x)
    obtain calls2 r2 where f: "f x calls1 = (calls2, r2)" by fastforce
    obtain new2 where "calls2 = calls1 @ new2" "\<forall>c\<in>set new2. P c"
      using only_calls_D [OF assms(2) [OF m [unfolded Inr]] f] by blast
    then show ?thesis using m Inr f new by (intro exI [of _ "new @ new2"]) (auto simp: andThen_def)
  qed
qed

lemma only_calls_ask:
  "P c \<Longrightarrow> only_calls P (ask_deployment kube c)" "P c \<Longrightarrow> only_calls P (ask_pods kube c)"
  by (auto simp: only_calls_def ask_deployment_def ask_pods_def)

lemma assert_managed:
  "assertManagedNamespace configured namespace calls = (calls', Inr u) \<Longrightarrow>
     calls' = calls \<and> (managedNamespaces configured = [] \<or> namespace \<in> set (managedNamespaces configured))"
  "only_calls P (assertManagedNamespace configured namespace)"
  by (auto simp: assertManagedNamespace_def Let_def give_def throw_def only_calls_def split: if_splits)

text \<open>A call that goes to one connection and to a managed namespace; and one that changes nothing outside.\<close>

fun goes_to :: "string option \<Rightarrow> environment_connection \<Rightarrow> outside_call \<Rightarrow> bool" where
  "goes_to configured connection (List_pods c n s l) =
     (c = connection \<and> (managedNamespaces configured = [] \<or> n \<in> set (managedNamespaces configured)))"
| "goes_to configured connection (Read_deployment c n d) =
     (c = connection \<and> (managedNamespaces configured = [] \<or> n \<in> set (managedNamespaces configured)))"
| "goes_to configured connection (Patch_deployment c n d i m dry) =
     (c = connection \<and> (managedNamespaces configured = [] \<or> n \<in> set (managedNamespaces configured)))"
| "goes_to configured connection _ = True"

fun only_reads :: "outside_call \<Rightarrow> bool" where
  "only_reads (Patch_deployment c n d i m dry) = False"
| "only_reads (Call_device name v) = (name = ''device_read_state'')"
| "only_reads (Call_other name) = (name \<noteq> ''device_propose_command'')"
| "only_reads _ = True"

lemma readPods_calls:
  assumes "\<And>n. managedNamespaces configured = [] \<or> n \<in> set (managedNamespaces configured) \<Longrightarrow> P (List_pods connection n selector POD_PAGE_LIMIT)"
  shows "only_calls P (readPods kube configured connection namespace selector)"
  unfolding readPods_def
  by (intro only_calls_andThen only_calls_ask assert_managed only_calls_give) (auto dest: assert_managed(1) intro: assms)

lemma readDeployment_log:
  assumes "readDeployment kube configured connection namespace name calls = (calls', r)"
  shows "(\<exists>e. calls' = calls \<and> r = Inl e) \<or>
    calls' = calls @ [Read_deployment connection namespace name] \<and>
    (managedNamespaces configured = [] \<or> namespace \<in> set (managedNamespaces configured))"
  using assms by (auto simp: readDeployment_def andThen_def assertManagedNamespace_def Let_def give_def throw_def ask_deployment_def
    split: if_splits prod.splits sum.splits kube_answer.splits)

text \<open>Polling reads, and reads at most once for every two seconds that are left.\<close>

lemma pollRounds_log:
  assumes "pollRounds kube configured connection namespace name extra n left seen calls = (calls', r)"
  shows "\<exists>k\<le>max 1 ((left + 1999) div 2000). calls' = calls @ replicate k (Read_deployment connection namespace name) \<and>
    (0 < k \<longrightarrow> managedNamespaces configured = [] \<or> namespace \<in> set (managedNamespaces configured))"
  using assms
proof (induction kube configured connection namespace name extra n left seen calls rule: pollRounds.induct)
  case (1 kube configured connection namespace name extra n left seen calls)
  let ?read = "Read_deployment connection namespace name"
  obtain calls1 r1 where rd: "readDeployment kube configured connection namespace name calls = (calls1, r1)" by fastforce
  show ?case
  proof (cases "\<exists>d. r1 = Inr d \<and> \<not> rolled_out d \<and> 2000 + extra n < left")
    case False
    then have "calls' = calls1" using "1.prems" rd by (auto split: sum.splits if_splits)
    then show ?thesis using readDeployment_log [OF rd] by (elim disjE) (auto intro!: exI [of _ 0] exI [of _ "Suc 0"])
  next
    case True
    then obtain d where d: "r1 = Inr d" "\<not> rolled_out d" "2000 + extra n < left" by blast
    have log1: "calls1 = calls @ [?read]" "managedNamespaces configured = [] \<or> namespace \<in> set (managedNamespaces configured)"
      using readDeployment_log [OF rd] d(1) by auto
    have rest: "pollRounds kube configured connection namespace name extra (Suc n) (left - (2000 + extra n)) (seen @ [d]) calls1 = (calls', r)"
      using "1.prems" rd d by simp
    obtain k where k: "k \<le> max 1 ((left - (2000 + extra n) + 1999) div 2000)" "calls' = calls1 @ replicate k ?read"
      using "1.IH" [OF rd [symmetric] d(1) d(2,3) rest] by blast
    have "Suc k \<le> max 1 ((left + 1999) div 2000)" using k(1) d(3) by linarith
    then show ?thesis using k(2) log1 by (intro exI [of _ "Suc k"]) simp
  qed
qed

lemma readDeployment_calls:
  assumes "\<And>n. managedNamespaces configured = [] \<or> n \<in> set (managedNamespaces configured) \<Longrightarrow> P (Read_deployment connection n name)"
  shows "only_calls P (readDeployment kube configured connection namespace name)"
  unfolding only_calls_def
proof
  fix calls
  show "\<exists>new. fst (readDeployment kube configured connection namespace name calls) = calls @ new \<and> (\<forall>c\<in>set new. P c)"
    using readDeployment_log [of kube configured connection namespace name calls] assms
    by (cases "readDeployment kube configured connection namespace name calls") auto
qed

lemma pollRollout_calls:
  assumes "\<And>n. managedNamespaces configured = [] \<or> n \<in> set (managedNamespaces configured) \<Longrightarrow> P (Read_deployment connection n name)"
  shows "only_calls P (pollRollout kube configured connection namespace name extra ceilingMs)"
  unfolding only_calls_def
proof
  fix calls
  obtain calls' r where r: "pollRollout kube configured connection namespace name extra ceilingMs calls = (calls', r)" by fastforce
  show "\<exists>new. fst (pollRollout kube configured connection namespace name extra ceilingMs calls) = calls @ new \<and> (\<forall>c\<in>set new. P c)"
    using pollRounds_log [OF r [unfolded pollRollout_def]] assms r by auto
qed

lemma patchImage_calls:
  assumes "\<And>n. managedNamespaces configured = [] \<or> n \<in> set (managedNamespaces configured) \<Longrightarrow>
      P (Read_deployment connection n name) \<and> (\<forall>dry. P (Patch_deployment connection n name index newImage dry))"
  shows "only_calls P (patchImage kube configured connection namespace name index newImage extra)"
  unfolding patchImage_def
  by (intro only_calls_andThen assert_managed(2))
    (auto intro!: only_calls_ask pollRollout_calls dest: assert_managed(1) simp: assms split: prod.splits)

text \<open>
  The wait for a rollout always ends, and it reads the deployment at most ninety times.
\<close>

theorem pollRollout_bounded:
  "\<exists>k\<le>90. fst (pollRollout kube configured connection namespace name extra ROLLOUT_CEILING_MS calls) =
     calls @ replicate k (Read_deployment connection namespace name)"
proof -
  obtain calls' r where r: "pollRollout kube configured connection namespace name extra ROLLOUT_CEILING_MS calls = (calls', r)" by fastforce
  show ?thesis
    using pollRounds_log [OF r [unfolded pollRollout_def]] r by (auto simp: ROLLOUT_CEILING_MS_def)
qed

section \<open>Changing an image\<close>

text \<open>What a run of \<open>patchImageWithChange\<close> is: refused before anything is recorded, or recorded and then patched.\<close>

lemma patchImageWithChange_cases:
  assumes "patchImageWithChange kube configured connection extra changeId clock runId ticketId stepId namespace name index newImage db calls =
      (db', calls', r)"
  obtains (refused) e calls1 r1 where "readDeployment kube configured connection namespace name calls = (calls1, r1)"
      and "db' = db" and "calls' = calls1" and "r = Inl e"
  | (patched) calls1 before previous x db1 p where
      "readDeployment kube configured connection namespace name calls = (calls1, Inr before)"
      and "assertStandardImageChange (container_image before index) newImage = Inr previous"
      and "x = \<lparr>ic_namespace = namespace, ic_name = name, ic_containerIndex = index, ic_image = newImage, ic_previousImage = previous,
        ic_ticketId = ticketId, ic_runId = runId, ic_stepId = stepId\<rparr>"
      and "begin_image_change changeId (clock 0) x db = Inr db1"
      and "patchImage kube configured connection namespace name index newImage extra calls1 = (calls', p)"
      and "(\<exists>result. p = Inr result \<and> db' = db1 \<and> r = Inr (changeId, previous, result)) \<or>
        (\<exists>e. p = Inl e \<and> r = Inl ''database constraint'' \<and> db' = db1) \<or>
        (\<exists>e. p = Inl e \<and> r = Inl e \<and> fail_image_change changeId (clock 1) e x db1 = Inr db')"
proof -
  obtain calls1 r1 where rd: "readDeployment kube configured connection namespace name calls = (calls1, r1)" by fastforce
  show thesis
  proof (cases r1)
    case (Inl e)
    show thesis by (rule refused [OF rd]) (use assms rd Inl in \<open>auto simp: patchImageWithChange_def\<close>)
  next
    case before: (Inr before)
    show thesis
    proof (cases "assertStandardImageChange (container_image before index) newImage")
      case (Inl e)
      show thesis by (rule refused [OF rd]) (use assms rd before Inl in \<open>auto simp: patchImageWithChange_def\<close>)
    next
      case previous: (Inr previous)
      define x where "x = \<lparr>ic_namespace = namespace, ic_name = name, ic_containerIndex = index, ic_image = newImage,
        ic_previousImage = previous, ic_ticketId = ticketId, ic_runId = runId, ic_stepId = stepId\<rparr>"
      show thesis
      proof (cases "begin_image_change changeId (clock 0) x db")
        case (Inl e)
        show thesis
          by (rule refused [OF rd]) (use assms rd before previous Inl in \<open>auto simp: patchImageWithChange_def x_def [symmetric]\<close>)
      next
        case (Inr db1)
        obtain calls2 p where p: "patchImage kube configured connection namespace name index newImage extra calls1 = (calls2, p)" by fastforce
        have out: "calls2 = calls' \<and> ((\<exists>result. p = Inr result \<and> db' = db1 \<and> r = Inr (changeId, previous, result)) \<or>
            (\<exists>e. p = Inl e \<and> r = Inl ''database constraint'' \<and> db' = db1) \<or>
            (\<exists>e. p = Inl e \<and> r = Inl e \<and> fail_image_change changeId (clock 1) e x db1 = Inr db'))"
          using assms rd before previous Inr p
          by (auto simp: patchImageWithChange_def x_def [symmetric] split: sum.splits)
        show thesis using patched [OF _ previous x_def Inr] rd before p out by auto
      qed
    qed
  qed
qed


lemma patchImageWithChange_calls:
  assumes "\<And>n. managedNamespaces configured = [] \<or> n \<in> set (managedNamespaces configured) \<Longrightarrow>
      P (Read_deployment connection n name) \<and> (\<forall>dry. P (Patch_deployment connection n name index newImage dry))"
    and "patchImageWithChange kube configured connection extra changeId clock runId ticketId stepId namespace name index newImage db calls =
      (db', calls', r)"
  shows "\<exists>new. calls' = calls @ new \<and> (\<forall>c\<in>set new. P c)"
proof (rule patchImageWithChange_cases [OF assms(2)], goal_cases)
  case (1 e calls1 r1)
  show ?case using only_calls_D [OF readDeployment_calls 1(1), of P] assms(1) 1(3) by auto
next
  case (2 calls1 before previous x db1 p)
  obtain new1 where 1: "calls1 = calls @ new1" "\<forall>c\<in>set new1. P c" using only_calls_D [OF readDeployment_calls 2(1), of P] assms(1) by auto
  obtain new2 where "calls' = calls1 @ new2" "\<forall>c\<in>set new2. P c" using only_calls_D [OF patchImage_calls 2(5), of P] assms(1) by auto
  with 1 show ?case by (intro exI [of _ "new1 @ new2"]) auto
qed

text \<open>
  Nothing is patched that is not on record: when the tool sends a patch to the cluster, the change is in the ledger for the
  run and the step that asked for it, the deployment was read first, and the new image differs from the one it read by tag or
  digest only. A patch that the cluster refuses leaves the change failed.
\<close>

theorem image_change_recorded:
  assumes "patchImageWithChange kube configured connection extra changeId clock runId ticketId stepId namespace name index newImage db calls =
      (db', calls @ new, r)"
    and "Patch_deployment c n d i m dry \<in> set new" and "tracked db" and "r \<noteq> Inl ''database constraint''"
  shows "\<exists>previous x ch. new = Read_deployment connection namespace name # tl new \<and> previous \<noteq> newImage \<and>
    imageName previous = imageName newImage \<and> change_of db' changeId = Some ch \<and> ch_changeType ch = CT_standard \<and>
    ch_sourceRunId ch = Some runId \<and> ch_sourceStepId ch = Some stepId \<and> ic_previousImage x = previous \<and> ic_image x = newImage \<and>
    ch_rollbackPlan ch = ch_rollbackPlan (automatic_change changeId (clock 0) x) \<and>
    ch_status ch = (if isl r then Cs_failed else Cs_in_progress)"
proof (rule patchImageWithChange_cases [OF assms(1)], goal_cases)
  case (1 e calls1 r1)
  then show ?case using readDeployment_log [OF 1(1)] assms(2) by auto
next
  case (2 calls1 before previous x db1 p)
  have c1: "calls1 = calls @ [Read_deployment connection namespace name]" using readDeployment_log [OF 2(1)] by auto
  have pc: "only_calls (\<lambda>_. True) (patchImage kube configured connection namespace name index newImage extra)" by (rule patchImage_calls) simp
  obtain new2 where "calls @ new = calls1 @ new2" using only_calls_D [OF pc 2(5)] by blast
  then have new: "new = Read_deployment connection namespace name # tl new" using c1 by simp
  have img: "previous \<noteq> newImage" "imageName previous = imageName newImage"
    using 2(2) by (auto simp: assertStandardImageChange_def split: option.splits if_splits)
  have ic: "ic_previousImage x = previous" "ic_image x = newImage" "ic_runId x = runId" "ic_stepId x = stepId" by (simp_all add: 2(3))
  note c = begin_image_tracked(2) [OF 2(4) assms(3)]
  show ?case
  proof (cases p)
    case (Inr result)
    then have "db' = db1" "\<not> isl r" using 2(6) by auto
    then show ?thesis using c new img ic
      by (intro exI [of _ previous] exI [of _ x] exI [of _ "automatic_change changeId (clock 0) x"]) (auto simp: automatic_change_def)
  next
    case (Inl e)
    then have f: "fail_image_change changeId (clock 1) e x db1 = Inr db'" "isl r" using 2(6) assms(4) by auto
    have "change_of db' changeId = Some (failed_change (clock 1) e (automatic_change changeId (clock 0) x))"
      by (rule change_of_write [OF c]) (use f(1) in \<open>auto simp: fail_image_change_def update_changes_Inr add_transition_def\<close>)
    then show ?thesis using new img ic f(2)
      by (intro exI [of _ previous] exI [of _ x] exI [of _ "failed_change (clock 1) e (automatic_change changeId (clock 0) x)"])
        (auto simp: automatic_change_def failed_change_def)
  qed
qed

section \<open>Tool calls\<close>

text \<open>What is called when the guards let a tool through.\<close>

lemma run_handler_calls:
  assumes "run_handler w name input ctx connection db calls = (db', calls', r)"
    and "\<And>n s. managedNamespaces (wo_namespaces w) = [] \<or> n \<in> set (managedNamespaces (wo_namespaces w)) \<Longrightarrow> input = In_pods n s \<Longrightarrow>
      P (List_pods connection n s POD_PAGE_LIMIT)"
    and "\<And>n d. managedNamespaces (wo_namespaces w) = [] \<or> n \<in> set (managedNamespaces (wo_namespaces w)) \<Longrightarrow>
      P (Read_deployment connection n d)"
    and "\<And>n d i m dry. managedNamespaces (wo_namespaces w) = [] \<or> n \<in> set (managedNamespaces (wo_namespaces w)) \<Longrightarrow>
      (\<exists>n' d' i' m'. input = In_patch n' d' i' m') \<Longrightarrow> P (Patch_deployment connection n d i m dry)"
    and "\<And>v. input = In_other v \<Longrightarrow> starts_with ''device_'' name \<Longrightarrow> name \<noteq> ''device_propose_command'' \<Longrightarrow> P (Call_device name v)"
    and "\<And>v. input = In_other v \<Longrightarrow> P (Call_other name)"
  shows "\<exists>new. calls' = calls @ new \<and> (\<forall>c\<in>set new. P c)"
proof (cases input)
  case (In_pods n s)
  obtain l q where l: "readPods (wo_kube w) (wo_namespaces w) connection n s calls = (l, q)" by fastforce
  then have "calls' = l" using assms(1) In_pods by (auto simp: run_handler_def lift_outside_def split: sum.splits)
  have oc: "only_calls P (readPods (wo_kube w) (wo_namespaces w) connection n s)"
    unfolding readPods_def
    by (intro only_calls_andThen only_calls_ask assert_managed only_calls_give) (auto dest!: assert_managed(1) intro: assms(2) In_pods)
  then show ?thesis using only_calls_D [OF oc l] \<open>calls' = l\<close> by blast
next
  case (In_deployment n d)
  obtain l q where l: "readDeployment (wo_kube w) (wo_namespaces w) connection n d calls = (l, q)" by fastforce
  then have "calls' = l" using assms(1) In_deployment by (auto simp: run_handler_def lift_outside_def split: sum.splits)
  then show ?thesis using only_calls_D [OF readDeployment_calls l, of P] assms(3) by auto
next
  case (In_patch n d i m)
  obtain cdb l q where l: "patchImageWithChange (wo_kube w) (wo_namespaces w) connection (wo_extra w) (wo_uuid w) (wo_clock w)
      (tx_runId ctx) (tx_ticketId ctx) (tx_stepId ctx) n d i m (td_changes db) calls = (cdb, l, q)" by (metis prod_cases3)
  then have eq: "calls' = l" using assms(1) In_patch by (auto simp: run_handler_def split: sum.splits)
  have "P (Read_deployment connection n d) \<and> (\<forall>dry. P (Patch_deployment connection n d i m dry))"
    if "managedNamespaces (wo_namespaces w) = [] \<or> n \<in> set (managedNamespaces (wo_namespaces w))" for n
    using assms(3,4) that In_patch by blast
  then show ?thesis using patchImageWithChange_calls [OF _ l, of P] eq by blast
next
  case (In_other v)
  then show ?thesis using assms(1,5,6) by (auto simp: run_handler_def split: sum.splits if_splits)
qed

text \<open>A call of a tool is refused with nothing done, or its handler ran; the completion of a change calls nobody.\<close>

lemma executeTool_cases:
  assumes "executeTool w name raw ctx db calls = (db', calls', r)"
  obtains (refused) e where "db' = db" and "calls' = calls" and "r = Inl e"
  | (ran) h input requested db1 q where "map_of tools name = Some h" and "parse_input w name raw = Inr (input, requested)"
      and "assertEnvironmentAllowed name (th_effect h) (th_target h) requested (with_default (tx_environment ctx) bootstrap_environment)
        (tx_linked ctx) = Inr ()"
      and "\<And>c key. pending_change db name (tx_runId ctx) = Some (c, key) \<Longrightarrow>
        key = Some (fst (with_default (tx_environment ctx) bootstrap_environment))"
      and "run_handler w name input ctx (snd (snd (with_default (tx_environment ctx) bootstrap_environment)))
        (mark_progress (tool_marker (pending_change db name (tx_runId ctx) \<noteq> None) name) (tx_ticketId ctx) db) calls = (db1, calls', q)"
      and "(case (pending_change db name (tx_runId ctx), q) of
          (Some (c, _), Inr output) \<Rightarrow> (case discharge w name ctx (ch_id c) output db1 of
              Inl e \<Rightarrow> db' = db1 \<and> r = Inl e | Inr db2 \<Rightarrow> db' = db2 \<and> r = q)
        | _ \<Rightarrow> db' = db1 \<and> r = q)"
proof (cases "map_of tools name")
  case None
  show thesis by (rule refused) (use assms None in \<open>auto simp: executeTool_def\<close>)
next
  case h: (Some h)
  show thesis
  proof (cases "parse_input w name raw")
    case (Inl e)
    show thesis by (rule refused) (use assms h Inl in \<open>auto simp: executeTool_def\<close>)
  next
    case (Inr a)
    obtain input requested where a: "a = (input, requested)" by fastforce
    let ?env = "with_default (tx_environment ctx) bootstrap_environment"
    let ?pending = "pending_change db name (tx_runId ctx)"
    show thesis
    proof (cases "assertEnvironmentAllowed name (th_effect h) (th_target h) requested ?env (tx_linked ctx)")
      case (Inl e)
      show thesis by (rule refused) (use assms h Inr a Inl in \<open>auto simp: executeTool_def\<close>)
    next
      case allowed: (Inr u)
      show thesis
      proof (cases "case ?pending of None \<Rightarrow> False | Some (c, key) \<Rightarrow> \<not> sameChangeEnvironment key (fst ?env)")
        case True
        show thesis by (rule refused) (use assms h Inr a allowed True in \<open>auto simp: executeTool_def Let_def\<close>)
      next
        case False
        obtain db1 calls1 q where run: "run_handler w name input ctx (snd (snd ?env))
            (mark_progress (tool_marker (?pending \<noteq> None) name) (tx_ticketId ctx) db) calls = (db1, calls1, q)" by (metis prod_cases3)
        show thesis
        proof (rule ran [OF h _ _ _ run [THEN trans]])
          show "parse_input w name raw = Inr (input, requested)" using Inr a by simp
          show "assertEnvironmentAllowed name (th_effect h) (th_target h) requested ?env (tx_linked ctx) = Inr ()" using allowed by simp
          show "key = Some (fst ?env)" if "?pending = Some (c, key)" for c key using False that by (simp add: sameChangeEnvironment_def)
          show "(db1, calls1, q) = (db1, calls', q)"
            using assms h Inr a allowed False run by (auto simp: executeTool_def Let_def split: sum.splits option.splits)
          show "(case (?pending, q) of
              (Some (c, _), Inr output) \<Rightarrow> (case discharge w name ctx (ch_id c) output db1 of
                  Inl e \<Rightarrow> db' = db1 \<and> r = Inl e | Inr db2 \<Rightarrow> db' = db2 \<and> r = q)
            | _ \<Rightarrow> db' = db1 \<and> r = q)"
            using assms h Inr a allowed False run by (auto simp: executeTool_def Let_def split: sum.splits option.splits)
        qed
      qed
    qed
  qed
qed

text \<open>The shape of an input follows the tool.\<close>

lemma parse_input_shape:
  assumes "parse_input w name raw = Inr (input, requested)"
  shows "(\<exists>n s. input = In_pods n s) \<longleftrightarrow> name = ''cluster_read_pods''"
    and "(\<exists>n d. input = In_deployment n d) \<longleftrightarrow> name = ''cluster_read_deployment''"
    and "(\<exists>n d i m. input = In_patch n d i m) \<longleftrightarrow> name = ''cluster_patch_image''"
  using assms by (auto simp: parse_input_def map_sum_def split: if_splits sum.splits)

text \<open>
  C31. In a shadow environment no tool changes anything outside: whatever an agent calls, with whatever input, what leaves
  the server reads pods or deployments, reads the state of a device, or works on the server's own records.
\<close>

theorem shadow_only_reads:
  assumes "tx_environment ctx = Some (key, Mode_shadow, connection)" and "executeTool w name raw ctx db calls = (db', calls', r)"
  shows "\<exists>new. calls' = calls @ new \<and> (\<forall>c\<in>set new. only_reads c)"
proof (rule executeTool_cases [OF assms(2)], goal_cases)
  case (2 h input requested db1 q)
  have "\<not> (th_effect h = Eff_write \<and> th_target h = Tgt_environment)"
    using 2(3) assms(1) by (auto simp: assertEnvironmentAllowed_def with_default_def Let_def split: option.splits if_splits)
  then have name: "name \<noteq> ''cluster_patch_image'' \<and> name \<noteq> ''device_run_action'' \<and> name \<noteq> ''device_computer_use'' \<and>
      name \<noteq> ''device_propose_command''"
    using 2(1) by (auto simp: tools_def)
  have dev: "starts_with ''device_'' name \<Longrightarrow> name = ''device_read_state''"
    using 2(1) name by (auto simp: tools_def starts_with_def split: if_splits)
  show ?case
    by (rule run_handler_calls [OF 2(5), of only_reads]) (use parse_input_shape(3) [OF 2(2)] name dev in auto)
qed auto

text \<open>
  A tool call stays where its run is pinned: every call to a cluster goes over the connection of the resolved
  environment and to a managed namespace, and an environment that the agent names is this one, and linked.
\<close>

theorem calls_stay_in_environment:
  assumes "executeTool w name raw ctx db calls = (db', calls', r)"
  shows "(\<exists>new. calls' = calls @ new \<and>
      (\<forall>c\<in>set new. goes_to (wo_namespaces w) (snd (snd (with_default (tx_environment ctx) bootstrap_environment))) c)) \<and>
    (\<forall>input k. parse_input w name raw = Inr (input, Some k) \<longrightarrow> calls' \<noteq> calls \<or> db' \<noteq> db \<longrightarrow>
      k = fst (with_default (tx_environment ctx) bootstrap_environment) \<and> (tx_linked ctx = {} \<or> k \<in> tx_linked ctx))"
proof (rule executeTool_cases [OF assms], goal_cases)
  case (2 h input requested db1 q)
  have "\<exists>new. calls' = calls @ new \<and>
      (\<forall>c\<in>set new. goes_to (wo_namespaces w) (snd (snd (with_default (tx_environment ctx) bootstrap_environment))) c)"
    by (rule run_handler_calls [OF 2(5)]) auto
  moreover have "k = fst (with_default (tx_environment ctx) bootstrap_environment) \<and> (tx_linked ctx = {} \<or> k \<in> tx_linked ctx)"
    if "requested = Some k" for k
    using 2(3) that by (auto simp: assertEnvironmentAllowed_def Let_def split: prod.splits if_splits)
  ultimately show ?case using 2(2) by auto
qed auto


section \<open>Verification\<close>

lemma begin_image_rows:
  assumes "begin_image_change i now x db = Inr db'"
  shows "cd_changes db' = cd_changes db @ [automatic_change i now x]"
  using assms by (auto simp: begin_image_change_def insert_change_def add_transition_def split: if_splits)

lemma patch_completes_nothing:
  assumes "patchImageWithChange kube configured connection extra changeId clock runId ticketId stepId namespace name index newImage db calls =
      (db', calls', r)"
    and "c' \<in> set (cd_changes db')" and "ch_status c' = Cs_completed"
  shows "c' \<in> set (cd_changes db)"
proof (rule patchImageWithChange_cases [OF assms(1)], goal_cases)
  case (2 calls1 before previous x db1 p)
  have b: "c' \<in> set (cd_changes db1) \<Longrightarrow> c' \<in> set (cd_changes db)"
    using begin_image_rows [OF 2(4)] assms(3) by (auto simp: automatic_change_def)
  have "c' \<in> set (cd_changes db1)"
    using 2(6) assms(2,3) by (auto simp: fail_image_change_def update_changes_Inr add_transition_def)
  then show ?case by (rule b)
qed (use assms in auto)

lemma mark_progress_changes [simp]: "td_changes (mark_progress m t db) = td_changes db"
  by (simp add: mark_progress_def split: option.split)

lemma pending_change_Some:
  assumes "pending_change db name runId = Some (c, key)"
  shows "name = ''cluster_read_deployment''" and "c \<in> set (cd_changes (td_changes db))" and "awaits_verification runId c"
    and "\<exists>row\<in>set (td_runs db). tr_run row = runId \<and> tr_environmentKey row = key"
  using assms by (auto simp: pending_change_def dest!: first_row_SomeD split: if_splits option.splits)

lemma discharge_Inr:
  assumes "discharge w name ctx i output db = Inr db'"
  shows "cd_changes (td_changes db') = map (\<lambda>c. if ch_id c = i \<and> ch_status c = Cs_in_progress
      then verified_change (wo_clock w 0) (wo_stringify w output) c else c) (cd_changes (td_changes db))"
proof -
  let ?p = "\<lambda>c. ch_id c = i \<and> ch_status c = Cs_in_progress"
  obtain cdb b where c: "complete_change i (wo_clock w 0) (wo_stringify w output) (tx_runId ctx) (tx_stepId ctx) (td_changes db) = Inr (cdb, b)"
    using assms by (auto simp: discharge_def split: sum.splits)
  note e = complete_change_Inr [OF c, unfolded Let_def]
  show ?thesis
  proof (cases b)
    case True
    then show ?thesis using assms c e(1) by (auto simp: discharge_def)
  next
    case False
    then have "\<forall>c\<in>set (cd_changes (td_changes db)). \<not> ?p c" using e(2) by auto
    then show ?thesis using assms c False by (auto simp: discharge_def intro!: map_idI [symmetric])
  qed
qed

text \<open>
  C33. A tool call completes a change only by reading a deployment in the environment that the run was started in, and only a
  change that this run has in progress and has not verified yet.
\<close>

theorem completion_is_verified:
  assumes "executeTool w name raw ctx db calls = (db', calls', r)" and "distinct (map ch_id (cd_changes (td_changes db)))"
    and "c \<in> set (cd_changes (td_changes db))" and "c' \<in> set (cd_changes (td_changes db'))" and "ch_id c' = ch_id c"
    and "ch_status c \<noteq> Cs_completed" and "ch_status c' = Cs_completed"
  shows "name = ''cluster_read_deployment'' \<and> awaits_verification (tx_runId ctx) c \<and>
    (\<exists>row\<in>set (td_runs db). tr_run row = tx_runId ctx \<and>
      tr_environmentKey row = Some (fst (with_default (tx_environment ctx) bootstrap_environment))) \<and>
    (\<exists>n d ob. calls' = calls @ [Read_deployment (snd (snd (with_default (tx_environment ctx) bootstrap_environment))) n d] \<and>
      r = Inr (Out_deployment ob))"
proof (rule executeTool_cases [OF assms(1)], goal_cases)
  case (1 e)
  then show ?case using assms(2-7) by (auto simp: distinct_map dest: inj_onD)
next
  case (2 h input requested db1 q)
  let ?env = "with_default (tx_environment ctx) bootstrap_environment"
  have same: "x = c" if "x \<in> set (cd_changes (td_changes db))" "ch_id x = ch_id c" for x
    using assms(2,3) that by (auto simp: distinct_map dest: inj_onD)
  have not_old: "c' \<notin> set (cd_changes (td_changes db))" using same assms(5-7) by metis
  have handler: "c' \<notin> set (cd_changes (td_changes db1))"
  proof (cases input)
    case (In_patch n d i m)
    then show ?thesis
      using 2(5) not_old assms(7) patch_completes_nothing by (fastforce simp: run_handler_def split: prod.splits sum.splits)
  qed (use 2(5) not_old in \<open>auto simp: run_handler_def lift_outside_def split: prod.splits sum.splits if_splits\<close>)
  have differs: "db' \<noteq> db1" using handler assms(4) by auto
  obtain c0 key res where p: "pending_change db name (tx_runId ctx) = Some (c0, key)" "q = Inr res"
    "discharge w name ctx (ch_id c0) res db1 = Inr db'" "r = q"
  proof (cases "pending_change db name (tx_runId ctx)")
    case None
    then show thesis using 2(6) differs by simp
  next
    case pend: (Some pk)
    obtain c0 key where pk: "pk = (c0, key)" by fastforce
    show thesis
    proof (cases q)
      case (Inl e)
      then show thesis using 2(6) differs pend pk by simp
    next
      case res: (Inr res)
      show thesis
        by (rule that [of c0 key res]; cases "discharge w name ctx (ch_id c0) res db1") (use 2(6) differs pend pk res in simp_all)
    qed
  qed
  note pc = pending_change_Some [OF p(1)]
  obtain n d where input: "input = In_deployment n d" using parse_input_shape(2) [OF 2(2)] pc(1) by auto
  obtain calls1 q1 where rd: "readDeployment (wo_kube w) (wo_namespaces w) (snd (snd ?env)) n d calls = (calls1, q1)" by fastforce
  have out: "calls1 = calls'" "td_changes db1 = td_changes db" "\<exists>ob. q1 = Inr ob \<and> res = Out_deployment ob"
    using 2(5) rd input p(2) by (auto simp: run_handler_def lift_outside_def split: sum.splits)
  have "ch_id c0 = ch_id c"
  proof -
    obtain y where "y \<in> set (cd_changes (td_changes db))"
      "c' = (if ch_id y = ch_id c0 \<and> ch_status y = Cs_in_progress then verified_change (wo_clock w 0) (wo_stringify w res) y else y)"
      using assms(4) discharge_Inr [OF p(3)] out(2) by auto
    then show ?thesis using not_old assms(5) by (cases "ch_id y = ch_id c0 \<and> ch_status y = Cs_in_progress") auto
  qed
  then have "c0 = c" using same pc(2) by simp
  moreover have "key = Some (fst ?env)" using 2(4) p(1) by simp
  moreover have "calls' = calls @ [Read_deployment (snd (snd ?env)) n d]" using readDeployment_log [OF rd] out by auto
  ultimately show ?case using pc p(2,4) out(3) by auto
qed

text \<open>
  C29. The verification does not look at what was read: a read of any deployment of any managed namespace of the environment,
  whatever image it runs and whether or not it is ready, completes the change of the run as verified with success.
\<close>

theorem any_read_verifies:
  assumes "pending_change db ''cluster_read_deployment'' (tx_runId ctx) = Some (c, Some key)"
    and "tx_environment ctx = Some (key, mode, connection)" and "wo_deploymentInput w raw = Inr ((n, d), None)"
    and "managedNamespaces (wo_namespaces w) = [] \<or> n \<in> set (managedNamespaces (wo_namespaces w))"
    and "wo_kube w calls (Read_deployment connection n d) = Kube_deployment dep"
    and "distinct (map ch_id (cd_changes (td_changes db)))" and "change_checks (verified_change (wo_clock w 0) [] c)"
  shows "\<exists>db' c'. executeTool w ''cluster_read_deployment'' raw ctx db calls =
      (db', calls @ [Read_deployment connection n d], Inr (Out_deployment (deploymentObservation dep))) \<and>
    change_of (td_changes db') (ch_id c) = Some c' \<and> ch_status c' = Cs_completed \<and> ch_pirWasSuccessful c' = Some True"
proof -
  let ?name = "''cluster_read_deployment''"
  let ?db1 = "mark_progress (Some PM_verifying_fix) (tx_ticketId ctx) db"
  let ?out = "Out_deployment (deploymentObservation dep)"
  let ?v = "verified_change (wo_clock w 0) (wo_stringify w ?out)"
  note pc = pending_change_Some [OF assms(1)]
  have st: "ch_status c = Cs_in_progress" using pc(3) by (simp add: awaits_verification_def)
  have rd: "readDeployment (wo_kube w) (wo_namespaces w) connection n d calls =
      (calls @ [Read_deployment connection n d], Inr (deploymentObservation dep))"
    using assms(4,5) by (auto simp: readDeployment_def andThen_def assertManagedNamespace_def give_def ask_deployment_def)
  have run: "run_handler w ?name (In_deployment n d) ctx connection ?db1 calls = (?db1, calls @ [Read_deployment connection n d], Inr ?out)"
    by (simp add: run_handler_def lift_outside_def rd)
  have only: "x = c" if "x \<in> set (cd_changes (td_changes db))" "ch_id x = ch_id c" for x
    using assms(6) pc(2) that by (auto simp: distinct_map dest: inj_onD)
  have checks: "change_checks (?v c)" using assms(7) by (simp add: change_checks_def verified_change_def)
  have hit: "filter (\<lambda>x. ch_id x = ch_id c \<and> ch_status x = Cs_in_progress) (cd_changes (td_changes db)) \<noteq> []"
    using pc(2) st by (auto simp: filter_empty_conv)
  let ?p = "\<lambda>x. ch_id x = ch_id c \<and> ch_status x = Cs_in_progress"
  have up: "update_changes ?p ?v (td_changes db) =
      Inr (td_changes db\<lparr>cd_changes := map (\<lambda>x. if ?p x then ?v x else x) (cd_changes (td_changes db))\<rparr>,
        map ?v (filter ?p (cd_changes (td_changes db))))"
    unfolding update_changes_Inr using checks by (auto dest: only)
  obtain db2 where d2: "discharge w ?name ctx (ch_id c) ?out ?db1 = Inr db2"
    unfolding discharge_def complete_change_def mark_progress_changes up using hit by simp
  have co: "change_of (td_changes db) (ch_id c) = Some c"
  proof (cases "change_of (td_changes db) (ch_id c)")
    case None
    then show ?thesis using pc(2) by (auto simp: change_of_def first_row_None_iff)
  next
    case (Some y)
    then show ?thesis using first_row_SomeD [OF Some [unfolded change_of_def]] only [of y] by simp
  qed
  have rows: "cd_changes (td_changes db2) = map (\<lambda>x. if ch_id x = ch_id c then ?v x else x) (cd_changes (td_changes db))"
    unfolding discharge_Inr [OF d2] using st by (auto dest: only)
  have "change_of (td_changes db2) (ch_id c) = Some (?v c)" by (rule change_of_write [OF co _ rows]) simp
  moreover have "executeTool w ?name raw ctx db calls = (db2, calls @ [Read_deployment connection n d], Inr ?out)"
  proof -
    have "map_of tools ?name = Some (handler Eff_read Tgt_environment None)" by (simp add: tools_def)
    moreover have "parse_input w ?name raw = Inr (In_deployment n d, None)" using assms(3) by (simp add: parse_input_def)
    ultimately show ?thesis
      using assms(1,2) run d2
      by (simp add: executeTool_def assertEnvironmentAllowed_def with_default_def sameChangeEnvironment_def tool_marker_def)
  qed
  ultimately show ?thesis using st by (auto simp: verified_change_def)
qed


section \<open>Witnesses\<close>

definition prod_connection :: environment_connection where
  "prod_connection = \<lparr>ec_id = ''e1'', ec_key = ''prod'', ec_connectionType = ''in_cluster'', ec_contextName = None,
     ec_credentialEncrypted = None\<rparr>"

definition sample_deployment :: deployment where
  "sample_deployment = \<lparr>d_name = Some ''checkout'', d_containers = Some [(''main'', Some ''repo/checkout:v1'')],
     d_replicas = Some 2, d_readyReplicas = Some 2, d_updatedReplicas = None, d_conditions = None, d_revision = Some ''7''\<rparr>"

text \<open>A cluster whose deployments are all alike; an agent that patches one and reads another.\<close>

definition sample_world :: tool_world where
  "sample_world = \<lparr>wo_podsInput = (\<lambda>_. Inl ''invalid''), wo_deploymentInput = (\<lambda>_. Inr ((''demo'', ''billing''), None)),
     wo_patchInput = (\<lambda>_. Inr ((''demo'', ''checkout'', 0, ''repo/checkout:v2''), Some ''prod'')), wo_otherInput = (\<lambda>_ v. Inr (v, None)),
     wo_stringify = (\<lambda>_. ''{}''), wo_kube = (\<lambda>_ _. Kube_deployment sample_deployment), wo_namespaces = Some ''demo, prod'',
     wo_extra = (\<lambda>_. 0), wo_device = (\<lambda>_ _ v. Inr v), wo_other = (\<lambda>_ _ v. Inr v), wo_clock = (\<lambda>n. 1000 + int n), wo_uuid = ''a''\<rparr>"

definition sample_tools :: tools_db where
  "sample_tools = \<lparr>td_changes = no_changes, td_runs = [\<lparr>tr_run = ''r1'', tr_environmentKey = Some ''prod''\<rparr>],
     td_steps = [\<lparr>tp_id = ''s1'', tp_verifiesTool = None\<rparr>], td_tickets = [sample_ticket]\<rparr>"

definition sample_tool_context :: "environment_mode \<Rightarrow> tool_context" where
  "sample_tool_context mode = \<lparr>tx_runId = ''r1'', tx_ticketId = ''t1'', tx_stepId = ''s1'',
     tx_environment = Some (''prod'', mode, prod_connection), tx_linked = {''prod''}\<rparr>"

definition patch_call :: "environment_mode \<Rightarrow> tools_db \<times> outside_call list \<times> (tool_error + tool_output)" where
  "patch_call mode = executeTool sample_world ''cluster_patch_image'' JNull (sample_tool_context mode) sample_tools []"

lemma sample_patch_call:
  "case patch_call Mode_act of (db, calls, r) \<Rightarrow> length calls = 4 \<and> \<not> isl r \<and> map ch_status (cd_changes (td_changes db)) = [Cs_in_progress]"
  "case patch_call Mode_shadow of (db, calls, r) \<Rightarrow> calls = [] \<and> isl r \<and> cd_changes (td_changes db) = []"
  by code_simp+

lemma shadow_only_reads_witness:
  "case patch_call Mode_shadow of (db, calls, r) \<Rightarrow> \<exists>new. calls = [] @ new \<and> list_all only_reads new"
proof -
  obtain db calls r where p: "patch_call Mode_shadow = (db, calls, r)" by (metis prod_cases3)
  have "tx_environment (sample_tool_context Mode_shadow) = Some (''prod'', Mode_shadow, prod_connection)" by (simp add: sample_tool_context_def)
  then show ?thesis using shadow_only_reads [OF _ p [unfolded patch_call_def]] p by (simp add: list_all_iff)
qed

lemma calls_stay_in_environment_witness:
  "case patch_call Mode_act of (db, calls, r) \<Rightarrow> length calls = 4 \<and> list_all (goes_to (Some ''demo, prod'') prod_connection) calls"
proof -
  obtain db calls r where p: "patch_call Mode_act = (db, calls, r)" by (metis prod_cases3)
  have e: "snd (snd (with_default (tx_environment (sample_tool_context Mode_act)) bootstrap_environment)) = prod_connection"
    "wo_namespaces sample_world = Some ''demo, prod''"
    by (simp_all add: sample_tool_context_def with_default_def sample_world_def)
  show ?thesis
    using calls_stay_in_environment [OF p [unfolded patch_call_def], unfolded e] sample_patch_call(1) p by (auto simp: list_all_iff)
qed

definition patched_tools :: tools_db where
  "patched_tools = fst (patch_call Mode_act)"

definition verify_call :: "tools_db \<times> outside_call list \<times> (tool_error + tool_output)" where
  "verify_call = executeTool sample_world ''cluster_read_deployment'' JNull (sample_tool_context Mode_act) patched_tools []"

lemma patched_tools_facts:
  "distinct (map ch_id (cd_changes (td_changes patched_tools)))"
  "map_option (\<lambda>(c, key). (ch_id c, key, change_checks (verified_change 1000 [] c)))
     (pending_change patched_tools ''cluster_read_deployment'' ''r1'') = Some (''a'', Some ''prod'', True)"
  "map (\<lambda>c. (ch_id c, ch_status c)) (cd_changes (td_changes patched_tools)) = [(''a'', Cs_in_progress)]"
  "case verify_call of (db, calls, r) \<Rightarrow> map (\<lambda>c. (ch_id c, ch_status c)) (cd_changes (td_changes db)) = [(''a'', Cs_completed)]"
  by code_simp+

lemma completion_is_verified_witness:
  "case verify_call of (db, calls, r) \<Rightarrow> \<exists>n d. calls = [Read_deployment prod_connection n d]"
proof -
  obtain db calls r where v: "verify_call = (db, calls, r)" by (metis prod_cases3)
  obtain c where c: "cd_changes (td_changes patched_tools) = [c]" "ch_id c = ''a''" "ch_status c = Cs_in_progress"
    using patched_tools_facts(3) by (auto simp: map_eq_Cons_conv)
  obtain c' where c': "cd_changes (td_changes db) = [c']" "ch_id c' = ''a''" "ch_status c' = Cs_completed"
    using patched_tools_facts(4) unfolding v by (auto simp: map_eq_Cons_conv)
  have e: "snd (snd (with_default (tx_environment (sample_tool_context Mode_act)) bootstrap_environment)) = prod_connection"
    by (simp add: sample_tool_context_def with_default_def)
  show ?thesis
    unfolding v using completion_is_verified [OF v [unfolded verify_call_def] patched_tools_facts(1), of c c'] c c' e by auto
qed

lemma any_read_verifies_witness:
  "\<exists>db' c'. executeTool sample_world ''cluster_read_deployment'' JNull (sample_tool_context Mode_act) patched_tools [] =
      (db', [] @ [Read_deployment prod_connection ''demo'' ''billing''], Inr (Out_deployment (deploymentObservation sample_deployment))) \<and>
    change_of (td_changes db') ''a'' = Some c' \<and> ch_status c' = Cs_completed \<and> ch_pirWasSuccessful c' = Some True"
proof -
  obtain c where c: "pending_change patched_tools ''cluster_read_deployment'' ''r1'' = Some (c, Some ''prod'')" "ch_id c = ''a''"
    "change_checks (verified_change 1000 [] c)"
    using patched_tools_facts(2) by auto
  have m: "managedNamespaces (Some ''demo, prod'') = [''demo'', ''prod'']" by code_simp
  show ?thesis
    using any_read_verifies [of patched_tools "sample_tool_context Mode_act" c "''prod''" Mode_act prod_connection sample_world JNull
        "''demo''" "''billing''" "[]" sample_deployment, OF _ _ _ _ _ patched_tools_facts(1)] c m
    by (simp add: sample_tool_context_def sample_world_def)
qed

lemma sample_image_change:
  "case patchImageWithChange (wo_kube sample_world) None prod_connection (\<lambda>_. 0) ''a'' (wo_clock sample_world) ''r1'' ''t1'' ''s1''
      ''demo'' ''checkout'' 0 ''repo/checkout:v2'' no_changes [] of
    (db', calls, r) \<Rightarrow> \<not> isl r \<and> calls = [Read_deployment prod_connection ''demo'' ''checkout'',
      Patch_deployment prod_connection ''demo'' ''checkout'' 0 ''repo/checkout:v2'' True,
      Patch_deployment prod_connection ''demo'' ''checkout'' 0 ''repo/checkout:v2'' False,
      Read_deployment prod_connection ''demo'' ''checkout'']"
  by code_simp

lemma image_change_recorded_witness:
  "case patchImageWithChange (wo_kube sample_world) None prod_connection (\<lambda>_. 0) ''a'' (wo_clock sample_world) ''r1'' ''t1'' ''s1''
      ''demo'' ''checkout'' 0 ''repo/checkout:v2'' no_changes [] of
    (db', calls, r) \<Rightarrow> \<exists>ch. change_of db' ''a'' = Some ch \<and> ch_sourceRunId ch = Some ''r1'' \<and> ch_status ch = Cs_in_progress"
proof -
  obtain db' calls r where p: "patchImageWithChange (wo_kube sample_world) None prod_connection (\<lambda>_. 0) ''a'' (wo_clock sample_world)
      ''r1'' ''t1'' ''s1'' ''demo'' ''checkout'' 0 ''repo/checkout:v2'' no_changes [] = (db', calls, r)" by (metis prod_cases3)
  have "\<not> isl r" "Patch_deployment prod_connection ''demo'' ''checkout'' 0 ''repo/checkout:v2'' True \<in> set calls"
    using sample_image_change p by auto
  then show ?thesis
    using image_change_recorded [of _ _ _ _ _ _ _ _ _ _ _ _ _ _ "[]", OF _ _ no_changes_tracked] p by fastforce
qed

end
