(* ===== verification/Spec2Isabelle.thy ===== *)
theory Spec2Isabelle
  imports SlaSweep ConnectorRuntime DeviceFacts ToolSafety
begin

text \<open>A verification library of the service desk server.\<close>

end
